(* ===== verification/Prelude.thy ===== *)
theory Prelude
  imports Main
begin

text \<open>
  Shared vocabulary of the Manifeed development: exceptions as values of a sum type, the
  sequencing of fallible steps, the SQL and Python idioms on optional values, and the list
  facts that several components use.  Nothing here models a particular file of the program.
\<close>

section \<open>Exceptions as values\<close>

text \<open>
  The exceptions the modelled code raises or lets through.  The string is the message
  \<^verbatim>\<open>str(exception)\<close> where the code writes it into a result, otherwise a label of its origin.
\<close>

datatype py_exn =
    ValueError string
  | TypeError string
  | OverflowError string
  | ValidationError string
  | OtherException string

fun exn_text :: "py_exn \<Rightarrow> string" where
  "exn_text (ValueError m) = m"
| "exn_text (TypeError m) = m"
| "exn_text (OverflowError m) = m"
| "exn_text (ValidationError m) = m"
| "exn_text (OtherException m) = m"

named_theorems result_elims \<open>inversion of successful fallible computations\<close>

text \<open>A step that may raise, followed by the rest of the block.\<close>

definition and_then :: "'e + 'a \<Rightarrow> ('a \<Rightarrow> 'e + 'b) \<Rightarrow> 'e + 'b" where
  "and_then r f = (case r of Inl e \<Rightarrow> Inl e | Inr x \<Rightarrow> f x)"

lemma and_then_Inl [simp]: "and_then (Inl e) f = Inl e"
  by (simp add: and_then_def)

lemma and_then_Inr [simp]: "and_then (Inr x) f = f x"
  by (simp add: and_then_def)

lemma and_then_eq_Inr: "and_then r f = Inr y \<longleftrightarrow> (\<exists>x. r = Inr x \<and> f x = Inr y)"
  by (cases r) auto

lemma and_then_eq_Inl: "and_then r f = Inl e \<longleftrightarrow> r = Inl e \<or> (\<exists>x. r = Inr x \<and> f x = Inl e)"
  by (cases r) auto

lemma and_then_InrE [elim!, result_elims]:
  assumes "and_then r f = Inr y"
  obtains x where "r = Inr x" and "f x = Inr y"
  using assms by (auto simp: and_then_eq_Inr)

lemma and_then_cong [fundef_cong]:
  "r = r' \<Longrightarrow> (\<And>x. r' = Inr x \<Longrightarrow> f x = f' x) \<Longrightarrow> and_then r f = and_then r' f'"
  by (cases r') auto

text \<open>A list comprehension whose element expression may raise: the first error ends it.\<close>

fun map_ok :: "('a \<Rightarrow> 'e + 'b) \<Rightarrow> 'a list \<Rightarrow> 'e + 'b list" where
  "map_ok f [] = Inr []"
| "map_ok f (x # xs) = and_then (f x) (\<lambda>y. and_then (map_ok f xs) (\<lambda>ys. Inr (y # ys)))"

text \<open>A \<^verbatim>\<open>for\<close> loop that threads a state and may raise.\<close>

fun fold_ok :: "('a \<Rightarrow> 's \<Rightarrow> 'e + 's) \<Rightarrow> 'a list \<Rightarrow> 's \<Rightarrow> 'e + 's" where
  "fold_ok f [] s = Inr s"
| "fold_ok f (x # xs) s = and_then (f x s) (fold_ok f xs)"

lemma map_ok_length: "map_ok f xs = Inr ys \<Longrightarrow> length ys = length xs"
  by (induction xs arbitrary: ys) auto

lemma map_ok_set: "map_ok f xs = Inr ys \<Longrightarrow> y \<in> set ys \<Longrightarrow> \<exists>x\<in>set xs. f x = Inr y"
  by (induction xs arbitrary: ys) auto

lemma fold_ok_append:
  "fold_ok f (xs @ ys) s = and_then (fold_ok f xs s) (fold_ok f ys)"
  by (induction xs arbitrary: s) (auto simp: and_then_def split: sum.splits)

lemma fold_ok_map: "fold_ok f (map g xs) s = fold_ok (f \<circ> g) xs s"
  by (induction xs arbitrary: s) (auto simp: and_then_def split: sum.splits)

lemma fold_ok_cong: "(\<And>x s. x \<in> set xs \<Longrightarrow> f x s = g x s) \<Longrightarrow> fold_ok f xs s = fold_ok g xs s"
  by (induction xs arbitrary: s) (auto simp: and_then_def split: sum.splits)

lemma fold_ok_invariant:
  assumes "fold_ok f xs s = Inr t" and "I s"
    and "\<And>x u v. x \<in> set xs \<Longrightarrow> I u \<Longrightarrow> f x u = Inr v \<Longrightarrow> I v"
  shows "I t"
  using assms
proof (induction xs arbitrary: s)
  case Nil
  then show ?case by simp
next
  case (Cons x xs)
  from Cons.prems(1) obtain u where u: "f x s = Inr u" and t: "fold_ok f xs u = Inr t"
    by auto
  have "I u" using Cons.prems(3) [of x s u] Cons.prems(2) u by simp
  then show ?case by (rule Cons.IH [OF t]) (use Cons.prems(3) in auto)
qed

section \<open>Optional values\<close>

text \<open>SQL's two-argument \<^verbatim>\<open>COALESCE\<close>; Python's \<^verbatim>\<open>a or b\<close> where \<^verbatim>\<open>a\<close> is never falsy but None.\<close>

definition coalesce :: "'a option \<Rightarrow> 'a option \<Rightarrow> 'a option" where
  "coalesce a b = (case a of None \<Rightarrow> b | Some _ \<Rightarrow> a)"

lemma coalesce_simps [simp]:
  "coalesce None b = b" "coalesce (Some x) b = Some x" "coalesce a None = a"
  by (auto simp: coalesce_def split: option.splits)

lemma coalesce_assoc: "coalesce (coalesce a b) c = coalesce a (coalesce b c)"
  by (cases a) simp_all

section \<open>Lists\<close>

text \<open>Appending one value to the list stored under a key, a fresh key going to the end: the
  insertion-ordered \<^verbatim>\<open>defaultdict(list)\<close> of the grouping loops.\<close>

fun push_group :: "'k \<Rightarrow> 'a \<Rightarrow> ('k \<times> 'a list) list \<Rightarrow> ('k \<times> 'a list) list" where
  "push_group k x [] = [(k, [x])]"
| "push_group k x ((k', xs) # gs) =
     (if k' = k then (k', xs @ [x]) # gs else (k', xs) # push_group k x gs)"

lemma push_group_keys:
  "map fst (push_group k x gs) = (if k \<in> set (map fst gs) then map fst gs else map fst gs @ [k])"
  by (induction k x gs rule: push_group.induct) auto

lemma push_group_distinct [intro]:
  "distinct (map fst gs) \<Longrightarrow> distinct (map fst (push_group k x gs))"
  by (simp add: push_group_keys)

lemma push_group_members:
  assumes "distinct (map fst gs)"
  shows "(k', ys) \<in> set (push_group k x gs) \<longleftrightarrow>
    (if k' = k then (\<exists>xs. ys = xs @ [x] \<and> ((k, xs) \<in> set gs \<or> k \<notin> fst ` set gs \<and> xs = []))
     else (k', ys) \<in> set gs)"
  using assms
proof (induction k x gs rule: push_group.induct)
  case (1 k x)
  then show ?case by auto
next
  case (2 k x k0 xs gs)
  show ?case
  proof (cases "k0 = k")
    case True
    have "k \<notin> fst ` set gs" using 2(2) True by auto
    then have no: "\<And>zs. (k, zs) \<notin> set gs" by force
    show ?thesis using True no by auto
  next
    case False
    then show ?thesis using 2 by auto
  qed
qed

text \<open>Keep the first element of every key that is not in \<open>seen\<close>.\<close>

fun first_by :: "('a \<Rightarrow> 'k) \<Rightarrow> 'k set \<Rightarrow> 'a list \<Rightarrow> 'a list" where
  "first_by key seen [] = []"
| "first_by key seen (x # xs) =
     (if key x \<in> seen then first_by key seen xs
      else x # first_by key (insert (key x) seen) xs)"

lemma set_first_by: "set (first_by key seen xs) \<subseteq> set xs"
  by (induction key seen xs rule: first_by.induct) auto

lemma first_by_keys:
  "key ` set (first_by key seen xs) = key ` set xs - seen"
  by (induction key seen xs rule: first_by.induct) auto

lemma distinct_first_by: "distinct (map key (first_by key seen xs))"
proof (induction key seen xs rule: first_by.induct)
  case (1 key seen)
  then show ?case by simp
next
  case (2 key seen x xs)
  have "key x \<notin> key ` set (first_by key (insert (key x) seen) xs)"
    by (simp add: first_by_keys)
  then show ?case using 2 by auto
qed

lemma first_by_id:
  "distinct (map key xs) \<Longrightarrow> key ` set xs \<inter> seen = {} \<Longrightarrow> first_by key seen xs = xs"
  by (induction key seen xs rule: first_by.induct) auto

lemma filter_length_mono: "(\<And>x. P x \<Longrightarrow> Q x) \<Longrightarrow> length (filter P xs) \<le> length (filter Q xs)"
  by (induction xs) auto

lemma distinct_map_filter [intro]: "distinct (map f xs) \<Longrightarrow> distinct (map f (filter P xs))"
  by (simp add: distinct_map_filter)

lemma dropWhile_last: "xs \<noteq> [] \<Longrightarrow> \<not> P (last xs) \<Longrightarrow> dropWhile P xs \<noteq> [] \<and> last (dropWhile P xs) = last xs"
  by (induction xs) auto

lemma length_dropWhile_diff: "length (dropWhile P xs) - k \<le> length xs"
  by (meson diff_le_self le_trans length_dropWhile_le)

end
