(* ===== verification/Py_Datetime.thy ===== *)
theory Py_Datetime
  imports Prelude
begin

text \<open>
  Python's \<^verbatim>\<open>datetime\<close> as the program uses it: a wall-clock reading in microseconds since
  1970-01-01T00:00:00, the UTC offset when the value is aware, and the two conversions
  \<^verbatim>\<open>replace(tzinfo=timezone.utc)\<close> and \<^verbatim>\<open>astimezone(timezone.utc)\<close>, the second of which raises
  OverflowError when the shifted reading leaves years 1 to 9999.  Six modules of the program
  carry their own copy of the same normalisation; the locale \<open>utc_normalizer\<close> states what
  a copy promises and what its callers may conclude.
\<close>

section \<open>Values\<close>

record py_datetime =
  wall_us :: int
  utc_offset :: "int option"

definition us_per_day :: int where
  "us_per_day = 86400000000"

definition datetime_min_us :: int where
  "datetime_min_us = -62135596800000000"

definition datetime_max_us :: int where
  "datetime_max_us = 253402300799999999"

definition wall_in_range :: "int \<Rightarrow> bool" where
  "wall_in_range w = (datetime_min_us \<le> w \<and> w \<le> datetime_max_us)"

text \<open>The values Python can construct: reading in range, offset strictly within a day.\<close>

definition wf_datetime :: "py_datetime \<Rightarrow> bool" where
  "wf_datetime d = (wall_in_range (wall_us d) \<and>
     (case utc_offset d of None \<Rightarrow> True | Some off \<Rightarrow> - us_per_day < off \<and> off < us_per_day))"

text \<open>The point in time, a naive value being read as UTC.\<close>

definition instant :: "py_datetime \<Rightarrow> int" where
  "instant d = wall_us d - (case utc_offset d of None \<Rightarrow> 0 | Some off \<Rightarrow> off)"

definition is_utc :: "py_datetime \<Rightarrow> bool" where
  "is_utc d = (utc_offset d = Some 0)"

definition py_replace_utc :: "py_datetime \<Rightarrow> py_datetime" where
  "py_replace_utc d = d\<lparr>utc_offset := Some 0\<rparr>"

definition py_astimezone_utc :: "int \<Rightarrow> py_datetime \<Rightarrow> py_exn + py_datetime" where
  "py_astimezone_utc off d =
     (if wall_in_range (wall_us d - off)
      then Inr (d\<lparr>wall_us := wall_us d - off, utc_offset := Some 0\<rparr>)
      else Inl (OverflowError ''date value out of range''))"

section \<open>Calendar dates\<close>

text \<open>\<^verbatim>\<open>datetime(y, m, d, tzinfo=timezone.utc)\<close>, by the day count of Python's datetime module.\<close>

definition is_leap :: "int \<Rightarrow> bool" where
  "is_leap y = (y mod 4 = 0 \<and> (y mod 100 \<noteq> 0 \<or> y mod 400 = 0))"

definition days_before_year :: "int \<Rightarrow> int" where
  "days_before_year y = (let p = y - 1 in p * 365 + p div 4 - p div 100 + p div 400)"

definition days_before_month :: "int \<Rightarrow> nat \<Rightarrow> int" where
  "days_before_month y m =
     [0, 0, 31, 59, 90, 120, 151, 181, 212, 243, 273, 304, 334] ! m
       + (if 2 < m \<and> is_leap y then 1 else 0)"

definition ymd_ordinal :: "int \<Rightarrow> nat \<Rightarrow> int \<Rightarrow> int" where
  "ymd_ordinal y m d = days_before_year y + days_before_month y m + d"

definition utc_date :: "int \<Rightarrow> nat \<Rightarrow> int \<Rightarrow> py_datetime" where
  "utc_date y m d =
     \<lparr>wall_us = (ymd_ordinal y m d - 719163) * us_per_day, utc_offset = Some 0\<rparr>"

lemma utc_date_epoch: "wall_us (utc_date 1970 1 1) = 0"
  by (simp add: utc_date_def ymd_ordinal_def days_before_year_def days_before_month_def)

lemma utc_date_is_utc [simp]: "is_utc (utc_date y m d)"
  by (simp add: is_utc_def utc_date_def)

lemma datetime_range_ends:
  "datetime_min_us = wall_us (utc_date 1 1 1)"
  "datetime_max_us = wall_us (utc_date 9999 12 31) + us_per_day - 1"
  by (simp_all add: datetime_min_us_def datetime_max_us_def utc_date_def ymd_ordinal_def
      days_before_year_def days_before_month_def us_per_day_def is_leap_def)

lemma instant_utc: "is_utc d \<Longrightarrow> instant d = wall_us d"
  by (simp add: is_utc_def instant_def)

lemma utc_eq_iff: "is_utc a \<Longrightarrow> is_utc b \<Longrightarrow> a = b \<longleftrightarrow> instant a = instant (b :: py_datetime)"
  by (cases a; cases b) (auto simp: is_utc_def instant_def)

section \<open>Normalisation to UTC\<close>

text \<open>
  The contract of a \<^verbatim>\<open>_normalize_datetime\<close>: a naive value is declared to be UTC, an aware one is
  converted.
\<close>

locale utc_normalizer =
  fixes norm :: "py_datetime \<Rightarrow> py_exn + py_datetime"
  assumes norm_naive: "utc_offset d = None \<Longrightarrow> norm d = Inr (py_replace_utc d)"
    and norm_aware: "utc_offset d = Some off \<Longrightarrow> norm d = py_astimezone_utc off d"
begin

lemma norm_is_utc: "norm d = Inr d' \<Longrightarrow> is_utc d'"
  by (cases "utc_offset d")
    (auto simp: norm_naive norm_aware py_replace_utc_def py_astimezone_utc_def is_utc_def
      split: if_splits)

lemma norm_instant: "norm d = Inr d' \<Longrightarrow> instant d' = instant d"
  by (cases "utc_offset d")
    (auto simp: norm_naive norm_aware py_replace_utc_def py_astimezone_utc_def instant_def
      split: if_splits)

lemma norm_wf: "wf_datetime d \<Longrightarrow> norm d = Inr d' \<Longrightarrow> wf_datetime d'"
  by (cases "utc_offset d")
    (auto simp: norm_naive norm_aware py_replace_utc_def py_astimezone_utc_def wf_datetime_def
      us_per_day_def split: if_splits)

lemma norm_utc_id: "is_utc d \<Longrightarrow> wall_in_range (wall_us d) \<Longrightarrow> norm d = Inr d"
  by (simp add: is_utc_def norm_aware py_astimezone_utc_def)

lemma norm_idem: "wf_datetime d \<Longrightarrow> norm d = Inr d' \<Longrightarrow> norm d' = Inr d'"
  using norm_is_utc [of d d'] norm_wf [of d d'] norm_utc_id [of d']
  by (simp add: wf_datetime_def)

lemma norm_raises_iff:
  "norm d = Inl e \<longleftrightarrow> e = OverflowError ''date value out of range'' \<and>
     (\<exists>off. utc_offset d = Some off \<and> \<not> wall_in_range (wall_us d - off))"
  by (cases "utc_offset d") (auto simp: norm_naive norm_aware py_astimezone_utc_def)

lemma norm_raises_at_edge:
  assumes "wf_datetime d" and "norm d = Inl e"
  shows "wall_us d < datetime_min_us + us_per_day \<or> datetime_max_us - us_per_day < wall_us d"
  using assms
  by (auto simp: norm_raises_iff wf_datetime_def wall_in_range_def us_per_day_def)

lemma norm_total: "\<not> (\<exists>e. norm d = Inl e) \<Longrightarrow> \<exists>d'. norm d = Inr d'"
  by (cases "norm d") auto

text \<open>Two values with the same normal form are the same instant, and conversely.\<close>

lemma norm_eq_iff:
  "norm a = Inr a' \<Longrightarrow> norm b = Inr b' \<Longrightarrow> a' = b' \<longleftrightarrow> instant a = instant b"
  using norm_is_utc [of a a'] norm_is_utc [of b b'] norm_instant [of a a'] norm_instant [of b b']
  by (simp add: utc_eq_iff)

end

text \<open>The normalisation itself, as every module's copy is written.\<close>

definition to_utc :: "py_datetime \<Rightarrow> py_exn + py_datetime" where
  "to_utc d = (case utc_offset d of
     None \<Rightarrow> Inr (py_replace_utc d) | Some off \<Rightarrow> py_astimezone_utc off d)"

lemma to_utc_optional:
  "(case utc_offset d of None \<Rightarrow> Inr (Some (py_replace_utc d))
    | Some off \<Rightarrow> and_then (py_astimezone_utc off d) (\<lambda>u. Inr (Some u)))
   = and_then (to_utc d) (\<lambda>u. Inr (Some u))"
  by (cases "utc_offset d") (simp_all add: to_utc_def)

interpretation to_utc: utc_normalizer to_utc
  by unfold_locales (simp_all add: to_utc_def)

end
