(* ===== verification/Py_Text.thy ===== *)
theory Py_Text
  imports Prelude
begin

text \<open>
  The operations of Python's \<^verbatim>\<open>str\<close> that the program uses, on strings whose code points
  are U+0000 to U+00FF (a \<open>char\<close> of the library is one such code point): \<^verbatim>\<open>strip\<close>,
  \<^verbatim>\<open>lower\<close>, \<^verbatim>\<open>split\<close>, \<^verbatim>\<open>int(...)\<close>, \<^verbatim>\<open>str(n)\<close> and the regular expressions over
  white space.  The character classes below are those of Python 3.11 on that range.
\<close>

section \<open>Characters\<close>

definition code_point :: "char \<Rightarrow> nat" where
  "code_point c = of_char c"

text \<open>\<^verbatim>\<open>str.isspace\<close>, and \<^verbatim>\<open>\s\<close> of \<^verbatim>\<open>re\<close>.\<close>

definition py_isspace :: "char \<Rightarrow> bool" where
  "py_isspace c = (let n = code_point c in
     (9 \<le> n \<and> n \<le> 13) \<or> (28 \<le> n \<and> n \<le> 32) \<or> n = 133 \<or> n = 160)"

text \<open>\<^verbatim>\<open>\w\<close> of \<^verbatim>\<open>re\<close>: letters, digits, the numeric signs of Latin-1, and the underscore.\<close>

definition py_isword :: "char \<Rightarrow> bool" where
  "py_isword c = (let n = code_point c in
     (48 \<le> n \<and> n \<le> 57) \<or> (65 \<le> n \<and> n \<le> 90) \<or> n = 95 \<or> (97 \<le> n \<and> n \<le> 122) \<or>
     n = 170 \<or> n = 178 \<or> n = 179 \<or> n = 181 \<or> (185 \<le> n \<and> n \<le> 186) \<or> (188 \<le> n \<and> n \<le> 190) \<or>
     (192 \<le> n \<and> n \<noteq> 215 \<and> n \<noteq> 247))"

definition py_isdigit :: "char \<Rightarrow> bool" where
  "py_isdigit c = (48 \<le> code_point c \<and> code_point c \<le> 57)"

definition py_lower_char :: "char \<Rightarrow> char" where
  "py_lower_char c = (let n = code_point c in
     if (65 \<le> n \<and> n \<le> 90) \<or> (192 \<le> n \<and> n \<le> 222 \<and> n \<noteq> 215) then char_of (n + 32) else c)"

definition py_lower :: "string \<Rightarrow> string" where
  "py_lower s = map py_lower_char s"

lemma code_point_lt [simp]: "code_point c < 256"
  by (simp add: code_point_def)

lemma code_point_char_of [simp]: "code_point (char_of n) = n mod 256"
  by (simp add: code_point_def)

lemma py_isspace_lower_char [simp]: "py_isspace (py_lower_char c) = py_isspace c"
  by (auto simp: py_isspace_def py_lower_char_def Let_def)

lemma py_lower_char_idem [simp]: "py_lower_char (py_lower_char c) = py_lower_char c"
  by (auto simp: py_lower_char_def Let_def)

lemma lower_char_small:
  assumes "code_point (py_lower_char c) < 97"
  shows "py_lower_char c = c"
proof -
  let ?n = "code_point c"
  have "\<not> (65 \<le> ?n \<and> ?n \<le> 90 \<or> 192 \<le> ?n \<and> ?n \<le> 222 \<and> ?n \<noteq> 215)"
  proof
    assume up: "65 \<le> ?n \<and> ?n \<le> 90 \<or> 192 \<le> ?n \<and> ?n \<le> 222 \<and> ?n \<noteq> 215"
    then have "py_lower_char c = char_of (?n + 32)" unfolding py_lower_char_def Let_def by (rule if_P)
    then have "(?n + 32) mod 256 < 97" using assms by simp
    moreover have "?n < 224" using up by linarith
    ultimately have "?n + 32 < 97" by simp
    then show False using up by linarith
  qed
  then show ?thesis unfolding py_lower_char_def Let_def by (rule if_not_P)
qed

lemma lower_char_eq: "py_lower_char c = d \<Longrightarrow> code_point d < 97 \<Longrightarrow> c = d"
  using lower_char_small [of c] by metis

lemma py_lower_idem [simp]: "py_lower (py_lower s) = py_lower s"
  by (simp add: py_lower_def)

lemma length_py_lower [simp]: "length (py_lower s) = length s"
  by (simp add: py_lower_def)

lemma py_lower_Nil_iff [simp]: "py_lower s = [] \<longleftrightarrow> s = []"
  by (simp add: py_lower_def)

lemma py_lower_append [simp]: "py_lower (s @ t) = py_lower s @ py_lower t"
  by (simp add: py_lower_def)

lemma py_lower_take: "take n (py_lower s) = py_lower (take n s)"
  by (simp add: py_lower_def take_map)

lemma py_isspace_digit: "py_isdigit c \<Longrightarrow> \<not> py_isspace c"
  by (auto simp: py_isdigit_def py_isspace_def Let_def)

section \<open>Stripping\<close>

definition py_lstrip :: "string \<Rightarrow> string" where
  "py_lstrip s = dropWhile py_isspace s"

definition py_rstrip :: "string \<Rightarrow> string" where
  "py_rstrip s = rev (dropWhile py_isspace (rev s))"

definition py_strip :: "string \<Rightarrow> string" where
  "py_strip s = py_rstrip (py_lstrip s)"

text \<open>A string without white space at either end.\<close>

definition stripped :: "string \<Rightarrow> bool" where
  "stripped s = (s = [] \<or> (\<not> py_isspace (hd s) \<and> \<not> py_isspace (last s)))"

lemma py_lstrip_hd: "py_lstrip s \<noteq> [] \<Longrightarrow> \<not> py_isspace (hd (py_lstrip s))"
  unfolding py_lstrip_def by (rule hd_dropWhile)

lemma py_rstrip_last: "py_rstrip s \<noteq> [] \<Longrightarrow> \<not> py_isspace (last (py_rstrip s))"
  unfolding py_rstrip_def by (simp add: last_rev hd_dropWhile)

lemma py_rstrip_prefix: "\<exists>ws. s = py_rstrip s @ ws \<and> (\<forall>c\<in>set ws. py_isspace c)"
proof -
  have "rev s = takeWhile py_isspace (rev s) @ dropWhile py_isspace (rev s)" by simp
  then have "s = py_rstrip s @ rev (takeWhile py_isspace (rev s))"
    unfolding py_rstrip_def by (metis rev_append rev_rev_ident)
  moreover have "\<forall>c\<in>set (rev (takeWhile py_isspace (rev s))). py_isspace c"
    by (auto dest: set_takeWhileD)
  ultimately show ?thesis by blast
qed

lemma py_rstrip_hd: "py_rstrip s \<noteq> [] \<Longrightarrow> hd (py_rstrip s) = hd s"
  using py_rstrip_prefix [of s] by (metis hd_append2)

lemma stripped_py_strip [simp]: "stripped (py_strip s)"
proof (cases "py_strip s = []")
  case True
  then show ?thesis by (simp add: stripped_def)
next
  case False
  then have ne: "py_lstrip s \<noteq> []" by (auto simp: py_strip_def py_rstrip_def)
  have "hd (py_strip s) = hd (py_lstrip s)"
    using False unfolding py_strip_def by (rule py_rstrip_hd)
  moreover have "\<not> py_isspace (last (py_strip s))"
    using False unfolding py_strip_def by (rule py_rstrip_last)
  ultimately show ?thesis using py_lstrip_hd [OF ne] by (simp add: stripped_def)
qed

lemma stripped_strip_id: "stripped s \<Longrightarrow> py_strip s = s"
proof (cases s)
  case Nil
  then show ?thesis by (simp add: py_strip_def py_rstrip_def py_lstrip_def)
next
  case (Cons c cs)
  assume st: "stripped s"
  with Cons have "py_lstrip s = s" by (simp add: stripped_def py_lstrip_def)
  moreover have "py_rstrip s = s"
  proof -
    have "rev s \<noteq> []" "hd (rev s) = last s" using Cons by (simp_all add: hd_rev)
    then have "dropWhile py_isspace (rev s) = rev s"
      using st Cons by (cases "rev s") (auto simp: stripped_def)
    then show ?thesis by (simp add: py_rstrip_def)
  qed
  ultimately show ?thesis by (simp add: py_strip_def)
qed

lemma py_strip_idem [simp]: "py_strip (py_strip s) = py_strip s"
  by (simp add: stripped_strip_id)

lemma py_strip_Nil_iff: "py_strip s = [] \<longleftrightarrow> (\<forall>c\<in>set s. py_isspace c)"
proof -
  have "py_strip s = [] \<longleftrightarrow> (\<forall>c\<in>set (py_lstrip s). py_isspace c)"
    by (simp add: py_strip_def py_rstrip_def dropWhile_eq_Nil_conv)
  also have "\<dots> \<longleftrightarrow> (\<forall>c\<in>set s. py_isspace c)"
    unfolding py_lstrip_def by (induction s) auto
  finally show ?thesis .
qed

lemma set_py_strip: "set (py_strip s) \<subseteq> set s"
  unfolding py_strip_def py_rstrip_def py_lstrip_def
  by (auto dest!: set_dropWhileD)

lemma length_py_strip: "length (py_strip s) \<le> length s"
  unfolding py_strip_def py_rstrip_def py_lstrip_def
  by (metis length_dropWhile_le length_rev order_trans)

lemma dropWhile_py_lower: "dropWhile py_isspace (py_lower s) = py_lower (dropWhile py_isspace s)"
  by (induction s) (auto simp: py_lower_def)

lemma rev_py_lower: "rev (py_lower s) = py_lower (rev s)"
  by (simp add: py_lower_def rev_map)

lemma py_strip_lower: "py_strip (py_lower s) = py_lower (py_strip s)"
  by (simp add: py_strip_def py_rstrip_def py_lstrip_def dropWhile_py_lower rev_py_lower)

lemma stripped_lower [simp]: "stripped (py_lower s) = stripped s"
  by (cases "s = []") (auto simp: stripped_def py_lower_def hd_map last_map)

text \<open>\<^verbatim>\<open>cleaned = value.strip(); cleaned or None\<close>.\<close>

definition strip_or_none :: "string \<Rightarrow> string option" where
  "strip_or_none s = (let cleaned = py_strip s in if cleaned = [] then None else Some cleaned)"

lemma strip_or_none_Some: "strip_or_none s = Some t \<longleftrightarrow> t = py_strip s \<and> t \<noteq> []"
  by (auto simp: strip_or_none_def Let_def)

lemma strip_or_none_None: "strip_or_none s = None \<longleftrightarrow> (\<forall>c\<in>set s. py_isspace c)"
  by (simp add: strip_or_none_def Let_def flip: py_strip_Nil_iff)

section \<open>White space inside a string\<close>

text \<open>\<^verbatim>\<open>str.split()\<close>: the maximal runs of other characters.\<close>

lemma length_py_lstrip: "length (py_lstrip s) \<le> length s"
  by (simp add: py_lstrip_def length_dropWhile_le)

function py_words :: "string \<Rightarrow> string list" where
  "py_words s =
     (case py_lstrip s of
        [] \<Rightarrow> []
      | c # cs \<Rightarrow> takeWhile (\<lambda>d. \<not> py_isspace d) (c # cs)
                  # py_words (dropWhile (\<lambda>d. \<not> py_isspace d) (c # cs)))"
  by pat_completeness auto

termination
proof (relation "measure length")
  fix s c cs
  assume eq: "py_lstrip s = c # cs"
  then have nsp: "\<not> py_isspace c" using py_lstrip_hd [of s] by simp
  have "length (dropWhile (\<lambda>d. \<not> py_isspace d) (c # cs)) \<le> length cs"
    using nsp by (simp add: length_dropWhile_le)
  also have "\<dots> < length (py_lstrip s)" using eq by simp
  also have "\<dots> \<le> length s" by (rule length_py_lstrip)
  finally show "(dropWhile (\<lambda>d. \<not> py_isspace d) (c # cs), s) \<in> measure length" by simp
qed simp

declare py_words.simps [simp del]

definition solid :: "string \<Rightarrow> bool" where
  "solid w = (w \<noteq> [] \<and> (\<forall>c\<in>set w. \<not> py_isspace c))"

lemma py_words_solid: "w \<in> set (py_words s) \<Longrightarrow> solid w"
proof (induction s rule: py_words.induct)
  case (1 s)
  show ?case
  proof (cases "py_lstrip s")
    case Nil
    with "1.prems" show ?thesis by (simp add: py_words.simps [of s])
  next
    case (Cons c cs)
    then have nsp: "\<not> py_isspace c" using py_lstrip_hd [of s] by simp
    have "w = takeWhile (\<lambda>d. \<not> py_isspace d) (c # cs) \<or>
      w \<in> set (py_words (dropWhile (\<lambda>d. \<not> py_isspace d) (c # cs)))"
      using "1.prems" Cons by (simp add: py_words.simps [of s])
    then show ?thesis
    proof
      assume w: "w = takeWhile (\<lambda>d. \<not> py_isspace d) (c # cs)"
      then have "\<forall>d\<in>set w. \<not> py_isspace d" by (auto dest: set_takeWhileD)
      moreover have "w \<noteq> []" using w nsp by simp
      ultimately show ?thesis by (simp add: solid_def)
    next
      assume "w \<in> set (py_words (dropWhile (\<lambda>d. \<not> py_isspace d) (c # cs)))"
      then show ?thesis by (rule "1.IH" [OF Cons])
    qed
  qed
qed

text \<open>\<^verbatim>\<open>sep.join(words)\<close>.\<close>

fun py_join :: "string \<Rightarrow> string list \<Rightarrow> string" where
  "py_join sep [] = []"
| "py_join sep [w] = w"
| "py_join sep (w # v # ws) = w @ sep @ py_join sep (v # ws)"

lemma stripped_join_words:
  "\<forall>w\<in>set ws. solid w \<Longrightarrow> stripped (py_join sep ws)"
proof (induction sep ws rule: py_join.induct)
  case (1 sep)
  then show ?case by (simp add: stripped_def)
next
  case (2 sep w)
  then show ?case by (simp add: stripped_def solid_def)
next
  case (3 sep w v ws)
  have ne: "py_join sep (v # ws) \<noteq> []"
    using "3.prems" by (cases ws) (auto simp: solid_def)
  have "\<not> py_isspace (last (py_join sep (v # ws)))"
    using "3.IH" "3.prems" ne by (auto simp: stripped_def)
  then show ?case using "3.prems" ne by (auto simp: stripped_def solid_def)
qed

text \<open>\<^verbatim>\<open>re.sub(r"\s+", sep, s)\<close>.\<close>

fun sub_spaces_from :: "bool \<Rightarrow> string \<Rightarrow> string \<Rightarrow> string" where
  "sub_spaces_from in_run sep [] = []"
| "sub_spaces_from in_run sep (c # cs) =
     (if py_isspace c then (if in_run then [] else sep) @ sub_spaces_from True sep cs
      else c # sub_spaces_from False sep cs)"

definition sub_spaces :: "string \<Rightarrow> string \<Rightarrow> string" where
  "sub_spaces sep s = sub_spaces_from False sep s"

lemma sub_spaces_from_no_space:
  "\<forall>c\<in>set sep. \<not> py_isspace c \<Longrightarrow> c \<in> set (sub_spaces_from b sep s) \<Longrightarrow> \<not> py_isspace c"
  by (induction b sep s rule: sub_spaces_from.induct) (auto split: if_splits)

lemma sub_spaces_from_id:
  "\<forall>c\<in>set s. \<not> py_isspace c \<Longrightarrow> sub_spaces_from b sep s = s"
  by (induction b sep s rule: sub_spaces_from.induct) auto

section \<open>Numbers\<close>

definition digit_char :: "nat \<Rightarrow> char" where
  "digit_char d = char_of (48 + d)"

definition digit_value :: "char \<Rightarrow> nat" where
  "digit_value c = code_point c - 48"

definition digits_value :: "string \<Rightarrow> nat" where
  "digits_value ds = foldl (\<lambda>n c. 10 * n + digit_value c) 0 ds"

text \<open>\<^verbatim>\<open>str(n)\<close> of an integer.\<close>

fun str_nat :: "nat \<Rightarrow> string" where
  "str_nat n = (if n < 10 then [digit_char n] else str_nat (n div 10) @ [digit_char (n mod 10)])"

declare str_nat.simps [simp del]

definition str_int :: "int \<Rightarrow> string" where
  "str_int i = (if i < 0 then ''-'' @ str_nat (nat (- i)) else str_nat (nat i))"

lemma digit_value_char [simp]: "d < 10 \<Longrightarrow> digit_value (digit_char d) = d"
  by (simp add: digit_value_def digit_char_def)

lemma py_isdigit_digit_char [simp]: "d < 10 \<Longrightarrow> py_isdigit (digit_char d)"
  by (simp add: py_isdigit_def digit_char_def)

lemma digits_value_snoc [simp]:
  "digits_value (ds @ [c]) = 10 * digits_value ds + digit_value c"
  by (simp add: digits_value_def)

lemma digits_value_str_nat [simp]: "digits_value (str_nat n) = n"
proof (induction n rule: str_nat.induct)
  case (1 n)
  show ?case
  proof (cases "n < 10")
    case True
    then show ?thesis by (simp add: str_nat.simps [of n] digits_value_def)
  next
    case False
    then have "digits_value (str_nat n) = 10 * (n div 10) + n mod 10"
      using 1 by (simp add: str_nat.simps [of n])
    then show ?thesis by simp
  qed
qed

lemma str_nat_inject [simp]: "str_nat m = str_nat n \<longleftrightarrow> m = n"
  by (metis digits_value_str_nat)

lemma str_nat_digits: "c \<in> set (str_nat n) \<Longrightarrow> py_isdigit c"
proof (induction n rule: str_nat.induct)
  case (1 n)
  then show ?case by (cases "n < 10") (auto simp: str_nat.simps [of n])
qed

lemma str_nat_nonempty [simp]: "str_nat n \<noteq> []"
  by (subst str_nat.simps) simp

lemma minus_not_digit [simp]: "\<not> py_isdigit CHR ''-''"
  by (simp add: py_isdigit_def code_point_def)

lemma str_int_inject [simp]: "str_int i = str_int j \<longleftrightarrow> i = j"
proof -
  have hd_digit: "py_isdigit (hd (str_nat n))" for n
    by (rule str_nat_digits [of _ n]) simp
  have no_minus: "str_nat n \<noteq> CHR ''-'' # s" for n s
    using hd_digit [of n] by (metis list.sel(1) minus_not_digit)
  have no_minus': "CHR ''-'' # s \<noteq> str_nat n" for n s
    using no_minus [of n s] by metis
  show ?thesis
    by (auto simp: str_int_def no_minus no_minus' split: if_splits)
qed

text \<open>
  \<^verbatim>\<open>int(s)\<close>: white space around the literal (without U+001C to U+001F, which the number
  parser does not skip), an optional sign, digits with single underscores between them, and
  the interpreter's limit of 4300 digits.
\<close>

definition int_space :: "char \<Rightarrow> bool" where
  "int_space c = (py_isspace c \<and> \<not> (28 \<le> code_point c \<and> code_point c \<le> 31))"

fun digit_groups :: "string \<Rightarrow> bool" where
  "digit_groups [] = False"
| "digit_groups [c] = py_isdigit c"
| "digit_groups (c # d # cs) =
     (py_isdigit c \<and> (if d = CHR ''_'' then digit_groups cs else digit_groups (d # cs)))"

definition int_max_str_digits :: nat where
  "int_max_str_digits = 4300"

definition digit_limit_error :: "nat \<Rightarrow> py_exn" where
  "digit_limit_error n = ValueError (''Exceeds the limit (4300 digits) for integer string conversion: value has ''
     @ str_nat n @ '' digits; use sys.set_int_max_str_digits() to increase the limit'')"

definition py_int_digits :: "string \<Rightarrow> py_exn + nat" where
  "py_int_digits ds = (if int_max_str_digits < length ds then Inl (digit_limit_error (length ds))
     else Inr (digits_value ds))"

definition py_int :: "string \<Rightarrow> py_exn + int" where
  "py_int s =
     (let t = rev (dropWhile int_space (rev (dropWhile int_space s)));
          neg = (t \<noteq> [] \<and> hd t = CHR ''-'');
          body = (if t \<noteq> [] \<and> (hd t = CHR ''-'' \<or> hd t = CHR ''+'') then tl t else t)
      in if digit_groups body
         then and_then (py_int_digits (filter py_isdigit body))
                (\<lambda>n. Inr (if neg then - int n else int n))
         else Inl (ValueError ''invalid literal for int() with base 10''))"

lemma digit_groups_digits: "ds \<noteq> [] \<Longrightarrow> \<forall>c\<in>set ds. py_isdigit c \<Longrightarrow> digit_groups ds"
proof (induction ds rule: digit_groups.induct)
  case (3 c d cs)
  have "d \<noteq> CHR ''_''"
  proof
    assume "d = CHR ''_''"
    then have "\<not> py_isdigit d" by (simp add: py_isdigit_def code_point_def)
    then show False using "3.prems" by simp
  qed
  then show ?case using 3 by simp
qed simp_all

lemma int_space_digit: "py_isdigit c \<Longrightarrow> \<not> int_space c"
  by (simp add: int_space_def py_isspace_digit)

lemma dropWhile_digits: "\<forall>c\<in>set ds. py_isdigit c \<Longrightarrow> dropWhile int_space ds = ds"
  by (cases ds) (auto simp: int_space_digit)

lemma py_int_digit_string:
  assumes "ds \<noteq> []" and "\<forall>c\<in>set ds. py_isdigit c"
  shows "py_int ds = and_then (py_int_digits ds) (\<lambda>n. Inr (int n))"
proof -
  have "py_isdigit (hd ds)" using assms by simp
  then have hd: "hd ds \<noteq> CHR ''-''" "hd ds \<noteq> CHR ''+''"
    by (auto simp: py_isdigit_def code_point_def)
  have "filter py_isdigit ds = ds" using assms(2) by (simp add: filter_id_conv)
  then show ?thesis
    using assms hd
    by (simp add: py_int_def Let_def dropWhile_digits digit_groups_digits)
qed

text \<open>\<^verbatim>\<open>int(str(n))\<close> is \<open>n\<close> below the digit limit.\<close>

lemma py_int_str_nat:
  "length (str_nat n) \<le> int_max_str_digits \<Longrightarrow> py_int (str_nat n) = Inr (int n)"
  using py_int_digit_string [of "str_nat n"] str_nat_digits [of _ n]
  by (auto simp: py_int_digits_def)

section \<open>Substrings\<close>

definition starts_with :: "string \<Rightarrow> string \<Rightarrow> bool" where
  "starts_with p s = (take (length p) s = p)"

definition ends_with :: "string \<Rightarrow> string \<Rightarrow> bool" where
  "ends_with p s = (length p \<le> length s \<and> drop (length s - length p) s = p)"

lemma ends_with_iff: "ends_with p s \<longleftrightarrow> (\<exists>t. s = t @ p)"
proof
  assume "ends_with p s"
  then have "s = take (length s - length p) s @ p"
    unfolding ends_with_def by (metis append_take_drop_id)
  then show "\<exists>t. s = t @ p" ..
qed (auto simp: ends_with_def)

lemma starts_with_iff: "starts_with p s \<longleftrightarrow> (\<exists>t. s = p @ t)"
proof
  assume "starts_with p s"
  then have "s = p @ drop (length p) s"
    unfolding starts_with_def by (metis append_take_drop_id)
  then show "\<exists>t. s = p @ t" ..
qed (auto simp: starts_with_def)

text \<open>\<^verbatim>\<open>s.split(c)\<close> for a one-character separator, and \<^verbatim>\<open>s.rsplit(c, 1)[-1]\<close>.\<close>

fun split_on :: "char \<Rightarrow> string \<Rightarrow> string list" where
  "split_on sep [] = [[]]"
| "split_on sep (c # cs) =
     (if c = sep then [] # split_on sep cs
      else (case split_on sep cs of [] \<Rightarrow> [[c]] | p # ps \<Rightarrow> (c # p) # ps))"

lemma split_on_nonempty [simp]: "split_on sep s \<noteq> []"
  by (cases s) (auto split: list.splits)

lemma split_on_no_sep: "p \<in> set (split_on sep s) \<Longrightarrow> sep \<notin> set p"
  by (induction sep s arbitrary: p rule: split_on.induct) (auto split: if_splits list.splits)

lemma join_split_on: "py_join [sep] (split_on sep s) = s"
proof (induction sep s rule: split_on.induct)
  case (1 sep)
  then show ?case by simp
next
  case (2 sep c cs)
  then show ?case
  proof (cases "split_on sep cs")
    case Nil
    then show ?thesis by simp
  next
    case (Cons p ps)
    then show ?thesis using 2 by (cases ps) (auto split: if_splits)
  qed
qed

definition after_last :: "char \<Rightarrow> string \<Rightarrow> string" where
  "after_last c s = rev (takeWhile (\<lambda>d. d \<noteq> c) (rev s))"

definition before_first :: "char \<Rightarrow> string \<Rightarrow> string" where
  "before_first c s = takeWhile (\<lambda>d. d \<noteq> c) s"

definition after_first :: "char \<Rightarrow> string \<Rightarrow> string" where
  "after_first c s = tl (dropWhile (\<lambda>d. d \<noteq> c) s)"

lemma before_after_first:
  assumes "c \<notin> set p"
  shows "before_first c (p @ c # q) = p" "after_first c (p @ c # q) = q"
  using assms by (induction p) (auto simp: before_first_def after_first_def)

lemma set_before_first: "c \<in> set (before_first d s) \<Longrightarrow> c \<in> set s \<and> c \<noteq> d"
  unfolding before_first_def by (metis (mono_tags, lifting) set_takeWhileD)

lemma set_after_first: "c \<in> set (after_first d s) \<Longrightarrow> c \<in> set s"
  unfolding after_first_def by (metis list.sel(2) list.set_sel(2) set_dropWhileD)

lemma set_after_last: "c \<in> set (after_last d s) \<Longrightarrow> c \<in> set s \<and> c \<noteq> d"
  unfolding after_last_def by (metis (mono_tags, lifting) set_rev set_takeWhileD)

lemma length_before_first: "length (before_first d s) \<le> length s"
  by (simp add: before_first_def length_takeWhile_le)

lemma length_after_first: "length (after_first d s) \<le> length s"
  unfolding after_first_def by (metis diff_le_self le_trans length_dropWhile_le length_tl)

lemma length_after_last: "length (after_last d s) \<le> length s"
  unfolding after_last_def by (metis length_rev length_takeWhile_le)

end
