(* ===== verification/Messages.thy ===== *)
theory Messages
  imports Py_Text Py_Datetime
begin

text \<open>
  The messages the services exchange and the dictionaries the feed parser produces: the pydantic
  schemas of \<^verbatim>\<open>worker-rss-scrapper/app/schemas\<close>, the request payload of the backend and the
  result schema of \<^verbatim>\<open>db-manager/app/schemas\<close>.  A schema is a record and the predicate of the
  field constraints it declares; constructing one whose constraints fail raises ValidationError.
\<close>

section \<open>Dictionaries of parsed values\<close>

text \<open>The values a \<^verbatim>\<open>dict[str, Any]\<close> of the parser can hold.\<close>

datatype py_value = PyNone | PyStr string | PyDatetime py_datetime | PyOther

type_synonym py_dict = "string \<rightharpoonup> py_value"

definition dict_get :: "py_dict \<Rightarrow> string \<Rightarrow> py_value" where
  "dict_get d k = (case d k of None \<Rightarrow> PyNone | Some v \<Rightarrow> v)"

definition opt_str :: "string option \<Rightarrow> py_value" where
  "opt_str v = (case v of None \<Rightarrow> PyNone | Some s \<Rightarrow> PyStr s)"

definition opt_datetime :: "py_datetime option \<Rightarrow> py_value" where
  "opt_datetime v = (case v of None \<Rightarrow> PyNone | Some d \<Rightarrow> PyDatetime d)"

section \<open>Feed sources (articles)\<close>

record feed_source =
  src_title :: string
  src_url :: string
  src_summary :: "string option"
  src_author :: "string option"
  src_published_at :: "py_datetime option"
  src_image_url :: "string option"

definition valid_feed_source :: "feed_source \<Rightarrow> bool" where
  "valid_feed_source s = (1 \<le> length (src_title s) \<and> 1 \<le> length (src_url s) \<and> length (src_url s) \<le> 1000)"

definition make_feed_source :: "feed_source \<Rightarrow> py_exn + feed_source" where
  "make_feed_source s = (if valid_feed_source s then Inr s else Inl (ValidationError ''FeedSourceSchema''))"

lemma make_feed_source_Inr [simp]:
  "make_feed_source s = Inr t \<longleftrightarrow> valid_feed_source s \<and> t = s"
  by (auto simp: make_feed_source_def)

section \<open>Scrape requests\<close>

record job_feed =
  jf_feed_id :: int
  jf_feed_url :: string
  jf_company_id :: "int option"
  jf_host_header :: "string option"
  jf_fetchprotection :: int
  jf_etag :: "string option"
  jf_last_update :: "py_datetime option"
  jf_last_db_article_published_at :: "py_datetime option"

definition opt_length_between :: "nat \<Rightarrow> nat \<Rightarrow> string option \<Rightarrow> bool" where
  "opt_length_between lo hi v = (case v of None \<Rightarrow> True | Some s \<Rightarrow> lo \<le> length s \<and> length s \<le> hi)"

definition valid_job_feed :: "job_feed \<Rightarrow> bool" where
  "valid_job_feed f = (1 \<le> jf_feed_id f
     \<and> 1 \<le> length (jf_feed_url f) \<and> length (jf_feed_url f) \<le> 500
     \<and> (case jf_company_id f of None \<Rightarrow> True | Some c \<Rightarrow> 1 \<le> c)
     \<and> opt_length_between 1 255 (jf_host_header f)
     \<and> 0 \<le> jf_fetchprotection f \<and> jf_fetchprotection f \<le> 2
     \<and> opt_length_between 0 255 (jf_etag f))"

definition make_job_feed :: "job_feed \<Rightarrow> py_exn + job_feed" where
  "make_job_feed f = (if valid_job_feed f then Inr f else Inl (ValidationError ''RssScrapeFeedPayloadSchema''))"

lemma make_job_feed_Inr [simp]: "make_job_feed f = Inr g \<longleftrightarrow> valid_job_feed f \<and> g = f"
  by (auto simp: make_job_feed_def)

record job_request =
  jr_job_id :: string
  jr_requested_at :: py_datetime
  jr_ingest :: bool
  jr_requested_by :: string
  jr_feeds :: "job_feed list"

definition valid_job_request :: "job_request \<Rightarrow> bool" where
  "valid_job_request r = (1 \<le> length (jr_job_id r) \<and> length (jr_job_id r) \<le> 36
     \<and> 1 \<le> length (jr_requested_by r) \<and> length (jr_requested_by r) \<le> 100
     \<and> (\<forall>f\<in>set (jr_feeds r). valid_job_feed f))"

definition make_job_request :: "job_request \<Rightarrow> py_exn + job_request" where
  "make_job_request r =
     (if valid_job_request r then Inr r else Inl (ValidationError ''RssScrapeJobRequestSchema''))"

section \<open>Scrape results\<close>

datatype result_status = Success | NotModified | ResultError

record scrape_result =
  res_job_id :: string
  res_ingest :: bool
  res_feed_id :: int
  res_feed_url :: string
  res_status :: result_status
  res_error_message :: "string option"
  res_new_etag :: "string option"
  res_new_last_update :: "py_datetime option"
  res_fetchprotection :: int
  res_sources :: "feed_source list"

text \<open>What the worker's schema checks when it builds a result.\<close>

definition valid_scrape_result :: "scrape_result \<Rightarrow> bool" where
  "valid_scrape_result r = (0 \<le> res_fetchprotection r \<and> res_fetchprotection r \<le> 2
     \<and> (\<forall>s\<in>set (res_sources r). valid_feed_source s))"

definition make_scrape_result :: "scrape_result \<Rightarrow> py_exn + scrape_result" where
  "make_scrape_result r =
     (if valid_scrape_result r then Inr r else Inl (ValidationError ''ScrapeResultSchema''))"

text \<open>What the schema of the persistence service checks when it reads one.\<close>

definition valid_worker_source :: "feed_source \<Rightarrow> bool" where
  "valid_worker_source s = (1 \<le> length (src_title s) \<and> 1 \<le> length (src_url s) \<and> length (src_url s) \<le> 1000)"

definition valid_worker_result :: "scrape_result \<Rightarrow> bool" where
  "valid_worker_result r = (1 \<le> res_feed_id r
     \<and> 1 \<le> length (res_feed_url r) \<and> length (res_feed_url r) \<le> 500
     \<and> 0 \<le> res_fetchprotection r \<and> res_fetchprotection r \<le> 2
     \<and> (\<forall>s\<in>set (res_sources r). valid_worker_source s))"

lemma valid_worker_source_eq: "valid_worker_source = valid_feed_source"
  by (simp add: fun_eq_iff valid_worker_source_def valid_feed_source_def)

end
