(* ===== verification/Database.thy ===== *)
theory Database
  imports Prelude Py_Datetime Messages Complex_Main
begin

text \<open>
  The relational state the services share, as \<^verbatim>\<open>backend/app/models\<close> and the migrations declare it,
  and the statements as state transformers that may raise.

  A table is the list of its rows in insertion order.  A \<^verbatim>\<open>timestamptz\<close> is the instant in
  microseconds (the session's time zone being UTC, a naive value is read as UTC), a status is the
  text that is stored.  A statement first converts its values to the column types (which may
  raise), then checks the constraints.  A transaction runs alone: the interleaving of statements
  of concurrent transactions is not modelled.
\<close>

section \<open>Rows\<close>

record company_row =
  co_id :: int
  co_name :: string
  co_host :: "string option"
  co_icon_url :: "string option"
  co_country :: "string option"
  co_language :: "string option"
  co_fetchprotection :: int
  co_enabled :: bool

record feed_row =
  fd_id :: int
  fd_url :: string
  fd_section :: "string option"
  fd_enabled :: bool
  fd_trust_score :: rat
  fd_company_id :: "int option"

record tag_row =
  tg_id :: int
  tg_name :: string

record feed_tag_row =
  ft_feed_id :: int
  ft_tag_id :: int

record scraping_row =
  sc_feed_id :: int
  sc_fetchprotection :: int
  sc_last_update :: "int option"
  sc_etag :: "string option"
  sc_error_nbr :: int
  sc_error_msg :: "string option"

record job_row =
  jb_job_id :: string
  jb_ingest :: bool
  jb_requested_by :: string
  jb_requested_at :: int
  jb_feed_count :: int
  jb_status :: string
  jb_updated_at :: int

record job_feed_row =
  jbf_job_id :: string
  jbf_feed_id :: int
  jbf_feed_url :: string
  jbf_last_article :: "int option"

record result_row =
  rr_job_id :: string
  rr_feed_id :: int
  rr_status :: string
  rr_queue_kind :: string
  rr_error_message :: "string option"
  rr_fetchprotection :: "int option"
  rr_new_etag :: "string option"
  rr_new_last_update :: "int option"

record source_row =
  so_id :: int
  so_title :: string
  so_summary :: "string option"
  so_author :: "string option"
  so_url :: string
  so_published_at :: int
  so_image_url :: "string option"

record source_link =
  sl_source_id :: int
  sl_feed_id :: int
  sl_published_at :: int

text \<open>The database; \<open>source_seq\<close> is the next value of \<^verbatim>\<open>rss_sources_id_seq\<close>.\<close>

record database =
  db_companies :: "company_row list"
  db_feeds :: "feed_row list"
  db_tags :: "tag_row list"
  db_feed_tags :: "feed_tag_row list"
  db_scrapings :: "scraping_row list"
  db_jobs :: "job_row list"
  db_job_feeds :: "job_feed_row list"
  db_results :: "result_row list"
  db_sources :: "source_row list"
  db_source_links :: "source_link list"
  source_seq :: int

section \<open>Column types\<close>

definition int4 :: "int \<Rightarrow> py_exn + int" where
  "int4 i = (if - (2 ^ 31) \<le> i \<and> i < 2 ^ 31 then Inr i else Inl (OtherException ''NumericValueOutOfRange''))"

text \<open>The driver refuses a statement one of whose texts has a NUL, before it is sent.\<close>

definition sql_texts :: "string option list \<Rightarrow> py_exn + unit" where
  "sql_texts vs = (if list_all (\<lambda>v. case v of None \<Rightarrow> True | Some s \<Rightarrow> CHR 0x00 \<notin> set s) vs
     then Inr () else Inl (ValueError ''NUL in string literal''))"

text \<open>\<^verbatim>\<open>varchar(n)\<close>: excess characters are an error unless they are all spaces, which are cut off.\<close>

definition varchar :: "nat \<Rightarrow> string \<Rightarrow> py_exn + string" where
  "varchar n s =
     (if length s \<le> n then Inr s
      else if list_all (\<lambda>c. c = CHR '' '') (drop n s) then Inr (take n s)
      else Inl (OtherException ''StringDataRightTruncation''))"

definition nullable :: "('a \<Rightarrow> 'e + 'b) \<Rightarrow> 'a option \<Rightarrow> 'e + 'b option" where
  "nullable f v = (case v of None \<Rightarrow> Inr None | Some x \<Rightarrow> and_then (f x) (\<lambda>y. Inr (Some y)))"

lemma nullable_None [simp]: "nullable f None = Inr None"
  by (simp add: nullable_def)

lemma nullable_Some [simp]: "nullable f (Some x) = and_then (f x) (\<lambda>y. Inr (Some y))"
  by (simp add: nullable_def)

lemma int4_Inr [simp]: "int4 i = Inr j \<longleftrightarrow> j = i \<and> - (2 ^ 31) \<le> i \<and> i < 2 ^ 31"
  by (auto simp: int4_def)

lemma varchar_length: "varchar n s = Inr t \<Longrightarrow> length t \<le> n"
  by (auto simp: varchar_def split: if_splits)

lemma varchar_short [simp]: "length s \<le> n \<Longrightarrow> varchar n s = Inr s"
  by (simp add: varchar_def)

lemma varchar_too_long:
  "n < length s \<Longrightarrow> s ! n \<noteq> CHR '' '' \<Longrightarrow> \<exists>e. varchar n s = Inl e"
  using Cons_nth_drop_Suc [of n s] by (metis list.pred_inject(2) not_less varchar_def)

section \<open>Statements and transactions\<close>

text \<open>A statement or a sequence of statements: the value or the exception, and the database then.\<close>

type_synonym ('s, 'a) stmt = "'s \<Rightarrow> (py_exn + 'a) \<times> 's"

type_synonym 'a sql = "(database, 'a) stmt"

definition sql_return :: "'a \<Rightarrow> ('s, 'a) stmt" where
  "sql_return x db = (Inr x, db)"

definition sql_raise :: "py_exn \<Rightarrow> ('s, 'a) stmt" where
  "sql_raise e db = (Inl e, db)"

definition sql_bind :: "('s, 'a) stmt \<Rightarrow> ('a \<Rightarrow> ('s, 'b) stmt) \<Rightarrow> ('s, 'b) stmt" where
  "sql_bind m f db = (case m db of (Inl e, db') \<Rightarrow> (Inl e, db') | (Inr x, db') \<Rightarrow> f x db')"

text \<open>A conversion of values before the statement runs.\<close>

definition sql_lift :: "py_exn + 'a \<Rightarrow> ('s, 'a) stmt" where
  "sql_lift r db = (r, db)"

fun sql_for :: "('a \<Rightarrow> ('s, unit) stmt) \<Rightarrow> 'a list \<Rightarrow> ('s, unit) stmt" where
  "sql_for f [] db = (Inr (), db)"
| "sql_for f (x # xs) db = (case f x db of (Inl e, db') \<Rightarrow> (Inl e, db') | (Inr _, db') \<Rightarrow> sql_for f xs db')"

lemma sql_simps [simp]:
  "sql_return x db = (Inr x, db)" "sql_raise e db = (Inl e, db)" "sql_lift r db = (r, db)"
  by (simp_all add: sql_return_def sql_raise_def sql_lift_def)

lemma sql_bind_Inr:
  "sql_bind m f db = (Inr y, db') \<longleftrightarrow> (\<exists>x db1. m db = (Inr x, db1) \<and> f x db1 = (Inr y, db'))"
  by (auto simp: sql_bind_def split: prod.splits sum.splits)

lemma sql_bind_lift [simp]:
  "sql_bind (sql_lift r) f db = (case r of Inl e \<Rightarrow> (Inl e, db) | Inr x \<Rightarrow> f x db)"
  by (simp add: sql_bind_def split: sum.splits)

text \<open>An invariant of the statements is one of their sequences.\<close>

definition sql_keeps :: "('s \<Rightarrow> bool) \<Rightarrow> ('s, 'a) stmt \<Rightarrow> bool" where
  "sql_keeps P m \<longleftrightarrow> (\<forall>db r db'. P db \<longrightarrow> m db = (Inr r, db') \<longrightarrow> P db')"

lemma sql_keepsD: "sql_keeps P m \<Longrightarrow> m db = (Inr r, db') \<Longrightarrow> P db \<Longrightarrow> P db'"
  by (auto simp: sql_keeps_def)

lemma sql_keeps_bind:
  "sql_keeps P m \<Longrightarrow> (\<And>x. sql_keeps P (f x)) \<Longrightarrow> sql_keeps P (sql_bind m f)"
  unfolding sql_keeps_def by (metis sql_bind_Inr)

lemma sql_keeps_lift [simp]: "sql_keeps P (sql_lift r)" "sql_keeps P (sql_return x)" "sql_keeps P (sql_raise e)"
  by (simp_all add: sql_keeps_def)

lemma sql_keeps_for:
  assumes "\<And>x. x \<in> set xs \<Longrightarrow> sql_keeps P (f x)"
  shows "sql_keeps P (sql_for f xs)"
  unfolding sql_keeps_def
proof (intro allI impI)
  fix db r db' assume "P db" "sql_for f xs db = (Inr r, db')"
  then show "P db'" using assms
  proof (induction xs arbitrary: db)
    case (Cons x xs)
    obtain db1 where db1: "f x db = (Inr (), db1)" "sql_for f xs db1 = (Inr (), db')"
      using Cons.prems(2) by (auto split: prod.splits sum.splits)
    have "sql_keeps P (f x)" using Cons.prems(3) by simp
    then have "P db1" using db1(1) Cons.prems(1) unfolding sql_keeps_def by blast
    then show ?case using Cons.IH [of db1] db1(2) Cons.prems(3) by simp
  qed simp
qed

text \<open>
  A transaction on the committed state: its effects on success, none on failure, except that the
  sequence is not rolled back.
\<close>

definition transaction :: "'a sql \<Rightarrow> 'a sql" where
  "transaction m db = (case m db of
     (Inr x, db') \<Rightarrow> (Inr x, db')
   | (Inl e, db') \<Rightarrow> (Inl e, db\<lparr>source_seq := source_seq db'\<rparr>))"

lemma transaction_Inr: "transaction m db = (Inr x, db') \<longleftrightarrow> m db = (Inr x, db')"
  by (auto simp: transaction_def split: prod.splits sum.splits)

lemma transaction_Inl:
  "transaction m db = (Inl e, db') \<Longrightarrow> db' = db\<lparr>source_seq := source_seq db'\<rparr>"
  by (auto simp: transaction_def split: prod.splits sum.splits)

text \<open>A transaction and its commit, which may raise whether or not the server applied it.\<close>

datatype commit_outcome = CommitOk | CommitRaises bool string

definition committed :: "commit_outcome \<Rightarrow> 'a sql \<Rightarrow> 'a sql" where
  "committed commit m db = (case m db of
     (Inl e, db') \<Rightarrow> (Inl e, db\<lparr>source_seq := source_seq db'\<rparr>)
   | (Inr x, db') \<Rightarrow> (case commit of
       CommitOk \<Rightarrow> (Inr x, db')
     | CommitRaises applied msg \<Rightarrow>
         (Inl (OtherException msg), if applied then db' else db\<lparr>source_seq := source_seq db'\<rparr>)))"

section \<open>Keyed tables\<close>

text \<open>The row with a given key, and the update of the row with a given key.\<close>

definition row_with :: "('r \<Rightarrow> 'k) \<Rightarrow> 'k \<Rightarrow> 'r list \<Rightarrow> 'r option" where
  "row_with key k rows = find (\<lambda>r. key r = k) rows"

definition update_row :: "('r \<Rightarrow> 'k) \<Rightarrow> 'k \<Rightarrow> ('r \<Rightarrow> 'r) \<Rightarrow> 'r list \<Rightarrow> 'r list" where
  "update_row key k f rows = map (\<lambda>r. if key r = k then f r else r) rows"

definition keys_of :: "('r \<Rightarrow> 'k) \<Rightarrow> 'r list \<Rightarrow> 'k set" where
  "keys_of key rows = key ` set rows"

definition unique_key :: "('r \<Rightarrow> 'k) \<Rightarrow> 'r list \<Rightarrow> bool" where
  "unique_key key rows \<longleftrightarrow> distinct (map key rows)"

lemma filter_unique: "distinct xs \<Longrightarrow> x \<in> set xs \<Longrightarrow> filter (\<lambda>q. q = x) xs = [x]"
  by (induction xs) (auto simp: filter_empty_conv)

lemma row_with_None: "row_with key k rows = None \<longleftrightarrow> k \<notin> keys_of key rows"
  by (auto simp: row_with_def keys_of_def find_None_iff)

lemma row_with_SomeD: "row_with key k rows = Some r \<Longrightarrow> r \<in> set rows \<and> key r = k"
  by (auto simp: row_with_def find_Some_iff)

lemma row_with_unique:
  assumes "unique_key key rows"
  shows "row_with key k rows = Some r \<longleftrightarrow> r \<in> set rows \<and> key r = k"
proof
  assume r: "r \<in> set rows \<and> key r = k"
  then obtain r' where r': "row_with key k rows = Some r'"
    using row_with_None [of key k rows] by (cases "row_with key k rows") (auto simp: keys_of_def)
  have "inj_on key (set rows)" using assms by (simp add: unique_key_def distinct_map)
  then show "row_with key k rows = Some r" using row_with_SomeD [OF r'] r r' by (auto dest: inj_onD)
qed (rule row_with_SomeD)

lemma row_with_append:
  "row_with key k (rows @ [r]) =
    (case row_with key k rows of Some r' \<Rightarrow> Some r' | None \<Rightarrow> if key r = k then Some r else None)"
  by (induction rows) (auto simp: row_with_def)

lemma unique_key_insert: "unique_key key rows \<Longrightarrow> key r \<notin> keys_of key rows \<Longrightarrow> unique_key key (rows @ [r])"
  by (simp add: unique_key_def keys_of_def)

lemma keys_of_simps [simp]:
  "keys_of key [] = {}" "keys_of key (rows @ rows') = keys_of key rows \<union> keys_of key rows'"
  "keys_of key (r # rows) = insert (key r) (keys_of key rows)"
  by (auto simp: keys_of_def)

lemma map_key_update: "(\<And>r. key (f r) = key r) \<Longrightarrow> map key (update_row key' k f rows) = map key rows"
  by (simp add: update_row_def)

lemma unique_key_update [simp]:
  "(\<And>r. key (f r) = key r) \<Longrightarrow> unique_key key (update_row key' k f rows) = unique_key key rows"
  by (simp add: unique_key_def map_key_update)

lemma keys_of_update [simp]:
  "(\<And>r. key (f r) = key r) \<Longrightarrow> keys_of key (update_row key' k f rows) = keys_of key rows"
  using map_key_update [of key f key' k rows] unfolding keys_of_def by (metis set_map)

lemma row_with_update:
  assumes "\<And>r. key (f r) = key r"
  shows "row_with key j (update_row key k f rows) =
    (if j = k then map_option f (row_with key j rows) else row_with key j rows)"
  using assms by (induction rows) (auto simp: update_row_def row_with_def)

lemma update_row_absent: "k \<notin> keys_of key rows \<Longrightarrow> update_row key k f rows = rows"
  by (induction rows) (auto simp: update_row_def)

lemma in_update_row:
  "r \<in> set (update_row key k f rows) \<Longrightarrow> \<exists>r0\<in>set rows. r = (if key r0 = k then f r0 else r0)"
  by (auto simp: update_row_def)

lemma list_all_update_row:
  "list_all P rows \<Longrightarrow> (\<And>r. r \<in> set rows \<Longrightarrow> P r \<Longrightarrow> P (f r)) \<Longrightarrow> list_all P (update_row key k f rows)"
  by (auto simp: list_all_iff update_row_def)

lemma in_keys_of: "k \<in> keys_of key rows \<longleftrightarrow> (\<exists>r\<in>set rows. key r = k)"
  by (auto simp: keys_of_def)

end
