(* ===== verification/Contracts.thy ===== *)
theory Contracts
  imports Prelude
begin

text \<open>
  The contracts that recur in the program and what follows from each: loops that keep the first
  element of every key, retry loops with a limit on the attempts, and loops that group a list
  by a key in order of first appearance.  Each locale is interpreted in the theories of the
  components that contain such a loop.
\<close>

section \<open>First element of every key\<close>

text \<open>
  A loop over items that skips an item without a key, skips a key already in \<open>seen\<close>, and else
  builds an output, which may raise or may still drop the item without marking its key.
\<close>

locale seen_set_loop =
  fixes key_of :: "'a \<Rightarrow> 'k option"
    and build :: "'a \<Rightarrow> 'e + 'b option"
    and out_key :: "'b \<Rightarrow> 'k"
    and loop :: "'k set \<Rightarrow> 'a list \<Rightarrow> 'e + 'b list"
  assumes loop_Nil: "loop seen [] = Inr []"
    and loop_no_key: "key_of x = None \<Longrightarrow> loop seen (x # xs) = loop seen xs"
    and loop_seen: "key_of x = Some k \<Longrightarrow> k \<in> seen \<Longrightarrow> loop seen (x # xs) = loop seen xs"
    and loop_raise: "key_of x = Some k \<Longrightarrow> k \<notin> seen \<Longrightarrow> build x = Inl e \<Longrightarrow>
      loop seen (x # xs) = Inl e"
    and loop_drop: "key_of x = Some k \<Longrightarrow> k \<notin> seen \<Longrightarrow> build x = Inr None \<Longrightarrow>
      loop seen (x # xs) = loop seen xs"
    and loop_keep: "key_of x = Some k \<Longrightarrow> k \<notin> seen \<Longrightarrow> build x = Inr (Some y) \<Longrightarrow>
      loop seen (x # xs) = and_then (loop (insert k seen) xs) (\<lambda>ys. Inr (y # ys))"
    and build_key: "key_of x = Some k \<Longrightarrow> build x = Inr (Some y) \<Longrightarrow> out_key y = k"
begin

text \<open>The case analysis of one iteration.\<close>

lemma loop_ConsE:
  assumes "loop seen (x # xs) = Inr ys"
  obtains (skip) "key_of x = None \<or> (\<exists>k\<in>seen. key_of x = Some k) \<or>
      (\<exists>k. key_of x = Some k \<and> build x = Inr None)" "loop seen xs = Inr ys"
  | (keep) k y zs where "key_of x = Some k" "k \<notin> seen" "build x = Inr (Some y)" "ys = y # zs"
      "loop (insert k seen) xs = Inr zs"
proof (cases "key_of x")
  case None
  then show ?thesis using assms skip by (simp add: loop_no_key)
next
  case (Some k)
  show ?thesis
  proof (cases "k \<in> seen")
    case True
    then show ?thesis using assms Some skip by (auto simp: loop_seen)
  next
    case False
    show ?thesis
    proof (cases "build x")
      case (Inl e)
      then show ?thesis using assms Some False by (simp add: loop_raise)
    next
      case (Inr r)
      show ?thesis
      proof (cases r)
        case None
        then show ?thesis using assms Some False Inr skip by (simp add: loop_drop)
      next
        fix y assume r: "r = Some y"
        then show ?thesis
          using assms Some False Inr keep by (auto simp: loop_keep)
      qed
    qed
  qed
qed

lemma out_keys_fresh:
  "loop seen xs = Inr ys \<Longrightarrow> y \<in> set ys \<Longrightarrow> out_key y \<notin> seen"
proof (induction xs arbitrary: seen ys)
  case Nil
  then show ?case by (simp add: loop_Nil)
next
  case (Cons x xs)
  from Cons.prems(1) show ?case
  proof (cases rule: loop_ConsE)
    case skip
    show ?thesis using Cons.IH [OF skip(2) Cons.prems(2)] .
  next
    case (keep k y' zs)
    show ?thesis
    proof (cases "y = y'")
      case True
      then show ?thesis using keep build_key by blast
    next
      case False
      then show ?thesis using Cons.IH [OF keep(5)] Cons.prems(2) keep(4) by auto
    qed
  qed
qed

lemma out_keys_distinct: "loop seen xs = Inr ys \<Longrightarrow> distinct (map out_key ys)"
proof (induction xs arbitrary: seen ys)
  case Nil
  then show ?case by (simp add: loop_Nil)
next
  case (Cons x xs)
  from Cons.prems show ?case
  proof (cases rule: loop_ConsE)
    case skip
    show ?thesis using Cons.IH [OF skip(2)] .
  next
    case (keep k y zs)
    have "out_key y = k" using keep build_key by blast
    moreover have "k \<notin> out_key ` set zs" using out_keys_fresh [OF keep(5)] by blast
    ultimately show ?thesis using Cons.IH [OF keep(5)] keep(4) by simp
  qed
qed

text \<open>Where an output comes from: the first item of its key that builds one.\<close>

lemma output_origin:
  "loop seen xs = Inr ys \<Longrightarrow> y \<in> set ys \<Longrightarrow>
    \<exists>pre x post. xs = pre @ x # post \<and> key_of x = Some (out_key y) \<and> build x = Inr (Some y) \<and>
      (\<forall>w\<in>set pre. key_of w = key_of x \<longrightarrow> build w = Inr None)"
proof (induction xs arbitrary: seen ys)
  case Nil
  then show ?case by (simp add: loop_Nil)
next
  case (Cons x xs)
  from Cons.prems(1) show ?case
  proof (cases rule: loop_ConsE)
    case skip
    from Cons.IH [OF skip(2) Cons.prems(2)] obtain pre w post where
      w: "xs = pre @ w # post" "key_of w = Some (out_key y)" "build w = Inr (Some y)"
      "\<forall>v\<in>set pre. key_of v = key_of w \<longrightarrow> build v = Inr None" by blast
    have "out_key y \<notin> seen" using out_keys_fresh [OF skip(2) Cons.prems(2)] .
    then have "key_of x = key_of w \<longrightarrow> build x = Inr None" using skip(1) w(2) by auto
    then show ?thesis using w by (intro exI [of _ "x # pre"]) auto
  next
    case (keep k y' zs)
    show ?thesis
    proof (cases "y = y'")
      case True
      then show ?thesis
        using keep build_key [OF keep(1,3)] by (intro exI [of _ "[]"]) auto
    next
      case False
      then have y: "y \<in> set zs" using Cons.prems(2) keep(4) by simp
      from Cons.IH [OF keep(5) y] obtain pre w post where
        w: "xs = pre @ w # post" "key_of w = Some (out_key y)" "build w = Inr (Some y)"
        "\<forall>v\<in>set pre. key_of v = key_of w \<longrightarrow> build v = Inr None" by blast
      have "out_key y \<noteq> k" using out_keys_fresh [OF keep(5) y] by simp
      then show ?thesis using w keep(1) by (intro exI [of _ "x # pre"]) auto
    qed
  qed
qed

text \<open>No key that can be built is lost.\<close>

lemma keys_covered:
  "loop seen xs = Inr ys \<Longrightarrow> x \<in> set xs \<Longrightarrow> key_of x = Some k \<Longrightarrow> build x \<noteq> Inr None \<Longrightarrow>
    k \<in> seen \<or> k \<in> out_key ` set ys"
proof (induction xs arbitrary: seen ys)
  case Nil
  then show ?case by simp
next
  case (Cons w xs)
  from Cons.prems(1) show ?case
  proof (cases rule: loop_ConsE)
    case skip
    show ?thesis
    proof (cases "x = w")
      case True
      then show ?thesis using skip(1) Cons.prems(3,4) by auto
    next
      case False
      then show ?thesis using Cons.IH [OF skip(2)] Cons.prems by auto
    qed
  next
    case (keep k' y zs)
    have oy: "out_key y = k'" using keep build_key by blast
    show ?thesis
    proof (cases "x = w")
      case True
      then show ?thesis using keep oy Cons.prems(3) by auto
    next
      case False
      then show ?thesis using Cons.IH [OF keep(5)] Cons.prems oy keep(4) by auto
    qed
  qed
qed

text \<open>Running the loop over items that are already outputs changes nothing.\<close>

lemma loop_fixpoint:
  assumes "\<And>x. x \<in> set xs \<Longrightarrow> key_of x = Some (out_key (emb x)) \<and> build x = Inr (Some (emb x))"
    and "distinct (map (out_key \<circ> emb) xs)" and "(out_key \<circ> emb) ` set xs \<inter> seen = {}"
  shows "loop seen xs = Inr (map emb xs)"
  using assms
proof (induction xs arbitrary: seen)
  case Nil
  then show ?case by (simp add: loop_Nil)
next
  case (Cons x xs)
  have x: "key_of x = Some (out_key (emb x))" "build x = Inr (Some (emb x))"
    using Cons.prems(1) by auto
  have "loop (insert (out_key (emb x)) seen) xs = Inr (map emb xs)"
  proof (rule Cons.IH)
    show "distinct (map (out_key \<circ> emb) xs)" using Cons.prems(2) by (simp add: comp_def)
    show "(out_key \<circ> emb) ` set xs \<inter> insert (out_key (emb x)) seen = {}"
      using Cons.prems(2,3) by auto
  qed (use Cons.prems(1) in auto)
  then show ?case using x Cons.prems(3) by (simp add: loop_keep)
qed

end

text \<open>The common special case: a cleaning function that cannot raise, the output being the key.\<close>

locale pure_seen_set_loop =
  fixes clean :: "'a \<Rightarrow> 'k option"
    and pure_loop :: "'k set \<Rightarrow> 'a list \<Rightarrow> 'k list"
  assumes pure_Nil: "pure_loop seen [] = []"
    and pure_skip: "clean x = None \<or> (\<exists>k\<in>seen. clean x = Some k) \<Longrightarrow>
      pure_loop seen (x # xs) = pure_loop seen xs"
    and pure_keep: "clean x = Some k \<Longrightarrow> k \<notin> seen \<Longrightarrow>
      pure_loop seen (x # xs) = k # pure_loop (insert k seen) xs"
begin

sublocale seen_set_loop clean "\<lambda>x. Inr (clean x)" "\<lambda>k. k" "\<lambda>seen xs. Inr (pure_loop seen xs)"
  by unfold_locales (auto simp: pure_Nil pure_skip pure_keep)

lemma pure_distinct: "distinct (pure_loop seen xs)"
  using out_keys_distinct [of seen xs "pure_loop seen xs"] by simp

lemma pure_set: "set (pure_loop seen xs) = {k. \<exists>x\<in>set xs. clean x = Some k} - seen"
proof
  show "set (pure_loop seen xs) \<subseteq> {k. \<exists>x\<in>set xs. clean x = Some k} - seen"
    using output_origin [of seen xs "pure_loop seen xs"]
      out_keys_fresh [of seen xs "pure_loop seen xs"] by fastforce
  show "{k. \<exists>x\<in>set xs. clean x = Some k} - seen \<subseteq> set (pure_loop seen xs)"
    using keys_covered [of seen xs "pure_loop seen xs"] by fastforce
qed

lemma pure_loop_as_first_by:
  "pure_loop seen xs = first_by id seen (List.map_filter clean xs)"
proof (induction xs arbitrary: seen)
  case Nil
  then show ?case by (simp add: pure_Nil List.map_filter_simps)
next
  case (Cons x xs)
  show ?case
  proof (cases "clean x")
    case None
    then show ?thesis using Cons by (simp add: pure_skip List.map_filter_simps)
  next
    case (Some k)
    then show ?thesis using Cons
      by (cases "k \<in> seen") (simp_all add: pure_skip pure_keep List.map_filter_simps)
  qed
qed

end

section \<open>Bounded retry\<close>

text \<open>What one attempt yields: a value, an error worth another attempt, or an error that is not.\<close>

datatype ('a, 'e) attempt = Done 'a | Retryable 'e | Fatal 'e

text \<open>
  A retry loop: \<open>run i\<close> is what the loop does from its \<open>i\<close>-th attempt on, with the list of the
  attempts it makes.  \<open>exhausted\<close> turns the last error into the one that is raised.
\<close>

locale bounded_retry =
  fixes limit :: nat
    and outcome :: "nat \<Rightarrow> ('a, 'e) attempt"
    and exhausted :: "'e \<Rightarrow> 'x"
    and fatal :: "'e \<Rightarrow> 'x"
    and run :: "nat \<Rightarrow> ('x + 'a) \<times> nat list"
  assumes run_done: "i \<le> limit \<Longrightarrow> outcome i = Done a \<Longrightarrow> run i = (Inr a, [i])"
    and run_fatal: "i \<le> limit \<Longrightarrow> outcome i = Fatal e \<Longrightarrow> run i = (Inl (fatal e), [i])"
    and run_retry: "i < limit \<Longrightarrow> outcome i = Retryable e \<Longrightarrow>
      run i = (fst (run (Suc i)), i # snd (run (Suc i)))"
    and run_last: "outcome limit = Retryable e \<Longrightarrow> run limit = (Inl (exhausted e), [limit])"
begin

text \<open>The loop stops at the first attempt that is not worth retrying, or at the limit.\<close>

lemma run_to_stop:
  assumes "i \<le> j" and "j \<le> limit" and "\<And>m. i \<le> m \<Longrightarrow> m < j \<Longrightarrow> \<exists>e. outcome m = Retryable e"
  shows "run i = (fst (run j), [i..<j] @ snd (run j))"
  using assms
proof (induction "j - i" arbitrary: i)
  case 0
  then show ?case by simp
next
  case (Suc n)
  then have lt: "i < j" by simp
  then obtain e where e: "outcome i = Retryable e" using Suc.prems(3) by blast
  have ih: "run (Suc i) = (fst (run j), [Suc i..<j] @ snd (run j))"
    by (rule Suc.hyps(1)) (use Suc lt in auto)
  have "run i = (fst (run (Suc i)), i # snd (run (Suc i)))"
    by (rule run_retry [OF _ e]) (use lt Suc.prems(2) in simp)
  then show ?case using ih lt by (simp add: upt_conv_Cons)
qed

text \<open>The attempt the loop stops at.\<close>

definition stops_at :: "nat \<Rightarrow> nat \<Rightarrow> bool" where
  "stops_at i j \<longleftrightarrow> i \<le> j \<and> j \<le> limit \<and> (\<forall>m. i \<le> m \<and> m < j \<longrightarrow> (\<exists>e. outcome m = Retryable e)) \<and>
     (j < limit \<longrightarrow> (\<forall>e. outcome j \<noteq> Retryable e))"

lemma stops_at_exists: "i \<le> limit \<Longrightarrow> \<exists>j. stops_at i j"
proof (induction "limit - i" arbitrary: i)
  case 0
  then have "i = limit" by simp
  then have "stops_at i limit" unfolding stops_at_def by auto
  then show ?case ..
next
  case (Suc n)
  show ?case
  proof (cases "\<exists>e. outcome i = Retryable e")
    case True
    have "n = limit - Suc i" "Suc i \<le> limit" using Suc.hyps(2) by auto
    then obtain j where "stops_at (Suc i) j" using Suc.hyps(1) by blast
    then have "stops_at i j"
      using True by (auto simp: stops_at_def le_eq_less_or_eq dest: Suc_leI)
    then show ?thesis ..
  next
    case False
    then have "stops_at i i" using Suc.prems by (auto simp: stops_at_def)
    then show ?thesis ..
  qed
qed

lemma run_stops_at:
  assumes "stops_at i j"
  shows "snd (run i) = [i..<Suc j] \<and>
    fst (run i) = (case outcome j of Done a \<Rightarrow> Inr a | Fatal e \<Rightarrow> Inl (fatal e)
                   | Retryable e \<Rightarrow> Inl (exhausted e))"
proof -
  have run: "run i = (fst (run j), [i..<j] @ snd (run j))"
    by (rule run_to_stop) (use assms in \<open>auto simp: stops_at_def\<close>)
  have le: "i \<le> j" "j \<le> limit" using assms by (auto simp: stops_at_def)
  have "run j = ((case outcome j of Done a \<Rightarrow> Inr a | Fatal e \<Rightarrow> Inl (fatal e)
      | Retryable e \<Rightarrow> Inl (exhausted e)), [j])"
  proof (cases "outcome j")
    case (Retryable e)
    then have "j = limit" using assms by (auto simp: stops_at_def le_eq_less_or_eq)
    then show ?thesis using Retryable run_last by simp
  qed (use le in \<open>simp_all add: run_done run_fatal\<close>)
  then show ?thesis using run le by simp
qed

lemma attempts_bounded: "i \<le> limit \<Longrightarrow> length (snd (run i)) \<le> Suc limit - i"
  using stops_at_exists [of i] run_stops_at [of i] by (fastforce simp: stops_at_def)

lemma attempts_consecutive: "i \<le> limit \<Longrightarrow> \<exists>j\<le>limit. snd (run i) = [i..<Suc j] \<and> i \<le> j"
  using stops_at_exists [of i] run_stops_at [of i] by (fastforce simp: stops_at_def)

lemma success_iff:
  assumes "i \<le> limit"
  shows "fst (run i) = Inr a \<longleftrightarrow>
    (\<exists>j. i \<le> j \<and> j \<le> limit \<and> outcome j = Done a \<and>
         (\<forall>m. i \<le> m \<and> m < j \<longrightarrow> (\<exists>e. outcome m = Retryable e)))"
proof
  assume "fst (run i) = Inr a"
  moreover obtain j where j: "stops_at i j" using stops_at_exists [OF assms] ..
  ultimately have "outcome j = Done a"
    using run_stops_at [OF j] by (auto split: attempt.splits)
  then show "\<exists>j. i \<le> j \<and> j \<le> limit \<and> outcome j = Done a \<and>
      (\<forall>m. i \<le> m \<and> m < j \<longrightarrow> (\<exists>e. outcome m = Retryable e))"
    using j by (auto simp: stops_at_def)
next
  assume "\<exists>j. i \<le> j \<and> j \<le> limit \<and> outcome j = Done a \<and>
      (\<forall>m. i \<le> m \<and> m < j \<longrightarrow> (\<exists>e. outcome m = Retryable e))"
  then obtain j where j: "outcome j = Done a" "i \<le> j" "j \<le> limit"
      "\<And>m. i \<le> m \<Longrightarrow> m < j \<Longrightarrow> \<exists>e. outcome m = Retryable e" by blast
  then have "stops_at i j" by (auto simp: stops_at_def)
  then show "fst (run i) = Inr a" using run_stops_at j(1) by simp
qed

lemma all_retryable_exhausts:
  assumes "i \<le> limit" and "\<And>m. i \<le> m \<Longrightarrow> m < limit \<Longrightarrow> \<exists>e. outcome m = Retryable e"
    and "outcome limit = Retryable e"
  shows "fst (run i) = Inl (exhausted e) \<and> length (snd (run i)) = Suc limit - i"
proof -
  have "stops_at i limit" using assms by (auto simp: stops_at_def)
  then show ?thesis using run_stops_at [of i limit] assms(1,3) by simp
qed

end

section \<open>Grouping by a key\<close>

text \<open>
  A loop that appends each element to the group of its key, groups being created in order of
  first appearance.
\<close>

locale key_grouping =
  fixes key :: "'a \<Rightarrow> 'k"
    and groups :: "'a list \<Rightarrow> ('k \<times> 'a list) list"
  assumes groups_Nil: "groups [] = []"
    and groups_snoc: "groups (xs @ [x]) = push_group (key x) x (groups xs)"
begin

lemma group_keys_distinct: "distinct (map fst (groups xs))"
  by (induction xs rule: rev_induct) (auto simp: groups_Nil groups_snoc)

lemma group_keys: "set (map fst (groups xs)) = key ` set xs"
  by (induction xs rule: rev_induct) (auto simp: groups_Nil groups_snoc push_group_keys)

lemma group_content:
  "(k, ys) \<in> set (groups xs) \<longleftrightarrow> k \<in> key ` set xs \<and> ys = filter (\<lambda>x. key x = k) xs"
proof (induction xs arbitrary: ys rule: rev_induct)
  case Nil
  then show ?case by (simp add: groups_Nil)
next
  case (snoc x xs)
  have fst_keys: "fst ` set (groups xs) = key ` set xs"
    using group_keys [of xs] by simp
  show ?case
  proof (cases "k = key x")
    case True
    have "k \<notin> key ` set xs \<Longrightarrow> filter (\<lambda>z. key z = k) xs = []"
      by (auto simp: filter_empty_conv)
    then show ?thesis
      using True snoc fst_keys
      by (auto simp: groups_snoc push_group_members [OF group_keys_distinct])
  next
    case False
    then show ?thesis
      using snoc by (auto simp: groups_snoc push_group_members [OF group_keys_distinct])
  qed
qed

lemma group_nonempty: "(k, ys) \<in> set (groups xs) \<Longrightarrow> ys \<noteq> []"
  by (auto simp: group_content filter_empty_conv)

lemma group_members: "x \<in> set xs \<longleftrightarrow> (\<exists>k ys. (k, ys) \<in> set (groups xs) \<and> x \<in> set ys)"
  by (auto simp: group_content)

end

section \<open>First-write-wins ledgers\<close>

text \<open>
  A store that records the first value of every key: recording reports whether it was new, and never
  touches what is stored under a known key.  \<open>entry p\<close> is the value that \<open>p\<close> brings.
\<close>

locale first_write_ledger =
  fixes store_new :: "'p \<Rightarrow> 's \<Rightarrow> ('e + bool) \<times> 's"
    and lookup :: "'s \<Rightarrow> 'k \<Rightarrow> 'r option"
    and key :: "'p \<Rightarrow> 'k"
    and entry :: "'p \<Rightarrow> 'r option"
    and ledger_inv :: "'s \<Rightarrow> bool"
  assumes record_new: "ledger_inv s \<Longrightarrow> store_new p s = (Inr True, s') \<Longrightarrow>
      lookup s (key p) = None \<and> entry p \<noteq> None \<and> lookup s' = (lookup s)(key p := entry p)"
    and record_skip: "ledger_inv s \<Longrightarrow> store_new p s = (Inr False, s') \<Longrightarrow> lookup s' = lookup s"
    and record_raise: "ledger_inv s \<Longrightarrow> store_new p s = (Inl e, s') \<Longrightarrow> lookup s' = lookup s"
    and record_known: "ledger_inv s \<Longrightarrow> lookup s (key p) \<noteq> None \<Longrightarrow> snd (store_new p s) = s"
    and record_inv: "ledger_inv s \<Longrightarrow> ledger_inv (snd (store_new p s))"
begin

definition deliver :: "'p list \<Rightarrow> 's \<Rightarrow> 's" where
  "deliver ps s = fold (\<lambda>p s. snd (store_new p s)) ps s"

lemma deliver_simps [simp]:
  "deliver [] s = s" "deliver (p # ps) s = deliver ps (snd (store_new p s))"
  "deliver (ps @ qs) s = deliver qs (deliver ps s)"
  by (simp_all add: deliver_def)

lemma deliver_inv: "ledger_inv s \<Longrightarrow> ledger_inv (deliver ps s)"
  by (induction ps arbitrary: s) (simp_all add: record_inv)

lemma record_lookup:
  assumes "ledger_inv s"
  shows "lookup (snd (store_new p s)) =
    (if fst (store_new p s) = Inr True then (lookup s)(key p := entry p) else lookup s)"
proof -
  obtain r s' where r: "store_new p s = (r, s')" by (cases "store_new p s")
  show ?thesis
  proof (cases r)
    case (Inl e)
    then show ?thesis using r record_raise [OF assms] by simp
  next
    case (Inr b)
    then show ?thesis using r record_skip [OF assms] record_new [OF assms] by (cases b) auto
  qed
qed

text \<open>What is recorded stays as it is.\<close>

lemma lookup_stable: "ledger_inv s \<Longrightarrow> lookup s k = Some r \<Longrightarrow> lookup (deliver ps s) k = Some r"
proof (induction ps arbitrary: s)
  case (Cons p ps)
  have "lookup (snd (store_new p s)) k = Some r"
  proof (cases "k = key p")
    case True
    then show ?thesis using record_known [OF Cons.prems(1), of p] Cons.prems(2) by simp
  next
    case False
    then show ?thesis using record_lookup [OF Cons.prems(1), of p] Cons.prems(2) by simp
  qed
  then show ?case using Cons.IH [OF record_inv [OF Cons.prems(1)]] by simp
qed simp

text \<open>Delivering what is known changes nothing at all.\<close>

lemma deliver_known:
  "ledger_inv s \<Longrightarrow> (\<And>p. p \<in> set ps \<Longrightarrow> lookup s (key p) \<noteq> None) \<Longrightarrow> deliver ps s = s"
  by (induction ps) (auto simp: record_known)

text \<open>Every entry is the first delivery of its key that was accepted.\<close>

lemma deliver_origin:
  assumes "ledger_inv s" and "lookup s k = None" and "lookup (deliver ps s) k = Some r"
  shows "\<exists>pre p post. ps = pre @ p # post \<and> key p = k \<and> entry p = Some r \<and>
    lookup (deliver pre s) k = None \<and> fst (store_new p (deliver pre s)) = Inr True"
  using assms
proof (induction ps arbitrary: s)
  case (Cons p ps)
  let ?s = "snd (store_new p s)"
  show ?case
  proof (cases "lookup ?s k")
    case None
    then obtain pre q post where "ps = pre @ q # post" "key q = k" "entry q = Some r"
      "lookup (deliver pre ?s) k = None" "fst (store_new q (deliver pre ?s)) = Inr True"
      using Cons.IH [OF record_inv [OF Cons.prems(1)] None] Cons.prems(3) by auto
    then show ?thesis by (intro exI [of _ "p # pre"]) auto
  next
    case (Some r')
    then have acc: "fst (store_new p s) = Inr True" "key p = k" "entry p = Some r'"
      using record_lookup [OF Cons.prems(1), of p] Cons.prems(2) by (auto split: if_splits)
    have "r' = r" using lookup_stable [OF record_inv [OF Cons.prems(1)] Some] Cons.prems(3) by simp
    then show ?thesis using acc Cons.prems(2) by (intro exI [of _ "[]"]) auto
  qed
qed simp

text \<open>A delivery that is accepted is the one that is found afterwards.\<close>

lemma accepted_is_stored:
  assumes "ledger_inv s" and "fst (store_new p (deliver pre s)) = Inr True"
  shows "lookup (deliver (pre @ p # post) s) (key p) = entry p"
proof -
  have inv: "ledger_inv (deliver pre s)" by (rule deliver_inv [OF assms(1)])
  obtain r where r: "entry p = Some r"
    using record_new [OF inv, of p "snd (store_new p (deliver pre s))"] assms(2)
    by (cases "store_new p (deliver pre s)") auto
  have "lookup (snd (store_new p (deliver pre s))) (key p) = Some r"
    using record_lookup [OF inv, of p] assms(2) r by simp
  then show ?thesis using lookup_stable [OF record_inv [OF inv]] r by simp
qed

end

end
