(* ===== verification/Redis_Client.thy ===== *)
theory Redis_Client
  imports Contracts Py_Text
begin

text \<open>
  The Redis clients: \<^verbatim>\<open>worker-rss-scrapper/app/clients/queue/redis_queue_client.py\<close>,
  \<^verbatim>\<open>db-manager/app/clients/queue/redis_queue_client.py\<close> and
  \<^verbatim>\<open>backend/app/clients/queue/redis_queue_client.py\<close>.  The server is a parameter: what each attempt
  of a command yields, and, when the connection is lost, whether the server had executed it.  The
  JSON decoding of a payload is a parameter as well.
\<close>

section \<open>Commands and their outcomes\<close>

datatype 'a redis_outcome =
    Replied 'a
  | LostConnection bool string
  | ResponseError string
  | BrokeOtherwise string

fun executed :: "'a redis_outcome \<Rightarrow> bool" where
  "executed (Replied a) = True"
| "executed (LostConnection done m) = done"
| "executed (ResponseError m) = False"
| "executed (BrokeOtherwise m) = False"

text \<open>What a client function raises: the service's queue error, or the exception of the library.\<close>

datatype redis_exn = QueueError string | RedisResponseError string | OtherRedisError string

text \<open>The module's cached client: its number, and the number the next one gets.\<close>

record redis_cache =
  cached_client :: "nat option"
  next_client :: nat
  closed_clients :: "nat list"

definition get_redis_client :: "redis_cache \<Rightarrow> nat \<times> redis_cache" where
  "get_redis_client c = (case cached_client c of
     Some client \<Rightarrow> (client, c)
   | None \<Rightarrow> (next_client c,
       c\<lparr>cached_client := Some (next_client c), next_client := Suc (next_client c)\<rparr>))"

text \<open>Closing may raise, which is swallowed.\<close>

definition reset_redis_client :: "nat \<Rightarrow> redis_cache \<Rightarrow> redis_cache" where
  "reset_redis_client client c =
     (let c' = (if cached_client c = Some client then c\<lparr>cached_client := None\<rparr> else c)
      in c'\<lparr>closed_clients := closed_clients c' @ [client]\<rparr>)"

definition REDIS_COMMAND_MAX_ATTEMPTS :: nat where
  "REDIS_COMMAND_MAX_ATTEMPTS = 2"

section \<open>A command with reconnection\<close>

text \<open>
  A command gives the outcome of an attempt, by its number and its client.  The loop returns the
  result, the attempts it made with the clients used, and the cache.
\<close>

function redis_command_loop ::
  "string \<Rightarrow> (nat \<Rightarrow> nat \<Rightarrow> 'a redis_outcome) \<Rightarrow> nat \<Rightarrow> redis_cache
     \<Rightarrow> (redis_exn + 'a) \<times> (nat \<times> nat) list \<times> redis_cache" where
  "redis_command_loop command_name command attempt c =
     (case get_redis_client c of (client, c1) \<Rightarrow>
        (case command attempt client of
           Replied a \<Rightarrow> (Inr a, [(attempt, client)], c1)
         | ResponseError m \<Rightarrow> (Inl (RedisResponseError m), [(attempt, client)], c1)
         | BrokeOtherwise m \<Rightarrow> (Inl (OtherRedisError m), [(attempt, client)], c1)
         | LostConnection _ m \<Rightarrow>
             (let c2 = reset_redis_client client c1 in
              if REDIS_COMMAND_MAX_ATTEMPTS \<le> attempt
              then (Inl (QueueError (''Redis command '' @ [CHR 0x27] @ command_name @ [CHR 0x27] @
                      '' failed after reconnect: '' @ m)), [(attempt, client)], c2)
              else (case redis_command_loop command_name command (Suc attempt) c2 of
                      (res, attempts, c3) \<Rightarrow> (res, (attempt, client) # attempts, c3)))))"
  by pat_completeness auto
termination
  by (relation "measure (\<lambda>(_, _, attempt, _). REDIS_COMMAND_MAX_ATTEMPTS - attempt)") auto

declare redis_command_loop.simps [simp del]

definition run_redis_command ::
  "string \<Rightarrow> (nat \<Rightarrow> nat \<Rightarrow> 'a redis_outcome) \<Rightarrow> redis_cache
     \<Rightarrow> (redis_exn + 'a) \<times> (nat \<times> nat) list \<times> redis_cache" where
  "run_redis_command command_name command c = redis_command_loop command_name command 1 c"

text \<open>How often the server executed the command.\<close>

definition executions :: "(nat \<Rightarrow> nat \<Rightarrow> 'a redis_outcome) \<Rightarrow> (nat \<times> nat) list \<Rightarrow> nat" where
  "executions command attempts = length (filter (\<lambda>(i, client). executed (command i client)) attempts)"

lemma fresh_client:
  assumes "get_redis_client c = (client, c1)"
    and "get_redis_client (reset_redis_client client c1) = (client', c2)"
    and "\<forall>k. cached_client c = Some k \<longrightarrow> k < next_client c"
  shows "client' \<noteq> client"
  using assms
  by (auto simp: get_redis_client_def reset_redis_client_def Let_def split: option.splits if_splits)

lemma redis_loop_last:
  "redis_command_loop command_name command REDIS_COMMAND_MAX_ATTEMPTS c =
    (case get_redis_client c of (client, c1) \<Rightarrow>
       ((case command REDIS_COMMAND_MAX_ATTEMPTS client of
           Replied a \<Rightarrow> Inr a
         | ResponseError m \<Rightarrow> Inl (RedisResponseError m)
         | BrokeOtherwise m \<Rightarrow> Inl (OtherRedisError m)
         | LostConnection _ m \<Rightarrow> Inl (QueueError (''Redis command '' @ [CHR 0x27] @ command_name @
             [CHR 0x27] @ '' failed after reconnect: '' @ m))),
        [(REDIS_COMMAND_MAX_ATTEMPTS, client)],
        (if (\<exists>b m. command REDIS_COMMAND_MAX_ATTEMPTS client = LostConnection b m)
         then reset_redis_client client c1 else c1)))"
  by (auto simp: redis_command_loop.simps [of _ _ REDIS_COMMAND_MAX_ATTEMPTS] Let_def
      split: prod.splits redis_outcome.splits)

text \<open>One command as a bounded retry: outcomes along the clients the loop uses.\<close>

definition nth_cache :: "redis_cache \<Rightarrow> nat \<Rightarrow> redis_cache" where
  "nth_cache c i = (if i \<le> 1 then c
     else (case get_redis_client c of (client, c1) \<Rightarrow> reset_redis_client client c1))"

definition redis_attempt ::
  "string \<Rightarrow> (nat \<Rightarrow> nat \<Rightarrow> 'a redis_outcome) \<Rightarrow> redis_cache \<Rightarrow> nat \<Rightarrow> ('a, redis_exn) attempt" where
  "redis_attempt command_name command c i =
     (case command i (fst (get_redis_client (nth_cache c i))) of
        Replied a \<Rightarrow> Done a
      | ResponseError m \<Rightarrow> Fatal (RedisResponseError m)
      | BrokeOtherwise m \<Rightarrow> Fatal (OtherRedisError m)
      | LostConnection _ m \<Rightarrow> Retryable (QueueError (''Redis command '' @ [CHR 0x27] @ command_name @
             [CHR 0x27] @ '' failed after reconnect: '' @ m)))"

definition redis_run ::
  "string \<Rightarrow> (nat \<Rightarrow> nat \<Rightarrow> 'a redis_outcome) \<Rightarrow> redis_cache \<Rightarrow> nat \<Rightarrow> (redis_exn + 'a) \<times> nat list" where
  "redis_run command_name command c i =
     (case redis_command_loop command_name command i (nth_cache c i) of
        (res, attempts, _) \<Rightarrow> (res, map fst attempts))"

lemma nth_cache_Suc:
  assumes "1 \<le> i" and "i < REDIS_COMMAND_MAX_ATTEMPTS" and "get_redis_client (nth_cache c i) = (k, c1)"
  shows "nth_cache c (Suc i) = reset_redis_client k c1"
proof -
  have "i = 1" using assms(1,2) by (simp add: REDIS_COMMAND_MAX_ATTEMPTS_def)
  then show ?thesis using assms(3) by (simp add: nth_cache_def)
qed

text \<open>Attempts are numbered from 1; an attempt 0, which the loop does not make, is a copy of the first.\<close>

definition numbered :: "(nat \<Rightarrow> 'b) \<Rightarrow> nat \<Rightarrow> 'b" where
  "numbered f i = f (Suc i)"

interpretation redis_retry:
  bounded_retry "REDIS_COMMAND_MAX_ATTEMPTS - 1" "numbered (redis_attempt command_name command c)" id id
    "\<lambda>i. (fst (redis_run command_name command c (Suc i)),
          map (\<lambda>n. n - 1) (snd (redis_run command_name command c (Suc i))))"
  for command_name command c
proof
  fix i e
  assume "i < REDIS_COMMAND_MAX_ATTEMPTS - 1"
    and "numbered (redis_attempt command_name command c) i = Retryable e"
  then show "(fst (redis_run command_name command c (Suc i)),
      map (\<lambda>n. n - 1) (snd (redis_run command_name command c (Suc i)))) =
    (fst (fst (redis_run command_name command c (Suc (Suc i))),
       map (\<lambda>n. n - 1) (snd (redis_run command_name command c (Suc (Suc i))))),
     i # snd (fst (redis_run command_name command c (Suc (Suc i))),
       map (\<lambda>n. n - 1) (snd (redis_run command_name command c (Suc (Suc i))))))"
    by (cases "get_redis_client (nth_cache c (Suc i))")
      (auto simp: redis_run_def numbered_def redis_attempt_def nth_cache_Suc Let_def
        redis_command_loop.simps [of _ _ "Suc i"] split: redis_outcome.splits prod.splits)
qed (auto simp: redis_run_def numbered_def redis_attempt_def REDIS_COMMAND_MAX_ATTEMPTS_def
    redis_command_loop.simps [of _ _ "Suc _"] Let_def
    split: redis_outcome.splits prod.splits)

text \<open>The two shapes of a run.\<close>

lemma run_redis_commandE:
  assumes "run_redis_command command_name command c = (res, attempts, c')"
  obtains (first) k c1 where "get_redis_client c = (k, c1)" "attempts = [(1, k)]"
      "\<forall>b m. command 1 k \<noteq> LostConnection b m" "c' = c1"
      "res = (case command 1 k of Replied a \<Rightarrow> Inr a | ResponseError m \<Rightarrow> Inl (RedisResponseError m)
         | BrokeOtherwise m \<Rightarrow> Inl (OtherRedisError m) | LostConnection b m \<Rightarrow> res)"
  | (second) k c1 k' c2 b m where "get_redis_client c = (k, c1)" "command 1 k = LostConnection b m"
      "get_redis_client (reset_redis_client k c1) = (k', c2)" "attempts = [(1, k), (2, k')]"
      "res = (case command 2 k' of Replied a \<Rightarrow> Inr a | ResponseError m \<Rightarrow> Inl (RedisResponseError m)
         | BrokeOtherwise m \<Rightarrow> Inl (OtherRedisError m)
         | LostConnection _ m \<Rightarrow> Inl (QueueError (''Redis command '' @ [CHR 0x27] @ command_name @
             [CHR 0x27] @ '' failed after reconnect: '' @ m)))"
proof -
  obtain k c1 where k: "get_redis_client c = (k, c1)" by (cases "get_redis_client c")
  obtain k' c2 where k': "get_redis_client (reset_redis_client k c1) = (k', c2)"
    by (cases "get_redis_client (reset_redis_client k c1)")
  have last: "redis_command_loop command_name command 2 (reset_redis_client k c1) =
      ((case command 2 k' of Replied a \<Rightarrow> Inr a | ResponseError m \<Rightarrow> Inl (RedisResponseError m)
         | BrokeOtherwise m \<Rightarrow> Inl (OtherRedisError m)
         | LostConnection _ m \<Rightarrow> Inl (QueueError (''Redis command '' @ [CHR 0x27] @ command_name @
             [CHR 0x27] @ '' failed after reconnect: '' @ m))),
       [(2, k')],
       (if \<exists>b m. command 2 k' = LostConnection b m then reset_redis_client k' c2 else c2))"
    using redis_loop_last [of command_name command "reset_redis_client k c1"] k'
    by (simp add: REDIS_COMMAND_MAX_ATTEMPTS_def)
  show ?thesis
  proof (cases "command 1 k")
    case (LostConnection b m)
    then show ?thesis
      using assms k k' last second
      by (auto simp: run_redis_command_def redis_command_loop.simps [of command_name command "Suc 0" c]
          REDIS_COMMAND_MAX_ATTEMPTS_def numeral_2_eq_2)
  qed (use assms k first in
      \<open>auto simp: run_redis_command_def redis_command_loop.simps [of command_name command "Suc 0" c]\<close>)
qed

definition wf_cache :: "redis_cache \<Rightarrow> bool" where
  "wf_cache c \<longleftrightarrow> (\<forall>k. cached_client c = Some k \<longrightarrow> k < next_client c)"

section \<open>Consumer groups\<close>

fun str_contains :: "string \<Rightarrow> string \<Rightarrow> bool" where
  "str_contains needle [] = (needle = [])"
| "str_contains needle (c # cs) = (starts_with needle (c # cs) \<or> str_contains needle cs)"

text \<open>
  \<^verbatim>\<open>ensure_worker_consumer_group\<close>, and one pass of the loop of \<^verbatim>\<open>ensure_consumer_groups\<close> of the
  db-manager: an existing group is not an error.  \<open>what\<close> is the text of the raised error.
\<close>

definition create_group ::
  "string \<Rightarrow> (nat \<Rightarrow> nat \<Rightarrow> unit redis_outcome) \<Rightarrow> redis_cache \<Rightarrow> (redis_exn + unit) \<times> redis_cache" where
  "create_group what xgroup_create c =
     (case run_redis_command ''xgroup_create'' xgroup_create c of
        (Inl (RedisResponseError m), _, c') \<Rightarrow>
          (if str_contains ''BUSYGROUP'' m then Inr () else Inl (QueueError (what @ '': '' @ m)), c')
      | (res, _, c') \<Rightarrow> (res, c'))"

definition ensure_worker_consumer_group ::
  "(nat \<Rightarrow> nat \<Rightarrow> unit redis_outcome) \<Rightarrow> redis_cache \<Rightarrow> (redis_exn + unit) \<times> redis_cache" where
  "ensure_worker_consumer_group xgroup_create c =
     create_group ''Unable to create worker consumer group'' xgroup_create c"

fun ensure_consumer_groups ::
  "(string \<Rightarrow> nat \<Rightarrow> nat \<Rightarrow> unit redis_outcome) \<Rightarrow> string list \<Rightarrow> redis_cache
     \<Rightarrow> (redis_exn + unit) \<times> redis_cache" where
  "ensure_consumer_groups xgroup_create [] c = (Inr (), c)"
| "ensure_consumer_groups xgroup_create (stream # streams) c =
     (case create_group (''Unable to create db_manager consumer group for stream '' @ stream)
             (xgroup_create stream) c of
        (Inl e, c') \<Rightarrow> (Inl e, c')
      | (Inr (), c') \<Rightarrow> ensure_consumer_groups xgroup_create streams c')"

definition db_manager_streams :: "string list" where
  "db_manager_streams = [''rss_check_results'', ''rss_ingest_results'', ''error_feeds_parsing'']"

section \<open>Reading\<close>

text \<open>
  A record of \<^verbatim>\<open>xreadgroup\<close>: the stream, and the identifiers and fields of its messages; the
  payload field is absent, empty, or text that decodes or does not.  An empty payload is
  falsy and counts as absent.
\<close>

type_synonym stream_records = "(string \<times> (string \<times> (string \<rightharpoonup> string)) list) list"

definition payload_field :: "(string \<rightharpoonup> string) \<Rightarrow> string option" where
  "payload_field entry = (case entry ''payload'' of
     None \<Rightarrow> None | Some raw \<Rightarrow> if raw = [] then None else Some raw)"

fun decode_messages ::
  "(string \<Rightarrow> string + 'p) \<Rightarrow> string \<Rightarrow> string \<Rightarrow> (string \<times> (string \<rightharpoonup> string)) list
     \<Rightarrow> redis_exn + (string \<times> string \<times> 'p) list" where
  "decode_messages loads what stream [] = Inr []"
| "decode_messages loads what stream ((message_id, entry) # ms) =
     (case payload_field entry of
        None \<Rightarrow> decode_messages loads what stream ms
      | Some raw \<Rightarrow>
          (case loads raw of
             Inl m \<Rightarrow> Inl (QueueError (what @ '': '' @ m))
           | Inr payload \<Rightarrow> and_then (decode_messages loads what stream ms)
               (\<lambda>rest. Inr ((stream, message_id, payload) # rest))))"

fun decode_records ::
  "(string \<Rightarrow> string + 'p) \<Rightarrow> string \<Rightarrow> stream_records \<Rightarrow> redis_exn + (string \<times> string \<times> 'p) list" where
  "decode_records loads what [] = Inr []"
| "decode_records loads what ((stream, ms) # rs) =
     and_then (decode_messages loads what stream ms) (\<lambda>xs.
       and_then (decode_records loads what rs) (\<lambda>ys. Inr (xs @ ys)))"

definition read_scrape_jobs ::
  "(string \<Rightarrow> string + 'p) \<Rightarrow> (nat \<Rightarrow> nat \<Rightarrow> stream_records redis_outcome)
     \<Rightarrow> (nat \<Rightarrow> nat \<Rightarrow> unit redis_outcome) \<Rightarrow> redis_cache
     \<Rightarrow> (redis_exn + (string \<times> 'p) list) \<times> redis_cache" where
  "read_scrape_jobs loads xreadgroup xgroup_create c =
     (case run_redis_command ''xreadgroup'' xreadgroup c of
        (Inl (RedisResponseError m), _, c') \<Rightarrow>
          if str_contains ''NOGROUP'' m
          then (case ensure_worker_consumer_group xgroup_create c' of
                  (Inl e, c'') \<Rightarrow> (Inl e, c'') | (Inr (), c'') \<Rightarrow> (Inr [], c''))
          else (Inl (QueueError (''Unable to read scrape jobs: '' @ m)), c')
      | (Inl e, _, c') \<Rightarrow> (Inl e, c')
      | (Inr records, _, c') \<Rightarrow>
          (and_then (decode_records loads ''Invalid queue payload'' records)
             (\<lambda>jobs. Inr (map snd jobs)), c'))"

definition read_worker_results ::
  "(string \<Rightarrow> string + 'p) \<Rightarrow> (nat \<Rightarrow> nat \<Rightarrow> stream_records redis_outcome)
     \<Rightarrow> (string \<Rightarrow> nat \<Rightarrow> nat \<Rightarrow> unit redis_outcome) \<Rightarrow> redis_cache
     \<Rightarrow> (redis_exn + (string \<times> string \<times> 'p) list) \<times> redis_cache" where
  "read_worker_results loads xreadgroup xgroup_create c =
     (case run_redis_command ''xreadgroup'' xreadgroup c of
        (Inl (RedisResponseError m), _, c') \<Rightarrow>
          if str_contains ''NOGROUP'' m
          then (case ensure_consumer_groups xgroup_create db_manager_streams c' of
                  (Inl e, c'') \<Rightarrow> (Inl e, c'') | (Inr (), c'') \<Rightarrow> (Inr [], c''))
          else (Inl (QueueError (''Unable to read worker results: '' @ m)), c')
      | (Inl e, _, c') \<Rightarrow> (Inl e, c')
      | (Inr records, _, c') \<Rightarrow> (decode_records loads ''Invalid result payload'' records, c'))"

section \<open>Publishing and acknowledging\<close>

text \<open>The appended entries are the executions of the command; see \<^verbatim>\<open>executions\<close>.\<close>

definition publish_payload ::
  "string \<Rightarrow> (nat \<Rightarrow> nat \<Rightarrow> unit redis_outcome) \<Rightarrow> redis_cache
     \<Rightarrow> (redis_exn + unit) \<times> nat \<times> redis_cache" where
  "publish_payload stream_name xadd c =
     (case run_redis_command ''xadd'' xadd c of
        (res, attempts, c') \<Rightarrow>
          ((case res of
              Inl (RedisResponseError m) \<Rightarrow>
                Inl (QueueError (''Unable to publish result to '' @ stream_name @ '': '' @ m))
            | _ \<Rightarrow> res),
           executions xadd attempts, c'))"

definition ack_message ::
  "string \<Rightarrow> string \<Rightarrow> (nat \<Rightarrow> nat \<Rightarrow> unit redis_outcome) \<Rightarrow> redis_cache
     \<Rightarrow> (redis_exn + unit) \<times> nat \<times> redis_cache" where
  "ack_message what message_id xack c =
     (case run_redis_command ''xack'' xack c of
        (res, attempts, c') \<Rightarrow>
          ((case res of
              Inl (RedisResponseError m) \<Rightarrow>
                Inl (QueueError (''Unable to ack '' @ what @ '' '' @ message_id @ '': '' @ m))
            | _ \<Rightarrow> res),
           executions xack attempts, c'))"

definition ack_scrape_job ::
  "string \<Rightarrow> (nat \<Rightarrow> nat \<Rightarrow> unit redis_outcome) \<Rightarrow> redis_cache \<Rightarrow> (redis_exn + unit) \<times> nat \<times> redis_cache" where
  "ack_scrape_job message_id xack c = ack_message ''scrape job'' message_id xack c"

definition ack_worker_result ::
  "string \<Rightarrow> (nat \<Rightarrow> nat \<Rightarrow> unit redis_outcome) \<Rightarrow> redis_cache \<Rightarrow> (redis_exn + unit) \<times> nat \<times> redis_cache" where
  "ack_worker_result message_id xack c = ack_message ''worker result'' message_id xack c"

text \<open>The backend publishes without a retry: the first outcome is the result.\<close>

definition publish_rss_scrape_job :: "'a redis_outcome \<Rightarrow> redis_exn + 'a" where
  "publish_rss_scrape_job xadd = (case xadd of
     Replied message_id \<Rightarrow> Inr message_id
   | LostConnection _ m \<Rightarrow> Inl (OtherRedisError m)
   | ResponseError m \<Rightarrow> Inl (RedisResponseError m)
   | BrokeOtherwise m \<Rightarrow> Inl (OtherRedisError m))"

section \<open>Facts\<close>

lemma executions_Inr:
  assumes "run_redis_command command_name command c = (Inr a, attempts, c')"
  shows "1 \<le> executions command attempts \<and> executions command attempts \<le> 2"
  using assms
proof (cases rule: run_redis_commandE)
  case (first k c1)
  then show ?thesis by (cases "command 1 k") (auto simp: executions_def)
next
  case (second k c1 k' c2 b m)
  then show ?thesis by (cases "command 2 k'") (auto simp: executions_def)
qed

lemma executions_le: 
  assumes "run_redis_command command_name command c = (res, attempts, c')"
  shows "executions command attempts \<le> 2"
  using assms
  by (cases rule: run_redis_commandE) (auto simp: executions_def)

lemma publish_payload_executions:
  assumes "publish_payload stream xadd c = (res, n, c')"
  shows "n \<le> 2 \<and> (res = Inr () \<longrightarrow> 1 \<le> n)"
proof -
  obtain r attempts c'' where run: "run_redis_command ''xadd'' xadd c = (r, attempts, c'')"
    by (cases "run_redis_command ''xadd'' xadd c") auto
  then show ?thesis
    using assms executions_le [OF run] executions_Inr [of "''xadd''" xadd c _ attempts c'']
    by (auto simp: publish_payload_def split: sum.splits redis_exn.splits)
qed

text \<open>Decoding: what is returned, and when it raises.\<close>

definition decoded :: "(string \<Rightarrow> string + 'p) \<Rightarrow> stream_records \<Rightarrow> (string \<times> string \<times> 'p) list" where
  "decoded loads rs = concat (map (\<lambda>(stream, ms). List.map_filter (\<lambda>(i, entry).
     case payload_field entry of None \<Rightarrow> None
     | Some raw \<Rightarrow> (case loads raw of Inl _ \<Rightarrow> None | Inr p \<Rightarrow> Some (stream, i, p))) ms) rs)"

definition undecodable :: "(string \<Rightarrow> string + 'p) \<Rightarrow> (string \<rightharpoonup> string) \<Rightarrow> bool" where
  "undecodable loads entry \<longleftrightarrow> (case payload_field entry of None \<Rightarrow> False | Some raw \<Rightarrow> isl (loads raw))"

lemma decode_messages_spec:
  "decode_messages loads what stream ms = Inr xs \<longleftrightarrow>
    (\<forall>(i, entry)\<in>set ms. \<not> undecodable loads entry) \<and> xs = decoded loads [(stream, ms)]"
proof (induction ms arbitrary: xs)
  case Nil
  then show ?case by (auto simp: decoded_def List.map_filter_simps)
next
  case (Cons m ms)
  obtain i entry where m: "m = (i, entry)" by (cases m)
  show ?case
  proof (cases "payload_field entry")
    case None
    then show ?thesis using Cons m
      by (simp add: decoded_def undecodable_def List.map_filter_simps)
  next
    case (Some raw)
    then show ?thesis using Cons m
      by (cases "loads raw")
        (auto simp: decoded_def undecodable_def List.map_filter_simps and_then_eq_Inr)
  qed
qed

lemma decode_records_spec:
  "decode_records loads what rs = Inr xs \<longleftrightarrow>
    (\<forall>(stream, ms)\<in>set rs. \<forall>(i, entry)\<in>set ms. \<not> undecodable loads entry) \<and> xs = decoded loads rs"
proof (induction rs arbitrary: xs)
  case Nil
  then show ?case by (auto simp: decoded_def)
next
  case (Cons r rs)
  obtain stream ms where r: "r = (stream, ms)" by (cases r)
  have "decoded loads (r # rs) = decoded loads [(stream, ms)] @ decoded loads rs"
    by (simp add: decoded_def r)
  then show ?case using Cons r by (auto simp: and_then_eq_Inr decode_messages_spec)
qed

section \<open>Properties\<close>

text \<open>
  C11: a Redis command is attempted at most twice, the second time only after a lost connection and
  never on the client that lost it; when it returns, the server has executed it once or twice (so a
  published message may be there twice, but not never), at most twice otherwise; and the queue error
  of the retry loop means that every attempt lost its connection.
\<close>

theorem redis_command_reconnects:
  assumes "run_redis_command command_name command c = (res, attempts, c')" and "wf_cache c"
  shows "map fst attempts = [1..<Suc (length attempts)] \<and> length attempts \<le> 2 \<and>
    distinct (map snd attempts) \<and>
    (length attempts = 2 \<longrightarrow> (\<exists>b m. command 1 (snd (hd attempts)) = LostConnection b m)) \<and>
    executions command attempts \<le> 2 \<and> (\<forall>a. res = Inr a \<longrightarrow> 1 \<le> executions command attempts) \<and>
    (\<forall>m. res = Inl (QueueError m) \<longrightarrow>
       length attempts = 2 \<and> (\<forall>(i, k)\<in>set attempts. \<exists>b m. command i k = LostConnection b m))"
proof -
  have runs: "executions command attempts \<le> 2" "\<forall>a. res = Inr a \<longrightarrow> 1 \<le> executions command attempts"
    using executions_le [OF assms(1)] executions_Inr [of command_name command c _ attempts c'] assms(1)
    by auto
  show ?thesis
    using assms(1)
  proof (cases rule: run_redis_commandE)
    case (first k c1)
    then show ?thesis using runs by (cases "command 1 k") auto
  next
    case (second k c1 k' c2 b m)
    have "k' \<noteq> k"
      by (rule fresh_client [OF second(1,3)]) (use assms(2) in \<open>simp add: wf_cache_def\<close>)
    then show ?thesis using runs second
      by (cases "command 2 k'") (auto simp: upt_conv_Cons)
  qed
qed

definition empty_cache :: redis_cache where
  "empty_cache = \<lparr>cached_client = None, next_client = 0, closed_clients = []\<rparr>"

definition sample_xadd :: "nat \<Rightarrow> nat \<Rightarrow> unit redis_outcome" where
  "sample_xadd attempt client = (if client = 0 then LostConnection True ''lost'' else Replied ())"

theorem redis_command_reconnects_witness:
  "case run_redis_command ''xadd'' sample_xadd empty_cache of
     (res, attempts, _) \<Rightarrow> executions sample_xadd attempts = 2 \<and> distinct (map snd attempts)"
proof -
  obtain c' where run: "run_redis_command ''xadd'' sample_xadd empty_cache = (Inr (), [(1, 0), (2, 1)], c')"
    by (simp add: run_redis_command_def redis_command_loop.simps [of _ _ "Suc _"] sample_xadd_def
        empty_cache_def get_redis_client_def reset_redis_client_def REDIS_COMMAND_MAX_ATTEMPTS_def)
  have "wf_cache empty_cache" by (simp add: wf_cache_def empty_cache_def)
  then have "distinct (map snd [(1 :: nat, 0 :: nat), (2, 1)])"
    using redis_command_reconnects [OF run] by blast
  moreover have "executions sample_xadd [(1, 0), (2, 1)] = 2"
    by (simp add: executions_def sample_xadd_def)
  ultimately show ?thesis unfolding run by (simp only: prod.case simp_thms)
qed

text \<open>
  Reading is all or nothing.  A read that got records returns every message with a payload, in
  order, exactly when all of those payloads decode; one that does not decode makes the whole read
  raise, and with it hides the other messages, which the server has already marked as delivered.
\<close>

theorem read_is_all_or_nothing:
  assumes "run_redis_command ''xreadgroup'' xreadgroup c = (Inr records, attempts, c')"
  shows "(fst (read_worker_results loads xreadgroup creates c) = Inr results \<longleftrightarrow>
      (\<forall>(stream, ms)\<in>set records. \<forall>(i, entry)\<in>set ms. \<not> undecodable loads entry) \<and>
      results = decoded loads records) \<and>
    (fst (read_scrape_jobs loads xreadgroup create c) = Inr jobs \<longleftrightarrow>
      (\<forall>(stream, ms)\<in>set records. \<forall>(i, entry)\<in>set ms. \<not> undecodable loads entry) \<and>
      jobs = map snd (decoded loads records))"
  using assms
  by (auto simp: read_worker_results_def read_scrape_jobs_def and_then_eq_Inr decode_records_spec)

definition sample_records :: stream_records where
  "sample_records = [(''s'', [(''1'', [''payload'' \<mapsto> ''x'']), (''2'', Map.empty), (''3'', [''payload'' \<mapsto> ''!''])])]"

theorem read_is_all_or_nothing_witness:
  "isl (fst (read_scrape_jobs (\<lambda>s. if s = ''!'' then Inl ''bad'' else Inr s)
     (\<lambda>_ _. Replied sample_records) (\<lambda>_ _. Replied ()) empty_cache))"
  (is "isl (fst (read_scrape_jobs ?loads ?read ?create _))")
proof -
  obtain attempts c' where
    run: "run_redis_command ''xreadgroup'' ?read empty_cache = (Inr sample_records, attempts, c')"
    by (simp add: run_redis_command_def redis_command_loop.simps [of _ _ "Suc _"]
        get_redis_client_def empty_cache_def)
  have "undecodable ?loads [''payload'' \<mapsto> ''!'']"
    by (simp add: undecodable_def payload_field_def)
  then have "fst (read_scrape_jobs ?loads ?read ?create empty_cache) \<noteq> Inr jobs" for jobs
    using read_is_all_or_nothing [OF run, of ?loads _ _ ?create jobs]
    by (auto simp: sample_records_def)
  then show ?thesis by (cases "fst (read_scrape_jobs ?loads ?read ?create empty_cache)") auto
qed

end
