(* ===== verification/Result_Store.thy ===== *)
theory Result_Store
  imports Database Redis_Client
begin

text \<open>
  The persistence of worker results: \<^verbatim>\<open>rss_scraping_db_client.py\<close>, \<^verbatim>\<open>source_ingest_db_client.py\<close>,
  \<^verbatim>\<open>result_persistence_service.py\<close> and the domain functions of \<^verbatim>\<open>db-manager/app\<close>, and the processing
  of a message of \<^verbatim>\<open>result_consumer_service.py\<close>.
\<close>

section \<open>Domain functions\<close>

definition resolve_queue_kind :: "string \<Rightarrow> string \<Rightarrow> string \<Rightarrow> string \<Rightarrow> string" where
  "resolve_queue_kind stream_name check_stream ingest_stream error_stream =
     (if stream_name = check_stream then ''check''
      else if stream_name = ingest_stream then ''ingest''
      else if stream_name = error_stream then ''error''
      else ''error'')"

definition build_idempotency_key :: "scrape_result \<Rightarrow> string \<times> int" where
  "build_idempotency_key payload = (res_job_id payload, res_feed_id payload)"

fun status_text :: "result_status \<Rightarrow> string" where
  "status_text Success = ''success''"
| "status_text NotModified = ''not_modified''"
| "status_text ResultError = ''error''"

section \<open>The result of a feed\<close>

definition result_key :: "result_row \<Rightarrow> string \<times> int" where
  "result_key r = (rr_job_id r, rr_feed_id r)"

text \<open>The row of a payload, its values converted to the types of the columns.\<close>

definition result_row_of :: "scrape_result \<Rightarrow> string \<Rightarrow> py_exn + result_row" where
  "result_row_of payload queue_kind =
     and_then (varchar 36 (res_job_id payload)) (\<lambda>job_id.
     and_then (int4 (res_feed_id payload)) (\<lambda>feed_id.
     and_then (nullable (varchar 255) (res_new_etag payload)) (\<lambda>etag.
       if queue_kind \<in> {''check'', ''ingest'', ''error''}
       then Inr \<lparr>rr_job_id = job_id, rr_feed_id = feed_id, rr_status = status_text (res_status payload),
                 rr_queue_kind = queue_kind, rr_error_message = res_error_message payload,
                 rr_fetchprotection = Some (res_fetchprotection payload), rr_new_etag = etag,
                 rr_new_last_update = map_option instant (res_new_last_update payload)\<rparr>
       else Inl (OtherException ''CheckViolation''))))"

definition insert_job_result_if_new :: "scrape_result \<Rightarrow> string \<Rightarrow> bool sql" where
  "insert_job_result_if_new payload queue_kind db =
     (case sql_texts [Some (res_job_id payload), res_error_message payload, res_new_etag payload] of
        Inl e \<Rightarrow> (Inl e, db)
      | Inr _ \<Rightarrow>
          if res_job_id payload \<notin> keys_of jb_job_id (db_jobs db) then (Inr False, db)
          else (case result_row_of payload queue_kind of
                  Inl e \<Rightarrow> (Inl e, db)
                | Inr row \<Rightarrow>
                    if result_key row \<in> keys_of result_key (db_results db) then (Inr False, db)
                    else if rr_feed_id row \<notin> keys_of fd_id (db_feeds db)
                    then (Inl (OtherException ''ForeignKeyViolation''), db)
                    else (Inr True, db\<lparr>db_results := db_results db @ [row]\<rparr>)))"

section \<open>The scraping state of a feed\<close>

text \<open>The row of a payload as the statement would insert it.\<close>

definition scraping_row_of :: "scrape_result \<Rightarrow> py_exn + scraping_row" where
  "scraping_row_of payload =
     (let is_error = (res_status payload = ResultError);
          error_msg = (if is_error then res_error_message payload else None)
      in and_then (sql_texts [res_new_etag payload, error_msg]) (\<lambda>_.
         and_then (int4 (res_feed_id payload)) (\<lambda>feed_id.
         and_then (nullable (varchar 255) (res_new_etag payload)) (\<lambda>etag.
           Inr \<lparr>sc_feed_id = feed_id, sc_fetchprotection = res_fetchprotection payload,
                sc_last_update = map_option instant (res_new_last_update payload),
                sc_etag = etag, sc_error_nbr = (if is_error then 1 else 0),
                sc_error_msg = error_msg\<rparr>))))"

text \<open>The row of the conflict, updated: a missing date or tag keeps the stored one.\<close>

definition scraping_update :: "scraping_row \<Rightarrow> int \<Rightarrow> scraping_row \<Rightarrow> scraping_row" where
  "scraping_update excluded error_nbr row =
     row\<lparr>sc_fetchprotection := sc_fetchprotection excluded,
         sc_last_update := coalesce (sc_last_update excluded) (sc_last_update row),
         sc_etag := coalesce (sc_etag excluded) (sc_etag row),
         sc_error_nbr := error_nbr,
         sc_error_msg := sc_error_msg excluded\<rparr>"

definition upsert_feed_scraping_state :: "scrape_result \<Rightarrow> unit sql" where
  "upsert_feed_scraping_state payload db =
     (case scraping_row_of payload of
        Inl e \<Rightarrow> (Inl e, db)
      | Inr excluded \<Rightarrow>
          (case row_with sc_feed_id (sc_feed_id excluded) (db_scrapings db) of
             None \<Rightarrow>
               if sc_feed_id excluded \<notin> keys_of fd_id (db_feeds db)
               then (Inl (OtherException ''ForeignKeyViolation''), db)
               else (Inr (), db\<lparr>db_scrapings := db_scrapings db @ [excluded]\<rparr>)
           | Some old \<Rightarrow>
               (case (if res_status payload = ResultError then int4 (sc_error_nbr old + 1)
                      else Inr (sc_error_nbr old)) of
                  Inl e \<Rightarrow> (Inl e, db)
                | Inr error_nbr \<Rightarrow>
                    (Inr (), db\<lparr>db_scrapings := update_row sc_feed_id (sc_feed_id excluded)
                       (scraping_update excluded error_nbr) (db_scrapings db)\<rparr>))))"

section \<open>The status of a job\<close>

definition job_status_of :: "int \<Rightarrow> int \<Rightarrow> int \<Rightarrow> string" where
  "job_status_of feed_count processed_count error_count =
     (if feed_count = 0 then ''completed''
      else if processed_count = 0 then ''queued''
      else if processed_count < feed_count then ''processing''
      else if 0 < error_count then ''completed_with_errors''
      else ''completed'')"

definition job_results :: "string \<Rightarrow> database \<Rightarrow> result_row list" where
  "job_results job_id db = filter (\<lambda>r. rr_job_id r = job_id) (db_results db)"

text \<open>\<open>now\<close> is the time of the transaction.\<close>

definition refresh_rss_scrape_job_status :: "int \<Rightarrow> string \<Rightarrow> unit sql" where
  "refresh_rss_scrape_job_status now job_id db =
     (case sql_texts [Some job_id] of
        Inl e \<Rightarrow> (Inl e, db)
      | Inr _ \<Rightarrow>
          (case row_with jb_job_id job_id (db_jobs db) of
             None \<Rightarrow> (Inr (), db)
           | Some job \<Rightarrow>
               (let processed_count = int (length (job_results job_id db));
                    error_count = int (length (filter (\<lambda>r. rr_status r = ''error'') (job_results job_id db)));
                    status = job_status_of (jb_feed_count job) processed_count error_count
                in (Inr (), db\<lparr>db_jobs := update_row jb_job_id job_id
                      (\<lambda>row. row\<lparr>jb_status := status, jb_updated_at := now\<rparr>) (db_jobs db)\<rparr>))))"

section \<open>Articles\<close>

definition SOURCE_PUBLISHED_AT_FALLBACK :: py_datetime where
  "SOURCE_PUBLISHED_AT_FALLBACK = utc_date 1970 1 1"

definition normalize_published_at :: "py_datetime option \<Rightarrow> py_exn + py_datetime" where
  "normalize_published_at published_at = (case published_at of
     None \<Rightarrow> Inr SOURCE_PUBLISHED_AT_FALLBACK
   | Some d \<Rightarrow> (case utc_offset d of
       None \<Rightarrow> Inr (py_replace_utc d) | Some off \<Rightarrow> py_astimezone_utc off d))"

lemma normalize_published_at_eq:
  "normalize_published_at (Some d) = to_utc d"
  by (simp add: normalize_published_at_def to_utc_def)

definition source_key :: "source_row \<Rightarrow> string \<times> int" where
  "source_key s = (so_url s, so_published_at s)"

definition link_key :: "source_link \<Rightarrow> int \<times> int \<times> int" where
  "link_key l = (sl_source_id l, sl_feed_id l, sl_published_at l)"

definition source_row_of :: "int \<Rightarrow> feed_source \<Rightarrow> py_datetime \<Rightarrow> py_exn + source_row" where
  "source_row_of new_id source published_at =
     and_then (int4 new_id) (\<lambda>new_id.
     and_then (varchar 500 (src_title source)) (\<lambda>title.
     and_then (nullable (varchar 255) (src_author source)) (\<lambda>author.
     and_then (varchar 1000 (src_url source)) (\<lambda>url.
     and_then (nullable (varchar 1000) (src_image_url source)) (\<lambda>image_url.
       Inr \<lparr>so_id = new_id, so_title = title, so_summary = src_summary source, so_author = author,
            so_url = url, so_published_at = instant published_at, so_image_url = image_url\<rparr>)))))"

definition source_update :: "source_row \<Rightarrow> source_row \<Rightarrow> source_row" where
  "source_update excluded row =
     row\<lparr>so_title := so_title excluded,
         so_summary := coalesce (so_summary excluded) (so_summary row),
         so_author := coalesce (so_author excluded) (so_author row),
         so_image_url := coalesce (so_image_url excluded) (so_image_url row)\<rparr>"

text \<open>
  The upsert of one article; the value of the sequence is taken before the conflict is known.  It
  returns the identifier and the date of the row inserted or updated.
\<close>

definition upsert_source :: "feed_source \<Rightarrow> py_datetime \<Rightarrow> (int \<times> int) sql" where
  "upsert_source source published_at db =
     (case sql_texts [Some (src_title source), src_summary source, src_author source,
             Some (src_url source), src_image_url source] of
        Inl e \<Rightarrow> (Inl e, db)
      | Inr _ \<Rightarrow>
          (let db1 = db\<lparr>source_seq := source_seq db + 1\<rparr>
           in case source_row_of (source_seq db) source published_at of
                Inl e \<Rightarrow> (Inl e, db1)
              | Inr excluded \<Rightarrow>
                  (case row_with source_key (source_key excluded) (db_sources db) of
                     None \<Rightarrow> (Inr (so_id excluded, so_published_at excluded),
                              db1\<lparr>db_sources := db_sources db @ [excluded]\<rparr>)
                   | Some old \<Rightarrow>
                       (Inr (so_id old, so_published_at old),
                        db1\<lparr>db_sources := update_row source_key (source_key excluded)
                          (source_update excluded) (db_sources db)\<rparr>))))"

definition link_source :: "int \<Rightarrow> int \<Rightarrow> int \<Rightarrow> unit sql" where
  "link_source source_id feed_id published_at db =
     (case int4 feed_id of
        Inl e \<Rightarrow> (Inl e, db)
      | Inr _ \<Rightarrow>
          (let row = \<lparr>sl_source_id = source_id, sl_feed_id = feed_id, sl_published_at = published_at\<rparr>
           in if link_key row \<in> keys_of link_key (db_source_links db) then (Inr (), db)
              else if feed_id \<notin> keys_of fd_id (db_feeds db)
                \<or> (source_id, published_at) \<notin> keys_of (\<lambda>s. (so_id s, so_published_at s)) (db_sources db)
              then (Inl (OtherException ''ForeignKeyViolation''), db)
              else (Inr (), db\<lparr>db_source_links := db_source_links db @ [row]\<rparr>)))"

definition upsert_source_for_feed :: "int \<Rightarrow> feed_source \<Rightarrow> unit sql" where
  "upsert_source_for_feed feed_id source =
     sql_bind (sql_lift (normalize_published_at (src_published_at source))) (\<lambda>published_at.
     sql_bind (upsert_source source published_at) (\<lambda>(source_id, stored_at).
       link_source source_id feed_id stored_at))"

definition upsert_sources_for_feed :: "scrape_result \<Rightarrow> unit sql" where
  "upsert_sources_for_feed payload =
     (if res_status payload \<noteq> Success then sql_return ()
      else sql_for (upsert_source_for_feed (res_feed_id payload)) (res_sources payload))"

section \<open>Persisting a result\<close>

definition persist_worker_result :: "int \<Rightarrow> scrape_result \<Rightarrow> string \<Rightarrow> bool sql" where
  "persist_worker_result now payload queue_kind =
     sql_bind (insert_job_result_if_new payload queue_kind) (\<lambda>is_new.
       if \<not> is_new then sql_return False
       else sql_bind (upsert_feed_scraping_state payload) (\<lambda>_.
            sql_bind (if queue_kind = ''ingest'' then upsert_sources_for_feed payload else sql_return ()) (\<lambda>_.
            sql_bind (refresh_rss_scrape_job_status now (res_job_id payload)) (\<lambda>_.
              sql_return True))))"

end
