(* ===== verification/Result_Facts.thy ===== *)
theory Result_Facts
  imports Result_Store
begin

text \<open>
  What the statements of \<^verbatim>\<open>Result_Store\<close> keep and establish: the constraints of the tables, the
  ledger of results, the scraping state, the status of a job and the articles.
\<close>

section \<open>The constraints of the schema\<close>

definition db_keys_ok :: "database \<Rightarrow> bool" where
  "db_keys_ok db \<longleftrightarrow> unique_key fd_id (db_feeds db) \<and> unique_key jb_job_id (db_jobs db) \<and>
     unique_key result_key (db_results db) \<and> unique_key sc_feed_id (db_scrapings db) \<and>
     unique_key source_key (db_sources db) \<and> unique_key so_id (db_sources db) \<and>
     unique_key link_key (db_source_links db)"

definition db_refs_ok :: "database \<Rightarrow> bool" where
  "db_refs_ok db \<longleftrightarrow>
     list_all (\<lambda>r. rr_job_id r \<in> keys_of jb_job_id (db_jobs db) \<and> rr_feed_id r \<in> keys_of fd_id (db_feeds db))
       (db_results db) \<and>
     list_all (\<lambda>s. sc_feed_id s \<in> keys_of fd_id (db_feeds db)) (db_scrapings db) \<and>
     list_all (\<lambda>l. (sl_source_id l, sl_published_at l) \<in> keys_of (\<lambda>s. (so_id s, so_published_at s)) (db_sources db)
         \<and> sl_feed_id l \<in> keys_of fd_id (db_feeds db)) (db_source_links db)"

definition scraping_row_ok :: "scraping_row \<Rightarrow> bool" where
  "scraping_row_ok s \<longleftrightarrow> 0 \<le> sc_fetchprotection s \<and> sc_fetchprotection s \<le> 2 \<and> 0 \<le> sc_error_nbr s"

definition result_row_ok :: "result_row \<Rightarrow> bool" where
  "result_row_ok r \<longleftrightarrow> rr_status r \<in> {''success'', ''not_modified'', ''error''} \<and>
     rr_queue_kind r \<in> {''check'', ''ingest'', ''error''}"

definition job_row_ok :: "job_row \<Rightarrow> bool" where
  "job_row_ok j \<longleftrightarrow> 0 \<le> jb_feed_count j \<and> length (jb_job_id j) \<le> 36 \<and>
     jb_status j \<in> {''queued'', ''processing'', ''completed'', ''completed_with_errors'', ''failed''}"

definition db_checks_ok :: "database \<Rightarrow> bool" where
  "db_checks_ok db \<longleftrightarrow> list_all scraping_row_ok (db_scrapings db) \<and> list_all result_row_ok (db_results db) \<and>
     list_all job_row_ok (db_jobs db) \<and> list_all (\<lambda>s. so_id s < source_seq db) (db_sources db)"

definition db_ok :: "database \<Rightarrow> bool" where
  "db_ok db \<longleftrightarrow> db_keys_ok db \<and> db_refs_ok db \<and> db_checks_ok db"

named_theorems schema_defs \<open>the constraints of the schema\<close>

lemmas [schema_defs] = db_ok_def db_keys_ok_def db_refs_ok_def db_checks_ok_def

lemma result_row_of_Inr:
  "result_row_of payload kind = Inr row \<Longrightarrow>
    rr_feed_id row = res_feed_id payload \<and> rr_status row = status_text (res_status payload) \<and>
    rr_queue_kind row = kind \<and> kind \<in> {''check'', ''ingest'', ''error''} \<and>
    varchar 36 (res_job_id payload) = Inr (rr_job_id row) \<and>
    rr_error_message row = res_error_message payload \<and>
    nullable (varchar 255) (res_new_etag payload) = Inr (rr_new_etag row)"
  by (auto simp: result_row_of_def split: if_splits)

text \<open>The job identifiers that are stored fit their column, so a known one is not cut.\<close>

definition ledger_ok :: "database \<Rightarrow> bool" where
  "ledger_ok db \<longleftrightarrow> unique_key result_key (db_results db) \<and>
     list_all (\<lambda>j. length (jb_job_id j) \<le> 36) (db_jobs db)"

lemma db_ok_ledger: "db_ok db \<Longrightarrow> ledger_ok db"
  by (auto simp: schema_defs ledger_ok_def list_all_iff job_row_ok_def)

lemma known_job_key:
  assumes "ledger_ok db" and "res_job_id payload \<in> keys_of jb_job_id (db_jobs db)"
    and "result_row_of payload kind = Inr row"
  shows "rr_job_id row = res_job_id payload \<and> result_key row = build_idempotency_key payload"
proof -
  have "length (res_job_id payload) \<le> 36"
    using assms(1,2) by (auto simp: ledger_ok_def list_all_iff keys_of_def)
  then show ?thesis
    using result_row_of_Inr [OF assms(3)] by (simp add: result_key_def build_idempotency_key_def)
qed

section \<open>Inserting a result\<close>

lemma status_text_in: "status_text st \<in> {''success'', ''not_modified'', ''error''}"
  by (cases st) auto

lemma insert_result_cases:
  assumes "insert_job_result_if_new payload kind db = (r, db')"
  obtains (raised) e where "r = Inl e" "db' = db"
  | (unknown) "r = Inr False" "db' = db" "res_job_id payload \<notin> keys_of jb_job_id (db_jobs db)"
  | (old) row where "r = Inr False" "db' = db" "res_job_id payload \<in> keys_of jb_job_id (db_jobs db)"
      "result_row_of payload kind = Inr row" "result_key row \<in> keys_of result_key (db_results db)"
  | (new) row where "r = Inr True" "db' = db\<lparr>db_results := db_results db @ [row]\<rparr>"
      "res_job_id payload \<in> keys_of jb_job_id (db_jobs db)" "result_row_of payload kind = Inr row"
      "result_key row \<notin> keys_of result_key (db_results db)" "rr_feed_id row \<in> keys_of fd_id (db_feeds db)"
proof (cases "sql_texts [Some (res_job_id payload), res_error_message payload, res_new_etag payload]")
  case (Inl e)
  then show ?thesis using assms by (intro raised [of e]) (simp_all add: insert_job_result_if_new_def)
next
  case texts: (Inr u)
  show ?thesis
  proof (cases "res_job_id payload \<in> keys_of jb_job_id (db_jobs db)")
    case False
    then show ?thesis using assms texts by (intro unknown) (simp_all add: insert_job_result_if_new_def)
  next
    case known: True
    show ?thesis
    proof (cases "result_row_of payload kind")
      case (Inl e)
      then show ?thesis using assms texts known by (intro raised [of e]) (simp_all add: insert_job_result_if_new_def)
    next
      case row: (Inr row)
      show ?thesis
      proof (cases "result_key row \<in> keys_of result_key (db_results db)")
        case True
        then show ?thesis
          using assms texts known row by (intro old [OF _ _ known row]) (simp_all add: insert_job_result_if_new_def)
      next
        case False
        then show ?thesis
          using assms texts known row
          by (cases "rr_feed_id row \<in> keys_of fd_id (db_feeds db)")
            (auto simp: insert_job_result_if_new_def intro: raised new [OF _ _ known row])
      qed
    qed
  qed
qed

lemma insert_result_keeps:
  assumes "insert_job_result_if_new payload kind db = (Inr r, db')" and "db_ok db"
  shows "db_ok db'"
  using assms(1)
proof (cases rule: insert_result_cases)
  case (new row)
  note row = result_row_of_Inr [OF new(4)] known_job_key [OF db_ok_ledger [OF assms(2)] new(3,4)]
  have "db_keys_ok db'"
    using assms(2) new(2) unique_key_insert [OF _ new(5)] by (simp add: schema_defs)
  moreover have "db_refs_ok db'" using assms(2) new(2,3,6) row by (simp add: schema_defs)
  moreover have "db_checks_ok db'"
    using assms(2) new(2) row status_text_in [of "res_status payload"]
    by (simp add: schema_defs result_row_ok_def)
  ultimately show ?thesis by (simp add: db_ok_def)
qed (use assms in auto)

section \<open>The scraping state\<close>

lemma scraping_row_of_Inr:
  "scraping_row_of payload = Inr row \<Longrightarrow>
    sc_feed_id row = res_feed_id payload \<and> sc_fetchprotection row = res_fetchprotection payload \<and>
    sc_error_nbr row = (if res_status payload = ResultError then 1 else 0) \<and>
    sc_error_msg row = (if res_status payload = ResultError then res_error_message payload else None) \<and>
    sc_last_update row = map_option instant (res_new_last_update payload) \<and>
    nullable (varchar 255) (res_new_etag payload) = Inr (sc_etag row)"
  by (auto simp: scraping_row_of_def Let_def)

lemma scraping_update_fields [simp]:
  "sc_feed_id (scraping_update e n row) = sc_feed_id row"
  "sc_fetchprotection (scraping_update e n row) = sc_fetchprotection e"
  "sc_error_nbr (scraping_update e n row) = n"
  by (simp_all add: scraping_update_def)

lemma upsert_scraping_cases:
  assumes "upsert_feed_scraping_state payload db = (Inr u, db')"
  obtains (insert) excluded where "scraping_row_of payload = Inr excluded"
      "db' = db\<lparr>db_scrapings := db_scrapings db @ [excluded]\<rparr>"
      "sc_feed_id excluded \<notin> keys_of sc_feed_id (db_scrapings db)"
      "sc_feed_id excluded \<in> keys_of fd_id (db_feeds db)"
  | (update) excluded old n where "scraping_row_of payload = Inr excluded"
      "row_with sc_feed_id (sc_feed_id excluded) (db_scrapings db) = Some old"
      "n = sc_error_nbr old + (if res_status payload = ResultError then 1 else 0)"
      "db' = db\<lparr>db_scrapings := update_row sc_feed_id (sc_feed_id excluded) (scraping_update excluded n)
        (db_scrapings db)\<rparr>"
proof -
  obtain excluded where e: "scraping_row_of payload = Inr excluded"
    using assms by (auto simp: upsert_feed_scraping_state_def split: sum.splits)
  show ?thesis
  proof (cases "row_with sc_feed_id (sc_feed_id excluded) (db_scrapings db)")
    case None
    then show ?thesis
      using assms e insert [OF e] row_with_None [of sc_feed_id "sc_feed_id excluded" "db_scrapings db"]
      by (simp add: upsert_feed_scraping_state_def split: if_splits)
  next
    case (Some old)
    then show ?thesis
      using assms e update [OF e Some]
      by (auto simp: upsert_feed_scraping_state_def int4_def split: if_splits)
  qed
qed

lemma upsert_scraping_keeps:
  assumes "upsert_feed_scraping_state payload db = (Inr u, db')" and "db_ok db"
    and "0 \<le> res_fetchprotection payload" "res_fetchprotection payload \<le> 2"
  shows "db_ok db'"
  using assms(1)
proof (cases rule: upsert_scraping_cases)
  case (insert excluded)
  then show ?thesis
    using assms(2-4) unique_key_insert [OF _ insert(3)] scraping_row_of_Inr [OF insert(1)]
    by (simp add: schema_defs scraping_row_ok_def)
next
  case (update excluded old n)
  have "old \<in> set (db_scrapings db)" using row_with_SomeD [OF update(2)] by simp
  then have "0 \<le> n" using assms(2) update(3) by (auto simp: schema_defs list_all_iff scraping_row_ok_def)
  then have "scraping_row_ok (scraping_update excluded n row)" for row
    using assms(3,4) scraping_row_of_Inr [OF update(1)] by (simp add: scraping_row_ok_def)
  then have "list_all scraping_row_ok (db_scrapings db')"
    "list_all (\<lambda>s. sc_feed_id s \<in> keys_of fd_id (db_feeds db)) (db_scrapings db')"
    using assms(2) update(4) by (auto simp: schema_defs intro!: list_all_update_row)
  then show ?thesis using assms(2) update(4) by (simp add: schema_defs)
qed

section \<open>The status of a job\<close>

lemma refresh_cases:
  assumes "refresh_rss_scrape_job_status now job_id db = (Inr u, db')"
  obtains (absent) "row_with jb_job_id job_id (db_jobs db) = None" "db' = db"
  | (refreshed) job where "row_with jb_job_id job_id (db_jobs db) = Some job"
      "db' = db\<lparr>db_jobs := update_row jb_job_id job_id
         (\<lambda>row. row\<lparr>jb_status := job_status_of (jb_feed_count job) (int (length (job_results job_id db)))
            (int (length (filter (\<lambda>r. rr_status r = ''error'') (job_results job_id db)))),
            jb_updated_at := now\<rparr>) (db_jobs db)\<rparr>"
proof -
  obtain u where texts: "sql_texts [Some job_id] = Inr u"
    using assms by (cases "sql_texts [Some job_id]") (simp_all add: refresh_rss_scrape_job_status_def)
  show ?thesis
  proof (cases "row_with jb_job_id job_id (db_jobs db)")
    case None
    then show ?thesis using assms texts
      by (intro absent) (simp_all add: refresh_rss_scrape_job_status_def)
  next
    case (Some job)
    then show ?thesis using assms texts
      by (intro refreshed [OF Some]) (simp add: refresh_rss_scrape_job_status_def Let_def)
  qed
qed

lemma job_status_in:
  "job_status_of n p e \<in> {''queued'', ''processing'', ''completed'', ''completed_with_errors'', ''failed''}"
  by (simp add: job_status_of_def)

lemma refresh_keeps:
  assumes "refresh_rss_scrape_job_status now job_id db = (Inr u, db')" and "db_ok db"
  shows "db_ok db'"
  using assms(1)
proof (cases rule: refresh_cases)
  case (refreshed job)
  have "job_row_ok (row\<lparr>jb_status := job_status_of n p e, jb_updated_at := now\<rparr>)" if "job_row_ok row" for row n p e
    using that job_status_in [of n p e] by (simp add: job_row_ok_def)
  then have "list_all job_row_ok (db_jobs db')"
    using assms(2) refreshed(2) by (auto simp: schema_defs intro!: list_all_update_row)
  then show ?thesis using assms(2) refreshed(2) by (simp add: schema_defs)
qed (use assms in simp)

section \<open>Articles\<close>

lemma source_row_of_Inr:
  "source_row_of i source d = Inr row \<Longrightarrow> so_id row = i \<and> so_published_at row = instant d \<and>
    varchar 500 (src_title source) = Inr (so_title row) \<and> varchar 1000 (src_url source) = Inr (so_url row) \<and>
    so_summary row = src_summary source"
  by (auto simp: source_row_of_def)

lemma source_update_fields [simp]:
  "so_id (source_update e row) = so_id row" "so_url (source_update e row) = so_url row"
  "so_published_at (source_update e row) = so_published_at row"
  "source_key (source_update e row) = source_key row"
  "so_title (source_update e row) = so_title e"
  by (simp_all add: source_update_def source_key_def)

lemma upsert_source_cases:
  assumes "upsert_source source d db = (Inr (i, p), db')"
  obtains (insert) excluded where "source_row_of (source_seq db) source d = Inr excluded"
      "i = source_seq db" "p = instant d"
      "db' = db\<lparr>source_seq := source_seq db + 1, db_sources := db_sources db @ [excluded]\<rparr>"
      "source_key excluded \<notin> keys_of source_key (db_sources db)"
  | (update) excluded old where "source_row_of (source_seq db) source d = Inr excluded"
      "row_with source_key (source_key excluded) (db_sources db) = Some old" "i = so_id old" "p = instant d"
      "db' = db\<lparr>source_seq := source_seq db + 1,
         db_sources := update_row source_key (source_key excluded) (source_update excluded) (db_sources db)\<rparr>"
proof -
  obtain u where texts: "sql_texts [Some (src_title source), src_summary source, src_author source,
      Some (src_url source), src_image_url source] = Inr u"
    using assms by (cases "sql_texts [Some (src_title source), src_summary source, src_author source,
      Some (src_url source), src_image_url source]") (simp_all add: upsert_source_def)
  obtain excluded where e: "source_row_of (source_seq db) source d = Inr excluded"
    using assms texts by (cases "source_row_of (source_seq db) source d") (simp_all add: upsert_source_def)
  show ?thesis
  proof (cases "row_with source_key (source_key excluded) (db_sources db)")
    case None
    then show ?thesis
      using assms texts e source_row_of_Inr [OF e]
        row_with_None [of source_key "source_key excluded" "db_sources db"]
      by (intro insert [OF e]) (auto simp: upsert_source_def)
  next
    case (Some old)
    have "so_published_at old = instant d"
      using row_with_SomeD [OF Some] source_row_of_Inr [OF e] by (simp add: source_key_def)
    then show ?thesis
      using assms texts e Some by (intro update [OF e Some]) (simp_all add: upsert_source_def)
  qed
qed

lemma upsert_source_seq: "upsert_source source d db = (r, db') \<Longrightarrow> source_seq db \<le> source_seq db'"
  by (auto simp: upsert_source_def Let_def split: sum.splits option.splits)

lemma upsert_source_keeps:
  assumes "upsert_source source d db = (Inr (i, p), db')" and ok: "db_ok db"
  shows "db_ok db' \<and> (i, p) \<in> keys_of (\<lambda>s. (so_id s, so_published_at s)) (db_sources db')"
  using assms(1)
proof (cases rule: upsert_source_cases)
  case (insert excluded)
  note row = source_row_of_Inr [OF insert(1)]
  have "so_id excluded \<notin> keys_of so_id (db_sources db)"
    using ok row by (auto simp: schema_defs list_all_iff keys_of_def)
  then have "unique_key so_id (db_sources db')" "unique_key source_key (db_sources db')"
    using ok insert(4,5) unique_key_insert by (auto simp: schema_defs)
  moreover have "list_all (\<lambda>s. so_id s < source_seq db') (db_sources db')"
    using ok insert(4) row by (auto simp: schema_defs list_all_iff)
  moreover have "list_all (\<lambda>l. (sl_source_id l, sl_published_at l) \<in>
      keys_of (\<lambda>s. (so_id s, so_published_at s)) (db_sources db') \<and> sl_feed_id l \<in> keys_of fd_id (db_feeds db'))
      (db_source_links db')"
    using ok insert(4) by (auto simp: schema_defs list_all_iff)
  ultimately show ?thesis using ok insert(2-4) row by (simp add: schema_defs)
next
  case (update excluded old)
  have keys: "keys_of (\<lambda>s. (so_id s, so_published_at s)) (db_sources db') =
      keys_of (\<lambda>s. (so_id s, so_published_at s)) (db_sources db)" "unique_key so_id (db_sources db')"
    "unique_key source_key (db_sources db')"
    using ok update(5) by (simp_all add: schema_defs)
  have "list_all (\<lambda>s. so_id s < source_seq db') (db_sources db')"
    using ok update(5) by (auto simp: schema_defs list_all_iff dest!: in_update_row)
  moreover have "so_published_at old = instant d" "old \<in> set (db_sources db)"
    using row_with_SomeD [OF update(2)] source_row_of_Inr [OF update(1)] by (auto simp: source_key_def)
  ultimately show ?thesis using ok update(3-5) keys by (auto simp: schema_defs in_keys_of)
qed

lemma link_source_cases:
  assumes "link_source i f p db = (Inr u, db')"
  obtains (present) "db' = db" "(i, f, p) \<in> keys_of link_key (db_source_links db)"
  | (linked) "db' = db\<lparr>db_source_links := db_source_links db @
        [\<lparr>sl_source_id = i, sl_feed_id = f, sl_published_at = p\<rparr>]\<rparr>"
      "(i, f, p) \<notin> keys_of link_key (db_source_links db)" "f \<in> keys_of fd_id (db_feeds db)"
      "(i, p) \<in> keys_of (\<lambda>s. (so_id s, so_published_at s)) (db_sources db)"
  using assms
  by (auto simp: link_source_def Let_def link_key_def int4_def split: if_splits)

lemma link_source_keeps:
  assumes "link_source i f p db = (Inr u, db')" and "db_ok db"
  shows "db_ok db' \<and> (i, f, p) \<in> keys_of link_key (db_source_links db') \<and> db_sources db' = db_sources db"
  using assms(1)
proof (cases rule: link_source_cases)
  case linked
  then show ?thesis using assms(2) unique_key_insert [of link_key "db_source_links db"]
    by (simp add: schema_defs link_key_def)
qed (use assms(2) in simp)

lemma upsert_source_for_feed_cases:
  assumes "upsert_source_for_feed f source db = (Inr u, db')"
  obtains d i p db1 where "normalize_published_at (src_published_at source) = Inr d"
    "upsert_source source d db = (Inr (i, p), db1)" "link_source i f p db1 = (Inr u, db')"
  using assms
  by (auto simp: upsert_source_for_feed_def sql_bind_Inr split: sum.splits)

lemma upsert_sources_keeps: "sql_keeps db_ok (upsert_sources_for_feed payload)"
proof (cases "res_status payload = Success")
  case True
  have "sql_keeps db_ok (upsert_source_for_feed f source)" for f source
    unfolding sql_keeps_def
    using upsert_source_keeps link_source_keeps by (metis upsert_source_for_feed_cases)
  then show ?thesis using True by (simp add: upsert_sources_for_feed_def sql_keeps_for)
qed (simp add: upsert_sources_for_feed_def)

section \<open>Persisting\<close>

lemma persist_keeps:
  assumes "0 \<le> res_fetchprotection payload" and "res_fetchprotection payload \<le> 2"
  shows "sql_keeps db_ok (persist_worker_result now payload kind)"
proof -
  have "sql_keeps db_ok (insert_job_result_if_new payload kind)"
    "sql_keeps db_ok (upsert_feed_scraping_state payload)"
    "sql_keeps db_ok (refresh_rss_scrape_job_status now (res_job_id payload))"
    using insert_result_keeps upsert_scraping_keeps refresh_keeps assms
    unfolding sql_keeps_def by blast+
  then show ?thesis
    unfolding persist_worker_result_def
    by (auto intro!: sql_keeps_bind simp: upsert_sources_keeps)
qed

text \<open>No statement lowers the sequence, not even one that raises.\<close>

definition seq_grows :: "'a sql \<Rightarrow> bool" where
  "seq_grows m \<longleftrightarrow> (\<forall>db r db'. m db = (r, db') \<longrightarrow> source_seq db \<le> source_seq db')"

lemma seq_grows_bind: "seq_grows m \<Longrightarrow> (\<And>x. seq_grows (f x)) \<Longrightarrow> seq_grows (sql_bind m f)"
  unfolding seq_grows_def sql_bind_def by (fastforce split: prod.splits sum.splits intro: order_trans)

lemma seq_grows_simple [simp]: "seq_grows (sql_return x)" "seq_grows (sql_lift r)"
  by (simp_all add: seq_grows_def)

lemma seq_grows_for: "(\<And>x. seq_grows (f x)) \<Longrightarrow> seq_grows (sql_for f xs)"
proof (induction xs)
  case (Cons x xs)
  then have "seq_grows (f x)" "seq_grows (sql_for f xs)" by auto
  then show ?case
    unfolding seq_grows_def by (fastforce split: prod.splits sum.splits intro: order_trans)
qed (simp add: seq_grows_def)

lemma seq_grows_statements [simp]:
  "seq_grows (insert_job_result_if_new payload kind)" "seq_grows (upsert_feed_scraping_state payload)"
  "seq_grows (refresh_rss_scrape_job_status now j)" "seq_grows (link_source i f p)"
  "seq_grows (upsert_source source d)"
  using upsert_source_seq
  by (auto simp: seq_grows_def insert_job_result_if_new_def upsert_feed_scraping_state_def
      refresh_rss_scrape_job_status_def link_source_def Let_def split: sum.splits option.splits if_splits)

lemma seq_grows_persist: "seq_grows (persist_worker_result now payload kind)"
  unfolding persist_worker_result_def upsert_sources_for_feed_def upsert_source_for_feed_def
  by (auto intro!: seq_grows_bind seq_grows_for split: prod.splits)

lemma db_ok_seq: "db_ok db \<Longrightarrow> source_seq db \<le> n \<Longrightarrow> db_ok (db\<lparr>source_seq := n\<rparr>)"
  by (auto simp: schema_defs list_all_iff)

lemma transaction_keeps:
  assumes "sql_keeps db_ok m" and "seq_grows m" and "db_ok db" and "transaction m db = (r, db')"
  shows "db_ok db'"
proof (cases "m db")
  case (Pair r0 db0)
  have "source_seq db \<le> source_seq db0" using assms(2) Pair unfolding seq_grows_def by blast
  then show ?thesis
    using assms(1,3,4) Pair db_ok_seq
    by (cases r0) (auto simp: transaction_def sql_keeps_def)
qed

section \<open>The ledger\<close>

text \<open>What a statement leaves alone.\<close>

definition frame :: "(database \<Rightarrow> 'f) \<Rightarrow> 'a sql \<Rightarrow> bool" where
  "frame f m \<longleftrightarrow> (\<forall>db r db'. m db = (Inr r, db') \<longrightarrow> f db' = f db)"

lemma frameD: "frame f m \<Longrightarrow> m db = (Inr r, db') \<Longrightarrow> f db' = f db"
  by (auto simp: frame_def)

lemma frame_bind: "frame f m \<Longrightarrow> (\<And>x. frame f (g x)) \<Longrightarrow> frame f (sql_bind m g)"
  unfolding frame_def by (metis sql_bind_Inr)

lemma frame_simple [simp]: "frame f (sql_return x)" "frame f (sql_lift r)"
  by (simp_all add: frame_def)

lemma frame_for: "(\<And>x. frame f (g x)) \<Longrightarrow> frame f (sql_for g xs)"
proof (induction xs)
  case (Cons x xs)
  then have "frame f (g x)" "frame f (sql_for g xs)" by auto
  then show ?case unfolding frame_def by (auto split: prod.splits sum.splits)
qed (simp add: frame_def)

text \<open>The scraping state and the articles are apart from the results, the jobs and the feeds.\<close>

definition ledger_part :: "database \<Rightarrow> result_row list \<times> job_row list \<times> feed_row list" where
  "ledger_part db = (db_results db, db_jobs db, db_feeds db)"

lemma ledger_part_frames:
  "frame ledger_part (upsert_feed_scraping_state payload)"
  "frame ledger_part (upsert_sources_for_feed payload)"
proof -
  show "frame ledger_part (upsert_feed_scraping_state payload)"
    unfolding frame_def
    by (auto simp: ledger_part_def elim: upsert_scraping_cases)
  have "frame ledger_part (upsert_source source d)" for source d
    unfolding frame_def
    by (auto simp: ledger_part_def elim: upsert_source_cases)
  moreover have "frame ledger_part (link_source i f p)" for i f p
    unfolding frame_def by (auto simp: ledger_part_def elim: link_source_cases)
  ultimately show "frame ledger_part (upsert_sources_for_feed payload)"
    unfolding upsert_sources_for_feed_def upsert_source_for_feed_def
    by (auto intro!: frame_bind frame_for split: prod.splits)
qed

text \<open>The cases of a persisted result.\<close>

lemma persist_cases:
  assumes "persist_worker_result now payload kind db = (Inr b, db')"
  obtains (skipped) "b = False" "db' = db" "insert_job_result_if_new payload kind db = (Inr False, db)"
  | (stored) db1 db2 db3 where "b = True" "insert_job_result_if_new payload kind db = (Inr True, db1)"
      "upsert_feed_scraping_state payload db1 = (Inr (), db2)"
      "(if kind = ''ingest'' then upsert_sources_for_feed payload else sql_return ()) db2 = (Inr (), db3)"
      "refresh_rss_scrape_job_status now (res_job_id payload) db3 = (Inr (), db')"
proof -
  obtain new db1 where ins: "insert_job_result_if_new payload kind db = (Inr new, db1)"
    using assms by (auto simp: persist_worker_result_def sql_bind_Inr)
  show ?thesis
  proof (cases new)
    case False
    then have "db1 = db" using ins by (auto elim: insert_result_cases)
    then show ?thesis using assms ins False by (intro skipped) (simp_all add: persist_worker_result_def sql_bind_def)
  next
    case True
    then show ?thesis
      using assms ins stored by (auto simp: persist_worker_result_def sql_bind_Inr split: if_splits)
  qed
qed

lemma refresh_ledger:
  assumes "refresh_rss_scrape_job_status now job_id db = (Inr u, db')"
  shows "db_results db' = db_results db \<and> map jb_job_id (db_jobs db') = map jb_job_id (db_jobs db) \<and>
    map jb_feed_count (db_jobs db') = map jb_feed_count (db_jobs db)"
  using assms
  by (cases rule: refresh_cases) (simp_all add: map_key_update)

lemma persist_stored_ledger:
  assumes "persist_worker_result now payload kind db = (Inr True, db')" and "ledger_ok db"
  shows "\<exists>row. result_row_of payload kind = Inr row \<and> db_results db' = db_results db @ [row] \<and>
    result_key row = build_idempotency_key payload \<and> result_key row \<notin> keys_of result_key (db_results db) \<and>
    res_job_id payload \<in> keys_of jb_job_id (db_jobs db) \<and>
    map jb_job_id (db_jobs db') = map jb_job_id (db_jobs db)"
  using assms(1)
proof (cases rule: persist_cases)
  case (stored db1 db2 db3)
  from stored(2) obtain row where row: "db1 = db\<lparr>db_results := db_results db @ [row]\<rparr>"
    "res_job_id payload \<in> keys_of jb_job_id (db_jobs db)" "result_row_of payload kind = Inr row"
    "result_key row \<notin> keys_of result_key (db_results db)"
    by (cases rule: insert_result_cases) auto
  have "ledger_part db3 = ledger_part db2"
    using stored(4) frameD [OF ledger_part_frames(2), of payload db2 "()" db3]
    by (cases "kind = ''ingest''") simp_all
  then have "ledger_part db3 = ledger_part db1"
    using frameD [OF ledger_part_frames(1) stored(3)] by simp
  then show ?thesis
    using row refresh_ledger [OF stored(5)] known_job_key [OF assms(2) row(2,3)]
    by (simp add: ledger_part_def)
qed simp

text \<open>The ledger as a map, and its delivery: a result persisted in a transaction of its own.\<close>

definition ledger :: "database \<Rightarrow> string \<times> int \<Rightarrow> result_row option" where
  "ledger db k = row_with result_key k (db_results db)"

type_synonym delivery = "int \<times> scrape_result \<times> string"

definition store_delivery :: "delivery \<Rightarrow> bool sql" where
  "store_delivery p = (case p of (now, payload, kind) \<Rightarrow> transaction (persist_worker_result now payload kind))"

definition delivery_key :: "delivery \<Rightarrow> string \<times> int" where
  "delivery_key p = build_idempotency_key (fst (snd p))"

definition delivery_entry :: "delivery \<Rightarrow> result_row option" where
  "delivery_entry p = (case result_row_of (fst (snd p)) (snd (snd p)) of Inl _ \<Rightarrow> None | Inr row \<Rightarrow> Some row)"

lemma persist_known_key:
  assumes "ledger_ok db" and "ledger db (build_idempotency_key payload) \<noteq> None"
  shows "snd (persist_worker_result now payload kind db) = db \<and>
    fst (persist_worker_result now payload kind db) \<noteq> Inr True"
proof -
  have known: "build_idempotency_key payload \<in> keys_of result_key (db_results db)"
    using assms(2) row_with_None unfolding ledger_def by metis
  obtain r db1 where ins: "insert_job_result_if_new payload kind db = (r, db1)" by fastforce
  from ins show ?thesis
  proof (cases rule: insert_result_cases)
    case (new row)
    then show ?thesis using known known_job_key [OF assms(1) new(3,4)] by simp
  qed (use ins in \<open>simp_all add: persist_worker_result_def sql_bind_def\<close>)
qed

lemma store_delivery_ledger_ok:
  assumes "ledger_ok db"
  shows "ledger_ok (snd (store_delivery p db))"
proof -
  obtain now payload kind where p: "p = (now, payload, kind)" by (cases p)
  show ?thesis
  proof (cases "persist_worker_result now payload kind db")
    case (Pair r db')
    show ?thesis
    proof (cases r)
      case (Inl e)
      then show ?thesis using assms Pair p by (simp add: store_delivery_def transaction_def ledger_ok_def)
    next
      case (Inr b)
      have "ledger_ok db'"
      proof (cases b)
        case False
        then have "db' = db" using Pair Inr by (auto elim: persist_cases)
        then show ?thesis using assms by simp
      next
        case True
        then obtain row where row: "db_results db' = db_results db @ [row]"
          "result_key row \<notin> keys_of result_key (db_results db)"
          "map jb_job_id (db_jobs db') = map jb_job_id (db_jobs db)"
          using persist_stored_ledger [OF _ assms, of now payload kind db'] Pair Inr by auto
        have "list_all (\<lambda>j. length (jb_job_id j) \<le> 36) (db_jobs d) =
            list_all (\<lambda>i. length i \<le> 36) (map jb_job_id (db_jobs d))" for d
          by (simp add: list_all_iff)
        then have "list_all (\<lambda>j. length (jb_job_id j) \<le> 36) (db_jobs db')"
          using assms row(3) unfolding ledger_ok_def by metis
        then show ?thesis
          using assms row unique_key_insert [OF _ row(2)] by (simp add: ledger_ok_def)
      qed
      then show ?thesis using Pair Inr p by (simp add: store_delivery_def transaction_def)
    qed
  qed
qed

interpretation result_ledger: first_write_ledger store_delivery ledger delivery_key delivery_entry ledger_ok
proof
  fix s s' and p :: delivery
  assume ok: "ledger_ok s" and st: "store_delivery p s = (Inr True, s')"
  obtain now payload kind where p: "p = (now, payload, kind)" by (cases p)
  obtain row where row: "result_row_of payload kind = Inr row" "db_results s' = db_results s @ [row]"
    "result_key row = build_idempotency_key payload" "result_key row \<notin> keys_of result_key (db_results s)"
    using persist_stored_ledger [OF _ ok, of now payload kind s'] st p
    by (auto simp: store_delivery_def transaction_Inr)
  have "ledger s (delivery_key p) = None"
    using row(3,4) p by (simp add: ledger_def row_with_None delivery_key_def)
  moreover have "delivery_entry p = Some row" using row(1) p by (simp add: delivery_entry_def)
  moreover have "ledger s' = (ledger s)(delivery_key p := Some row)"
    using row(2-4) p
    by (auto simp: fun_eq_iff ledger_def delivery_key_def row_with_append row_with_None [symmetric]
        split: option.splits)
  ultimately show "ledger s (delivery_key p) = None \<and> delivery_entry p \<noteq> None \<and>
      ledger s' = (ledger s)(delivery_key p := delivery_entry p)" by simp
next
  fix s s' and p :: delivery
  assume "store_delivery p s = (Inr False, s')"
  then have "s' = s"
    by (cases p) (auto simp: store_delivery_def transaction_Inr elim: persist_cases)
  then show "ledger s' = ledger s" by simp
next
  fix s s' e and p :: delivery
  assume "store_delivery p s = (Inl e, s')"
  then have "s' = s\<lparr>source_seq := source_seq s'\<rparr>"
    by (cases p) (simp add: store_delivery_def transaction_Inl)
  then have "db_results s' = db_results s" by (metis database.select_convs(8) database.surjective database.update_convs(11))
  then show "ledger s' = ledger s" by (simp add: fun_eq_iff ledger_def)
next
  fix s and p :: delivery
  assume "ledger_ok s" "ledger s (delivery_key p) \<noteq> None"
  moreover obtain now payload kind where p: "p = (now, payload, kind)" by (cases p)
  ultimately have "snd (persist_worker_result now payload kind s) = s"
    using persist_known_key [of s payload now kind] by (simp add: delivery_key_def)
  then show "snd (store_delivery p s) = s"
    by (cases "persist_worker_result now payload kind s")
      (auto simp: p store_delivery_def transaction_def split: sum.splits)
next
  fix s and p :: delivery
  assume "ledger_ok s"
  then show "ledger_ok (snd (store_delivery p s))" by (rule store_delivery_ledger_ok)
qed

end
