(* ===== verification/Result_Consumer.thy ===== *)
theory Result_Consumer
  imports Result_Facts
begin

text \<open>
  \<^verbatim>\<open>db-manager/app/services/result_consumer_service.py\<close>: validation, the transaction, and the
  acknowledgement of a message, and the loop over a batch; and the properties of the
  persistence of results.

  What the world decides for a message is a record: the time of its transaction, the outcome of
  the commit and the replies of Redis to the acknowledgement.
\<close>

section \<open>Processing a message\<close>

record message_env =
  me_now :: int
  me_commit :: commit_outcome
  me_xack :: "nat \<Rightarrow> nat \<Rightarrow> unit redis_outcome"
  me_cache :: redis_cache

record consumer_state =
  cs_db :: database
  cs_acked :: "(string \<times> string) list"

text \<open>A payload of the shape of a result, or not; validation checks the field constraints.\<close>

definition validate_result :: "scrape_result option \<Rightarrow> py_exn + scrape_result" where
  "validate_result payload_raw = (case payload_raw of
     None \<Rightarrow> Inl (ValidationError ''WorkerResultSchema'')
   | Some r \<Rightarrow> if valid_worker_result r then Inr r else Inl (ValidationError ''WorkerResultSchema''))"

definition acknowledge :: "message_env \<Rightarrow> string \<Rightarrow> string \<Rightarrow> consumer_state \<Rightarrow> (redis_exn + unit) \<times> consumer_state" where
  "acknowledge env stream_name message_id s =
     (case ack_worker_result message_id (me_xack env) (me_cache env) of
        (res, n, _) \<Rightarrow> (res, s\<lparr>cs_acked := cs_acked s @ replicate (min n 1) (stream_name, message_id)\<rparr>))"

definition process_result_message ::
  "message_env \<Rightarrow> string \<Rightarrow> string \<Rightarrow> scrape_result option \<Rightarrow> consumer_state \<Rightarrow> (redis_exn + unit) \<times> consumer_state" where
  "process_result_message env stream_name message_id payload_raw s =
     (case validate_result payload_raw of
        Inl _ \<Rightarrow> acknowledge env stream_name message_id s
      | Inr payload \<Rightarrow>
          (let queue_kind = resolve_queue_kind stream_name ''rss_check_results'' ''rss_ingest_results'' ''error_feeds_parsing''
           in case committed (me_commit env) (persist_worker_result (me_now env) payload queue_kind) (cs_db s) of
                (Inl _, db) \<Rightarrow> (Inr (), s\<lparr>cs_db := db\<rparr>)
              | (Inr _, db) \<Rightarrow> acknowledge env stream_name message_id (s\<lparr>cs_db := db\<rparr>)))"

text \<open>The loop over the messages of a read: an exception of the acknowledgement ends it.\<close>

type_synonym consumed_message = "message_env \<times> string \<times> string \<times> scrape_result option"

fun process_batch :: "consumed_message list \<Rightarrow> consumer_state \<Rightarrow> (redis_exn + unit) \<times> consumer_state" where
  "process_batch [] s = (Inr (), s)"
| "process_batch ((env, stream_name, message_id, payload_raw) # ms) s =
     (case process_result_message env stream_name message_id payload_raw s of
        (Inl e, s') \<Rightarrow> (Inl e, s')
      | (Inr _, s') \<Rightarrow> process_batch ms s')"

section \<open>Deliveries\<close>

definition deliver_all :: "delivery list \<Rightarrow> database \<Rightarrow> database" where
  "deliver_all ps db = fold (\<lambda>p db. snd (store_delivery p db)) ps db"

lemma deliver_all_eq: "deliver_all = result_ledger.deliver"
  by (simp add: fun_eq_iff deliver_all_def result_ledger.deliver_def)

lemma committed_CommitOk: "committed CommitOk m = transaction m"
  by (auto simp: fun_eq_iff committed_def transaction_def split: prod.splits sum.splits)

section \<open>The job after a result\<close>

lemma persist_stored_job:
  assumes "persist_worker_result now payload kind db = (Inr True, db')" and "ledger_ok db"
    and "unique_key jb_job_id (db_jobs db)"
  shows "\<exists>job. row_with jb_job_id (res_job_id payload) (db_jobs db) = Some job \<and>
    db_jobs db' = update_row jb_job_id (res_job_id payload)
      (\<lambda>row. row\<lparr>jb_status := job_status_of (jb_feed_count job) (int (length (job_results (res_job_id payload) db')))
         (int (length (filter (\<lambda>r. rr_status r = ''error'') (job_results (res_job_id payload) db')))),
         jb_updated_at := now\<rparr>) (db_jobs db)"
  using assms(1)
proof (cases rule: persist_cases)
  case (stored db1 db2 db3)
  from stored(2) obtain row where row: "db1 = db\<lparr>db_results := db_results db @ [row]\<rparr>"
    "res_job_id payload \<in> keys_of jb_job_id (db_jobs db)"
    by (cases rule: insert_result_cases) auto
  have "ledger_part db3 = ledger_part db2"
    using stored(4) frameD [OF ledger_part_frames(2), of payload db2 "()" db3]
    by (cases "kind = ''ingest''") simp_all
  then have same: "db_jobs db3 = db_jobs db" "db_results db3 = db_results db1"
    using frameD [OF ledger_part_frames(1) stored(3)] row(1) by (simp_all add: ledger_part_def)
  from stored(5) show ?thesis
  proof (cases rule: refresh_cases)
    case absent
    then show ?thesis using row(2) same(1) row_with_None by metis
  next
    case (refreshed job)
    then show ?thesis using same by (simp add: job_results_def)
  qed
qed simp

lemma job_status_final:
  "0 < n \<Longrightarrow> (job_status_of n p e \<in> {''completed'', ''completed_with_errors''} \<longleftrightarrow> p \<noteq> 0 \<and> n \<le> p) \<and>
    (job_status_of n p e = ''completed_with_errors'' \<longleftrightarrow> p \<noteq> 0 \<and> n \<le> p \<and> 0 < e)"
  by (simp add: job_status_of_def)

section \<open>The error counter of a feed\<close>

definition feed_errors :: "database \<Rightarrow> int \<Rightarrow> int" where
  "feed_errors db f = (case row_with sc_feed_id f (db_scrapings db) of None \<Rightarrow> 0 | Some row \<Rightarrow> sc_error_nbr row)"

definition error_results :: "database \<Rightarrow> int \<Rightarrow> int" where
  "error_results db f = int (length (filter (\<lambda>r. rr_feed_id r = f \<and> rr_status r = ''error'') (db_results db)))"

lemma upsert_scraping_errors:
  assumes "upsert_feed_scraping_state payload db = (Inr u, db')"
  shows "feed_errors db' f =
    feed_errors db f + (if f = res_feed_id payload \<and> res_status payload = ResultError then 1 else 0)"
  using assms
proof (cases rule: upsert_scraping_cases)
  case (insert excluded)
  have "row_with sc_feed_id (sc_feed_id excluded) (db_scrapings db) = None"
    using insert(3) row_with_None by metis
  then show ?thesis using insert(2) scraping_row_of_Inr [OF insert(1)]
    by (auto simp: feed_errors_def row_with_append split: option.splits)
next
  case (update excluded old n)
  then show ?thesis using scraping_row_of_Inr [OF update(1)]
    by (auto simp: feed_errors_def row_with_update)
qed

lemma scraping_frames:
  "frame db_scrapings (upsert_sources_for_feed payload)"
  "frame db_scrapings (refresh_rss_scrape_job_status now j)"
proof -
  have "frame db_scrapings (upsert_source source d)" for source d
    unfolding frame_def by (auto elim: upsert_source_cases)
  moreover have "frame db_scrapings (link_source i f p)" for i f p
    unfolding frame_def by (auto elim: link_source_cases)
  ultimately show "frame db_scrapings (upsert_sources_for_feed payload)"
    unfolding upsert_sources_for_feed_def upsert_source_for_feed_def
    by (auto intro!: frame_bind frame_for split: prod.splits)
  show "frame db_scrapings (refresh_rss_scrape_job_status now j)"
    unfolding frame_def by (auto elim: refresh_cases)
qed

lemma status_text_error: "status_text st = ''error'' \<longleftrightarrow> st = ResultError"
  by (cases st) auto

lemma persist_errors:
  assumes "persist_worker_result now payload kind db = (Inr b, db')" and "ledger_ok db"
  shows "feed_errors db' f - feed_errors db f = error_results db' f - error_results db f"
proof (cases b)
  case False
  then have "db' = db" using assms(1) by (auto elim: persist_cases)
  then show ?thesis by simp
next
  case True
  obtain row where row: "result_row_of payload kind = Inr row" "db_results db' = db_results db @ [row]"
    using persist_stored_ledger [OF _ assms(2), of now payload kind db'] assms(1) True by auto
  from assms(1) show ?thesis
  proof (cases rule: persist_cases)
    case skipped
    then show ?thesis using True by simp
  next
    case (stored db1 db2 db3)
    have "db_scrapings db3 = db_scrapings db2"
      using stored(4) frameD [OF scraping_frames(1), of payload db2 "()" db3]
      by (cases "kind = ''ingest''") simp_all
    then have "db_scrapings db' = db_scrapings db2"
      using frameD [OF scraping_frames(2) stored(5)] by simp
    moreover have "db_scrapings db1 = db_scrapings db" using stored(2) by (auto elim: insert_result_cases)
    ultimately have "feed_errors db' f = feed_errors db f +
        (if f = res_feed_id payload \<and> res_status payload = ResultError then 1 else 0)"
      using upsert_scraping_errors [OF stored(3), of f] by (simp add: feed_errors_def)
    then show ?thesis
      using row result_row_of_Inr [OF row(1)] status_text_error [of "res_status payload"]
      by (auto simp: error_results_def)
  qed
qed

section \<open>The articles of a result\<close>

text \<open>No article disappears, changes its identity, or loses a text it had.\<close>

definition articles_kept :: "database \<Rightarrow> database \<Rightarrow> bool" where
  "articles_kept db db' \<longleftrightarrow> (\<forall>a\<in>set (db_sources db). \<exists>b\<in>set (db_sources db'). so_id b = so_id a \<and>
     source_key b = source_key a \<and> (so_summary a \<noteq> None \<longrightarrow> so_summary b \<noteq> None) \<and>
     (so_author a \<noteq> None \<longrightarrow> so_author b \<noteq> None) \<and> (so_image_url a \<noteq> None \<longrightarrow> so_image_url b \<noteq> None)) \<and>
   set (db_source_links db) \<subseteq> set (db_source_links db')"

lemma articles_kept_refl [simp]: "articles_kept db db"
  by (auto simp: articles_kept_def)

lemma articles_kept_trans:
  assumes "articles_kept a b" and "articles_kept b c"
  shows "articles_kept a c"
  unfolding articles_kept_def
proof (intro conjI ballI)
  fix x assume "x \<in> set (db_sources a)"
  then obtain y where y: "y \<in> set (db_sources b)" "so_id y = so_id x" "source_key y = source_key x"
    "so_summary x \<noteq> None \<longrightarrow> so_summary y \<noteq> None" "so_author x \<noteq> None \<longrightarrow> so_author y \<noteq> None"
    "so_image_url x \<noteq> None \<longrightarrow> so_image_url y \<noteq> None"
    using assms(1) unfolding articles_kept_def by blast
  then obtain z where "z \<in> set (db_sources c)" "so_id z = so_id y" "source_key z = source_key y"
    "so_summary y \<noteq> None \<longrightarrow> so_summary z \<noteq> None" "so_author y \<noteq> None \<longrightarrow> so_author z \<noteq> None"
    "so_image_url y \<noteq> None \<longrightarrow> so_image_url z \<noteq> None"
    using assms(2) unfolding articles_kept_def by blast
  then show "\<exists>z\<in>set (db_sources c). so_id z = so_id x \<and> source_key z = source_key x \<and>
      (so_summary x \<noteq> None \<longrightarrow> so_summary z \<noteq> None) \<and> (so_author x \<noteq> None \<longrightarrow> so_author z \<noteq> None) \<and>
      (so_image_url x \<noteq> None \<longrightarrow> so_image_url z \<noteq> None)"
    using y by metis
next
  show "set (db_source_links a) \<subseteq> set (db_source_links c)"
    using assms unfolding articles_kept_def by blast
qed

lemma source_update_keeps:
  "so_summary r \<noteq> None \<Longrightarrow> so_summary (source_update e r) \<noteq> None"
  "so_author r \<noteq> None \<Longrightarrow> so_author (source_update e r) \<noteq> None"
  "so_image_url r \<noteq> None \<Longrightarrow> so_image_url (source_update e r) \<noteq> None"
  by (cases "so_summary e"; cases "so_author e"; cases "so_image_url e"; simp add: source_update_def)+

lemma upsert_source_articles:
  assumes "upsert_source source d db = (Inr (i, p), db')"
  shows "articles_kept db db' \<and> p = instant d \<and>
    (\<exists>a\<in>set (db_sources db'). so_id a = i \<and> so_published_at a = instant d \<and>
       varchar 1000 (src_url source) = Inr (so_url a) \<and> varchar 500 (src_title source) = Inr (so_title a))"
  using assms
proof (cases rule: upsert_source_cases)
  case (insert excluded)
  then show ?thesis using source_row_of_Inr [OF insert(1)] by (auto simp: articles_kept_def)
next
  case (update excluded old)
  note row = source_row_of_Inr [OF update(1)] and old = row_with_SomeD [OF update(2)]
  let ?f = "\<lambda>r. if source_key r = source_key excluded then source_update excluded r else r"
  have sources: "db_sources db' = map ?f (db_sources db)" using update(5) by (simp add: update_row_def)
  have "articles_kept db db'"
    unfolding articles_kept_def
  proof (intro conjI ballI)
    fix a assume "a \<in> set (db_sources db)"
    then show "\<exists>b\<in>set (db_sources db'). so_id b = so_id a \<and> source_key b = source_key a \<and>
        (so_summary a \<noteq> None \<longrightarrow> so_summary b \<noteq> None) \<and> (so_author a \<noteq> None \<longrightarrow> so_author b \<noteq> None) \<and>
        (so_image_url a \<noteq> None \<longrightarrow> so_image_url b \<noteq> None)"
      using sources source_update_keeps by (intro bexI [of _ "?f a"]) auto
  qed (use update(5) in simp)
  moreover have "?f old \<in> set (db_sources db')" using old sources by auto
  ultimately show ?thesis using row old update(3,4)
    by (auto simp: source_key_def intro!: bexI [of _ "?f old"])
qed

text \<open>The article of a payload is there, with its link.\<close>

definition article_linked :: "int \<Rightarrow> feed_source \<Rightarrow> database \<Rightarrow> bool" where
  "article_linked f source db \<longleftrightarrow> (\<exists>d. normalize_published_at (src_published_at source) = Inr d \<and>
     (\<exists>a\<in>set (db_sources db). so_published_at a = instant d \<and> varchar 1000 (src_url source) = Inr (so_url a) \<and>
        (so_id a, f, instant d) \<in> keys_of link_key (db_source_links db)))"

lemma article_linked_kept: "article_linked f source db \<Longrightarrow> articles_kept db db' \<Longrightarrow> article_linked f source db'"
  unfolding article_linked_def articles_kept_def
  by (fastforce simp: in_keys_of source_key_def)

lemma upsert_source_for_feed_articles:
  assumes "upsert_source_for_feed f source db = (Inr u, db')"
  shows "articles_kept db db' \<and> article_linked f source db' \<and> (\<exists>t. varchar 500 (src_title source) = Inr t)"
proof -
  obtain d i p db1 where d: "normalize_published_at (src_published_at source) = Inr d"
    and up: "upsert_source source d db = (Inr (i, p), db1)" and ln: "link_source i f p db1 = (Inr u, db')"
    using upsert_source_for_feed_cases [OF assms] by blast
  note a = upsert_source_articles [OF up]
  have link: "db_sources db' = db_sources db1 \<and> set (db_source_links db1) \<subseteq> set (db_source_links db') \<and>
      (i, f, p) \<in> keys_of link_key (db_source_links db')"
    using ln by (cases rule: link_source_cases) (auto simp: link_key_def)
  then have "articles_kept db1 db'" by (auto simp: articles_kept_def)
  then have "articles_kept db db'" using a articles_kept_trans by blast
  moreover have "article_linked f source db'"
    using d a link unfolding article_linked_def by (intro exI [of _ d]) fastforce
  ultimately show ?thesis using a by blast
qed

lemma sql_for_articles:
  "sql_for (upsert_source_for_feed f) sources db = (Inr u, db') \<Longrightarrow>
    articles_kept db db' \<and> (\<forall>source\<in>set sources. article_linked f source db' \<and>
      (\<exists>t. varchar 500 (src_title source) = Inr t))"
proof (induction sources arbitrary: db)
  case (Cons source sources)
  obtain db1 where db1: "upsert_source_for_feed f source db = (Inr (), db1)"
    "sql_for (upsert_source_for_feed f) sources db1 = (Inr u, db')"
    using Cons.prems by (auto split: prod.splits sum.splits)
  show ?case
    using upsert_source_for_feed_articles [OF db1(1)] Cons.IH [OF db1(2)]
      articles_kept_trans article_linked_kept by auto
qed simp

lemma article_frames:
  "frame (\<lambda>db. (db_sources db, db_source_links db)) (insert_job_result_if_new payload kind)"
  "frame (\<lambda>db. (db_sources db, db_source_links db)) (upsert_feed_scraping_state payload)"
  "frame (\<lambda>db. (db_sources db, db_source_links db)) (refresh_rss_scrape_job_status now j)"
  unfolding frame_def
  by (auto elim: insert_result_cases upsert_scraping_cases refresh_cases)

lemma articles_kept_cong:
  "(db_sources a, db_source_links a) = (db_sources b, db_source_links b) \<Longrightarrow> articles_kept a b"
  by (auto simp: articles_kept_def)

lemma persist_articles:
  assumes "persist_worker_result now payload ''ingest'' db = (Inr True, db')"
    and "res_status payload = Success"
  shows "articles_kept db db' \<and> (\<forall>source\<in>set (res_sources payload).
    article_linked (res_feed_id payload) source db' \<and> (\<exists>t. varchar 500 (src_title source) = Inr t))"
  using assms(1)
proof (cases rule: persist_cases)
  case (stored db1 db2 db3)
  have "articles_kept db db2"
    using frameD [OF article_frames(1) stored(2)] frameD [OF article_frames(2) stored(3)]
    by (intro articles_kept_cong) simp
  moreover have "articles_kept db3 db'"
    using frameD [OF article_frames(3) stored(5)] by (intro articles_kept_cong) simp
  moreover have "sql_for (upsert_source_for_feed (res_feed_id payload)) (res_sources payload) db2 = (Inr (), db3)"
    using stored(4) assms(2) by (simp add: upsert_sources_for_feed_def)
  ultimately show ?thesis
    using sql_for_articles articles_kept_trans article_linked_kept by blast
qed simp

section \<open>A small database\<close>

definition empty_db :: database where
  "empty_db = \<lparr>db_companies = [], db_feeds = [], db_tags = [], db_feed_tags = [], db_scrapings = [],
     db_jobs = [], db_job_feeds = [], db_results = [], db_sources = [], db_source_links = [],
     source_seq = 1\<rparr>"

definition sample_db :: database where
  "sample_db = empty_db\<lparr>
     db_feeds := [\<lparr>fd_id = 7, fd_url = ''u'', fd_section = None, fd_enabled = True, fd_trust_score = 1,
       fd_company_id = None\<rparr>],
     db_jobs := [\<lparr>jb_job_id = ''j'', jb_ingest = True, jb_requested_by = ''x'', jb_requested_at = 0,
       jb_feed_count = 1, jb_status = ''queued'', jb_updated_at = 0\<rparr>]\<rparr>"

definition sample_article :: feed_source where
  "sample_article = \<lparr>src_title = ''t'', src_url = ''a'', src_summary = None, src_author = None,
     src_published_at = None, src_image_url = None\<rparr>"

definition sample_payload :: scrape_result where
  "sample_payload = \<lparr>res_job_id = ''j'', res_ingest = True, res_feed_id = 7, res_feed_url = ''u'',
     res_status = Success, res_error_message = None, res_new_etag = Some ''e'', res_new_last_update = None,
     res_fetchprotection = 1, res_sources = [sample_article]\<rparr>"

definition sample_stored :: database where
  "sample_stored = snd (persist_worker_result 5 sample_payload ''ingest'' sample_db)"

lemma sample_db_ok: "db_ok sample_db"
  by (simp add: sample_db_def empty_db_def schema_defs unique_key_def job_row_ok_def)

lemma sample_persist: "persist_worker_result 5 sample_payload ''ingest'' sample_db = (Inr True, sample_stored)"
proof -
  have "fst (persist_worker_result 5 sample_payload ''ingest'' sample_db) = Inr True" by code_simp
  then show ?thesis by (simp add: sample_stored_def prod_eq_iff)
qed

section \<open>Properties\<close>

lemma committed_keeps:
  assumes "sql_keeps db_ok m" and "seq_grows m" and "db_ok db"
  shows "db_ok (snd (committed commit m db))"
proof (cases "m db")
  case (Pair r db')
  have "db_ok (db\<lparr>source_seq := source_seq db'\<rparr>)"
    using assms(2,3) Pair db_ok_seq unfolding seq_grows_def by blast
  moreover have "r = Inr x \<Longrightarrow> db_ok db'" for x
    using assms(1,3) Pair unfolding sql_keeps_def by blast
  ultimately show ?thesis using Pair
    by (cases r; cases commit) (simp_all add: committed_def)
qed

lemma acknowledge_db: "cs_db (snd (acknowledge env stream i s)) = cs_db s"
  by (simp add: acknowledge_def split: prod.splits)

text \<open>
  C14: the constraints of the schema (unique keys, foreign keys, checks, the sequence above every
  identifier in use) survive every processed message, whatever its payload, the outcome of the
  commit and the replies of Redis.
\<close>

theorem batch_keeps_schema:
  assumes "db_ok (cs_db s)"
  shows "db_ok (cs_db (snd (process_batch ms s)))"
  using assms
proof (induction ms arbitrary: s)
  case Nil
  then show ?case by simp
next
  case (Cons m ms)
  obtain env stream i raw where m: "m = (env, stream, i, raw)" by (cases m)
  obtain r s' where r: "process_result_message env stream i raw s = (r, s')" by fastforce
  have "db_ok (cs_db s')"
  proof (cases "validate_result raw")
    case (Inl e)
    then show ?thesis
      using r Cons.prems acknowledge_db [of env stream i s] by (simp add: process_result_message_def)
  next
    case (Inr payload)
    let ?m = "persist_worker_result (me_now env) payload
      (resolve_queue_kind stream ''rss_check_results'' ''rss_ingest_results'' ''error_feeds_parsing'')"
    have "sql_keeps db_ok ?m"
      using Inr persist_keeps by (auto simp: validate_result_def valid_worker_result_def split: option.splits if_splits)
    then have ok: "db_ok (snd (committed (me_commit env) ?m (cs_db s)))"
      using committed_keeps [OF _ seq_grows_persist Cons.prems] by blast
    show ?thesis
    proof (cases "committed (me_commit env) ?m (cs_db s)")
      case (Pair x db)
      then show ?thesis
        using r ok Inr acknowledge_db [of env stream i "s\<lparr>cs_db := db\<rparr>"]
        by (cases x) (auto simp: process_result_message_def Let_def)
    qed
  qed
  then show ?case using Cons.IH [of s'] r m by (cases r) simp_all
qed

theorem batch_keeps_schema_witness:
  "db_ok (cs_db (snd (process_batch
     [(\<lparr>me_now = 5, me_commit = CommitOk, me_xack = \<lambda>_ _. Replied (), me_cache = empty_cache\<rparr>,
       ''rss_ingest_results'', ''1'', Some sample_payload)] \<lparr>cs_db = sample_db, cs_acked = []\<rparr>)))"
  by (rule batch_keeps_schema) (simp add: sample_db_ok)

text \<open>
  C15: the first accepted result of a feed wins.  Over any sequence of deliveries, each a transaction of
  its own: what the ledger holds for a job and a feed is never replaced; an entry that appears is
  the row of a delivery with that key, the ledger having had none before it; and an accepted
  delivery is what the ledger holds at the end.
\<close>

theorem first_result_wins:
  assumes "ledger_ok db"
  shows "(\<forall>k r. ledger db k = Some r \<longrightarrow> ledger (deliver_all ps db) k = Some r) \<and>
    (\<forall>k r. ledger db k = None \<longrightarrow> ledger (deliver_all ps db) k = Some r \<longrightarrow>
       (\<exists>pre p post. ps = pre @ p # post \<and> delivery_key p = k \<and> delivery_entry p = Some r \<and>
          ledger (deliver_all pre db) k = None)) \<and>
    (\<forall>pre p post. ps = pre @ p # post \<longrightarrow> fst (store_delivery p (deliver_all pre db)) = Inr True \<longrightarrow>
       ledger (deliver_all ps db) (delivery_key p) = delivery_entry p)"
  unfolding deliver_all_eq
  using result_ledger.lookup_stable [OF assms] result_ledger.deliver_origin [OF assms]
    result_ledger.accepted_is_stored [OF assms] by blast

lemma sample_delivery: "store_delivery (5, sample_payload, ''ingest'') sample_db = (Inr True, sample_stored)"
  by (simp add: store_delivery_def transaction_def sample_persist)

lemma sample_stored_entry: "ledger sample_stored (''j'', 7) \<noteq> None"
  by code_simp

theorem first_result_wins_witness:
  "ledger (deliver_all [(5, sample_payload, ''ingest''), (6, sample_payload, ''check'')] sample_db) (''j'', 7) =
    delivery_entry (5, sample_payload, ''ingest'')"
  using first_result_wins [OF db_ok_ledger [OF sample_db_ok],
      of "[(5, sample_payload, ''ingest''), (6, sample_payload, ''check'')]"]
  by (auto simp: deliver_all_def delivery_key_def build_idempotency_key_def sample_payload_def
      sample_delivery [unfolded sample_payload_def] dest: spec [of _ "[]"])

text \<open>
  C16: redelivery is harmless.  Deliveries whose keys are recorded after \<open>ps\<close>, such as copies of
  deliveries already accepted, change no row of any table, not even the sequence.
\<close>

theorem redelivery_changes_nothing:
  assumes "ledger_ok db" and "\<forall>q\<in>set qs. ledger (deliver_all ps db) (delivery_key q) \<noteq> None"
  shows "deliver_all (ps @ qs) db = deliver_all ps db"
  unfolding deliver_all_eq result_ledger.deliver_simps
  by (rule result_ledger.deliver_known [OF result_ledger.deliver_inv [OF assms(1)]])
    (use assms(2) in \<open>simp add: deliver_all_eq\<close>)

theorem redelivery_changes_nothing_witness:
  "deliver_all ([(5, sample_payload, ''ingest'')] @ [(6, sample_payload, ''ingest'')]) sample_db =
    deliver_all [(5, sample_payload, ''ingest'')] sample_db"
proof (rule redelivery_changes_nothing [OF db_ok_ledger [OF sample_db_ok]])
  have "delivery_key (6, sample_payload, ''ingest'') = (''j'', 7)"
    by (simp add: delivery_key_def build_idempotency_key_def sample_payload_def)
  then show "\<forall>q\<in>set [(6, sample_payload, ''ingest'')].
      ledger (deliver_all [(5, sample_payload, ''ingest'')] sample_db) (delivery_key q) \<noteq> None"
    using sample_stored_entry by (simp add: deliver_all_def sample_delivery)
qed

text \<open>
  C17: the status of a job.  When a result is stored, the job's row is the only one that changes, and its
  status says how far it is: for a job with feeds it is final exactly when as many results are stored
  as the job has feeds, and \<^verbatim>\<open>completed_with_errors\<close> exactly when moreover one of them is an error.
\<close>

theorem job_status_follows_results:
  assumes "persist_worker_result now payload kind db = (Inr True, db')" and "db_ok db"
  shows "\<exists>job job'. row_with jb_job_id (res_job_id payload) (db_jobs db) = Some job \<and>
    row_with jb_job_id (res_job_id payload) (db_jobs db') = Some job' \<and>
    jb_feed_count job' = jb_feed_count job \<and>
    (\<forall>j. j \<noteq> res_job_id payload \<longrightarrow> row_with jb_job_id j (db_jobs db') = row_with jb_job_id j (db_jobs db)) \<and>
    length (job_results (res_job_id payload) db') = Suc (length (job_results (res_job_id payload) db)) \<and>
    (0 < jb_feed_count job \<longrightarrow>
      (jb_status job' \<in> {''completed'', ''completed_with_errors''} \<longleftrightarrow>
         jb_feed_count job \<le> int (length (job_results (res_job_id payload) db'))) \<and>
      (jb_status job' = ''completed_with_errors'' \<longleftrightarrow>
         jb_feed_count job \<le> int (length (job_results (res_job_id payload) db')) \<and>
         (\<exists>r\<in>set (db_results db'). rr_job_id r = res_job_id payload \<and> rr_status r = ''error'')))"
proof -
  let ?j = "res_job_id payload"
  have ok: "ledger_ok db" "unique_key jb_job_id (db_jobs db)"
    using assms(2) db_ok_ledger by (auto simp: schema_defs)
  obtain job where job: "row_with jb_job_id ?j (db_jobs db) = Some job"
    "db_jobs db' = update_row jb_job_id ?j
      (\<lambda>row. row\<lparr>jb_status := job_status_of (jb_feed_count job) (int (length (job_results ?j db')))
         (int (length (filter (\<lambda>r. rr_status r = ''error'') (job_results ?j db')))),
         jb_updated_at := now\<rparr>) (db_jobs db)"
    using persist_stored_job [OF assms(1) ok] by blast
  obtain row where row: "db_results db' = db_results db @ [row]" "rr_job_id row = ?j"
    using persist_stored_ledger [OF assms(1) ok(1)] by (auto simp: result_key_def build_idempotency_key_def)
  have len: "length (job_results ?j db') = Suc (length (job_results ?j db))"
    using row by (simp add: job_results_def)
  have errors: "0 < length (filter (\<lambda>r. rr_status r = ''error'') (job_results ?j db')) \<longleftrightarrow>
      (\<exists>r\<in>set (db_results db'). rr_job_id r = ?j \<and> rr_status r = ''error'')"
    by (auto simp: job_results_def length_greater_0_conv [symmetric] filter_empty_conv simp del: length_greater_0_conv)
  let ?job' = "job\<lparr>jb_status := job_status_of (jb_feed_count job) (int (length (job_results ?j db')))
         (int (length (filter (\<lambda>r. rr_status r = ''error'') (job_results ?j db')))), jb_updated_at := now\<rparr>"
  have status: "jb_status ?job' \<in> {''completed'', ''completed_with_errors''} \<longleftrightarrow>
         jb_feed_count job \<le> int (length (job_results ?j db'))"
      "jb_status ?job' = ''completed_with_errors'' \<longleftrightarrow> jb_feed_count job \<le> int (length (job_results ?j db')) \<and>
         (\<exists>r\<in>set (db_results db'). rr_job_id r = ?j \<and> rr_status r = ''error'')"
    if "0 < jb_feed_count job"
    using job_status_final [OF that, of "int (length (job_results ?j db'))"
        "int (length (filter (\<lambda>r. rr_status r = ''error'') (job_results ?j db')))"] len errors
    by auto
  have "row_with jb_job_id ?j (db_jobs db') = Some ?job'"
    "\<forall>j. j \<noteq> ?j \<longrightarrow> row_with jb_job_id j (db_jobs db') = row_with jb_job_id j (db_jobs db)"
    by (simp_all add: job(2) row_with_update job(1))
  then show ?thesis using job(1) len status by (intro exI [of _ job] exI [of _ ?job']) simp
qed

theorem job_status_follows_results_witness:
  "\<exists>job'. row_with jb_job_id ''j'' (db_jobs sample_stored) = Some job' \<and> jb_feed_count job' = 1"
proof -
  have "res_job_id sample_payload = ''j''" by (simp add: sample_payload_def)
  moreover have "row_with jb_job_id ''j'' (db_jobs sample_db) = Some job \<Longrightarrow> jb_feed_count job = 1" for job
    by (auto simp: sample_db_def row_with_def)
  ultimately show ?thesis
    using job_status_follows_results [OF sample_persist sample_db_ok] by auto
qed

lemma deliver_all_errors:
  "ledger_ok db \<Longrightarrow> feed_errors (deliver_all ps db) f - feed_errors db f =
    error_results (deliver_all ps db) f - error_results db f"
proof (induction ps arbitrary: db)
  case Nil
  then show ?case by (simp add: deliver_all_def)
next
  case (Cons p ps)
  obtain now payload kind where p: "p = (now, payload, kind)" by (cases p)
  let ?db = "snd (store_delivery p db)"
  have "feed_errors ?db f - feed_errors db f = error_results ?db f - error_results db f"
  proof (cases "persist_worker_result now payload kind db")
    case (Pair r db')
    then show ?thesis
      using persist_errors [OF _ Cons.prems, of now payload kind _ db'] p
      by (cases r) (auto simp: store_delivery_def transaction_def feed_errors_def error_results_def)
  qed
  then show ?case
    using Cons.IH [OF store_delivery_ledger_ok [OF Cons.prems, of p]] by (simp add: deliver_all_def)
qed

text \<open>
  C18: the error counter.  Over any sequence of deliveries, the error counter of a feed grows by exactly the
  number of error results recorded for that feed: redelivered and refused results do not count, and a
  success never lowers it.
\<close>

theorem error_counter_counts_recorded_errors:
  assumes "ledger_ok db"
  shows "feed_errors (deliver_all ps db) f - feed_errors db f =
    error_results (deliver_all ps db) f - error_results db f"
  by (rule deliver_all_errors [OF assms])

theorem error_counter_counts_recorded_errors_witness:
  "feed_errors (deliver_all [(5, sample_payload\<lparr>res_status := ResultError\<rparr>, ''error'')] sample_db) 7 = 1"
proof -
  have "error_results (deliver_all [(5, sample_payload\<lparr>res_status := ResultError\<rparr>, ''error'')] sample_db) 7 = 1"
    "error_results sample_db 7 = 0" "feed_errors sample_db 7 = 0" by code_simp+
  then show ?thesis
    using error_counter_counts_recorded_errors [OF db_ok_ledger [OF sample_db_ok],
        of "[(5, sample_payload\<lparr>res_status := ResultError\<rparr>, ''error'')]" 7] by simp
qed

text \<open>
  C19: the articles of an ingested result.  When a success is persisted from the ingest stream, every article
  of the payload is in the table under its URL and date and linked to the feed; and no article that
  was there disappears, changes its identifier or its key, or loses a summary, an author or an image,
  and no link is removed.
\<close>

theorem ingested_articles_are_stored:
  assumes "persist_worker_result now payload ''ingest'' db = (Inr True, db')" and "res_status payload = Success"
  shows "articles_kept db db' \<and> (\<forall>source\<in>set (res_sources payload). article_linked (res_feed_id payload) source db')"
  using persist_articles [OF assms] by blast

theorem ingested_articles_are_stored_witness: "article_linked 7 sample_article sample_stored"
  using ingested_articles_are_stored [OF sample_persist] by (simp add: sample_payload_def)

text \<open>
  One oversized title loses the result.  A valid success of a known job, not yet recorded, that has an
  article whose title is longer than the 500 characters of its column is not stored: no table changes (only
  the sequence may), and the message is not acknowledged.
\<close>

theorem oversized_title_loses_result:
  assumes "validate_result raw = Inr payload" and "res_status payload = Success"
    and "ledger_ok (cs_db s)" and "res_job_id payload \<in> keys_of jb_job_id (db_jobs (cs_db s))"
    and "ledger (cs_db s) (build_idempotency_key payload) = None"
    and "source \<in> set (res_sources payload)" and "500 < length (src_title source)"
    and "src_title source ! 500 \<noteq> CHR '' ''"
  shows "\<exists>n. process_result_message env ''rss_ingest_results'' i raw s = (Inr (), s\<lparr>cs_db := cs_db s\<lparr>source_seq := n\<rparr>\<rparr>)"
proof -
  let ?m = "persist_worker_result (me_now env) payload ''ingest''"
  obtain r db' where m: "?m (cs_db s) = (r, db')" by fastforce
  have "r \<noteq> Inr b" for b
  proof (cases b)
    case True
    then show ?thesis
      using persist_articles [OF _ assms(2)] m assms(6-8) varchar_too_long by fastforce
  next
    case False
    have "insert_job_result_if_new payload ''ingest'' (cs_db s) \<noteq> (Inr False, cs_db s)"
    proof
      assume "insert_job_result_if_new payload ''ingest'' (cs_db s) = (Inr False, cs_db s)"
      then show False
      proof (cases rule: insert_result_cases)
        case (old row)
        then show ?thesis
          using known_job_key [OF assms(3) old(3,4)] assms(5) row_with_None unfolding ledger_def by metis
      qed (use assms(4) in auto)
    qed
    then show ?thesis using m False by (auto elim: persist_cases)
  qed
  then obtain e where "r = Inl e" by (cases r) auto
  then show ?thesis
    using m assms(1)
    by (auto simp: process_result_message_def resolve_queue_kind_def committed_def Let_def)
qed

definition long_title_payload :: scrape_result where
  "long_title_payload = sample_payload\<lparr>res_sources := [sample_article\<lparr>src_title := replicate 501 CHR ''x''\<rparr>]\<rparr>"

theorem oversized_title_loses_result_witness:
  "\<exists>n. process_result_message
     \<lparr>me_now = 5, me_commit = CommitOk, me_xack = \<lambda>_ _. Replied (), me_cache = empty_cache\<rparr>
     ''rss_ingest_results'' ''1'' (Some long_title_payload) \<lparr>cs_db = sample_db, cs_acked = []\<rparr> =
     (Inr (), \<lparr>cs_db = sample_db\<lparr>source_seq := n\<rparr>, cs_acked = []\<rparr>)"
proof -
  have "validate_result (Some long_title_payload) = Inr long_title_payload"
    by (simp add: validate_result_def valid_worker_result_def valid_worker_source_def
        long_title_payload_def sample_payload_def sample_article_def)
  moreover have "ledger sample_db (build_idempotency_key long_title_payload) = None"
    by (simp add: ledger_def row_with_def sample_db_def empty_db_def)
  moreover have "res_job_id long_title_payload \<in> keys_of jb_job_id (db_jobs sample_db)"
    by (simp add: long_title_payload_def sample_payload_def sample_db_def)
  ultimately show ?thesis
    using oversized_title_loses_result [of "Some long_title_payload" long_title_payload
        "\<lparr>cs_db = sample_db, cs_acked = []\<rparr>" "sample_article\<lparr>src_title := replicate 501 CHR ''x''\<rparr>"]
      db_ok_ledger [OF sample_db_ok]
    by (simp add: long_title_payload_def sample_payload_def)
qed

lemma ack_replied: "ack_worker_result i (\<lambda>_ _. Replied ()) c = (r, n, c') \<Longrightarrow> r = Inr () \<and> n = 1"
  by (auto simp: ack_worker_result_def ack_message_def run_redis_command_def executions_def
      redis_command_loop.simps [of _ _ "Suc _"] split: prod.splits)

lemma persist_Inr_recorded:
  assumes "persist_worker_result now payload kind db = (Inr b, db')" and "ledger_ok db"
  shows "res_job_id payload \<notin> keys_of jb_job_id (db_jobs db) \<or> ledger db' (build_idempotency_key payload) \<noteq> None"
proof (cases b)
  case True
  then obtain row where "db_results db' = db_results db @ [row]" "result_key row = build_idempotency_key payload"
    using persist_stored_ledger [OF _ assms(2), of now payload kind db'] assms(1) by auto
  then show ?thesis by (simp add: ledger_def row_with_None)
next
  case False
  then have s: "db' = db" "insert_job_result_if_new payload kind db = (Inr False, db)"
    using assms(1) by (auto elim: persist_cases)
  from s(2) show ?thesis
  proof (cases rule: insert_result_cases)
    case (old row)
    then show ?thesis using s(1) known_job_key [OF assms(2) old(3,4)] by (simp add: ledger_def row_with_None)
  qed auto
qed

text \<open>
  C20: acknowledgement follows the commit.  A message that gets acknowledged was not a valid result, or
  belongs to an unknown job, or its job and feed have a row in the ledger by then and the commit
  returned.  A valid result that is not acknowledged although Redis answers has left every table as it
  was, unless its commit failed after it was applied.
\<close>

theorem ack_follows_commit:
  assumes "ledger_ok (cs_db s)" and "process_result_message env stream i raw s = (r, s')"
  shows "(cs_acked s' \<noteq> cs_acked s \<longrightarrow> (case validate_result raw of Inl _ \<Rightarrow> True | Inr payload \<Rightarrow>
      me_commit env = CommitOk \<and> (res_job_id payload \<notin> keys_of jb_job_id (db_jobs (cs_db s)) \<or>
        ledger (cs_db s') (build_idempotency_key payload) \<noteq> None))) \<and>
    (cs_acked s' = cs_acked s \<longrightarrow> me_xack env = (\<lambda>_ _. Replied ()) \<longrightarrow>
       \<not> isl (validate_result raw) \<and> ((\<exists>msg. me_commit env = CommitRaises True msg) \<or>
       (\<exists>n. cs_db s' = (cs_db s)\<lparr>source_seq := n\<rparr>)))"
proof (cases "validate_result raw")
  case (Inl e)
  then have "acknowledge env stream i s = (r, s')" using assms(2) by (simp add: process_result_message_def)
  then have "me_xack env = (\<lambda>_ _. Replied ()) \<longrightarrow> cs_acked s' \<noteq> cs_acked s"
    by (auto simp: acknowledge_def split: prod.splits dest!: ack_replied)
  then show ?thesis using Inl by auto
next
  case (Inr payload)
  let ?m = "persist_worker_result (me_now env) payload
    (resolve_queue_kind stream ''rss_check_results'' ''rss_ingest_results'' ''error_feeds_parsing'')"
  obtain x db where c: "committed (me_commit env) ?m (cs_db s) = (x, db)" by fastforce
  show ?thesis
  proof (cases x)
    case x: (Inl e)
    then have s': "s' = s\<lparr>cs_db := db\<rparr>" using assms(2) Inr c by (simp add: process_result_message_def Let_def)
    have "(\<exists>msg. me_commit env = CommitRaises True msg) \<or> (\<exists>n. db = (cs_db s)\<lparr>source_seq := n\<rparr>)"
      using c x by (auto simp: committed_def split: prod.splits sum.splits commit_outcome.splits if_splits)
    then show ?thesis using s' Inr by auto
  next
    case x: (Inr b)
    then have a: "acknowledge env stream i (s\<lparr>cs_db := db\<rparr>) = (r, s')"
      using assms(2) Inr c by (simp add: process_result_message_def Let_def)
    have com: "?m (cs_db s) = (Inr b, db)" "me_commit env = CommitOk"
      using c x by (auto simp: committed_def split: prod.splits sum.splits commit_outcome.splits)
    have "cs_db s' = db" using a acknowledge_db [of env stream i "s\<lparr>cs_db := db\<rparr>"] by simp
    moreover have "me_xack env = (\<lambda>_ _. Replied ()) \<longrightarrow> cs_acked s' \<noteq> cs_acked s"
      using a by (auto simp: acknowledge_def split: prod.splits dest!: ack_replied)
    ultimately show ?thesis
      using persist_Inr_recorded [OF com(1) assms(1)] com(2) Inr by auto
  qed
qed

theorem ack_follows_commit_witness:
  "\<exists>s'. process_result_message
     \<lparr>me_now = 5, me_commit = CommitOk, me_xack = \<lambda>_ _. Replied (), me_cache = empty_cache\<rparr>
     ''rss_ingest_results'' ''1'' None \<lparr>cs_db = sample_db, cs_acked = []\<rparr> = (Inr (), s') \<and> cs_acked s' \<noteq> []"
  (is "\<exists>s'. process_result_message ?env _ _ _ ?s = _ \<and> _")
proof -
  obtain r s' where p: "process_result_message ?env ''rss_ingest_results'' ''1'' None ?s = (r, s')" by fastforce
  have ok: "ledger_ok (cs_db ?s)" using db_ok_ledger [OF sample_db_ok] by simp
  have "isl (validate_result None)" by (simp add: validate_result_def)
  then have "cs_acked s' \<noteq> []" using ack_follows_commit [OF ok p] by auto
  moreover have "r = Inr ()"
    using p by (auto simp: process_result_message_def validate_result_def acknowledge_def
        split: prod.splits dest!: ack_replied)
  ultimately show ?thesis using p by blast
qed

end
