(* ===== verification/Company_Grouping.thy ===== *)
theory Company_Grouping
  imports Contracts Messages "HOL-Library.Multiset"
begin

text \<open>
  What the worker and the backend share in substance: the key under which the feeds of a company are
  handled together, the grouping by that key, and the numeric settings read from the environment.
  \<^verbatim>\<open>worker-rss-scrapper/app/services/scrape_job_service.py\<close> and
  \<^verbatim>\<open>backend/app/services/rss/rss_scrape_job_service.py\<close> have a copy each.
\<close>

section \<open>Settings\<close>

text \<open>\<^verbatim>\<open>int(raw)\<close>, the default standing for text that is not a number and for numbers that are not positive.\<close>

definition positive_setting :: "int \<Rightarrow> string option \<Rightarrow> int" where
  "positive_setting fallback env =
     (case py_int (case env of None \<Rightarrow> str_int fallback | Some raw \<Rightarrow> raw) of
        Inl _ \<Rightarrow> fallback
      | Inr parsed \<Rightarrow> if parsed \<le> 0 then fallback else parsed)"

definition resolve_queue_read_count :: "string option \<Rightarrow> int" where
  "resolve_queue_read_count env = positive_setting 20 env"

definition resolve_company_max_requests_per_second :: "string option \<Rightarrow> int" where
  "resolve_company_max_requests_per_second env = positive_setting 4 env"

definition resolve_queue_batch_size :: "string option \<Rightarrow> int" where
  "resolve_queue_batch_size env = positive_setting 50 env"

lemma positive_setting_positive: "0 < fallback \<Longrightarrow> 0 < positive_setting fallback env"
  by (auto simp: positive_setting_def split: sum.splits)

lemma settings_positive:
  "0 < resolve_queue_read_count env" "0 < resolve_company_max_requests_per_second env"
  "0 < resolve_queue_batch_size env"
  by (simp_all add: resolve_queue_read_count_def resolve_company_max_requests_per_second_def
      resolve_queue_batch_size_def positive_setting_positive)

section \<open>The key of a feed\<close>

definition resolve_company_key :: "job_feed \<Rightarrow> string" where
  "resolve_company_key feed = (case jf_company_id feed of
     Some c \<Rightarrow> if 0 < c then ''company:'' @ str_int c else ''feed:'' @ str_int (jf_feed_id feed)
   | None \<Rightarrow> ''feed:'' @ str_int (jf_feed_id feed))"

lemma company_key_eq_iff:
  "resolve_company_key f = resolve_company_key g \<longleftrightarrow>
    (\<exists>c>0. jf_company_id f = Some c \<and> jf_company_id g = Some c) \<or>
    (\<forall>c. jf_company_id f = Some c \<longrightarrow> c \<le> 0) \<and> (\<forall>c. jf_company_id g = Some c \<longrightarrow> c \<le> 0) \<and>
      jf_feed_id f = jf_feed_id g"
  by (cases "jf_company_id f"; cases "jf_company_id g")
    (auto simp: resolve_company_key_def not_less)

section \<open>Grouping\<close>

definition group_feeds_by_company :: "job_feed list \<Rightarrow> (string \<times> job_feed list) list" where
  "group_feeds_by_company feeds = fold (\<lambda>feed gs. push_group (resolve_company_key feed) feed gs) feeds []"

interpretation company_groups: key_grouping resolve_company_key group_feeds_by_company
  by unfold_locales (simp_all add: group_feeds_by_company_def)

lemma mset_push_group:
  "mset (concat (map snd (push_group k x gs))) = add_mset x (mset (concat (map snd gs)))"
  by (induction k x gs rule: push_group.induct) auto

lemma group_feeds_mset: "mset (concat (map snd (group_feeds_by_company feeds))) = mset feeds"
proof (induction feeds rule: rev_induct)
  case Nil
  then show ?case by (simp add: group_feeds_by_company_def)
next
  case (snoc f feeds)
  then show ?case by (simp only: company_groups.groups_snoc mset_push_group) simp
qed

section \<open>Properties\<close>

text \<open>
  The grouping of the feeds of a job: the keys are pairwise different, no feed is lost or
  duplicated, the feeds of a group are those of the job with its key, in the order of the job, and two
  feeds share a key exactly when they have the same company, or have none and are the same feed.
\<close>

theorem grouping_partitions_feeds:
  "distinct (map fst (group_feeds_by_company feeds)) \<and>
   mset (concat (map snd (group_feeds_by_company feeds))) = mset feeds \<and>
   list_all (\<lambda>(k, fs). fs \<noteq> [] \<and> fs = filter (\<lambda>f. resolve_company_key f = k) feeds)
     (group_feeds_by_company feeds) \<and>
   (resolve_company_key f = resolve_company_key g \<longleftrightarrow>
     (\<exists>c>0. jf_company_id f = Some c \<and> jf_company_id g = Some c) \<or>
     list_all (\<lambda>h. case jf_company_id h of None \<Rightarrow> True | Some c \<Rightarrow> c \<le> 0) [f, g] \<and>
       jf_feed_id f = jf_feed_id g)"
proof -
  have "fs \<noteq> [] \<and> fs = filter (\<lambda>f. resolve_company_key f = k) feeds"
    if "(k, fs) \<in> set (group_feeds_by_company feeds)" for k fs
    using that company_groups.group_content company_groups.group_nonempty by blast
  then have "list_all (\<lambda>(k, fs). fs \<noteq> [] \<and> fs = filter (\<lambda>f. resolve_company_key f = k) feeds)
     (group_feeds_by_company feeds)" by (auto simp: list_all_iff)
  moreover have "resolve_company_key f = resolve_company_key g \<longleftrightarrow>
     (\<exists>c>0. jf_company_id f = Some c \<and> jf_company_id g = Some c) \<or>
     list_all (\<lambda>h. case jf_company_id h of None \<Rightarrow> True | Some c \<Rightarrow> c \<le> 0) [f, g] \<and>
       jf_feed_id f = jf_feed_id g"
    by (subst company_key_eq_iff) (auto split: option.splits)
  ultimately show ?thesis
    using company_groups.group_keys_distinct group_feeds_mset by blast
qed

end
