(* ===== verification/Feed_Batches.thy ===== *)
theory Feed_Batches
  imports Company_Grouping
begin

text \<open>
  The two list algorithms of \<^verbatim>\<open>backend/app/services/rss/rss_scrape_job_service.py\<close>: mixing the feeds of a
  job so that companies take turns, and cutting the result into batches.
\<close>

section \<open>Batches\<close>

text \<open>The generator's loop: the batch being filled, and the batches it yields from there on.\<close>

fun batch_loop :: "int \<Rightarrow> 'a list \<Rightarrow> 'a list \<Rightarrow> 'a list list" where
  "batch_loop batch_size batch [] = (if batch = [] then [] else [batch])"
| "batch_loop batch_size batch (feed # feeds) =
     (let batch' = batch @ [feed]
      in if batch_size \<le> int (length batch') then batch' # batch_loop batch_size [] feeds
         else batch_loop batch_size batch' feeds)"

definition iter_feed_batches :: "int \<Rightarrow> 'a list \<Rightarrow> 'a list list" where
  "iter_feed_batches batch_size feeds = batch_loop batch_size [] feeds"

lemma batch_loop_concat: "concat (batch_loop n batch feeds) = batch @ feeds"
  by (induction n batch feeds rule: batch_loop.induct) (auto simp: Let_def)

lemma batch_loop_sizes:
  "int (length batch) < n \<Longrightarrow> b \<in> set (batch_loop n batch feeds) \<Longrightarrow> b \<noteq> [] \<and> int (length b) \<le> n"
  by (induction n batch feeds rule: batch_loop.induct) (auto simp: Let_def split: if_splits)

lemma batch_loop_full:
  "int (length batch) < n \<Longrightarrow> b \<in> set (butlast (batch_loop n batch feeds)) \<Longrightarrow> int (length b) = n"
proof (induction n batch feeds rule: batch_loop.induct)
  case (1 n batch)
  then show ?case by (simp split: if_splits)
next
  case (2 n batch feed feeds)
  show ?case
  proof (cases "n \<le> int (length (batch @ [feed]))")
    case True
    then show ?thesis
      using 2 by (auto simp: Let_def split: if_splits)
  next
    case False
    then show ?thesis using 2 by (simp add: Let_def)
  qed
qed

section \<open>Mixing\<close>

text \<open>
  One pass of the \<^verbatim>\<open>for\<close> loop over the companies: the feeds popped, the rest of every deque, and
  whether one was popped.
\<close>

fun mix_pass :: "(string \<times> job_feed list) list \<Rightarrow> job_feed list \<times> (string \<times> job_feed list) list \<times> bool" where
  "mix_pass [] = ([], [], False)"
| "mix_pass ((company_key, company_feeds) # rest) =
     (case mix_pass rest of (popped, left, has_pending) \<Rightarrow>
        (case company_feeds of
           [] \<Rightarrow> (popped, (company_key, []) # left, has_pending)
         | f # fs \<Rightarrow> (f # popped, (company_key, fs) # left, True)))"

definition pending_count :: "(string \<times> job_feed list) list \<Rightarrow> nat" where
  "pending_count groups = sum_list (map (length \<circ> snd) groups)"

lemma mix_pass_count:
  "mix_pass groups = (popped, left, pending) \<Longrightarrow>
    pending_count left \<le> pending_count groups \<and> (pending \<longrightarrow> pending_count left < pending_count groups)"
proof (induction groups arbitrary: popped left pending)
  case Nil
  then show ?case by simp
next
  case (Cons g groups)
  obtain k fs where g: "g = (k, fs)" by (cases g)
  obtain p l b where m: "mix_pass groups = (p, l, b)" by (metis prod_cases3)
  then show ?case
    using Cons.IH [OF m] Cons.prems g by (cases fs) (auto simp: pending_count_def)
qed

text \<open>The \<^verbatim>\<open>while\<close> loop.\<close>

function mix_rounds :: "(string \<times> job_feed list) list \<Rightarrow> job_feed list" where
  "mix_rounds groups =
     (case mix_pass groups of
        (popped, left, has_pending) \<Rightarrow> if has_pending then popped @ mix_rounds left else popped)"
  by pat_completeness auto
termination
  by (relation "measure pending_count") (use mix_pass_count in \<open>auto simp: eq_commute [of _ "mix_pass _"]\<close>)

declare mix_rounds.simps [simp del]

definition mix_feeds_by_company :: "job_feed list \<Rightarrow> job_feed list" where
  "mix_feeds_by_company feeds =
     (if length feeds \<le> 1 then feeds else mix_rounds (group_feeds_by_company feeds))"

section \<open>What a pass does\<close>

fun heads :: "(string \<times> job_feed list) list \<Rightarrow> job_feed list" where
  "heads [] = []"
| "heads ((k, []) # gs) = heads gs"
| "heads ((k, f # fs) # gs) = f # heads gs"

definition tails :: "(string \<times> job_feed list) list \<Rightarrow> (string \<times> job_feed list) list" where
  "tails groups = map (\<lambda>(k, fs). (k, tl fs)) groups"

definition some_left :: "(string \<times> job_feed list) list \<Rightarrow> bool" where
  "some_left groups \<longleftrightarrow> list_ex (\<lambda>g. snd g \<noteq> []) groups"

lemma mix_pass_eq: "mix_pass groups = (heads groups, tails groups, some_left groups)"
  by (induction groups rule: heads.induct) (simp_all add: tails_def some_left_def)

lemma mix_rounds_unfold:
  "mix_rounds groups = heads groups @ (if some_left groups then mix_rounds (tails groups) else [])"
  by (subst mix_rounds.simps) (simp add: mix_pass_eq)

lemma tails_smaller: "some_left groups \<Longrightarrow> pending_count (tails groups) < pending_count groups"
  using mix_pass_count [OF mix_pass_eq] by blast

lemma heads_member: "f \<in> set (heads groups) \<Longrightarrow> \<exists>k fs. (k, f # fs) \<in> set groups"
  by (induction groups rule: heads.induct) auto

lemma tails_member: "(k, fs) \<in> set (tails groups) \<Longrightarrow> \<exists>fs0. (k, fs0) \<in> set groups \<and> fs = tl fs0"
  by (auto simp: tails_def)

text \<open>Groups as the grouping makes them: distinct keys, every feed under its key.\<close>

definition groups_ok :: "(string \<times> job_feed list) list \<Rightarrow> bool" where
  "groups_ok groups \<longleftrightarrow> distinct (map fst groups) \<and>
     (\<forall>(k, fs)\<in>set groups. \<forall>f\<in>set fs. resolve_company_key f = k)"

lemma groups_ok_group: "groups_ok (group_feeds_by_company feeds)"
  using company_groups.group_keys_distinct [of feeds] company_groups.group_content [of _ _ feeds]
  by (auto simp: groups_ok_def)

lemma groups_ok_Cons: "groups_ok ((k, fs) # gs) \<longleftrightarrow>
    k \<notin> fst ` set gs \<and> (\<forall>f\<in>set fs. resolve_company_key f = k) \<and> groups_ok gs"
  by (auto simp: groups_ok_def)

lemma groups_okD: "groups_ok groups \<Longrightarrow> (k, fs) \<in> set groups \<Longrightarrow> f \<in> set fs \<Longrightarrow> resolve_company_key f = k"
  by (auto simp: groups_ok_def)

lemma groups_ok_tails: "groups_ok groups \<Longrightarrow> groups_ok (tails groups)"
proof -
  assume ok: "groups_ok groups"
  have keys: "map fst (tails groups) = map fst groups" by (auto simp: tails_def)
  have "resolve_company_key f = k" if kfs: "(k, fs) \<in> set (tails groups)" and f: "f \<in> set fs" for k fs f
  proof -
    obtain fs0 where fs0: "(k, fs0) \<in> set groups" "fs = tl fs0" using tails_member [OF kfs] by blast
    then have "f \<in> set fs0" using f by (cases fs0) simp_all
    then show ?thesis by (rule groups_okD [OF ok fs0(1)])
  qed
  then show ?thesis using ok keys by (auto simp: groups_ok_def)
qed

lemma heads_filter_absent:
  "groups_ok groups \<Longrightarrow> k \<notin> fst ` set groups \<Longrightarrow> filter (\<lambda>f. resolve_company_key f = k) (heads groups) = []"
  by (induction groups rule: heads.induct) (auto simp: groups_ok_Cons)

text \<open>The feeds of a company in a pass are the first of its group.\<close>

lemma heads_filter:
  "groups_ok groups \<Longrightarrow> (k, fs) \<in> set groups \<Longrightarrow>
    filter (\<lambda>f. resolve_company_key f = k) (heads groups) = take 1 fs"
proof (induction groups rule: heads.induct)
  case (2 k' gs)
  then show ?case by (auto simp: groups_ok_Cons heads_filter_absent)
next
  case (3 k' f fs' gs)
  show ?case
  proof (cases "k = k'")
    case True
    then have "fs = f # fs'" using 3 by (force simp: groups_ok_Cons)
    then show ?thesis using 3 True heads_filter_absent [of gs k'] by (simp add: groups_ok_Cons)
  next
    case False
    then show ?thesis using 3 by (auto simp: groups_ok_Cons)
  qed
qed simp

lemma heads_keys_distinct: "groups_ok groups \<Longrightarrow> distinct (map resolve_company_key (heads groups))"
proof (induction groups rule: heads.induct)
  case (3 k f fs gs)
  have "filter (\<lambda>f. resolve_company_key f = k) (heads gs) = []"
    by (rule heads_filter_absent) (use 3 in \<open>auto simp: groups_ok_Cons\<close>)
  then show ?case using 3 by (auto simp: groups_ok_Cons filter_empty_conv)
qed (simp_all add: groups_ok_Cons)

section \<open>What the rounds do\<close>

lemma map_of_tails: "map_of (tails groups) k = map_option tl (map_of groups k)"
  by (induction groups) (auto simp: tails_def)

text \<open>The feeds of each company keep their order, and none is lost.\<close>

lemma mix_rounds_filter:
  assumes "groups_ok groups"
  shows "filter (\<lambda>f. resolve_company_key f = k) (mix_rounds groups) =
    (case map_of groups k of None \<Rightarrow> [] | Some fs \<Rightarrow> fs)"
  using assms
proof (induction "pending_count groups" arbitrary: groups rule: less_induct)
  case less
  have rec: "filter (\<lambda>f. resolve_company_key f = k) (if some_left groups then mix_rounds (tails groups) else []) =
      (case map_of groups k of None \<Rightarrow> [] | Some fs \<Rightarrow> tl fs)"
  proof (cases "some_left groups")
    case True
    then show ?thesis
      using less.hyps [OF tails_smaller [OF True] groups_ok_tails [OF less.prems]]
      by (simp add: map_of_tails split: option.splits)
  next
    case False
    show ?thesis
    proof (cases "map_of groups k")
      case None
      then show ?thesis using False by simp
    next
      case (Some fs)
      have "fs = []" using False map_of_SomeD [OF Some] by (auto simp: some_left_def list_ex_iff)
      then show ?thesis using False Some by simp
    qed
  qed
  show ?case
  proof (cases "map_of groups k")
    case None
    then have "k \<notin> fst ` set groups" by (simp add: map_of_eq_None_iff)
    then show ?thesis
      using rec None heads_filter_absent [OF less.prems] by (simp add: mix_rounds_unfold [of groups])
  next
    case (Some fs)
    then show ?thesis
      using rec heads_filter [OF less.prems map_of_SomeD [OF Some]]
      by (cases fs) (simp_all add: mix_rounds_unfold [of groups])
  qed
qed

lemma mset_eq_by_filter:
  assumes "\<And>k. filter (\<lambda>x. key x = k) xs = filter (\<lambda>x. key x = k) ys"
  shows "mset xs = mset ys"
proof (rule multiset_eqI)
  fix x
  have "count (mset zs) x = count (mset (filter (\<lambda>y. key y = key x) zs)) x" for zs
    by (simp add: mset_filter)
  then show "count (mset xs) x = count (mset ys) x" using assms by metis
qed

text \<open>The position of a feed among the feeds of its company, along a list.\<close>

fun ranks :: "('a \<Rightarrow> 'k) \<Rightarrow> 'a list \<Rightarrow> ('k \<Rightarrow> nat) \<Rightarrow> nat list" where
  "ranks key [] seen = []"
| "ranks key (x # xs) seen = seen (key x) # ranks key xs (seen(key x := Suc (seen (key x))))"

lemma ranks_append:
  "ranks key (xs @ ys) seen =
    ranks key xs seen @ ranks key ys (\<lambda>k. seen k + length (filter (\<lambda>x. key x = k) xs))"
proof (induction xs arbitrary: seen)
  case (Cons x xs)
  have "(seen(key x := Suc (seen (key x)))) k + length (filter (\<lambda>y. key y = k) xs) =
      seen k + length (filter (\<lambda>y. key y = k) (x # xs))" for k by simp
  then show ?case by (simp only: ranks.simps append_Cons Cons.IH)
qed simp

lemma ranks_distinct_keys:
  "distinct (map key xs) \<Longrightarrow> ranks key xs seen = map (\<lambda>x. seen (key x)) xs"
proof (induction xs arbitrary: seen)
  case (Cons x xs)
  have "key y \<noteq> key x" if "y \<in> set xs" for y using Cons.prems that by (metis distinct.simps(2) image_eqI list.simps(9) set_map)
  then show ?case using Cons by simp
qed simp

text \<open>Every company with feeds left has been served as often as the rounds done.\<close>

lemma mix_rounds_ranks:
  assumes "groups_ok groups" and "\<And>k fs. (k, fs) \<in> set groups \<Longrightarrow> fs \<noteq> [] \<Longrightarrow> seen k = n"
  shows "sorted (ranks resolve_company_key (mix_rounds groups) seen) \<and>
    (\<forall>r\<in>set (ranks resolve_company_key (mix_rounds groups) seen). n \<le> r)"
  using assms
proof (induction "pending_count groups" arbitrary: groups seen n rule: less_induct)
  case less
  have "seen (resolve_company_key f) = n" if f: "f \<in> set (heads groups)" for f
  proof -
    obtain k fs where k: "(k, f # fs) \<in> set groups" using heads_member [OF f] by blast
    have "resolve_company_key f = k" by (rule groups_okD [OF less.prems(1) k]) simp
    then show ?thesis using less.prems(2) [OF k] by simp
  qed
  then have first: "ranks resolve_company_key (heads groups) seen = replicate (length (heads groups)) n"
    using ranks_distinct_keys [OF heads_keys_distinct [OF less.prems(1)], of seen]
    by (simp add: map_replicate_const [symmetric])
  show ?case
  proof (cases "some_left groups")
    case False
    then show ?thesis using first by (simp add: mix_rounds_unfold [of groups])
  next
    case True
    let ?seen = "\<lambda>k. seen k + length (filter (\<lambda>f. resolve_company_key f = k) (heads groups))"
    have "?seen k = Suc n" if k: "(k, fs) \<in> set (tails groups)" "fs \<noteq> []" for k fs
    proof -
      obtain fs0 where fs0: "(k, fs0) \<in> set groups" "fs = tl fs0" using tails_member [OF k(1)] by blast
      then have "fs0 \<noteq> []" using k(2) by auto
      then show ?thesis using heads_filter [OF less.prems(1) fs0(1)] less.prems(2) [OF fs0(1)]
        by (cases fs0) simp_all
    qed
    then have rest: "sorted (ranks resolve_company_key (mix_rounds (tails groups)) ?seen)"
      "\<forall>r\<in>set (ranks resolve_company_key (mix_rounds (tails groups)) ?seen). Suc n \<le> r"
      using less.hyps [OF tails_smaller [OF True] groups_ok_tails [OF less.prems(1)], of ?seen "Suc n"]
      by auto
    have "ranks resolve_company_key (mix_rounds groups) seen =
        replicate (length (heads groups)) n @ ranks resolve_company_key (mix_rounds (tails groups)) ?seen"
      using True first by (simp add: mix_rounds_unfold [of groups] ranks_append)
    then show ?thesis using rest by (auto simp: sorted_append dest: Suc_leD)
  qed
qed

lemma mix_filter:
  "filter (\<lambda>f. resolve_company_key f = k) (mix_feeds_by_company feeds) =
    filter (\<lambda>f. resolve_company_key f = k) feeds"
proof (cases "length feeds \<le> 1")
  case False
  have "(case map_of (group_feeds_by_company feeds) k of None \<Rightarrow> [] | Some fs \<Rightarrow> fs) =
      filter (\<lambda>f. resolve_company_key f = k) feeds"
  proof (cases "map_of (group_feeds_by_company feeds) k")
    case None
    then have "k \<notin> resolve_company_key ` set feeds"
      using company_groups.group_keys [of feeds] by (simp add: map_of_eq_None_iff)
    then have "filter (\<lambda>f. resolve_company_key f = k) feeds = []" by (auto simp: filter_empty_conv)
    then show ?thesis using None by simp
  next
    case (Some fs)
    then show ?thesis using company_groups.group_content map_of_SomeD [OF Some] by simp
  qed
  then show ?thesis
    using mix_rounds_filter [OF groups_ok_group] False by (simp add: mix_feeds_by_company_def)
qed (simp add: mix_feeds_by_company_def)

lemma mix_mset: "mset (mix_feeds_by_company feeds) = mset feeds"
  by (rule mset_eq_by_filter) (rule mix_filter)

lemma mix_ranks: "sorted (ranks resolve_company_key (mix_feeds_by_company feeds) (\<lambda>_. 0))"
proof (cases "length feeds \<le> 1")
  case True
  then have "ranks resolve_company_key feeds (\<lambda>_. 0) = [] \<or> ranks resolve_company_key feeds (\<lambda>_. 0) = [0]"
    by (cases feeds) auto
  then show ?thesis using True by (auto simp: mix_feeds_by_company_def)
next
  case False
  then show ?thesis
    using mix_rounds_ranks [OF groups_ok_group, of feeds "\<lambda>_. 0" 0] by (simp add: mix_feeds_by_company_def)
qed

lemma iter_feed_batches_facts:
  "concat (iter_feed_batches (resolve_queue_batch_size env) feeds) = feeds"
  "b \<in> set (iter_feed_batches (resolve_queue_batch_size env) feeds) \<Longrightarrow>
    b \<noteq> [] \<and> int (length b) \<le> resolve_queue_batch_size env"
  using settings_positive(3) [of env] batch_loop_sizes [of "[]" "resolve_queue_batch_size env" b feeds]
  by (simp_all add: iter_feed_batches_def batch_loop_concat)

section \<open>Properties\<close>

text \<open>
  C21: mixing.  The mixed list is a permutation of the feeds that keeps the order within every company, and
  companies take turns: along the list, the count of earlier feeds of the same company never decreases,
  so a company gets its next feed only after every other one with feeds left has had as many.
\<close>

theorem mixing_is_fair:
  "mset (mix_feeds_by_company feeds) = mset feeds \<and>
   filter (\<lambda>f. resolve_company_key f = k) (mix_feeds_by_company feeds) =
     filter (\<lambda>f. resolve_company_key f = k) feeds \<and>
   sorted (ranks resolve_company_key (mix_feeds_by_company feeds) (\<lambda>_. 0))"
  by (intro conjI mix_mset mix_filter mix_ranks)

text \<open>
  C22: batching.  With a positive size, which the setting always is, the batches are the feeds in order,
  none is empty or larger than the size, and all but the last have exactly the size.
\<close>

theorem batches_cover_feeds:
  "concat (iter_feed_batches (resolve_queue_batch_size env) feeds) = feeds \<and>
   list_all (\<lambda>b. b \<noteq> [] \<and> int (length b) \<le> resolve_queue_batch_size env)
     (iter_feed_batches (resolve_queue_batch_size env) feeds) \<and>
   list_all (\<lambda>b. int (length b) = resolve_queue_batch_size env)
     (butlast (iter_feed_batches (resolve_queue_batch_size env) feeds))"
  using settings_positive(3) [of env] iter_feed_batches_facts [where env = env and feeds = feeds]
    batch_loop_full [of "[]" "resolve_queue_batch_size env" _ feeds]
  by (auto simp: iter_feed_batches_def list_all_iff)

end
