(* ===== verification/Catalog_Normalize.thy ===== *)
theory Catalog_Normalize
  imports Contracts Py_Text Complex_Main
begin

text \<open>
  The text normalisations of the backend: \<^verbatim>\<open>backend/app/utils/normalize_utils.py\<close>,
  \<^verbatim>\<open>backend/app/utils/deduplicate.py\<close>, \<^verbatim>\<open>backend/app/domain/rss/rss_sync_normalization.py\<close> and the
  schemas of the feed catalog files.
\<close>

section \<open>File names and extensions\<close>

definition normalize_file_extension :: "string \<Rightarrow> py_exn + string" where
  "normalize_file_extension file_extension =
     (let normalized_extension = py_strip file_extension in
      if normalized_extension = [] then Inl (OtherException ''File extension cannot be empty.'')
      else
        let bare = (if starts_with ''*.'' normalized_extension then drop 1 normalized_extension
                    else if starts_with ''*'' normalized_extension then drop 1 normalized_extension
                    else normalized_extension)
        in Inr (if starts_with ''.'' bare then bare else CHR ''.'' # bare))"

text \<open>\<^verbatim>\<open>Path(p).name\<close> and \<^verbatim>\<open>Path(p).stem\<close> on POSIX paths.\<close>

definition path_name :: "string \<Rightarrow> string" where
  "path_name p =
     (let parts = filter (\<lambda>q. q \<noteq> [] \<and> q \<noteq> ''.'') (split_on CHR ''/'' p)
      in if parts = [] then [] else last parts)"

definition path_stem :: "string \<Rightarrow> string" where
  "path_stem p =
     (let name = path_name p;
          suffix = after_last CHR ''.'' name;
          i = length name - Suc (length suffix)
      in if CHR ''.'' \<in> set name \<and> 0 < i \<and> suffix \<noteq> [] then take i name else name)"

definition normalize_name_from_filename :: "string \<Rightarrow> py_exn + string" where
  "normalize_name_from_filename file_name =
     (let raw_name = map (\<lambda>c. if c = CHR ''_'' then CHR '' '' else c) (path_stem file_name);
          normalized_name = py_strip (sub_spaces '' '' raw_name)
      in if normalized_name = []
         then Inl (ValueError (''Could not derive name from file path: '' @ file_name))
         else Inr normalized_name)"

definition normalize_country :: "string option \<Rightarrow> string option" where
  "normalize_country country = map_option (\<lambda>c. take 2 (py_lower (py_strip c))) country"

section \<open>Host names\<close>

text \<open>
  \<^verbatim>\<open>urlsplit(url).netloc\<close> and \<^verbatim>\<open>.hostname\<close> of the standard library.  \<open>netloc_ok\<close> is its check of a
  bracketed address and of the normal form of a non-ASCII authority, which raises ValueError.
\<close>

definition url_scheme_char :: "char \<Rightarrow> bool" where
  "url_scheme_char c = (let n = code_point c in
     (48 \<le> n \<and> n \<le> 57) \<or> (65 \<le> n \<and> n \<le> 90) \<or> (97 \<le> n \<and> n \<le> 122) \<or> n = 43 \<or> n = 45 \<or> n = 46)"

definition url_letter :: "char \<Rightarrow> bool" where
  "url_letter c = (let n = code_point c in (65 \<le> n \<and> n \<le> 90) \<or> (97 \<le> n \<and> n \<le> 122))"

definition urlsplit_clean :: "string \<Rightarrow> string" where
  "urlsplit_clean url = filter (\<lambda>c. code_point c \<notin> {9, 10, 13}) (dropWhile (\<lambda>c. code_point c \<le> 32) url)"

definition urlsplit_netloc :: "string \<Rightarrow> string" where
  "urlsplit_netloc url =
     (let u = urlsplit_clean url;
          scheme = before_first CHR '':'' u;
          rest = (if CHR '':'' \<in> set u \<and> scheme \<noteq> [] \<and> url_letter (hd u) \<and> list_all url_scheme_char scheme
                  then after_first CHR '':'' u else u)
      in if starts_with ''//'' rest then takeWhile (\<lambda>c. c \<notin> set ''/?#'') (drop 2 rest) else [])"

definition netloc_hostname :: "string \<Rightarrow> string option" where
  "netloc_hostname netloc =
     (let hostinfo = after_last CHR ''@'' netloc;
          hostname = (if CHR ''['' \<in> set hostinfo
                      then before_first CHR '']'' (after_first CHR ''['' hostinfo)
                      else before_first CHR '':'' hostinfo)
      in if hostname = [] then None
         else Some (py_lower (before_first CHR ''%'' hostname) @ dropWhile (\<lambda>c. c \<noteq> CHR ''%'') hostname))"

definition urlsplit_hostname :: "(string \<Rightarrow> bool) \<Rightarrow> string \<Rightarrow> py_exn + string option" where
  "urlsplit_hostname netloc_ok url =
     (let netloc = urlsplit_netloc url in
      if (CHR ''['' \<in> set netloc) \<noteq> (CHR '']'' \<in> set netloc) \<or> \<not> netloc_ok netloc
      then Inl (ValueError ''netloc'') else Inr (netloc_hostname netloc))"

definition contains_text :: "string \<Rightarrow> string \<Rightarrow> bool" where
  "contains_text p s = list_ex (\<lambda>i. starts_with p (drop i s)) [0..<Suc (length s)]"

definition normalize_host :: "(string \<Rightarrow> bool) \<Rightarrow> string option \<Rightarrow> py_exn + string option" where
  "normalize_host netloc_ok host = (case host of
     None \<Rightarrow> Inr None
   | Some h \<Rightarrow>
       (let normalized_host = py_strip h in
        if normalized_host = [] then Inr None
        else
          let prefixed_host = (if contains_text ''://'' normalized_host then normalized_host
                               else ''//'' @ normalized_host)
          in and_then (urlsplit_hostname netloc_ok prefixed_host) (\<lambda>hostname.
               (case hostname of
                  None \<Rightarrow> Inr None
                | Some n \<Rightarrow> (let r = py_lower (py_strip n) in Inr (if r = [] then None else Some r))))))"

section \<open>Deduplication\<close>

fun dedup_str_loop :: "string set \<Rightarrow> string list \<Rightarrow> string list" where
  "dedup_str_loop seen_str [] = []"
| "dedup_str_loop seen_str (new_str # str_list) =
     (let clean_str = py_strip new_str in
      if clean_str = [] \<or> clean_str \<in> seen_str then dedup_str_loop seen_str str_list
      else clean_str # dedup_str_loop (insert clean_str seen_str) str_list)"

definition dedup_str :: "string list \<Rightarrow> string list" where
  "dedup_str str_list = dedup_str_loop {} str_list"

interpretation dedup: pure_seen_set_loop strip_or_none dedup_str_loop
  by unfold_locales (auto simp: strip_or_none_def Let_def split: if_splits)

section \<open>Catalog entries\<close>

record catalog_feed =
  cf_url :: string
  cf_title :: string
  cf_tags :: "string list"
  cf_enabled :: bool
  cf_trust_score :: rat
  cf_fetchprotection :: "int option"

record feed_upsert =
  up_url :: string
  up_section :: "string option"
  up_enabled :: bool
  up_trust_score :: rat
  up_fetchprotection :: "int option"
  up_tags :: "string list"

text \<open>\<^verbatim>\<open>RssSourceFeedSchema\<close>: the constraints of the fields, and the validator that cleans the tags.\<close>

definition protection_level :: "int option \<Rightarrow> bool" where
  "protection_level v = (case v of None \<Rightarrow> True | Some p \<Rightarrow> 0 \<le> p \<and> p \<le> 2)"

definition validate_tags :: "string list \<Rightarrow> string list" where
  "validate_tags values = filter (\<lambda>v. v \<noteq> []) (map py_strip values)"

definition make_catalog_feed :: "catalog_feed \<Rightarrow> py_exn + catalog_feed" where
  "make_catalog_feed f =
     (if 1 \<le> length (cf_url f) \<and> length (cf_url f) \<le> 500 \<and> 1 \<le> length (cf_title f)
         \<and> 0 \<le> cf_trust_score f \<and> cf_trust_score f \<le> 1 \<and> protection_level (cf_fetchprotection f)
      then Inr (f\<lparr>cf_tags := validate_tags (cf_tags f)\<rparr>)
      else Inl (ValidationError ''RssSourceFeedSchema''))"

definition valid_feed_upsert :: "feed_upsert \<Rightarrow> bool" where
  "valid_feed_upsert u = (1 \<le> length (up_url u) \<and> length (up_url u) \<le> 500
     \<and> (case up_section u of None \<Rightarrow> True | Some s \<Rightarrow> length s \<le> 50)
     \<and> 0 \<le> up_trust_score u \<and> up_trust_score u \<le> 1 \<and> protection_level (up_fetchprotection u))"

definition make_feed_upsert :: "feed_upsert \<Rightarrow> py_exn + feed_upsert" where
  "make_feed_upsert u = (if valid_feed_upsert u then Inr u else Inl (ValidationError ''RssFeedUpsertSchema''))"

definition normalize_section :: "string \<Rightarrow> string option" where
  "normalize_section section_title =
     (let normalized_section = py_strip (sub_spaces '' '' section_title)
      in if normalized_section = [] then None else Some (take 50 normalized_section))"

definition normalize_entry_fetchprotection :: "int option \<Rightarrow> int \<Rightarrow> int" where
  "normalize_entry_fetchprotection fetchprotection default_value =
     (case fetchprotection of
        Some p \<Rightarrow> if 0 \<le> p \<and> p \<le> 2 then p else max 0 (min 2 default_value)
      | None \<Rightarrow> max 0 (min 2 default_value))"

definition tag_slug :: "string \<Rightarrow> string" where
  "tag_slug tag = sub_spaces ''-'' (py_lower (py_strip tag))"

fun normalize_tags_loop :: "string set \<Rightarrow> string list \<Rightarrow> string list" where
  "normalize_tags_loop seen_tags [] = []"
| "normalize_tags_loop seen_tags (tag # tags) =
     (let normalized_tag = tag_slug tag in
      if normalized_tag = [] \<or> normalized_tag \<in> seen_tags then normalize_tags_loop seen_tags tags
      else normalized_tag # normalize_tags_loop (insert normalized_tag seen_tags) tags)"

definition normalize_tags :: "string list \<Rightarrow> string list" where
  "normalize_tags tags = normalize_tags_loop {} tags"

definition tag_key :: "string \<Rightarrow> string option" where
  "tag_key tag = (if tag_slug tag = [] then None else Some (tag_slug tag))"

interpretation tag_names: pure_seen_set_loop tag_key normalize_tags_loop
  by unfold_locales (auto simp: tag_key_def Let_def split: if_splits)

definition normalize_source_feed_entry :: "catalog_feed \<Rightarrow> int \<Rightarrow> py_exn + feed_upsert" where
  "normalize_source_feed_entry source_feed default_fetchprotection =
     make_feed_upsert
       \<lparr>up_url = py_strip (cf_url source_feed),
        up_section = normalize_section (cf_title source_feed),
        up_enabled = cf_enabled source_feed,
        up_trust_score = cf_trust_score source_feed,
        up_fetchprotection = Some (normalize_entry_fetchprotection (cf_fetchprotection source_feed) default_fetchprotection),
        up_tags = normalize_tags (cf_tags source_feed)\<rparr>"

section \<open>Facts\<close>

lemma set_tag_slug: "c \<in> set (tag_slug tag) \<Longrightarrow> \<not> py_isspace c"
  unfolding tag_slug_def sub_spaces_def
  by (rule sub_spaces_from_no_space) (auto simp: py_isspace_def code_point_def Let_def)

lemma py_lower_sub_dash:
  "py_lower (sub_spaces_from b ''-'' s) = sub_spaces_from b ''-'' (py_lower s)"
proof (induction b "''-''" s rule: sub_spaces_from.induct)
  case (2 b c cs)
  have "py_lower_char CHR ''-'' = CHR ''-''" by (simp add: py_lower_char_def code_point_def Let_def)
  then show ?case using 2 by (simp add: py_lower_def)
qed (simp add: py_lower_def)

lemma py_strip_no_space: "\<forall>c\<in>set s. \<not> py_isspace c \<Longrightarrow> py_strip s = s"
proof -
  assume no: "\<forall>c\<in>set s. \<not> py_isspace c"
  then have "dropWhile py_isspace s = s" by (cases s) simp_all
  moreover have "dropWhile py_isspace (rev s) = rev s" using no by (cases s rule: rev_cases) simp_all
  ultimately show ?thesis by (simp add: py_strip_def py_lstrip_def py_rstrip_def)
qed

lemma tag_slug_idem: "tag_slug (tag_slug tag) = tag_slug tag"
proof -
  have "py_lower (tag_slug tag) = tag_slug tag"
    by (simp add: tag_slug_def sub_spaces_def py_lower_sub_dash)
  moreover have "py_strip (tag_slug tag) = tag_slug tag"
    by (rule py_strip_no_space) (use set_tag_slug in blast)
  moreover have "sub_spaces ''-'' (tag_slug tag) = tag_slug tag"
    unfolding sub_spaces_def by (rule sub_spaces_from_id) (use set_tag_slug in blast)
  ultimately show ?thesis by (metis tag_slug_def)
qed

lemma normalize_tags_set: "set (normalize_tags tags) = tag_slug ` set tags - {[]}"
  by (auto simp: normalize_tags_def tag_names.pure_set tag_key_def split: if_splits)

lemma normalize_tags_distinct: "distinct (normalize_tags tags)"
  by (simp add: normalize_tags_def tag_names.pure_distinct)

lemma normalize_tags_idem: "normalize_tags (normalize_tags tags) = normalize_tags tags"
proof -
  have "List.map_filter tag_key ts = ts" if "\<And>t. t \<in> set ts \<Longrightarrow> tag_key t = Some t" for ts
    using that by (induction ts) (simp_all add: List.map_filter_simps)
  moreover have "tag_key t = Some t" if "t \<in> set (normalize_tags tags)" for t
    using that by (auto simp: normalize_tags_set tag_key_def tag_slug_idem)
  ultimately have "List.map_filter tag_key (normalize_tags tags) = normalize_tags tags" by blast
  then have "normalize_tags (normalize_tags tags) = first_by id {} (normalize_tags tags)"
    by (metis normalize_tags_def tag_names.pure_loop_as_first_by)
  then show ?thesis using first_by_id [of id "normalize_tags tags" "{}"] normalize_tags_distinct by simp
qed

text \<open>Host names: no white space at the ends, no delimiter of an authority, lower case.\<close>

lemma length_urlsplit_clean: "length (urlsplit_clean u) \<le> length u"
  unfolding urlsplit_clean_def by (meson le_trans length_dropWhile_le length_filter_le)

lemma urlsplit_clean_slashes: "urlsplit_clean (''//'' @ h) = ''//'' @ filter (\<lambda>c. code_point c \<notin> {9, 10, 13}) h"
  by (simp add: urlsplit_clean_def code_point_def)

lemma length_netloc: "length (urlsplit_netloc u) \<le> length u - 2"
proof -
  let ?c = "urlsplit_clean u"
  have "length (takeWhile P (drop 2 rest)) \<le> length ?c - 2" if "rest = ?c \<or> rest = after_first CHR '':'' ?c" for rest P
  proof -
    have "length rest \<le> length ?c" using that length_after_first by auto
    then show ?thesis using length_takeWhile_le [of P "drop 2 rest"] by simp
  qed
  then have "length (urlsplit_netloc u) \<le> length ?c - 2"
    by (simp add: urlsplit_netloc_def Let_def)
  then show ?thesis using length_urlsplit_clean [of u] by simp
qed

lemma netloc_delimiters: "c \<in> set (urlsplit_netloc u) \<Longrightarrow> c \<notin> set ''/?#''"
  unfolding urlsplit_netloc_def Let_def by (auto split: if_splits dest!: set_takeWhileD)

lemma hostname_chars:
  assumes "netloc_hostname netloc = Some n" and "c \<in> set n"
  shows "\<exists>d\<in>set netloc. d \<noteq> CHR ''@'' \<and> (c = d \<or> c = py_lower_char d)"
proof -
  let ?info = "after_last CHR ''@'' netloc"
  define host where "host = (if CHR ''['' \<in> set ?info then before_first CHR '']'' (after_first CHR ''['' ?info)
    else before_first CHR '':'' ?info)"
  have n: "n = py_lower (before_first CHR ''%'' host) @ dropWhile (\<lambda>c. c \<noteq> CHR ''%'') host"
    using assms(1) by (simp add: netloc_hostname_def Let_def host_def split: if_splits)
  then obtain d where d: "d \<in> set host" "c = d \<or> c = py_lower_char d"
    using assms(2) by (auto simp: py_lower_def dest: set_before_first set_dropWhileD)
  have "d \<in> set ?info"
  proof (cases "CHR ''['' \<in> set ?info")
    case True
    then have "d \<in> set (before_first CHR '']'' (after_first CHR ''['' ?info))" using d(1) by (simp only: host_def if_True)
    then show ?thesis using set_before_first set_after_first by blast
  next
    case False
    then have "d \<in> set (before_first CHR '':'' ?info)" using d(1) by (simp only: host_def if_False)
    then show ?thesis using set_before_first by blast
  qed
  then have "d \<in> set netloc \<and> d \<noteq> CHR ''@''" by (rule set_after_last)
  then show ?thesis using d(2) by (intro bexI [of _ d] conjI) simp_all
qed

lemma length_hostname: "netloc_hostname netloc = Some n \<Longrightarrow> length n \<le> length netloc"
proof -
  let ?info = "after_last CHR ''@'' netloc"
  define host where "host = (if CHR ''['' \<in> set ?info then before_first CHR '']'' (after_first CHR ''['' ?info)
    else before_first CHR '':'' ?info)"
  have "length host \<le> length netloc"
  proof -
    have "length host \<le> length ?info"
      using length_before_first [of _ ?info] le_trans [OF length_before_first length_after_first, of _ _ ?info]
      by (simp only: host_def split: if_split) blast
    then show ?thesis using length_after_last [of "CHR ''@''" netloc] by simp
  qed
  moreover have "length (before_first CHR ''%'' host) + length (dropWhile (\<lambda>c. c \<noteq> CHR ''%'') host) = length host"
    unfolding before_first_def by (metis length_append takeWhile_dropWhile_id)
  moreover assume "netloc_hostname netloc = Some n"
  then have "n = py_lower (before_first CHR ''%'' host) @ dropWhile (\<lambda>c. c \<noteq> CHR ''%'') host"
    by (simp add: netloc_hostname_def Let_def host_def split: if_splits)
  ultimately show ?thesis by simp
qed

lemma lower_char_delimiter: "py_lower_char c \<in> set ''/?#@'' \<Longrightarrow> c \<in> set ''/?#@''"
proof -
  assume d: "py_lower_char c \<in> set ''/?#@''"
  have "py_lower_char c = c \<or> 97 \<le> code_point (py_lower_char c)"
    by (simp add: py_lower_char_def Let_def)
  moreover have "code_point e \<le> 64" if "e \<in> set ''/?#@''" for e
    using that by (auto simp: code_point_def)
  ultimately show ?thesis using d by fastforce
qed

definition host_shape :: "string \<Rightarrow> bool" where
  "host_shape n \<longleftrightarrow> n \<noteq> [] \<and> py_strip n = n \<and> py_lower n = n \<and> (\<forall>c\<in>set n. c \<notin> set ''/?#@'')"

text \<open>The host of a column of 255 characters makes a valid header, whenever it makes one.\<close>

lemma normalize_host_shape:
  assumes "normalize_host netloc_ok (Some h) = Inr (Some n)"
  shows "host_shape n \<and> length n \<le> length h"
proof -
  define p where "p = (if contains_text ''://'' (py_strip h) then py_strip h else ''//'' @ py_strip h)"
  obtain m where m: "netloc_hostname (urlsplit_netloc p) = Some m" "n = py_lower (py_strip m)" "n \<noteq> []"
    using assms
    by (auto simp: normalize_host_def urlsplit_hostname_def Let_def p_def [symmetric] and_then_eq_Inr
        split: if_splits option.splits)
  have "length m \<le> length (urlsplit_netloc p)" by (rule length_hostname [OF m(1)])
  moreover have "length p \<le> length h + 2" using length_py_strip [of h] by (simp add: p_def)
  ultimately have len: "length n \<le> length h"
    using length_netloc [of p] length_py_strip [of m] m(2) by simp
  have "c \<notin> set ''/?#@''" if c: "c \<in> set n" for c
  proof
    assume bad: "c \<in> set ''/?#@''"
    obtain c' where c': "c' \<in> set m" "c = py_lower_char c'"
      using c m(2) set_py_strip [of m] by (auto simp: py_lower_def)
    then obtain d where d: "d \<in> set (urlsplit_netloc p)" "d \<noteq> CHR ''@''" "c' = d \<or> c' = py_lower_char d"
      using hostname_chars [OF m(1)] by blast
    have "c' \<in> set ''/?#@''" by (rule lower_char_delimiter) (use bad c' in simp)
    then have "d \<in> set ''/?#@''" using d(3) lower_char_delimiter by blast
    then show False using d(1,2) netloc_delimiters [OF d(1)] by simp
  qed
  then show ?thesis using m(2,3) len by (simp add: host_shape_def py_strip_lower)
qed

lemma normalize_host_None [simp]: "normalize_host netloc_ok None = Inr None"
  by (simp add: normalize_host_def)

text \<open>Sections, levels and addresses.\<close>

lemma normalize_section_length: "normalize_section title = Some s \<Longrightarrow> s \<noteq> [] \<and> length s \<le> 50"
  by (auto simp: normalize_section_def Let_def split: if_splits)

lemma normalize_entry_fetchprotection_range:
  "0 \<le> normalize_entry_fetchprotection v d \<and> normalize_entry_fetchprotection v d \<le> 2"
  by (auto simp: normalize_entry_fetchprotection_def split: option.splits)

lemma normalize_entry_Inr:
  "normalize_source_feed_entry f d = Inr u \<Longrightarrow>
    valid_feed_upsert u \<and> up_url u = py_strip (cf_url f) \<and> up_section u = normalize_section (cf_title f) \<and>
    up_fetchprotection u = Some (normalize_entry_fetchprotection (cf_fetchprotection f) d) \<and>
    up_tags u = normalize_tags (cf_tags f) \<and> up_enabled u = cf_enabled f \<and> up_trust_score u = cf_trust_score f"
  by (auto simp: normalize_source_feed_entry_def make_feed_upsert_def split: if_splits)

section \<open>Properties\<close>

text \<open>
  Catalog entries.  Normalising an entry that the catalog schema accepted raises exactly when its
  address is blank.  Otherwise the address is stripped, the level of protection is the entry's, or else the
  company's, within 0 to 2, and the tags are the non-empty slugs of the entry's, each once and without white
  space; normalising the tags again changes nothing.
\<close>

theorem catalog_entry_normalised:
  assumes "make_catalog_feed raw = Inr f"
  shows "((\<forall>c\<in>set (cf_url raw). py_isspace c) \<longrightarrow> (\<exists>e. normalize_source_feed_entry f d = Inl e)) \<and>
    ((\<exists>c\<in>set (cf_url raw). \<not> py_isspace c) \<longrightarrow>
      (\<exists>u. normalize_source_feed_entry f d = Inr u \<and> up_url u = py_strip (cf_url raw) \<and>
         up_fetchprotection u = Some (case cf_fetchprotection raw of Some p \<Rightarrow> p | None \<Rightarrow> max 0 (min 2 d)) \<and>
         distinct (up_tags u) \<and> set (up_tags u) = tag_slug ` set (cf_tags f) - {[]} \<and>
         (\<forall>tag\<in>set (up_tags u). \<forall>c\<in>set tag. \<not> py_isspace c) \<and>
         normalize_tags (up_tags u) = up_tags u))"
proof (intro conjI)
  have f: "f = raw\<lparr>cf_tags := validate_tags (cf_tags raw)\<rparr>" "length (cf_url raw) \<le> 500"
    "0 \<le> cf_trust_score raw" "cf_trust_score raw \<le> 1" "protection_level (cf_fetchprotection raw)"
    using assms by (auto simp: make_catalog_feed_def split: if_splits)
  have ok: "normalize_source_feed_entry f d \<noteq> Inl e" if "py_strip (cf_url raw) \<noteq> []" for e
    using f that length_py_strip [of "cf_url raw"] normalize_section_length [of "cf_title raw"]
      normalize_entry_fetchprotection_range [of "cf_fetchprotection raw" d]
    by (auto simp: normalize_source_feed_entry_def make_feed_upsert_def valid_feed_upsert_def protection_level_def
        Suc_le_eq split: option.splits)
  show "(\<forall>c\<in>set (cf_url raw). py_isspace c) \<longrightarrow> (\<exists>e. normalize_source_feed_entry f d = Inl e)"
    using f(1) by (auto simp: normalize_source_feed_entry_def make_feed_upsert_def valid_feed_upsert_def
        simp flip: py_strip_Nil_iff)
  have "normalize_entry_fetchprotection (cf_fetchprotection raw) d =
      (case cf_fetchprotection raw of Some p \<Rightarrow> p | None \<Rightarrow> max 0 (min 2 d))"
    using f(5) by (auto simp: normalize_entry_fetchprotection_def protection_level_def split: option.splits)
  then show "(\<exists>c\<in>set (cf_url raw). \<not> py_isspace c) \<longrightarrow>
      (\<exists>u. normalize_source_feed_entry f d = Inr u \<and> up_url u = py_strip (cf_url raw) \<and>
         up_fetchprotection u = Some (case cf_fetchprotection raw of Some p \<Rightarrow> p | None \<Rightarrow> max 0 (min 2 d)) \<and>
         distinct (up_tags u) \<and> set (up_tags u) = tag_slug ` set (cf_tags f) - {[]} \<and>
         (\<forall>tag\<in>set (up_tags u). \<forall>c\<in>set tag. \<not> py_isspace c) \<and>
         normalize_tags (up_tags u) = up_tags u)"
    using ok normalize_entry_Inr [of f d] f(1) set_tag_slug
    by (cases "normalize_source_feed_entry f d")
      (auto simp: normalize_tags_distinct normalize_tags_set normalize_tags_idem py_strip_Nil_iff)
qed

definition sample_entry :: catalog_feed where
  "sample_entry = \<lparr>cf_url = '' https://a.example/rss '', cf_title = ''A  news'',
     cf_tags = ['' World news'', ''world NEWS'', '' ''], cf_enabled = True, cf_trust_score = 1 / 2,
     cf_fetchprotection = None\<rparr>"

theorem catalog_entry_normalised_witness:
  "\<exists>u. normalize_source_feed_entry (sample_entry\<lparr>cf_tags := [''World news'', ''world NEWS'']\<rparr>) 7 = Inr u \<and>
     up_url u = ''https://a.example/rss'' \<and> up_fetchprotection u = Some 2"
proof -
  have made: "make_catalog_feed sample_entry = Inr (sample_entry\<lparr>cf_tags := [''World news'', ''world NEWS'']\<rparr>)"
    by (simp add: sample_entry_def make_catalog_feed_def validate_tags_def protection_level_def) code_simp
  have url: "py_strip (cf_url sample_entry) = ''https://a.example/rss''"
    by (simp add: sample_entry_def) code_simp
  have solid: "\<exists>c\<in>set (cf_url sample_entry). \<not> py_isspace c"
    by (rule bexI [of _ "CHR ''h''"]) (simp_all add: sample_entry_def py_isspace_def code_point_def)
  show ?thesis
    using conjunct2 [OF catalog_entry_normalised [OF made, of 7]] solid url
    by (simp add: sample_entry_def) blast
qed

end
