(* ===== verification/Job_Enqueue.thy ===== *)
theory Job_Enqueue
  imports Result_Facts Feed_Batches Catalog_Normalize Redis_Client
begin

text \<open>
  The producer of scrape jobs: \<^verbatim>\<open>backend/app/services/rss/rss_scrape_job_service.py\<close> over
  \<^verbatim>\<open>backend/app/clients/database/rss/rss_scrape_job_database_client.py\<close>.  A job is committed with
  the list of its feeds, then published in batches; what the world decides (the identifier, the
  clock, the commits, the replies of Redis) is a record.
\<close>

section \<open>The feeds of a job\<close>

text \<open>A \<^verbatim>\<open>timestamptz\<close> as the driver returns it.\<close>

definition db_datetime :: "int \<Rightarrow> py_datetime" where
  "db_datetime t = \<lparr>wall_us = t, utc_offset = Some 0\<rparr>"

definition normalize_datetime :: "py_datetime option \<Rightarrow> py_exn + py_datetime option" where
  "normalize_datetime v = (case v of
     None \<Rightarrow> Inr None
   | Some d \<Rightarrow> (case utc_offset d of
       None \<Rightarrow> Inr (Some (py_replace_utc d))
     | Some off \<Rightarrow> and_then (py_astimezone_utc off d) (\<lambda>u. Inr (Some u))))"

definition feed_scraping :: "database \<Rightarrow> feed_row \<Rightarrow> scraping_row option" where
  "feed_scraping db feed = row_with sc_feed_id (fd_id feed) (db_scrapings db)"

definition feed_company :: "database \<Rightarrow> feed_row \<Rightarrow> company_row option" where
  "feed_company db feed =
     (case fd_company_id feed of None \<Rightarrow> None | Some c \<Rightarrow> row_with co_id c (db_companies db))"

definition resolve_feed_fetchprotection :: "scraping_row option \<Rightarrow> company_row option \<Rightarrow> int" where
  "resolve_feed_fetchprotection scraping company =
     (case map_option sc_fetchprotection scraping of
        Some p \<Rightarrow> if 0 \<le> p \<and> p \<le> 2 then p
          else (case map_option co_fetchprotection company of
                  Some q \<Rightarrow> if 0 \<le> q \<and> q \<le> 2 then q else 1 | None \<Rightarrow> 1)
      | None \<Rightarrow> (case map_option co_fetchprotection company of
                  Some q \<Rightarrow> if 0 \<le> q \<and> q \<le> 2 then q else 1 | None \<Rightarrow> 1))"

text \<open>\<^verbatim>\<open>max(published_at)\<close> of the articles linked to a feed.\<close>

definition latest_article :: "database \<Rightarrow> int \<Rightarrow> int option" where
  "latest_article db feed_id =
     (case map sl_published_at (filter (\<lambda>l. sl_feed_id l = feed_id) (db_source_links db)) of
        [] \<Rightarrow> None | t # ts \<Rightarrow> Some (fold max ts t))"

definition feed_payload :: "(string \<Rightarrow> bool) \<Rightarrow> database \<Rightarrow> feed_row \<Rightarrow> py_exn + job_feed" where
  "feed_payload netloc_ok db feed =
     (let scraping = feed_scraping db feed; company = feed_company db feed in
      and_then (normalize_host netloc_ok (case company of None \<Rightarrow> None | Some c \<Rightarrow> co_host c)) (\<lambda>host_header.
      and_then (normalize_datetime (map_option db_datetime (latest_article db (fd_id feed)))) (\<lambda>last_article.
        make_job_feed
          \<lparr>jf_feed_id = fd_id feed, jf_feed_url = fd_url feed, jf_company_id = fd_company_id feed,
           jf_host_header = host_header,
           jf_fetchprotection = resolve_feed_fetchprotection scraping company,
           jf_etag = (case scraping of None \<Rightarrow> None | Some s \<Rightarrow> sc_etag s),
           jf_last_update = map_option db_datetime (case scraping of None \<Rightarrow> None | Some s \<Rightarrow> sc_last_update s),
           jf_last_db_article_published_at = last_article\<rparr>)))"

text \<open>No list and an empty list select every feed; a list without a positive identifier selects none.\<close>

definition requested_ids :: "int list option \<Rightarrow> int list option" where
  "requested_ids feed_ids = (case feed_ids of
     None \<Rightarrow> None
   | Some [] \<Rightarrow> None
   | Some ids \<Rightarrow> Some (sorted_list_of_set {i \<in> set ids. 0 < i}))"

definition selected_feeds :: "int list option \<Rightarrow> bool \<Rightarrow> database \<Rightarrow> feed_row list" where
  "selected_feeds feed_ids enabled_only db =
     sort_key fd_id (filter (\<lambda>f. (enabled_only \<longrightarrow> fd_enabled f) \<and>
       (case requested_ids feed_ids of None \<Rightarrow> True | Some ids \<Rightarrow> fd_id f \<in> set ids)) (db_feeds db))"

definition list_rss_feed_scrape_payloads ::
  "(string \<Rightarrow> bool) \<Rightarrow> int list option \<Rightarrow> bool \<Rightarrow> database \<Rightarrow> py_exn + job_feed list" where
  "list_rss_feed_scrape_payloads netloc_ok feed_ids enabled_only db =
     (if requested_ids feed_ids = Some [] then Inr []
      else map_ok (feed_payload netloc_ok db) (selected_feeds feed_ids enabled_only db))"

section \<open>The rows of a job\<close>

definition job_statuses :: "string set" where
  "job_statuses = {''queued'', ''processing'', ''completed'', ''completed_with_errors'', ''failed''}"

definition insert_job :: "job_row \<Rightarrow> unit sql" where
  "insert_job job db =
     (if jb_job_id job \<in> keys_of jb_job_id (db_jobs db)
      then (Inl (OtherException ''UniqueViolation''), db)
      else if jb_feed_count job < 0 \<or> jb_status job \<notin> job_statuses
      then (Inl (OtherException ''CheckViolation''), db)
      else (Inr (), db\<lparr>db_jobs := db_jobs db @ [job]\<rparr>))"

definition job_row_of ::
  "int \<Rightarrow> string \<Rightarrow> bool \<Rightarrow> string \<Rightarrow> py_datetime \<Rightarrow> string \<Rightarrow> job_feed list \<Rightarrow> py_exn + job_row" where
  "job_row_of now job_id ingest requested_by requested_at status feeds =
     and_then (sql_texts [Some job_id, Some requested_by, Some status]) (\<lambda>_.
     and_then (varchar 36 job_id) (\<lambda>job_id'.
     and_then (varchar 100 requested_by) (\<lambda>requested_by'.
     and_then (int4 (int (length feeds))) (\<lambda>feed_count.
     and_then (varchar 40 status) (\<lambda>status'.
       Inr \<lparr>jb_job_id = job_id', jb_ingest = ingest, jb_requested_by = requested_by',
            jb_requested_at = instant requested_at, jb_feed_count = feed_count, jb_status = status',
            jb_updated_at = now\<rparr>)))))"

definition job_feed_key :: "job_feed_row \<Rightarrow> string \<times> int" where
  "job_feed_key r = (jbf_job_id r, jbf_feed_id r)"

definition job_feed_row_of :: "string \<Rightarrow> job_feed \<Rightarrow> py_exn + job_feed_row" where
  "job_feed_row_of job_id feed =
     and_then (sql_texts [Some job_id, Some (jf_feed_url feed)]) (\<lambda>_.
     and_then (varchar 36 job_id) (\<lambda>job_id'.
     and_then (int4 (jf_feed_id feed)) (\<lambda>feed_id.
     and_then (varchar 500 (jf_feed_url feed)) (\<lambda>feed_url.
       Inr \<lparr>jbf_job_id = job_id', jbf_feed_id = feed_id, jbf_feed_url = feed_url,
            jbf_last_article = map_option instant (jf_last_db_article_published_at feed)\<rparr>))))"

definition insert_job_feed :: "string \<Rightarrow> job_feed \<Rightarrow> unit sql" where
  "insert_job_feed job_id feed db = (case job_feed_row_of job_id feed of
     Inl e \<Rightarrow> (Inl e, db)
   | Inr row \<Rightarrow>
       if job_feed_key row \<in> keys_of job_feed_key (db_job_feeds db)
       then (Inl (OtherException ''UniqueViolation''), db)
       else if jbf_job_id row \<notin> keys_of jb_job_id (db_jobs db) \<or> jbf_feed_id row \<notin> keys_of fd_id (db_feeds db)
       then (Inl (OtherException ''ForeignKeyViolation''), db)
       else (Inr (), db\<lparr>db_job_feeds := db_job_feeds db @ [row]\<rparr>))"

text \<open>The session writes the objects when it is flushed, at the commit: the job, then its feeds.\<close>

definition create_rss_scrape_job ::
  "int \<Rightarrow> string \<Rightarrow> bool \<Rightarrow> string \<Rightarrow> py_datetime \<Rightarrow> string \<Rightarrow> job_feed list \<Rightarrow> unit sql" where
  "create_rss_scrape_job now job_id ingest requested_by requested_at status feeds =
     sql_bind (sql_lift (job_row_of now job_id ingest requested_by requested_at status feeds)) (\<lambda>job.
     sql_bind (insert_job job) (\<lambda>_.
     sql_for (insert_job_feed job_id) feeds))"

definition set_rss_scrape_job_status :: "int \<Rightarrow> string \<Rightarrow> string \<Rightarrow> bool sql" where
  "set_rss_scrape_job_status now job_id status db =
     (case sql_texts [Some job_id, Some status] of
        Inl e \<Rightarrow> (Inl e, db)
      | Inr _ \<Rightarrow>
          if job_id \<notin> keys_of jb_job_id (db_jobs db) then (Inr False, db)
          else if status \<notin> job_statuses then (Inl (OtherException ''CheckViolation''), db)
          else (Inr True, db\<lparr>db_jobs := update_row jb_job_id job_id
                 (\<lambda>job. job\<lparr>jb_status := status, jb_updated_at := now\<rparr>) (db_jobs db)\<rparr>))"

section \<open>Enqueueing\<close>

record enqueue_env =
  ee_job_id :: string
  ee_now :: py_datetime
  ee_created :: int
  ee_batch_size :: "string option"
  ee_commit :: commit_outcome
  ee_xadd :: "nat \<Rightarrow> unit redis_outcome"
  ee_failed :: int
  ee_mark :: commit_outcome

record backend_state =
  bs_db :: database
  bs_requests :: "job_request list"

definition batch_request :: "enqueue_env \<Rightarrow> bool \<Rightarrow> string \<Rightarrow> job_feed list \<Rightarrow> job_request" where
  "batch_request env ingest requested_by feed_batch =
     \<lparr>jr_job_id = ee_job_id env, jr_requested_at = ee_now env, jr_ingest = ingest,
      jr_requested_by = requested_by, jr_feeds = feed_batch\<rparr>"

text \<open>
  The loop over the batches: \<open>xadd\<close> gives the outcome of the \<open>i\<close>-th publication; what the server
  executed is on the stream even when the reply is lost.  A request that is not valid and a
  publication that raises end the loop (the exception itself is dropped by the caller).
\<close>

fun publish_batches ::
  "(nat \<Rightarrow> unit redis_outcome) \<Rightarrow> nat \<Rightarrow> job_request list \<Rightarrow> bool \<times> job_request list" where
  "publish_batches xadd i [] = (True, [])"
| "publish_batches xadd i (request # requests) =
     (case make_job_request request of
        Inl _ \<Rightarrow> (False, [])
      | Inr payload \<Rightarrow>
          (let sent = (if executed (xadd i) then [payload] else []) in
           case publish_rss_scrape_job (xadd i) of
             Inl _ \<Rightarrow> (False, sent)
           | Inr _ \<Rightarrow> (case publish_batches xadd (Suc i) requests of (ok, later) \<Rightarrow> (ok, sent @ later))))"

definition mark_job_as_failed_after_publish_error :: "enqueue_env \<Rightarrow> database \<Rightarrow> database" where
  "mark_job_as_failed_after_publish_error env db =
     (case set_rss_scrape_job_status (ee_failed env) (ee_job_id env) ''failed'' db of
        (Inr True, db') \<Rightarrow> snd (committed (ee_mark env) (\<lambda>_. (Inr (), db')) db)
      | (Inr False, db') \<Rightarrow> db
      | (Inl _, db') \<Rightarrow> db)"

definition enqueue_rss_scrape_job ::
  "(string \<Rightarrow> bool) \<Rightarrow> enqueue_env \<Rightarrow> bool \<Rightarrow> string \<Rightarrow> int list option \<Rightarrow> bool \<Rightarrow> backend_state
     \<Rightarrow> (py_exn + string \<times> string) \<times> backend_state" where
  "enqueue_rss_scrape_job netloc_ok env ingest requested_by feed_ids enabled_only s =
     (case list_rss_feed_scrape_payloads netloc_ok feed_ids enabled_only (bs_db s) of
        Inl e \<Rightarrow> (Inl e, s)
      | Inr feeds \<Rightarrow>
          (let initial_status = (if feeds \<noteq> [] then ''queued'' else ''completed'') in
           case committed (ee_commit env)
                  (create_rss_scrape_job (ee_created env) (ee_job_id env) ingest requested_by (ee_now env)
                     initial_status feeds) (bs_db s) of
             (Inl e, db) \<Rightarrow> (Inl e, s\<lparr>bs_db := db\<rparr>)
           | (Inr _, db) \<Rightarrow>
               (if feeds = [] then (Inr (ee_job_id env, initial_status), s\<lparr>bs_db := db\<rparr>)
                else
                  let batches = iter_feed_batches (resolve_queue_batch_size (ee_batch_size env))
                                  (mix_feeds_by_company feeds)
                  in case publish_batches (ee_xadd env) 0 (map (batch_request env ingest requested_by) batches) of
                       (True, sent) \<Rightarrow>
                         (Inr (ee_job_id env, initial_status),
                          s\<lparr>bs_db := db, bs_requests := bs_requests s @ sent\<rparr>)
                     | (False, sent) \<Rightarrow>
                         (Inl (OtherException ''RssJobQueuePublishError''),
                          s\<lparr>bs_db := mark_job_as_failed_after_publish_error env db,
                            bs_requests := bs_requests s @ sent\<rparr>))))"

definition enqueue_rss_feed_check_job where
  "enqueue_rss_feed_check_job netloc_ok env feed_ids =
     enqueue_rss_scrape_job netloc_ok env False ''rss_feeds_check_endpoint'' feed_ids False"

definition enqueue_rss_sources_ingest_job where
  "enqueue_rss_sources_ingest_job netloc_ok env feed_ids =
     enqueue_rss_scrape_job netloc_ok env True ''sources_ingest_endpoint'' feed_ids True"

section \<open>Reading a job\<close>

record job_status_read =
  js_job_id :: string
  js_ingest :: bool
  js_requested_by :: string
  js_requested_at :: int
  js_status :: string
  js_feeds_total :: int
  js_feeds_processed :: int
  js_feeds_success :: int
  js_feeds_not_modified :: int
  js_feeds_error :: int

definition count_status :: "string \<Rightarrow> result_row list \<Rightarrow> int" where
  "count_status status rows = int (length (filter (\<lambda>r. rr_status r = status) rows))"

text \<open>None is the 404 answer.\<close>

definition get_rss_scrape_job_status_read :: "string \<Rightarrow> database \<Rightarrow> job_status_read option" where
  "get_rss_scrape_job_status_read job_id db =
     (case row_with jb_job_id job_id (db_jobs db) of
        None \<Rightarrow> None
      | Some job \<Rightarrow>
          (let rows = filter (\<lambda>r. rr_job_id r = job_id) (db_results db) in
           Some \<lparr>js_job_id = jb_job_id job, js_ingest = jb_ingest job, js_requested_by = jb_requested_by job,
                 js_requested_at = jb_requested_at job, js_status = jb_status job,
                 js_feeds_total = jb_feed_count job, js_feeds_processed = int (length rows),
                 js_feeds_success = count_status ''success'' rows,
                 js_feeds_not_modified = count_status ''not_modified'' rows,
                 js_feeds_error = count_status ''error'' rows\<rparr>))"

record job_feed_read =
  jfr_feed_id :: int
  jfr_feed_url :: string
  jfr_status :: string
  jfr_error_message :: "string option"
  jfr_fetchprotection :: "int option"
  jfr_new_etag :: "string option"
  jfr_new_last_update :: "int option"

text \<open>The left join on the primary key of the results, one row of the right side at most.\<close>

definition joined_read :: "database \<Rightarrow> job_feed_row \<Rightarrow> job_feed_read" where
  "joined_read db feed =
     (case row_with result_key (jbf_job_id feed, jbf_feed_id feed) (db_results db) of
        None \<Rightarrow> \<lparr>jfr_feed_id = jbf_feed_id feed, jfr_feed_url = jbf_feed_url feed, jfr_status = ''pending'',
           jfr_error_message = None, jfr_fetchprotection = None, jfr_new_etag = None, jfr_new_last_update = None\<rparr>
      | Some r \<Rightarrow> \<lparr>jfr_feed_id = jbf_feed_id feed, jfr_feed_url = jbf_feed_url feed,
           jfr_status = (if rr_status r = [] then ''pending'' else rr_status r),
           jfr_error_message = rr_error_message r, jfr_fetchprotection = rr_fetchprotection r,
           jfr_new_etag = rr_new_etag r, jfr_new_last_update = rr_new_last_update r\<rparr>)"

definition list_rss_scrape_job_feed_reads :: "string \<Rightarrow> database \<Rightarrow> job_feed_read list" where
  "list_rss_scrape_job_feed_reads job_id db =
     map (joined_read db) (sort_key jbf_feed_id (filter (\<lambda>f. jbf_job_id f = job_id) (db_job_feeds db)))"

definition list_rss_scrape_job_feeds :: "string \<Rightarrow> database \<Rightarrow> job_feed_read list option" where
  "list_rss_scrape_job_feeds job_id db =
     (case get_rss_scrape_job_status_read job_id db of
        None \<Rightarrow> None | Some _ \<Rightarrow> Some (list_rss_scrape_job_feed_reads job_id db))"

section \<open>Facts about the payloads\<close>

interpretation job_dates: utc_normalizer "\<lambda>d. and_then (normalize_datetime (Some d)) (\<lambda>v. Inr (the v))"
  by unfold_locales (auto simp: normalize_datetime_def and_then_def split: sum.splits)

lemma feed_payload_Inr:
  "feed_payload netloc_ok db feed = Inr p \<Longrightarrow>
    valid_job_feed p \<and> jf_feed_id p = fd_id feed \<and> jf_feed_url p = fd_url feed \<and>
    jf_company_id p = fd_company_id feed \<and>
    jf_fetchprotection p = resolve_feed_fetchprotection (feed_scraping db feed) (feed_company db feed)"
  by (auto simp: feed_payload_def Let_def and_then_eq_Inr)

lemma map_ok_map: "map_ok f xs = Inr ys \<Longrightarrow> (\<And>x y. f x = Inr y \<Longrightarrow> h y = g x) \<Longrightarrow> map h ys = map g xs"
  by (induction xs arbitrary: ys) auto

lemma payloads_Inr:
  assumes "list_rss_feed_scrape_payloads netloc_ok feed_ids enabled_only db = Inr ps"
  shows "map jf_feed_id ps = map fd_id (selected_feeds feed_ids enabled_only db)"
    and "map jf_feed_url ps = map fd_url (selected_feeds feed_ids enabled_only db)"
    and "\<forall>p\<in>set ps. valid_job_feed p"
proof -
  have none: "selected_feeds feed_ids enabled_only db = []" if "requested_ids feed_ids = Some []"
    using that by (simp add: selected_feeds_def)
  have m: "map_ok (feed_payload netloc_ok db) (selected_feeds feed_ids enabled_only db) = Inr ps"
    using assms none by (auto simp: list_rss_feed_scrape_payloads_def split: if_splits)
  show "map jf_feed_id ps = map fd_id (selected_feeds feed_ids enabled_only db)"
    by (rule map_ok_map [OF m]) (simp add: feed_payload_Inr)
  show "map jf_feed_url ps = map fd_url (selected_feeds feed_ids enabled_only db)"
    by (rule map_ok_map [OF m]) (simp add: feed_payload_Inr)
  show "\<forall>p\<in>set ps. valid_job_feed p" using map_ok_set [OF m] feed_payload_Inr by blast
qed

lemma sort_key_distinct: "unique_key key rows \<Longrightarrow> distinct (map key (sort_key key (filter P rows)))"
  by (simp add: unique_key_def distinct_map inj_on_def)

lemma sort_key_sorted: "sorted (map key (sort_key key rows))"
  by simp

lemma selected_ids:
  "unique_key fd_id (db_feeds db) \<Longrightarrow>
    distinct (map fd_id (selected_feeds feed_ids enabled_only db)) \<and>
    sorted (map fd_id (selected_feeds feed_ids enabled_only db))"
  by (simp add: selected_feeds_def sort_key_distinct)

lemma selected_set:
  "f \<in> set (selected_feeds feed_ids enabled_only db) \<longleftrightarrow> f \<in> set (db_feeds db) \<and> (enabled_only \<longrightarrow> fd_enabled f) \<and>
    (\<forall>ids. feed_ids = Some ids \<longrightarrow> ids \<noteq> [] \<longrightarrow> 0 < fd_id f \<and> fd_id f \<in> set ids)"
  by (cases feed_ids rule: option.exhaust) (auto simp: selected_feeds_def requested_ids_def split: list.splits)

text \<open>What the columns and the schema of the catalog keep out of the rows read here.\<close>

definition payload_rows_ok :: "(string \<Rightarrow> bool) \<Rightarrow> database \<Rightarrow> bool" where
  "payload_rows_ok netloc_ok db \<longleftrightarrow>
     list_all (\<lambda>f. 1 \<le> fd_id f \<and> 1 \<le> length (fd_url f) \<and> length (fd_url f) \<le> 500 \<and>
       (case fd_company_id f of None \<Rightarrow> True | Some c \<Rightarrow> 1 \<le> c)) (db_feeds db) \<and>
     list_all (\<lambda>c. opt_length_between 0 255 (co_host c) \<and> \<not> isl (normalize_host netloc_ok (co_host c)))
       (db_companies db) \<and>
     list_all (\<lambda>s. opt_length_between 0 255 (sc_etag s)) (db_scrapings db) \<and>
     list_all (\<lambda>l. wall_in_range (sl_published_at l)) (db_source_links db)"

lemma resolve_feed_fetchprotection_range:
  "0 \<le> resolve_feed_fetchprotection s c \<and> resolve_feed_fetchprotection s c \<le> 2"
  by (auto simp: resolve_feed_fetchprotection_def split: option.splits)

lemma fold_max_in: "fold max ts (t::int) \<in> insert t (set ts)"
proof (induction ts arbitrary: t)
  case (Cons u ts)
  have "max u t = u \<or> max u t = t" by (auto simp: max_def)
  then show ?case using Cons.IH [of "max u t"] by auto
qed simp

lemma latest_article_in:
  "latest_article db f = Some t \<Longrightarrow> \<exists>l\<in>set (db_source_links db). sl_feed_id l = f \<and> sl_published_at l = t"
proof -
  assume "latest_article db f = Some t"
  then obtain u us where "map sl_published_at (filter (\<lambda>l. sl_feed_id l = f) (db_source_links db)) = u # us"
    "t = fold max us u"
    by (auto simp: latest_article_def split: list.splits)
  then have "t \<in> set (map sl_published_at (filter (\<lambda>l. sl_feed_id l = f) (db_source_links db)))"
    using fold_max_in [of us u] by simp
  then show ?thesis by auto
qed

lemma opt_length_between_host:
  "opt_length_between 0 255 h \<Longrightarrow> normalize_host netloc_ok h = Inr n \<Longrightarrow> opt_length_between 1 255 n"
  by (cases h; cases n)
    (auto simp: opt_length_between_def Suc_le_eq host_shape_def dest: normalize_host_shape)

lemma feed_payload_total:
  assumes "payload_rows_ok netloc_ok db" and "feed \<in> set (db_feeds db)"
  shows "\<exists>p. feed_payload netloc_ok db feed = Inr p"
proof -
  let ?host = "case feed_company db feed of None \<Rightarrow> None | Some c \<Rightarrow> co_host c"
  have "opt_length_between 0 255 ?host \<and> (\<exists>h. normalize_host netloc_ok ?host = Inr h)"
  proof (cases "feed_company db feed")
    case None
    then show ?thesis by (simp add: opt_length_between_def)
  next
    case (Some c)
    then have "c \<in> set (db_companies db)"
      by (auto simp: feed_company_def split: option.splits dest: row_with_SomeD)
    then show ?thesis
      using assms(1) Some by (cases "normalize_host netloc_ok (co_host c)") (auto simp: payload_rows_ok_def list_all_iff)
  qed
  then obtain h where h: "normalize_host netloc_ok ?host = Inr h" "opt_length_between 1 255 h"
    using opt_length_between_host by blast
  have etag: "opt_length_between 0 255 (case feed_scraping db feed of None \<Rightarrow> None | Some s \<Rightarrow> sc_etag s)"
    using assms(1)
    by (auto simp: feed_scraping_def payload_rows_ok_def list_all_iff opt_length_between_def
        split: option.splits dest!: row_with_SomeD)
  have "\<exists>d. normalize_datetime (map_option db_datetime (latest_article db (fd_id feed))) = Inr d"
  proof (cases "latest_article db (fd_id feed)")
    case None
    then show ?thesis by (simp add: normalize_datetime_def)
  next
    case (Some t)
    then have "wall_in_range t"
      using latest_article_in [OF Some] assms(1) by (auto simp: payload_rows_ok_def list_all_iff)
    then show ?thesis using Some by (simp add: normalize_datetime_def db_datetime_def py_astimezone_utc_def)
  qed
  then obtain d where d: "normalize_datetime (map_option db_datetime (latest_article db (fd_id feed))) = Inr d" ..
  have "1 \<le> fd_id feed" "1 \<le> length (fd_url feed)" "length (fd_url feed) \<le> 500"
    "case fd_company_id feed of None \<Rightarrow> True | Some c \<Rightarrow> 1 \<le> c"
    using assms by (auto simp: payload_rows_ok_def list_all_iff)
  then show ?thesis
    using h d etag resolve_feed_fetchprotection_range
    by (simp add: feed_payload_def Let_def make_job_feed_def valid_job_feed_def)
qed

lemma map_ok_total: "(\<And>x. x \<in> set xs \<Longrightarrow> \<exists>y. f x = Inr y) \<Longrightarrow> \<exists>ys. map_ok f xs = Inr ys"
  by (induction xs) fastforce+

section \<open>Facts about creating and publishing\<close>

lemma insert_job_Inr:
  "insert_job job db = (Inr u, db') \<longleftrightarrow> jb_job_id job \<notin> keys_of jb_job_id (db_jobs db) \<and>
    0 \<le> jb_feed_count job \<and> jb_status job \<in> job_statuses \<and> db' = db\<lparr>db_jobs := db_jobs db @ [job]\<rparr>"
  by (auto simp: insert_job_def)

lemma insert_job_feed_Inr:
  "insert_job_feed job_id feed db = (Inr u, db') \<Longrightarrow>
    \<exists>row. job_feed_row_of job_id feed = Inr row \<and> db' = db\<lparr>db_job_feeds := db_job_feeds db @ [row]\<rparr>"
  by (auto simp: insert_job_feed_def split: sum.splits if_splits)

lemma insert_job_feeds_Inr:
  "sql_for (insert_job_feed job_id) feeds db = (Inr u, db') \<Longrightarrow>
    \<exists>rows. map_ok (job_feed_row_of job_id) feeds = Inr rows \<and> db' = db\<lparr>db_job_feeds := db_job_feeds db @ rows\<rparr>"
proof (induction feeds arbitrary: db)
  case (Cons feed feeds)
  obtain db1 where db1: "insert_job_feed job_id feed db = (Inr (), db1)"
    "sql_for (insert_job_feed job_id) feeds db1 = (Inr u, db')"
    using Cons.prems by (auto split: prod.splits sum.splits)
  obtain row where "job_feed_row_of job_id feed = Inr row" "db1 = db\<lparr>db_job_feeds := db_job_feeds db @ [row]\<rparr>"
    using insert_job_feed_Inr [OF db1(1)] by blast
  then show ?case using Cons.IH [OF db1(2)] by auto
qed simp

lemma job_row_of_Inr:
  "job_row_of now job_id ingest requested_by requested_at status feeds = Inr job \<Longrightarrow> length job_id \<le> 36 \<Longrightarrow>
    length status \<le> 40 \<Longrightarrow>
    jb_job_id job = job_id \<and> jb_ingest job = ingest \<and> jb_feed_count job = int (length feeds) \<and> jb_status job = status"
  by (auto simp: job_row_of_def)

lemma job_feed_row_of_Inr:
  "job_feed_row_of job_id feed = Inr row \<Longrightarrow> length job_id \<le> 36 \<Longrightarrow> length (jf_feed_url feed) \<le> 500 \<Longrightarrow>
    jbf_job_id row = job_id \<and> jbf_feed_id row = jf_feed_id feed \<and> jbf_feed_url row = jf_feed_url feed"
  by (auto simp: job_feed_row_of_def)

definition job_created :: "string \<Rightarrow> string \<Rightarrow> job_feed list \<Rightarrow> database \<Rightarrow> database \<Rightarrow> bool" where
  "job_created job_id status feeds db db' \<longleftrightarrow> job_id \<notin> keys_of jb_job_id (db_jobs db) \<and>
     (\<exists>job rows. db' = db\<lparr>db_jobs := db_jobs db @ [job], db_job_feeds := db_job_feeds db @ rows\<rparr> \<and>
        jb_job_id job = job_id \<and> jb_status job = status \<and> jb_feed_count job = int (length feeds) \<and>
        map (\<lambda>r. (jbf_job_id r, jbf_feed_id r, jbf_feed_url r)) rows =
          map (\<lambda>f. (job_id, jf_feed_id f, jf_feed_url f)) feeds)"

lemma create_job_Inr:
  assumes "create_rss_scrape_job now job_id ingest requested_by requested_at status feeds db = (Inr u, db')"
    and "length job_id \<le> 36" and "length status \<le> 40" and "\<forall>f\<in>set feeds. valid_job_feed f"
  shows "job_created job_id status feeds db db'"
proof -
  obtain job where job: "job_row_of now job_id ingest requested_by requested_at status feeds = Inr job"
    "jb_job_id job \<notin> keys_of jb_job_id (db_jobs db)"
    "sql_for (insert_job_feed job_id) feeds (db\<lparr>db_jobs := db_jobs db @ [job]\<rparr>) = (Inr u, db')"
    using assms(1) by (auto simp: create_rss_scrape_job_def sql_bind_Inr insert_job_Inr split: sum.splits)
  obtain rows where rows: "map_ok (job_feed_row_of job_id) feeds = Inr rows"
    "db' = db\<lparr>db_jobs := db_jobs db @ [job], db_job_feeds := db_job_feeds db @ rows\<rparr>"
    using insert_job_feeds_Inr [OF job(3)] by auto
  have "map (\<lambda>r. (jbf_job_id r, jbf_feed_id r, jbf_feed_url r)) rows =
      map (\<lambda>f. (job_id, jf_feed_id f, jf_feed_url f)) feeds"
    using rows(1) assms(4)
  proof (induction feeds arbitrary: rows)
    case (Cons f feeds)
    then show ?case using job_feed_row_of_Inr [OF _ assms(2), of f] by (auto simp: valid_job_feed_def)
  qed simp
  then show ?thesis
    using job_row_of_Inr [OF job(1) assms(2,3)] job(2) rows(2) unfolding job_created_def by auto
qed

lemma publish_all:
  "publish_batches xadd i requests = (True, sent) \<Longrightarrow> sent = requests \<and> (\<forall>r\<in>set requests. valid_job_request r)"
proof (induction requests arbitrary: i sent)
  case (Cons r rs)
  have valid: "valid_job_request r"
    using Cons.prems by (cases "valid_job_request r") (simp_all add: make_job_request_def)
  obtain u where u: "xadd i = Replied u"
    using Cons.prems valid by (cases "xadd i") (simp_all add: make_job_request_def publish_rss_scrape_job_def)
  obtain ok later where later: "publish_batches xadd (Suc i) rs = (ok, later)" by fastforce
  then have "ok" "sent = r # later"
    using Cons.prems valid u by (simp_all add: make_job_request_def publish_rss_scrape_job_def)
  then show ?case using Cons.IH [of "Suc i" later] later valid by simp
qed simp

lemma publish_fails_at:
  assumes "\<forall>r\<in>set requests. valid_job_request r" and "k < length requests"
    and "\<forall>j<k. \<exists>u. xadd (i + j) = Replied u" and "\<forall>u. xadd (i + k) \<noteq> Replied u"
  shows "publish_batches xadd i requests = (False, take (if executed (xadd (i + k)) then Suc k else k) requests)"
  using assms
proof (induction requests arbitrary: i k)
  case (Cons r rs)
  show ?case
  proof (cases k)
    case 0
    then show ?thesis using Cons.prems
      by (cases "xadd i") (auto simp: make_job_request_def publish_rss_scrape_job_def)
  next
    case (Suc k')
    have "publish_batches xadd (Suc i) rs =
        (False, take (if executed (xadd (Suc i + k')) then Suc k' else k') rs)"
      by (rule Cons.IH) (use Cons.prems Suc in \<open>auto simp del: add_Suc_right simp flip: add_Suc_shift\<close>)
    moreover obtain u where "xadd i = Replied u" using Cons.prems(3) Suc by fastforce
    ultimately show ?thesis using Cons.prems(1) Suc
      by (auto simp: make_job_request_def publish_rss_scrape_job_def)
  qed
qed simp

lemma publish_succeeds:
  assumes "\<forall>r\<in>set requests. valid_job_request r" and "\<forall>j<length requests. \<exists>u. xadd (i + j) = Replied u"
  shows "publish_batches xadd i requests = (True, requests)"
  using assms
proof (induction requests arbitrary: i)
  case (Cons r rs)
  have "publish_batches xadd (Suc i) rs = (True, rs)"
    by (rule Cons.IH) (use Cons.prems in fastforce)+
  moreover obtain u where "xadd i = Replied u" using Cons.prems(2) by fastforce
  ultimately show ?case using Cons.prems(1) by (auto simp: make_job_request_def publish_rss_scrape_job_def)
qed simp

text \<open>The requests of a job.\<close>

definition job_requests :: "enqueue_env \<Rightarrow> bool \<Rightarrow> string \<Rightarrow> job_feed list \<Rightarrow> job_request list" where
  "job_requests env ingest requested_by feeds =
     map (batch_request env ingest requested_by)
       (iter_feed_batches (resolve_queue_batch_size (ee_batch_size env)) (mix_feeds_by_company feeds))"

lemma job_requests_feeds: "concat (map jr_feeds (job_requests env ingest requested_by feeds)) = mix_feeds_by_company feeds"
  by (simp add: job_requests_def comp_def batch_request_def iter_feed_batches_facts)

lemma job_requests_mset: "mset (concat (map jr_feeds (job_requests env ingest requested_by feeds))) = mset feeds"
  by (simp add: job_requests_feeds mix_mset)

lemma job_request_member:
  assumes "r \<in> set (job_requests env ingest requested_by feeds)"
  shows "jr_job_id r = ee_job_id env \<and> jr_ingest r = ingest \<and> jr_requested_by r = requested_by \<and>
    jr_feeds r \<noteq> [] \<and> int (length (jr_feeds r)) \<le> resolve_queue_batch_size (ee_batch_size env) \<and>
    set (jr_feeds r) \<subseteq> set feeds"
proof -
  have "set (jr_feeds r) \<subseteq> set (concat (map jr_feeds (job_requests env ingest requested_by feeds)))"
    using assms by auto
  also have "\<dots> = set feeds" using job_requests_mset by (metis set_mset_mset)
  finally show ?thesis
    using assms by (auto simp: job_requests_def batch_request_def dest: iter_feed_batches_facts(2))
qed

lemma job_requests_valid:
  assumes "\<forall>f\<in>set feeds. valid_job_feed f" and "length (ee_job_id env) = 36"
    and "1 \<le> length requested_by" and "length requested_by \<le> 100"
  shows "\<forall>r\<in>set (job_requests env ingest requested_by feeds). valid_job_request r"
  using assms job_request_member [of _ env ingest requested_by feeds]
  by (fastforce simp: valid_job_request_def)

lemma enqueue_cases:
  assumes "enqueue_rss_scrape_job netloc_ok env ingest requested_by feed_ids enabled_only s = (r, s')"
  obtains (unlisted) e where "list_rss_feed_scrape_payloads netloc_ok feed_ids enabled_only (bs_db s) = Inl e"
      "r = Inl e" "s' = s"
  | (uncommitted) feeds e db where
      "list_rss_feed_scrape_payloads netloc_ok feed_ids enabled_only (bs_db s) = Inr feeds"
      "r = Inl e" "s' = s\<lparr>bs_db := db\<rparr>"
  | (queued) feeds db where
      "list_rss_feed_scrape_payloads netloc_ok feed_ids enabled_only (bs_db s) = Inr feeds"
      "create_rss_scrape_job (ee_created env) (ee_job_id env) ingest requested_by (ee_now env)
         (if feeds \<noteq> [] then ''queued'' else ''completed'') feeds (bs_db s) = (Inr (), db)"
      "feeds \<noteq> [] \<longrightarrow> publish_batches (ee_xadd env) 0 (job_requests env ingest requested_by feeds) =
         (True, job_requests env ingest requested_by feeds)"
      "r = Inr (ee_job_id env, if feeds \<noteq> [] then ''queued'' else ''completed'')"
      "s' = s\<lparr>bs_db := db, bs_requests := bs_requests s @ (if feeds = [] then [] else job_requests env ingest requested_by feeds)\<rparr>"
  | (unpublished) feeds db sent where
      "list_rss_feed_scrape_payloads netloc_ok feed_ids enabled_only (bs_db s) = Inr feeds" "feeds \<noteq> []"
      "create_rss_scrape_job (ee_created env) (ee_job_id env) ingest requested_by (ee_now env)
         ''queued'' feeds (bs_db s) = (Inr (), db)"
      "publish_batches (ee_xadd env) 0 (job_requests env ingest requested_by feeds) = (False, sent)"
      "r = Inl (OtherException ''RssJobQueuePublishError'')"
      "s' = s\<lparr>bs_db := mark_job_as_failed_after_publish_error env db, bs_requests := bs_requests s @ sent\<rparr>"
proof (cases "list_rss_feed_scrape_payloads netloc_ok feed_ids enabled_only (bs_db s)")
  case (Inl e)
  then show ?thesis using assms by (intro unlisted [of e]) (auto simp: enqueue_rss_scrape_job_def)
next
  case feeds: (Inr feeds)
  define status where "status = (if feeds \<noteq> [] then ''queued'' else ''completed'')"
  define create where "create = create_rss_scrape_job (ee_created env) (ee_job_id env) ingest requested_by
    (ee_now env) status feeds"
  obtain c db where c: "committed (ee_commit env) create (bs_db s) = (c, db)" by fastforce
  show ?thesis
  proof (cases c)
    case (Inl e)
    then show ?thesis using assms feeds c
      by (intro uncommitted [of feeds e db]) (auto simp: enqueue_rss_scrape_job_def create_def status_def)
  next
    case (Inr u)
    have create: "create (bs_db s) = (Inr (), db)"
      using c Inr by (auto simp: committed_def split: prod.splits sum.splits commit_outcome.splits)
    obtain ok sent where pub: "publish_batches (ee_xadd env) 0 (job_requests env ingest requested_by feeds) = (ok, sent)"
      by fastforce
    have unfolded: "(r, s') =
       (if feeds = [] then (Inr (ee_job_id env, status), s\<lparr>bs_db := db\<rparr>)
        else if ok then (Inr (ee_job_id env, status), s\<lparr>bs_db := db, bs_requests := bs_requests s @ sent\<rparr>)
        else (Inl (OtherException ''RssJobQueuePublishError''),
          s\<lparr>bs_db := mark_job_as_failed_after_publish_error env db, bs_requests := bs_requests s @ sent\<rparr>))"
      using assms feeds c Inr pub
      by (cases ok) (auto simp: enqueue_rss_scrape_job_def create_def status_def job_requests_def Let_def)
    consider "feeds = []" | "feeds \<noteq> []" "ok" | "feeds \<noteq> []" "\<not> ok" by blast
    then show ?thesis
    proof cases
      case 1
      then show ?thesis using unfolded feeds create
        by (intro queued [of feeds db]) (simp_all add: create_def status_def)
    next
      case 2
      then have "sent = job_requests env ingest requested_by feeds" using pub publish_all by auto
      then show ?thesis using 2 unfolded feeds create pub
        by (intro queued [of feeds db]) (simp_all add: create_def status_def)
    next
      case 3
      then show ?thesis using unfolded feeds create pub
        by (intro unpublished [of feeds db sent]) (simp_all add: create_def status_def)
    qed
  qed
qed

end
