(* ===== verification/Feed_Normalize.thy ===== *)
theory Feed_Normalize
  imports Messages Contracts
begin

text \<open>
  \<^verbatim>\<open>worker-rss-scrapper/app/domain/rss_normalize_domain.py\<close>: from the parser's dictionaries to
  validated sources, dropping untitled entries, repeated URLs and articles before 2026.
\<close>

section \<open>The code\<close>

definition MIN_ARTICLE_PUBLISHED_AT :: py_datetime where
  "MIN_ARTICLE_PUBLISHED_AT = utc_date 2026 1 1"

definition normalize_text :: "py_value \<Rightarrow> string option" where
  "normalize_text value = (case value of PyStr s \<Rightarrow> strip_or_none s | _ \<Rightarrow> None)"

definition normalize_entry_datetime :: "py_value \<Rightarrow> py_exn + py_datetime option" where
  "normalize_entry_datetime value = (case value of
     PyDatetime d \<Rightarrow>
       (case utc_offset d of
          None \<Rightarrow> Inr (Some (py_replace_utc d))
        | Some off \<Rightarrow> and_then (py_astimezone_utc off d) (\<lambda>u. Inr (Some u)))
   | _ \<Rightarrow> Inr None)"

definition is_published_from_2026 :: "py_datetime option \<Rightarrow> bool" where
  "is_published_from_2026 value = (case value of
     None \<Rightarrow> False | Some d \<Rightarrow> instant MIN_ARTICLE_PUBLISHED_AT \<le> instant d)"

fun normalize_loop :: "string set \<Rightarrow> py_dict list \<Rightarrow> py_exn + feed_source list" where
  "normalize_loop seen_urls [] = Inr []"
| "normalize_loop seen_urls (entry # entries) =
     (case (normalize_text (dict_get entry ''title''), normalize_text (dict_get entry ''url'')) of
        (Some title, Some url) \<Rightarrow>
          if url \<in> seen_urls then normalize_loop seen_urls entries
          else and_then (normalize_entry_datetime (dict_get entry ''published_at''))
            (\<lambda>published_at.
               if \<not> is_published_from_2026 published_at then normalize_loop seen_urls entries
               else and_then
                 (make_feed_source
                    \<lparr>src_title = title, src_url = url,
                     src_summary = normalize_text (dict_get entry ''summary''),
                     src_author = normalize_text (dict_get entry ''author''),
                     src_published_at = published_at,
                     src_image_url = normalize_text (dict_get entry ''image_url'')\<rparr>)
                 (\<lambda>source. and_then (normalize_loop (insert url seen_urls) entries)
                    (\<lambda>rest. Inr (source # rest))))
      | _ \<Rightarrow> normalize_loop seen_urls entries)"

definition normalize_feed_sources :: "py_dict list \<Rightarrow> py_exn + feed_source list" where
  "normalize_feed_sources entries = normalize_loop {} entries"

section \<open>The loop keeps the first publishable entry of every URL\<close>

definition entry_title :: "py_dict \<Rightarrow> string option" where
  "entry_title entry = normalize_text (dict_get entry ''title'')"

definition entry_url :: "py_dict \<Rightarrow> string option" where
  "entry_url entry = (case entry_title entry of
     None \<Rightarrow> None | Some _ \<Rightarrow> normalize_text (dict_get entry ''url''))"

text \<open>What one entry becomes when its URL has not been seen: an error, nothing, or a source.\<close>

definition entry_source :: "py_dict \<Rightarrow> py_exn + feed_source option" where
  "entry_source entry =
     and_then (normalize_entry_datetime (dict_get entry ''published_at''))
       (\<lambda>p. if is_published_from_2026 p
            then and_then (make_feed_source
                   \<lparr>src_title = the (entry_title entry), src_url = the (entry_url entry),
                    src_summary = normalize_text (dict_get entry ''summary''),
                    src_author = normalize_text (dict_get entry ''author''),
                    src_published_at = p,
                    src_image_url = normalize_text (dict_get entry ''image_url'')\<rparr>)
                   (\<lambda>s. Inr (Some s))
            else Inr None)"

lemma entry_url_SomeE:
  assumes "entry_url entry = Some u"
  obtains t where "normalize_text (dict_get entry ''title'') = Some t"
    and "normalize_text (dict_get entry ''url'') = Some u" and "entry_title entry = Some t"
  using assms by (auto simp: entry_url_def entry_title_def split: option.splits)

lemma normalize_loop_step:
  assumes "entry_url x = Some u" and "u \<notin> seen"
  shows "normalize_loop seen (x # xs) =
    (case entry_source x of
       Inl e \<Rightarrow> Inl e
     | Inr None \<Rightarrow> normalize_loop seen xs
     | Inr (Some s) \<Rightarrow> and_then (normalize_loop (insert u seen) xs) (\<lambda>rest. Inr (s # rest)))"
proof -
  from assms(1) obtain t where
    t: "normalize_text (dict_get x ''title'') = Some t" "entry_title x = Some t" and
    u: "normalize_text (dict_get x ''url'') = Some u"
    by (rule entry_url_SomeE)
  show ?thesis
    using t u assms
    by (cases "normalize_entry_datetime (dict_get x ''published_at'')")
      (auto simp: entry_source_def make_feed_source_def)
qed

interpretation sources: seen_set_loop entry_url entry_source src_url normalize_loop
proof
  fix seen :: "string set" and x xs
  show "entry_url x = None \<Longrightarrow> normalize_loop seen (x # xs) = normalize_loop seen xs"
    by (auto simp: entry_url_def entry_title_def split: option.splits)
next
  fix seen :: "string set" and x xs k
  show "entry_url x = Some k \<Longrightarrow> k \<in> seen \<Longrightarrow> normalize_loop seen (x # xs) = normalize_loop seen xs"
    by (auto elim: entry_url_SomeE)
next
  fix x k y
  show "entry_url x = Some k \<Longrightarrow> entry_source x = Inr (Some y) \<Longrightarrow> src_url y = k"
    by (auto simp: entry_source_def split: if_splits)
qed (simp_all add: normalize_loop_step del: normalize_loop.simps(2))

section \<open>What a source holds\<close>

lemma normalize_entry_datetime_utc:
  "normalize_entry_datetime v = Inr (Some d) \<Longrightarrow>
    \<exists>d0. v = PyDatetime d0 \<and> to_utc d0 = Inr d \<and> is_utc d \<and> instant d = instant d0"
proof (cases v)
  case (PyDatetime d0)
  assume "normalize_entry_datetime v = Inr (Some d)"
  then have "to_utc d0 = Inr d"
    using PyDatetime by (auto simp: normalize_entry_datetime_def to_utc_def split: option.splits)
  then show ?thesis
    using PyDatetime to_utc.norm_is_utc to_utc.norm_instant by blast
qed (auto simp: normalize_entry_datetime_def)

lemma normalize_text_Some:
  "normalize_text v = Some t \<longleftrightarrow> (\<exists>s. v = PyStr s \<and> t = py_strip s \<and> t \<noteq> [])"
  by (auto simp: normalize_text_def strip_or_none_Some split: py_value.splits)

lemma normalize_text_clean: "normalize_text v = Some t \<Longrightarrow> stripped t \<and> t \<noteq> []"
  by (auto simp: normalize_text_Some)

text \<open>A source as the persistence service may rely on it.\<close>

definition normal_source :: "feed_source \<Rightarrow> bool" where
  "normal_source s = (valid_feed_source s \<and> stripped (src_title s) \<and> stripped (src_url s)
     \<and> (\<forall>v\<in>{src_summary s, src_author s, src_image_url s}. \<forall>t. v = Some t \<longrightarrow> t \<noteq> [] \<and> stripped t)
     \<and> (\<exists>d. src_published_at s = Some d \<and> is_utc d \<and> instant MIN_ARTICLE_PUBLISHED_AT \<le> instant d))"

lemma entry_source_normal:
  assumes "entry_url x = Some u" and "entry_source x = Inr (Some s)"
  shows "normal_source s"
proof -
  from assms(1) obtain t where t: "normalize_text (dict_get x ''title'') = Some t"
    "entry_title x = Some t" and u: "normalize_text (dict_get x ''url'') = Some u"
    by (rule entry_url_SomeE)
  from assms(2) obtain p where
    p: "normalize_entry_datetime (dict_get x ''published_at'') = Inr p" "is_published_from_2026 p" and
    v: "valid_feed_source s" and
    s: "s = \<lparr>src_title = t, src_url = u,
             src_summary = normalize_text (dict_get x ''summary''),
             src_author = normalize_text (dict_get x ''author''),
             src_published_at = p,
             src_image_url = normalize_text (dict_get x ''image_url'')\<rparr>"
    using t(2) assms(1) by (auto simp: entry_source_def split: if_splits)
  from p(2) obtain d where d: "p = Some d" "instant MIN_ARTICLE_PUBLISHED_AT \<le> instant d"
    by (auto simp: is_published_from_2026_def split: option.splits)
  have "is_utc d" using normalize_entry_datetime_utc p(1) d(1) by blast
  then show ?thesis
    using v s d normalize_text_clean [OF t(1)] normalize_text_clean [OF u]
    by (auto simp: normal_source_def dest: normalize_text_clean)
qed

lemma normalize_feed_sources_normal:
  assumes "normalize_feed_sources entries = Inr sources" and "s \<in> set sources"
  shows "normal_source s"
  using sources.output_origin [OF assms(1)[unfolded normalize_feed_sources_def] assms(2)]
    entry_source_normal by blast

section \<open>Properties\<close>

text \<open>
  C2: whenever normalisation returns, every source is valid for the schema, has a stripped non-empty
  title and URL, optional texts that are absent or stripped and non-empty, and a UTC publication
  date from 2026 on; and no URL occurs twice.
\<close>

theorem normalize_feed_sources_sound:
  assumes "normalize_feed_sources entries = Inr sources"
  shows "list_all normal_source sources \<and> distinct (map src_url sources)"
  using assms normalize_feed_sources_normal
    sources.out_keys_distinct [of "{}" entries sources]
  by (auto simp: list_all_iff normalize_feed_sources_def)

definition sample_entry :: py_dict where
  "sample_entry = [''title'' \<mapsto> PyStr '' Launch '', ''url'' \<mapsto> PyStr ''http://a/1'',
     ''published_at'' \<mapsto> PyDatetime (utc_date 2026 3 1)]"

definition sample_source :: feed_source where
  "sample_source = \<lparr>src_title = ''Launch'', src_url = ''http://a/1'', src_summary = None,
     src_author = None, src_published_at = Some (utc_date 2026 3 1), src_image_url = None\<rparr>"

lemma sample_entry_normalized: "normalize_feed_sources [sample_entry, sample_entry] = Inr [sample_source]"
  by code_simp

theorem normalize_feed_sources_sound_witness:
  "list_all normal_source [sample_source] \<and> distinct (map src_url [sample_source])"
  by (rule normalize_feed_sources_sound [OF sample_entry_normalized])

text \<open>
  Completeness and choice.  Every source is built from the first publishable entry of its URL
  (the earlier entries of that URL had no date from 2026 on), and every entry that has a title, a URL
  and such a date has its URL among the sources.
\<close>

theorem normalize_feed_sources_first_entry:
  assumes "normalize_feed_sources entries = Inr sources"
  shows "(\<forall>s\<in>set sources. \<exists>pre x post. entries = pre @ x # post \<and> entry_url x = Some (src_url s) \<and>
            entry_source x = Inr (Some s) \<and>
            (\<forall>w\<in>set pre. entry_url w = entry_url x \<longrightarrow> entry_source w = Inr None))
       \<and> (\<forall>x\<in>set entries. \<forall>u. entry_url x = Some u \<longrightarrow> entry_source x \<noteq> Inr None \<longrightarrow>
            u \<in> src_url ` set sources)"
  using sources.output_origin [OF assms [unfolded normalize_feed_sources_def]]
    sources.keys_covered [OF assms [unfolded normalize_feed_sources_def]]
  by simp

theorem normalize_feed_sources_first_entry_witness:
  "\<exists>pre x post. [sample_entry, sample_entry] = pre @ x # post \<and> entry_url x = Some (src_url sample_source) \<and>
     entry_source x = Inr (Some sample_source)"
  using normalize_feed_sources_first_entry [OF sample_entry_normalized] by simp blast

text \<open>
  One entry whose URL is longer than the 1000 characters of the schema makes the
  normalisation of the whole feed raise: no source of that feed is returned, whatever the other
  entries are, when the entry is titled, dated from 2026 on and the first of its URL.
\<close>

theorem overlong_url_rejects_feed:
  assumes "entry_url x = Some u" and "1000 < length u"
    and "normalize_entry_datetime (dict_get x ''published_at'') = Inr p" and "is_published_from_2026 p"
    and "\<And>w. w \<in> set pre \<Longrightarrow> entry_url w \<noteq> Some u"
  shows "\<exists>e. normalize_feed_sources (pre @ x # post) = Inl e"
proof (rule ccontr)
  assume "\<nexists>e. normalize_feed_sources (pre @ x # post) = Inl e"
  then obtain ys where ys: "normalize_feed_sources (pre @ x # post) = Inr ys"
    by (cases "normalize_feed_sources (pre @ x # post)") auto
  have raise: "entry_source x = Inl (ValidationError ''FeedSourceSchema'')"
    using assms(1-4) by (simp add: entry_source_def make_feed_source_def valid_feed_source_def)
  then have "u \<in> src_url ` set ys"
    using sources.keys_covered [OF ys [unfolded normalize_feed_sources_def], of x u] assms(1) by simp
  then obtain s where s: "s \<in> set ys" "src_url s = u" by blast
  have "normal_source s" by (rule normalize_feed_sources_normal [OF ys s(1)])
  then show False using s(2) assms(2) by (simp add: normal_source_def valid_feed_source_def)
qed

lemma long_url_entry:
  "entry_url [''title'' \<mapsto> PyStr ''t'', ''url'' \<mapsto> PyStr (replicate 1001 CHR ''a''),
     ''published_at'' \<mapsto> PyDatetime (utc_date 2026 1 1)] = Some (replicate 1001 CHR ''a'')"
  by (auto simp: entry_url_def entry_title_def dict_get_def normalize_text_def strip_or_none_def
      Let_def stripped_strip_id stripped_def py_isspace_def code_point_def)

theorem overlong_url_rejects_feed_witness:
  "\<exists>e. normalize_feed_sources ([sample_entry] @
     [''title'' \<mapsto> PyStr ''t'', ''url'' \<mapsto> PyStr (replicate 1001 CHR ''a''),
      ''published_at'' \<mapsto> PyDatetime (utc_date 2026 1 1)] # [sample_entry]) = Inl e"
proof (rule overlong_url_rejects_feed [OF long_url_entry, where p = "Some (utc_date 2026 1 1)"])
  have "to_utc (utc_date 2026 1 1) = Inr (utc_date 2026 1 1)" by code_simp
  then show "normalize_entry_datetime (dict_get [''title'' \<mapsto> PyStr ''t'',
      ''url'' \<mapsto> PyStr (replicate 1001 CHR ''a''),
      ''published_at'' \<mapsto> PyDatetime (utc_date 2026 1 1)] ''published_at'') =
    Inr (Some (utc_date 2026 1 1))"
    by (auto simp: dict_get_def normalize_entry_datetime_def to_utc_def split: option.splits)
  show "is_published_from_2026 (Some (utc_date 2026 1 1))" by code_simp
  show "entry_url w \<noteq> Some (replicate 1001 CHR ''a'')" if "w \<in> set [sample_entry]" for w
  proof -
    have "entry_url sample_entry = Some ''http://a/1''" by code_simp
    then show ?thesis using that by (auto dest: arg_cong [of _ _ length])
  qed
qed simp

end
