(* ===== verification/Feed_Parse.thy ===== *)
theory Feed_Parse
  imports Messages
begin

text \<open>
  \<^verbatim>\<open>worker-rss-scrapper/app/domain/rss_parse_domain.py\<close>: from the text of an RSS or Atom
  document to the dictionaries of its entries and the feed's own modification date.

  The parser works on the element tree that \<^verbatim>\<open>xml.etree.ElementTree.fromstring\<close> returns.  That
  parser, the two date parsers, \<^verbatim>\<open>html.unescape\<close> and the query splitting of \<^verbatim>\<open>urllib.parse\<close>
  are fields of \<open>py_stdlib\<close>; every function takes the record and every property holds for
  all of its values.  The regular expressions are written out.
\<close>

section \<open>Element trees\<close>

datatype xml_tag = NamedTag string | OtherTag

datatype xml_element = XmlElement
  (el_tag: xml_tag)
  (el_attrib: "(string \<times> string) list")
  (el_text: "string option")
  (el_children: "xml_element list")
  (el_tail: "string option")

record py_stdlib =
  fromstring :: "string \<Rightarrow> string + xml_element"
  parsedate_to_datetime :: "string \<Rightarrow> py_exn + py_datetime"
  fromisoformat :: "string \<Rightarrow> py_exn + py_datetime"
  html_unescape :: "string \<Rightarrow> py_exn + string"
  url_query_pairs :: "string \<Rightarrow> py_exn + (string \<times> string) list"

definition attrib_get :: "xml_element \<Rightarrow> string \<Rightarrow> string option" where
  "attrib_get e k = map_of (el_attrib e) k"

text \<open>\<^verbatim>\<open>Element.iter()\<close> and \<^verbatim>\<open>Element.itertext()\<close>.\<close>

fun el_iter :: "xml_element \<Rightarrow> xml_element list" where
  "el_iter (XmlElement tag att txt cs tail) = XmlElement tag att txt cs tail # concat (map el_iter cs)"

fun el_itertext :: "xml_element \<Rightarrow> string list" where
  "el_itertext (XmlElement tag att txt cs tail) =
     (if tag = OtherTag then []
      else (case txt of None \<Rightarrow> [] | Some t \<Rightarrow> [t])
        @ concat (map (\<lambda>c. el_itertext c @ (case el_tail c of None \<Rightarrow> [] | Some t \<Rightarrow> [t])) cs))"

definition el_all_text :: "xml_element \<Rightarrow> string" where
  "el_all_text e = concat (el_itertext e)"

section \<open>Texts and names\<close>

definition clean_text :: "string option \<Rightarrow> string option" where
  "clean_text value = (case value of None \<Rightarrow> None | Some s \<Rightarrow> strip_or_none s)"

definition local_name :: "xml_tag \<Rightarrow> string" where
  "local_name tag = (case tag of
     OtherTag \<Rightarrow> []
   | NamedTag t \<Rightarrow>
       if CHR ''}'' \<in> set t then py_lower (after_last CHR ''}'' t)
       else if CHR '':'' \<in> set t then py_lower (after_last CHR '':'' t)
       else py_lower t)"

fun find_child :: "string set \<Rightarrow> xml_element list \<Rightarrow> xml_element option" where
  "find_child names [] = None"
| "find_child names (c # cs) =
     (if local_name (el_tag c) \<in> names then Some c else find_child names cs)"

definition first_child :: "xml_element \<Rightarrow> string set \<Rightarrow> xml_element option" where
  "first_child node names = find_child names (el_children node)"

fun find_text :: "string set \<Rightarrow> xml_element list \<Rightarrow> string option" where
  "find_text names [] = None"
| "find_text names (c # cs) =
     (if local_name (el_tag c) \<notin> names then find_text names cs
      else (case clean_text (Some (el_all_text c)) of
              Some t \<Rightarrow> Some t
            | None \<Rightarrow> find_text names cs))"

definition first_text :: "xml_element \<Rightarrow> string set \<Rightarrow> string option" where
  "first_text node names = find_text names (el_children node)"

text \<open>\<^verbatim>\<open>re.sub(r"<[^>]+>", " ", s)\<close>.\<close>

function sub_html_tags :: "string \<Rightarrow> string" where
  "sub_html_tags [] = []"
| "sub_html_tags (c # cs) =
     (if c = CHR ''<'' \<and> cs \<noteq> [] \<and> hd cs \<noteq> CHR ''>'' \<and> CHR ''>'' \<in> set cs
      then CHR '' '' # sub_html_tags (after_first CHR ''>'' cs)
      else c # sub_html_tags cs)"
  by pat_completeness auto

termination
  by (relation "measure length") (auto simp: le_imp_less_Suc length_after_first)

text \<open>\<^verbatim>\<open>re.sub(r"\s+([,.;:!?])", r"\1", s)\<close>.\<close>

definition is_closing_punctuation :: "char \<Rightarrow> bool" where
  "is_closing_punctuation c = (c \<in> set '',.;:!?'')"

function tighten_punctuation :: "string \<Rightarrow> string" where
  "tighten_punctuation [] = []"
| "tighten_punctuation (c # cs) =
     (let rest = dropWhile py_isspace cs
      in if py_isspace c \<and> rest \<noteq> [] \<and> is_closing_punctuation (hd rest)
         then hd rest # tighten_punctuation (tl rest)
         else c # tighten_punctuation cs)"
  by pat_completeness auto
termination
  by (relation "measure length")
    (auto simp: less_Suc_eq_le length_dropWhile_diff)

definition strip_html_text :: "py_stdlib \<Rightarrow> string option \<Rightarrow> py_exn + string option" where
  "strip_html_text lib value =
     (case clean_text value of
        None \<Rightarrow> Inr None
      | Some cleaned \<Rightarrow>
          and_then (html_unescape lib cleaned)
            (\<lambda>raw. let without_tags = sub_html_tags raw;
                        normalized = py_join '' '' (py_words without_tags)
                    in Inr (clean_text (Some (tighten_punctuation normalized)))))"

section \<open>Dates\<close>

definition zulu_to_offset :: "string \<Rightarrow> string" where
  "zulu_to_offset s = concat (map (\<lambda>c. if c = CHR ''Z'' then ''+00:00'' else [c]) s)"

definition parse_datetime :: "py_stdlib \<Rightarrow> string option \<Rightarrow> py_exn + py_datetime option" where
  "parse_datetime lib value =
     (case value of
        None \<Rightarrow> Inr None
      | Some s \<Rightarrow>
          and_then
            (case parsedate_to_datetime lib s of
               Inr d \<Rightarrow> Inr (Some d)
             | Inl (TypeError m) \<Rightarrow> Inr None
             | Inl (ValueError m) \<Rightarrow> Inr None
             | Inl e \<Rightarrow> Inl e)
            (\<lambda>parsed. and_then
               (case parsed of
                  Some d \<Rightarrow> Inr (Some d)
                | None \<Rightarrow>
                    (case fromisoformat lib (zulu_to_offset s) of
                       Inr d \<Rightarrow> Inr (Some d)
                     | Inl (ValueError m) \<Rightarrow> Inr None
                     | Inl e \<Rightarrow> Inl e))
               (\<lambda>parsed. case parsed of
                  None \<Rightarrow> Inr None
                | Some d \<Rightarrow>
                    (case utc_offset d of
                       None \<Rightarrow> Inr (Some (py_replace_utc d))
                     | Some off \<Rightarrow> and_then (py_astimezone_utc off d) (\<lambda>u. Inr (Some u))))))"

fun parse_first_datetime ::
  "py_stdlib \<Rightarrow> xml_element \<Rightarrow> string list \<Rightarrow> py_exn + py_datetime option" where
  "parse_first_datetime lib node [] = Inr None"
| "parse_first_datetime lib node (field_name # field_names) =
     and_then (parse_datetime lib (first_text node {field_name}))
       (\<lambda>parsed. case parsed of
          Some d \<Rightarrow> Inr (Some d)
        | None \<Rightarrow> parse_first_datetime lib node field_names)"

definition ENTRY_PUBLISHED_AT_FIELDS :: "string list" where
  "ENTRY_PUBLISHED_AT_FIELDS = [''pubdate'', ''published'', ''updated'', ''date'']"

definition LAST_MODIFIED_FIELDS :: "string list" where
  "LAST_MODIFIED_FIELDS = [''updated'', ''lastbuilddate'', ''pubdate'']"

definition RSS_LAST_MODIFIED_FIELDS :: "string list" where
  "RSS_LAST_MODIFIED_FIELDS = [''lastbuilddate'', ''pubdate'', ''updated'']"

definition extract_last_modified :: "py_stdlib \<Rightarrow> xml_element \<Rightarrow> py_exn + py_datetime option" where
  "extract_last_modified lib root =
     and_then
       (if local_name (el_tag root) = ''rss''
        then (case first_child root {''channel''} of
                None \<Rightarrow> Inr None
              | Some channel \<Rightarrow> parse_first_datetime lib channel RSS_LAST_MODIFIED_FIELDS)
        else Inr None)
       (\<lambda>last_modified. case last_modified of
          Some d \<Rightarrow> Inr (Some d)
        | None \<Rightarrow> parse_first_datetime lib root LAST_MODIFIED_FIELDS)"


section \<open>Entries\<close>

definition extract_entry_nodes :: "xml_element \<Rightarrow> xml_element list" where
  "extract_entry_nodes root =
     (let root_tag = local_name (el_tag root) in
      if root_tag = ''rss''
      then (case first_child root {''channel''} of
              None \<Rightarrow> []
            | Some channel \<Rightarrow> filter (\<lambda>c. local_name (el_tag c) = ''item'') (el_children channel))
      else if root_tag = ''feed''
      then filter (\<lambda>c. local_name (el_tag c) = ''entry'') (el_children root)
      else filter (\<lambda>n. local_name (el_tag n) \<in> {''item'', ''entry''}) (el_iter root))"

fun link_href :: "string option \<Rightarrow> xml_element list \<Rightarrow> string option" where
  "link_href fallback_url [] = fallback_url"
| "link_href fallback_url (link # links) =
     (if local_name (el_tag link) \<noteq> ''link'' then link_href fallback_url links
      else (case clean_text (attrib_get link ''href'') of
              None \<Rightarrow> link_href fallback_url links
            | Some href \<Rightarrow>
                let rel = clean_text (attrib_get link ''rel'') in
                if rel = None \<or> rel = Some ''alternate'' then Some href
                else link_href (if fallback_url = None then Some href else fallback_url) links))"

definition extract_entry_url :: "xml_element \<Rightarrow> string option" where
  "extract_entry_url entry = (case first_text entry {''link''} of
     Some link_text \<Rightarrow> Some link_text
   | None \<Rightarrow> link_href None (el_children entry))"

fun first_stripped_field ::
  "py_stdlib \<Rightarrow> xml_element \<Rightarrow> string list \<Rightarrow> py_exn + string option" where
  "first_stripped_field lib entry [] = Inr None"
| "first_stripped_field lib entry (field_name # field_names) =
     and_then (strip_html_text lib (first_text entry {field_name}))
       (\<lambda>v. case v of Some t \<Rightarrow> Inr (Some t) | None \<Rightarrow> first_stripped_field lib entry field_names)"

definition extract_entry_summary :: "py_stdlib \<Rightarrow> xml_element \<Rightarrow> py_exn + string option" where
  "extract_entry_summary lib entry =
     (case first_text entry {''summary'', ''description''} of
        Some summary \<Rightarrow> Inr (Some summary)
      | None \<Rightarrow> first_stripped_field lib entry [''encoded'', ''content''])"

definition extract_entry_author :: "py_stdlib \<Rightarrow> xml_element \<Rightarrow> py_exn + string option" where
  "extract_entry_author lib entry =
     and_then
       (case first_child entry {''author''} of
          None \<Rightarrow> Inr None
        | Some author_node \<Rightarrow>
            and_then (strip_html_text lib (first_text author_node {''name''}))
              (\<lambda>author_name. case author_name of
                 Some a \<Rightarrow> Inr (Some a)
               | None \<Rightarrow> strip_html_text lib (Some (el_all_text author_node))))
       (\<lambda>author. case author of
          Some a \<Rightarrow> Inr (Some a)
        | None \<Rightarrow> first_stripped_field lib entry [''creator'', ''author''])"

section \<open>Images\<close>

text \<open>An argument typed \<^verbatim>\<open>str | int | None\<close>.\<close>

datatype dimension_arg = DimNone | DimStr string | DimInt int

definition dim_str :: "string option \<Rightarrow> dimension_arg" where
  "dim_str v = (case v of None \<Rightarrow> DimNone | Some s \<Rightarrow> DimStr s)"

definition dim_int :: "int option \<Rightarrow> dimension_arg" where
  "dim_int v = (case v of None \<Rightarrow> DimNone | Some i \<Rightarrow> DimInt i)"

definition first_digits :: "string \<Rightarrow> string" where
  "first_digits s = takeWhile py_isdigit (dropWhile (\<lambda>c. \<not> py_isdigit c) s)"

definition parse_dimension :: "dimension_arg \<Rightarrow> py_exn + int option" where
  "parse_dimension value = (case value of
     DimInt i \<Rightarrow> Inr (if 0 < i then Some i else None)
   | DimNone \<Rightarrow> Inr None
   | DimStr s \<Rightarrow>
       let digits = first_digits s in
       if digits = [] then Inr None
       else and_then (py_int digits) (\<lambda>parsed. Inr (if parsed \<le> 0 then None else Some parsed)))"

definition max_dimension_step :: "int option \<Rightarrow> int option \<Rightarrow> int option" where
  "max_dimension_step resolved value = (case value of
     None \<Rightarrow> resolved
   | Some v \<Rightarrow> if v \<le> 0 then resolved
       else (case resolved of None \<Rightarrow> Some v | Some r \<Rightarrow> if r < v then Some v else Some r))"

definition max_dimension :: "int option list \<Rightarrow> int option" where
  "max_dimension values = foldl max_dimension_step None values"

fun query_dimensions ::
  "(string \<times> string) list \<Rightarrow> int option \<Rightarrow> int option \<Rightarrow> py_exn + (int option \<times> int option)" where
  "query_dimensions [] width height = Inr (width, height)"
| "query_dimensions ((key, value) # pairs) width height =
     (let key_lower = py_lower key in
      if key_lower \<in> {''w'', ''width''}
      then and_then (parse_dimension (DimStr value))
             (\<lambda>d. query_dimensions pairs (max_dimension [width, d]) height)
      else if key_lower \<in> {''h'', ''height''}
      then and_then (parse_dimension (DimStr value))
             (\<lambda>d. query_dimensions pairs width (max_dimension [height, d]))
      else query_dimensions pairs width height)"

definition extract_image_dimensions_from_query ::
  "py_stdlib \<Rightarrow> string \<Rightarrow> py_exn + (int option \<times> int option)" where
  "extract_image_dimensions_from_query lib image_url =
     and_then (url_query_pairs lib image_url) (\<lambda>pairs. query_dimensions pairs None None)"

definition parse_srcset_width :: "string option \<Rightarrow> py_exn + int option" where
  "parse_srcset_width value = (case clean_text value of
     None \<Rightarrow> Inr None
   | Some descriptor \<Rightarrow>
       let descriptor_lower = py_lower descriptor in
       if ends_with ''w'' descriptor_lower then parse_dimension (DimStr (butlast descriptor_lower))
       else Inr None)"

type_synonym image_candidate = "string \<times> int option \<times> int option"

record image_state =
  image_candidates :: "image_candidate list"
  image_seen :: "string \<rightharpoonup> nat"

definition no_images :: image_state where
  "no_images = \<lparr>image_candidates = [], image_seen = Map.empty\<rparr>"

definition unescape_and_clean :: "py_stdlib \<Rightarrow> string option \<Rightarrow> py_exn + string option" where
  "unescape_and_clean lib value = (case value of
     None \<Rightarrow> Inr None
   | Some s \<Rightarrow> and_then (html_unescape lib s) (\<lambda>t. Inr (clean_text (Some t))))"

text \<open>The first half of \<^verbatim>\<open>_append_image_candidate\<close>: one URL with its dimensions.\<close>

definition merge_candidate :: "string \<Rightarrow> int option \<Rightarrow> int option \<Rightarrow> image_state \<Rightarrow> py_exn + image_state" where
  "merge_candidate url w h st =
     (case image_seen st url of
        Some existing_index \<Rightarrow>
          if existing_index < length (image_candidates st)
          then let (u, w0, h0) = image_candidates st ! existing_index in
               Inr (st\<lparr>image_candidates := (image_candidates st)[existing_index :=
                        (u, max_dimension [w0, w], max_dimension [h0, h])]\<rparr>)
          else Inl (OtherException ''IndexError: list index out of range'')
      | None \<Rightarrow>
          Inr \<lparr>image_candidates = image_candidates st @ [(url, w, h)],
               image_seen = (image_seen st)(url \<mapsto> length (image_candidates st))\<rparr>)"

definition append_url_candidate ::
  "py_stdlib \<Rightarrow> string option \<Rightarrow> dimension_arg \<Rightarrow> dimension_arg \<Rightarrow> image_state \<Rightarrow> py_exn + image_state" where
  "append_url_candidate lib image_url width height st =
     and_then (unescape_and_clean lib image_url) (\<lambda>cleaned. case cleaned of
        None \<Rightarrow> Inr st
      | Some url \<Rightarrow>
          and_then (extract_image_dimensions_from_query lib url) (\<lambda>(query_width, query_height).
          and_then (parse_dimension width) (\<lambda>w.
          and_then (parse_dimension height) (\<lambda>h.
            merge_candidate url (max_dimension [w, query_width]) (max_dimension [h, query_height]) st))))"

text \<open>One element of a \<^verbatim>\<open>srcset\<close>: the recursive call, which has no \<^verbatim>\<open>srcset\<close> of its own.\<close>

definition append_srcset_element ::
  "py_stdlib \<Rightarrow> dimension_arg \<Rightarrow> string \<Rightarrow> image_state \<Rightarrow> py_exn + image_state" where
  "append_srcset_element lib height raw_candidate st =
     (case clean_text (Some raw_candidate) of
        None \<Rightarrow> Inr st
      | Some cleaned \<Rightarrow>
          let image_candidate = takeWhile (\<lambda>c. \<not> py_isspace c) cleaned;
              rest = py_lstrip (dropWhile (\<lambda>c. \<not> py_isspace c) cleaned);
              descriptor = (if rest = [] then None else Some rest)
          in and_then (parse_srcset_width descriptor) (\<lambda>w.
               append_url_candidate lib (Some image_candidate) (dim_int w) height st))"

definition append_image_candidate ::
  "py_stdlib \<Rightarrow> string option \<Rightarrow> string option \<Rightarrow> string option \<Rightarrow> string option
     \<Rightarrow> image_state \<Rightarrow> py_exn + image_state" where
  "append_image_candidate lib image_url width height srcset st =
     and_then (append_url_candidate lib image_url (dim_str width) (dim_str height) st) (\<lambda>st.
     and_then (unescape_and_clean lib srcset) (\<lambda>cleaned_srcset. case cleaned_srcset of
        None \<Rightarrow> Inr st
      | Some s \<Rightarrow> fold_ok (append_srcset_element lib (dim_str height)) (split_on CHR '','' s) st))"

text \<open>\<^verbatim>\<open>re.compile(r"<img\b[^>]*>", re.IGNORECASE).finditer\<close>.\<close>

definition match_image_tag :: "string \<Rightarrow> (string \<times> string) option" where
  "match_image_tag s =
     (let tail = drop 4 s in
      if py_lower (take 4 s) = ''<img'' \<and> tail \<noteq> [] \<and> \<not> py_isword (hd tail) \<and> CHR ''>'' \<in> set tail
      then Some (take 4 s @ before_first CHR ''>'' tail @ ''>'', after_first CHR ''>'' tail)
      else None)"

lemma match_image_tag_shorter: "match_image_tag s = Some (t, rest) \<Longrightarrow> length rest < length s"
proof -
  assume m: "match_image_tag s = Some (t, rest)"
  then have "rest = after_first CHR ''>'' (drop 4 s)" "drop 4 s \<noteq> []"
    by (auto simp: match_image_tag_def Let_def split: if_splits)
  then have "length rest \<le> length (drop 4 s)" "length (drop 4 s) < length s"
    using length_after_first [of "CHR ''>''" "drop 4 s"] by auto
  then show ?thesis by (rule le_less_trans)
qed

function find_image_tags :: "string \<Rightarrow> string list" where
  "find_image_tags [] = []"
| "find_image_tags (c # cs) =
     (case match_image_tag (c # cs) of
        Some (image_tag, rest) \<Rightarrow> image_tag # find_image_tags rest
      | None \<Rightarrow> find_image_tags cs)"
  by pat_completeness auto
termination
  by (relation "measure length") (auto dest: match_image_tag_shorter)

text \<open>The attribute pattern: name, optional white space, \<^verbatim>\<open>=\<close>, and a quoted or bare value.\<close>

definition bare_value :: "string \<Rightarrow> string option" where
  "bare_value r = (let w = takeWhile (\<lambda>c. \<not> py_isspace c \<and> c \<noteq> CHR ''>'') r in
     if w = [] then None else Some w)"

definition attribute_value :: "string \<Rightarrow> string option" where
  "attribute_value r = (case r of
     [] \<Rightarrow> None
   | q # rest \<Rightarrow>
       if (q = CHR 0x22 \<or> q = CHR 0x27) \<and> q \<in> set rest then Some (before_first q rest)
       else bare_value r)"

definition match_attribute :: "string \<Rightarrow> string \<Rightarrow> string option" where
  "match_attribute name s =
     (if py_lower (take (length name) s) = py_lower name
      then (case py_lstrip (drop (length name) s) of
              [] \<Rightarrow> None
            | c # rest \<Rightarrow> if c = CHR ''='' then attribute_value (py_lstrip rest) else None)
      else None)"

fun search_attribute :: "string \<Rightarrow> bool \<Rightarrow> string \<Rightarrow> string option" where
  "search_attribute name after_word [] = None"
| "search_attribute name after_word (c # cs) =
     (case (if after_word then None else match_attribute name (c # cs)) of
        Some v \<Rightarrow> Some v
      | None \<Rightarrow> search_attribute name (py_isword c) cs)"

definition extract_html_attribute :: "py_stdlib \<Rightarrow> string \<Rightarrow> string \<Rightarrow> py_exn + string option" where
  "extract_html_attribute lib tag attribute_name =
     (case search_attribute attribute_name False tag of
        None \<Rightarrow> Inr None
      | Some group_value \<Rightarrow>
          and_then (html_unescape lib group_value) (\<lambda>t. Inr (clean_text (Some t))))"

definition append_image_tag :: "py_stdlib \<Rightarrow> string \<Rightarrow> image_state \<Rightarrow> py_exn + image_state" where
  "append_image_tag lib image_tag st =
     and_then (extract_html_attribute lib image_tag ''src'') (\<lambda>src.
     and_then (extract_html_attribute lib image_tag ''width'') (\<lambda>width.
     and_then (extract_html_attribute lib image_tag ''height'') (\<lambda>height.
     and_then (extract_html_attribute lib image_tag ''srcset'') (\<lambda>srcset.
       append_image_candidate lib src width height srcset st))))"

definition append_html_image_candidates ::
  "py_stdlib \<Rightarrow> string option \<Rightarrow> image_state \<Rightarrow> py_exn + image_state" where
  "append_html_image_candidates lib value st =
     (case clean_text value of
        None \<Rightarrow> Inr st
      | Some cleaned_html \<Rightarrow> fold_ok (append_image_tag lib) (find_image_tags cleaned_html) st)"

text \<open>\<^verbatim>\<open>a or b\<close> on optional strings: the empty string counts as absent.\<close>

definition or_str :: "string option \<Rightarrow> string option \<Rightarrow> string option" where
  "or_str a b = (case a of Some s \<Rightarrow> if s = [] then b else a | None \<Rightarrow> b)"

definition append_node_candidate :: "py_stdlib \<Rightarrow> xml_element \<Rightarrow> image_state \<Rightarrow> py_exn + image_state" where
  "append_node_candidate lib node st =
     (let node_name = local_name (el_tag node) in
      if node_name = ''img''
      then append_image_candidate lib (attrib_get node ''src'') (attrib_get node ''width'')
             (attrib_get node ''height'') (attrib_get node ''srcset'') st
      else if node_name \<in> {''thumbnail'', ''content'', ''enclosure'', ''image''}
      then append_image_candidate lib (or_str (attrib_get node ''url'') (attrib_get node ''href''))
             (attrib_get node ''width'') (attrib_get node ''height'') (attrib_get node ''srcset'') st
      else Inr st)"

text \<open>\<^verbatim>\<open>max(..., key=..., default=None)\<close>: the first candidate with the greatest key.\<close>

definition candidate_key :: "image_candidate \<Rightarrow> int \<times> int" where
  "candidate_key c = (case c of (_, w, h) \<Rightarrow>
     (case w of None \<Rightarrow> 0 | Some v \<Rightarrow> v, case h of None \<Rightarrow> 0 | Some v \<Rightarrow> v))"

definition key_less :: "int \<times> int \<Rightarrow> int \<times> int \<Rightarrow> bool" where
  "key_less a b = (fst a < fst b \<or> (fst a = fst b \<and> snd a < snd b))"

fun max_candidate :: "image_candidate option \<Rightarrow> image_candidate list \<Rightarrow> image_candidate option" where
  "max_candidate best [] = best"
| "max_candidate best (c # cs) =
     (case best of
        None \<Rightarrow> max_candidate (Some c) cs
      | Some b \<Rightarrow> max_candidate (if key_less (candidate_key b) (candidate_key c) then Some c else best) cs)"

definition choose_image :: "image_candidate list \<Rightarrow> string option" where
  "choose_image candidates =
     (case candidates of
        [] \<Rightarrow> None
      | c # _ \<Rightarrow>
          (case max_candidate None (filter (\<lambda>c. fst (snd c) \<noteq> None) candidates) of
             Some best_with_width \<Rightarrow> Some (fst best_with_width)
           | None \<Rightarrow> Some (fst c)))"

definition collect_images :: "py_stdlib \<Rightarrow> xml_element \<Rightarrow> py_exn + image_state" where
  "collect_images lib entry =
     and_then (fold_ok (append_node_candidate lib) (tl (el_iter entry)) no_images) (\<lambda>st.
       fold_ok (\<lambda>field_name. append_html_image_candidates lib (first_text entry {field_name}))
         [''encoded'', ''content'', ''description'', ''summary''] st)"

definition extract_entry_image_url :: "py_stdlib \<Rightarrow> xml_element \<Rightarrow> py_exn + string option" where
  "extract_entry_image_url lib entry =
     and_then (collect_images lib entry) (\<lambda>st. Inr (choose_image (image_candidates st)))"

section \<open>Feeds\<close>

definition extract_entry_payload :: "py_stdlib \<Rightarrow> xml_element \<Rightarrow> py_exn + py_dict option" where
  "extract_entry_payload lib entry =
     (case (first_text entry {''title''}, extract_entry_url entry) of
        (Some title, Some url) \<Rightarrow>
          and_then (extract_entry_summary lib entry) (\<lambda>summary.
          and_then (extract_entry_author lib entry) (\<lambda>author.
          and_then (parse_first_datetime lib entry ENTRY_PUBLISHED_AT_FIELDS) (\<lambda>published_at.
          and_then (extract_entry_image_url lib entry) (\<lambda>image_url.
            Inr (Some [''title'' \<mapsto> PyStr title, ''url'' \<mapsto> PyStr url,
                       ''summary'' \<mapsto> opt_str summary, ''author'' \<mapsto> opt_str author,
                       ''published_at'' \<mapsto> opt_datetime published_at,
                       ''image_url'' \<mapsto> opt_str image_url])))))
      | _ \<Rightarrow> Inr None)"

fun collect_payloads :: "py_stdlib \<Rightarrow> xml_element list \<Rightarrow> py_exn + py_dict list" where
  "collect_payloads lib [] = Inr []"
| "collect_payloads lib (node # nodes) =
     and_then (extract_entry_payload lib node) (\<lambda>payload.
     and_then (collect_payloads lib nodes) (\<lambda>rest.
       Inr (case payload of None \<Rightarrow> rest | Some p \<Rightarrow> p # rest)))"

definition parse_rss_feed_entries ::
  "py_stdlib \<Rightarrow> string \<Rightarrow> py_exn + (py_dict list \<times> py_datetime option)" where
  "parse_rss_feed_entries lib content =
     (if content = [] \<or> py_strip content = [] then Inl (ValueError ''Empty feed content'')
      else (case fromstring lib content of
              Inl m \<Rightarrow> Inl (ValueError (''Invalid XML: '' @ m))
            | Inr root \<Rightarrow>
                and_then (extract_last_modified lib root) (\<lambda>last_modified.
                and_then (collect_payloads lib (extract_entry_nodes root)) (\<lambda>entries.
                  Inr (entries, last_modified)))))"

section \<open>Facts about the texts\<close>

lemma clean_text_Some: "clean_text v = Some t \<Longrightarrow> t \<noteq> [] \<and> stripped t"
  by (auto simp: clean_text_def strip_or_none_Some split: option.splits)

lemma find_text_Some: "find_text names cs = Some t \<Longrightarrow> t \<noteq> [] \<and> stripped t"
  by (induction names cs rule: find_text.induct) (auto split: if_splits option.splits dest: clean_text_Some)

lemma first_text_Some: "first_text node names = Some t \<Longrightarrow> t \<noteq> [] \<and> stripped t"
  by (simp add: first_text_def find_text_Some)

lemma link_href_Some:
  "link_href fb links = Some t \<Longrightarrow> (\<And>u. fb = Some u \<Longrightarrow> u \<noteq> [] \<and> stripped u) \<Longrightarrow> t \<noteq> [] \<and> stripped t"
proof (induction fb links rule: link_href.induct)
  case (1 fb)
  then show ?case by simp
next
  case (2 fb link links)
  show ?case
  proof (cases "local_name (el_tag link) = ''link''")
    case False
    then show ?thesis using 2 by simp
  next
    case link: True
    show ?thesis
    proof (cases "clean_text (attrib_get link ''href'')")
      case None
      then show ?thesis using 2 link by simp
    next
      case (Some href)
      have "href \<noteq> [] \<and> stripped href" using clean_text_Some [OF Some] .
      then show ?thesis using "2.IH"(3) [OF _ Some refl] "2.prems" link Some
        by (auto simp: Let_def split: if_splits)
    qed
  qed
qed

lemma extract_entry_url_Some: "extract_entry_url e = Some t \<Longrightarrow> t \<noteq> [] \<and> stripped t"
  by (auto simp: extract_entry_url_def split: option.splits dest: first_text_Some link_href_Some)

lemma strip_html_text_Some: "strip_html_text lib v = Inr (Some t) \<Longrightarrow> t \<noteq> [] \<and> stripped t"
  by (auto simp: strip_html_text_def Let_def split: option.splits dest: clean_text_Some)

lemma first_stripped_field_Some:
  "first_stripped_field lib e fs = Inr (Some t) \<Longrightarrow> t \<noteq> [] \<and> stripped t"
  by (induction lib e fs rule: first_stripped_field.induct)
    (auto split: option.splits dest: strip_html_text_Some)

section \<open>Facts about the dates\<close>

text \<open>What the documentation of the two date parsers promises: values Python can construct.\<close>

definition stdlib_dates_ok :: "py_stdlib \<Rightarrow> bool" where
  "stdlib_dates_ok lib \<longleftrightarrow>
     (\<forall>s d. parsedate_to_datetime lib s = Inr d \<longrightarrow> wf_datetime d) \<and>
     (\<forall>s d. fromisoformat lib s = Inr d \<longrightarrow> wf_datetime d)"

lemma parse_datetime_origin:
  assumes "parse_datetime lib v = Inr (Some d)"
  shows "\<exists>s d0. v = Some s \<and> to_utc d0 = Inr d \<and>
    (parsedate_to_datetime lib s = Inr d0 \<or> fromisoformat lib (zulu_to_offset s) = Inr d0)"
proof -
  obtain s where s: "v = Some s"
    using assms by (auto simp: parse_datetime_def split: option.splits)
  show ?thesis
    using assms unfolding s parse_datetime_def
    by (auto simp: to_utc_optional split: sum.splits py_exn.splits option.splits)
qed

lemma parse_datetime_utc: "parse_datetime lib v = Inr (Some d) \<Longrightarrow> is_utc d"
  using parse_datetime_origin to_utc.norm_is_utc by blast

lemma parse_datetime_wf:
  "stdlib_dates_ok lib \<Longrightarrow> parse_datetime lib v = Inr (Some d) \<Longrightarrow> wf_datetime d"
  using parse_datetime_origin [of lib v d] to_utc.norm_wf unfolding stdlib_dates_ok_def by blast

lemma parse_first_datetime_parsed:
  "parse_first_datetime lib node fs = Inr (Some d) \<Longrightarrow> \<exists>v. parse_datetime lib v = Inr (Some d)"
  by (induction lib node fs rule: parse_first_datetime.induct) (auto split: option.splits)

lemma parse_first_datetime_utc: "parse_first_datetime lib node fs = Inr (Some d) \<Longrightarrow> is_utc d"
  using parse_first_datetime_parsed parse_datetime_utc by blast

lemma parse_first_datetime_wf:
  "stdlib_dates_ok lib \<Longrightarrow> parse_first_datetime lib node fs = Inr (Some d) \<Longrightarrow> wf_datetime d"
  using parse_first_datetime_parsed parse_datetime_wf by blast

lemma extract_last_modified_utc: "extract_last_modified lib root = Inr (Some d) \<Longrightarrow> is_utc d"
  by (auto simp: extract_last_modified_def split: option.splits if_splits dest: parse_first_datetime_utc)

section \<open>Facts about the images\<close>

lemma max_dimension_snoc:
  "max_dimension (vs @ [v]) = max_dimension_step (max_dimension vs) v"
  by (simp add: max_dimension_def)

text \<open>The greatest positive value, None when there is none.\<close>

lemma max_dimension_spec:
  "case max_dimension vs of
     None \<Rightarrow> (\<forall>v. Some v \<in> set vs \<longrightarrow> v \<le> 0)
   | Some m \<Rightarrow> 0 < m \<and> Some m \<in> set vs \<and> (\<forall>v. Some v \<in> set vs \<longrightarrow> v \<le> m)"
proof (induction vs rule: rev_induct)
  case Nil
  then show ?case by (simp add: max_dimension_def)
next
  case (snoc v vs)
  then show ?case
    by (auto simp: max_dimension_snoc max_dimension_step_def split: option.splits)
qed

lemma max_dimension_Some:
  "max_dimension vs = Some m \<longleftrightarrow> 0 < m \<and> Some m \<in> set vs \<and> (\<forall>v. Some v \<in> set vs \<longrightarrow> v \<le> m)"
proof (cases "max_dimension vs")
  case None
  then show ?thesis using max_dimension_spec [of vs] by (auto simp: not_less)
next
  case (Some r)
  then show ?thesis using max_dimension_spec [of vs] by (auto intro: antisym)
qed

text \<open>
  The state of the collection: one candidate per URL, the index agreeing with the list, positive
  dimensions, clean URLs.
\<close>

definition image_candidate_ok :: "image_candidate \<Rightarrow> bool" where
  "image_candidate_ok c = (case c of (u, w, h) \<Rightarrow> u \<noteq> [] \<and> stripped u \<and>
     (case w of None \<Rightarrow> True | Some v \<Rightarrow> 0 < v) \<and> (case h of None \<Rightarrow> True | Some v \<Rightarrow> 0 < v))"

definition image_state_ok :: "image_state \<Rightarrow> bool" where
  "image_state_ok st \<longleftrightarrow> distinct (map fst (image_candidates st)) \<and>
     (\<forall>u i. image_seen st u = Some i \<longleftrightarrow>
        i < length (image_candidates st) \<and> fst (image_candidates st ! i) = u) \<and>
     (\<forall>c\<in>set (image_candidates st). image_candidate_ok c)"

lemma image_state_ok_empty [simp]: "image_state_ok no_images"
  by (simp add: image_state_ok_def no_images_def)

lemma max_dimension_positive: "case max_dimension vs of None \<Rightarrow> True | Some v \<Rightarrow> 0 < v"
  by (auto simp: max_dimension_Some split: option.splits)

lemma merge_candidate_ok:
  assumes ok: "image_state_ok st" and u: "url \<noteq> []" "stripped url"
    and w: "w = max_dimension ws" and h: "h = max_dimension hs"
  shows "\<exists>st'. merge_candidate url w h st = Inr st' \<and> image_state_ok st'"
proof (cases "image_seen st url")
  case None
  have new: "url \<notin> fst ` set (image_candidates st)"
  proof
    assume "url \<in> fst ` set (image_candidates st)"
    then obtain i where "i < length (image_candidates st)" "fst (image_candidates st ! i) = url"
      by (auto simp: in_set_conv_nth)
    then have "image_seen st url = Some i" using ok by (simp add: image_state_ok_def)
    then show False using None by simp
  qed
  have "image_candidate_ok (url, w, h)"
    using u w h max_dimension_positive [of ws] max_dimension_positive [of hs]
    by (simp add: image_candidate_ok_def)
  then show ?thesis
    using ok new None unfolding image_state_ok_def merge_candidate_def
    by (auto simp: nth_append less_Suc_eq)
next
  case (Some i)
  then have i: "i < length (image_candidates st)" "fst (image_candidates st ! i) = url"
    using ok by (auto simp: image_state_ok_def)
  obtain w0 h0 where c: "image_candidates st ! i = (url, w0, h0)"
    using i(2) by (cases "image_candidates st ! i") auto
  define c' where "c' = (url, max_dimension [w0, w], max_dimension [h0, h])"
  define st' where "st' = st\<lparr>image_candidates := (image_candidates st)[i := c']\<rparr>"
  have merged: "merge_candidate url w h st = Inr st'"
    using Some i(1) c by (simp add: merge_candidate_def st'_def c'_def)
  have "image_candidate_ok c'"
    using u max_dimension_positive [of "[w0, w]"] max_dimension_positive [of "[h0, h]"]
    by (simp add: image_candidate_ok_def c'_def)
  then have cs: "\<forall>c\<in>set (image_candidates st'). image_candidate_ok c"
    using ok set_update_subset_insert [of "image_candidates st" i c']
    by (auto simp: image_state_ok_def st'_def)
  have "map fst ((image_candidates st)[i := c']) = (map fst (image_candidates st))[i := fst c']"
    by (rule map_update)
  also have "fst c' = map fst (image_candidates st) ! i" using i c by (simp add: c'_def)
  finally have urls: "map fst (image_candidates st') = map fst (image_candidates st)"
    by (simp add: st'_def)
  then have "fst (image_candidates st' ! j) = fst (image_candidates st ! j)"
    if "j < length (image_candidates st)" for j
    using that by (metis length_map nth_map)
  moreover have "length (image_candidates st') = length (image_candidates st)"
    "image_seen st' = image_seen st" by (simp_all add: st'_def)
  ultimately have "image_state_ok st'"
    using ok cs urls unfolding image_state_ok_def by (metis (no_types, lifting))
  then show ?thesis using merged by blast
qed

lemma unescape_and_clean_Some: "unescape_and_clean lib v = Inr (Some u) \<Longrightarrow> u \<noteq> [] \<and> stripped u"
  by (auto simp: unescape_and_clean_def split: option.splits dest: clean_text_Some)

lemma append_url_candidate_ok:
  assumes "image_state_ok st" and "append_url_candidate lib v width height st = Inr st'"
  shows "image_state_ok st'"
proof -
  have merged: "image_state_ok t" if "merge_candidate url (max_dimension ws) (max_dimension hs) st = Inr t"
    and "url \<noteq> [] \<and> stripped url" for url ws hs t
    using merge_candidate_ok [OF assms(1), of url _ ws _ hs] that by auto
  show ?thesis
    using assms unfolding append_url_candidate_def
    by (auto split: option.splits prod.splits intro: merged [OF _ unescape_and_clean_Some])
qed

lemma append_srcset_element_ok:
  "image_state_ok st \<Longrightarrow> append_srcset_element lib height raw st = Inr st' \<Longrightarrow> image_state_ok st'"
  by (auto simp: append_srcset_element_def Let_def split: option.splits
      dest: append_url_candidate_ok)

lemma append_image_candidate_ok:
  assumes ok: "image_state_ok st" and run: "append_image_candidate lib u w h ss st = Inr st'"
  shows "image_state_ok st'"
proof -
  from run obtain s1 c where s1: "append_url_candidate lib u (dim_str w) (dim_str h) st = Inr s1"
    and c: "(case c of None \<Rightarrow> Inr s1
       | Some s \<Rightarrow> fold_ok (append_srcset_element lib (dim_str h)) (split_on CHR '','' s) s1) = Inr st'"
    by (auto simp: append_image_candidate_def)
  have ok1: "image_state_ok s1" by (rule append_url_candidate_ok [OF ok s1])
  show ?thesis
  proof (cases c)
    case None
    then show ?thesis using c ok1 by simp
  next
    case (Some s)
    then have "fold_ok (append_srcset_element lib (dim_str h)) (split_on CHR '','' s) s1 = Inr st'"
      using c by simp
    then show ?thesis using ok1 by (rule fold_ok_invariant) (rule append_srcset_element_ok)
  qed
qed

lemma append_image_tag_ok:
  "image_state_ok st \<Longrightarrow> append_image_tag lib t st = Inr st' \<Longrightarrow> image_state_ok st'"
  by (auto simp: append_image_tag_def dest: append_image_candidate_ok)

lemma append_html_image_candidates_ok:
  assumes "image_state_ok st" and "append_html_image_candidates lib v st = Inr st'"
  shows "image_state_ok st'"
proof (cases "clean_text v")
  case None
  then show ?thesis using assms by (simp add: append_html_image_candidates_def)
next
  case (Some h)
  then have "fold_ok (append_image_tag lib) (find_image_tags h) st = Inr st'"
    using assms(2) by (simp add: append_html_image_candidates_def)
  then show ?thesis using assms(1) by (rule fold_ok_invariant) (rule append_image_tag_ok)
qed

lemma append_node_candidate_ok:
  "image_state_ok st \<Longrightarrow> append_node_candidate lib n st = Inr st' \<Longrightarrow> image_state_ok st'"
  by (auto simp: append_node_candidate_def Let_def dest: append_image_candidate_ok split: if_splits)

lemma collect_images_ok: "collect_images lib entry = Inr st \<Longrightarrow> image_state_ok st"
proof -
  assume "collect_images lib entry = Inr st"
  then obtain s1 where
    s1: "fold_ok (append_node_candidate lib) (tl (el_iter entry)) no_images = Inr s1" and
    s2: "fold_ok (\<lambda>field_name. append_html_image_candidates lib (first_text entry {field_name}))
           [''encoded'', ''content'', ''description'', ''summary''] s1 = Inr st"
    unfolding collect_images_def by (elim and_then_InrE)
  from s1 have "image_state_ok s1"
    by (rule fold_ok_invariant) (auto intro: append_node_candidate_ok)
  with s2 show ?thesis
    by (rule fold_ok_invariant) (auto intro: append_html_image_candidates_ok)
qed

lemma key_less_chain:
  "key_less b c \<Longrightarrow> \<not> key_less m c \<Longrightarrow> \<not> key_less m b"
  "\<not> key_less b c \<Longrightarrow> \<not> key_less m b \<Longrightarrow> \<not> key_less m c"
  by (auto simp: key_less_def)

lemma max_candidate_spec:
  "case max_candidate best cs of
     None \<Rightarrow> best = None \<and> cs = []
   | Some m \<Rightarrow> (m \<in> set cs \<or> best = Some m) \<and>
       (\<forall>c\<in>set cs. \<not> key_less (candidate_key m) (candidate_key c)) \<and>
       (\<forall>b. best = Some b \<longrightarrow> \<not> key_less (candidate_key m) (candidate_key b))"
proof (induction best cs rule: max_candidate.induct)
  case (1 best)
  then show ?case by (cases best) (auto simp: key_less_def)
next
  case (2 best c cs)
  show ?case
  proof (cases best)
    case None
    then show ?thesis using "2.IH"(1) by (auto split: option.splits)
  next
    case (Some b)
    let ?best = "if key_less (candidate_key b) (candidate_key c) then Some c else best"
    have step: "max_candidate best (c # cs) = max_candidate ?best cs" using Some by simp
    show ?thesis
    proof (cases "max_candidate ?best cs")
      case None
      then show ?thesis using "2.IH"(2) [OF Some] Some by (auto split: if_splits)
    next
      fix m assume m: "max_candidate ?best cs = Some m"
      note ih = "2.IH"(2) [OF Some, unfolded m option.case]
      show ?thesis
      proof (cases "key_less (candidate_key b) (candidate_key c)")
        case True
        then show ?thesis using ih Some m step key_less_chain(1) [OF True] by auto
      next
        case False
        then show ?thesis using ih Some m step key_less_chain(2) [OF False] by auto
      qed
    qed
  qed
qed

section \<open>Properties\<close>

text \<open>A concrete feed and concrete standard-library functions, for the witnesses.\<close>

definition text_element :: "string \<Rightarrow> string \<Rightarrow> xml_element" where
  "text_element tag t = XmlElement (NamedTag tag) [] (Some t) [] None"

definition sample_item :: xml_element where
  "sample_item = XmlElement (NamedTag ''item'') [] None
     [text_element ''title'' '' A'', text_element ''link'' ''u'', text_element ''date'' ''D'',
      XmlElement (NamedTag ''image'') [(''url'', ''s'')] None [] None,
      XmlElement (NamedTag ''m:image'') [(''url'', ''l''), (''width'', ''9'')] None [] None] None"

definition sample_feed :: xml_element where
  "sample_feed = XmlElement (NamedTag ''x'') [] None [sample_item] None"

definition sample_stdlib :: py_stdlib where
  "sample_stdlib =
     \<lparr>fromstring = (\<lambda>_. Inr sample_feed),
      parsedate_to_datetime = (\<lambda>s. if s = ''D'' then Inr (utc_date 2026 3 1)
                                   else Inl (ValueError ''unparsable'')),
      fromisoformat = (\<lambda>_. Inl (ValueError ''unparsable'')),
      html_unescape = Inr,
      url_query_pairs = (\<lambda>_. Inr [])\<rparr>"

definition sample_images :: image_state where
  "sample_images =
     (case collect_images sample_stdlib sample_item of Inr st \<Rightarrow> st | Inl _ \<Rightarrow> no_images)"

lemma sample_images_collected: "collect_images sample_stdlib sample_item = Inr sample_images"
proof -
  have "\<not> isl (collect_images sample_stdlib sample_item)" by code_simp
  then show ?thesis by (auto simp: sample_images_def split: sum.splits)
qed

text \<open>
  C3: the image of an entry.  The collected candidates have pairwise different, clean URLs and
  positive dimensions; an image is returned exactly when there is a candidate; the image is that of
  a candidate none with a width exceeds in (width, height) order, and the first candidate when no
  candidate has a width.
\<close>

theorem entry_image_is_largest_candidate:
  assumes "collect_images lib entry = Inr st"
  shows "distinct (map fst (image_candidates st)) \<and> list_all image_candidate_ok (image_candidates st) \<and>
    (case choose_image (image_candidates st) of
       None \<Rightarrow> image_candidates st = []
     | Some u \<Rightarrow> \<exists>c\<in>set (image_candidates st). fst c = u \<and>
         (\<forall>d\<in>set (image_candidates st). fst (snd d) \<noteq> None \<longrightarrow>
            \<not> key_less (candidate_key c) (candidate_key d)) \<and>
         (fst (snd c) = None \<longrightarrow> c = hd (image_candidates st) \<and>
            (\<forall>d\<in>set (image_candidates st). fst (snd d) = None)))"
proof -
  have ok: "image_state_ok st" by (rule collect_images_ok [OF assms])
  let ?cs = "image_candidates st" and ?wide = "filter (\<lambda>c. fst (snd c) \<noteq> None) (image_candidates st)"
  have "case choose_image ?cs of
       None \<Rightarrow> ?cs = []
     | Some u \<Rightarrow> \<exists>c\<in>set ?cs. fst c = u \<and>
         (\<forall>d\<in>set ?cs. fst (snd d) \<noteq> None \<longrightarrow> \<not> key_less (candidate_key c) (candidate_key d)) \<and>
         (fst (snd c) = None \<longrightarrow> c = hd ?cs \<and> (\<forall>d\<in>set ?cs. fst (snd d) = None))"
  proof (cases ?cs)
    case Nil
    then show ?thesis by (simp add: choose_image_def)
  next
    case (Cons c0 rest)
    show ?thesis
    proof (cases "max_candidate None ?wide")
      case None
      then have "?wide = []" using max_candidate_spec [of None ?wide] by simp
      then have "\<forall>d\<in>set ?cs. fst (snd d) = None" by (simp add: filter_empty_conv)
      then show ?thesis using Cons None by (auto simp: choose_image_def)
    next
      case (Some m)
      then have m: "m \<in> set ?wide" "\<forall>c\<in>set ?wide. \<not> key_less (candidate_key m) (candidate_key c)"
        using max_candidate_spec [of None ?wide] by auto
      have "choose_image ?cs = Some (fst m)" using Cons Some by (simp add: choose_image_def)
      then show ?thesis using m by auto
    qed
  qed
  then show ?thesis using ok by (simp add: image_state_ok_def list_all_iff)
qed

theorem entry_image_is_largest_candidate_witness:
  "distinct (map fst (image_candidates sample_images)) \<and>
   choose_image (image_candidates sample_images) = Some ''l''"
proof
  show "distinct (map fst (image_candidates sample_images))"
    using entry_image_is_largest_candidate [OF sample_images_collected] by blast
  show "choose_image (image_candidates sample_images) = Some ''l''" by code_simp
qed

definition clean_entry :: "py_dict \<Rightarrow> bool" where
  "clean_entry d \<longleftrightarrow>
     (\<exists>t u. dict_get d ''title'' = PyStr t \<and> t \<noteq> [] \<and> stripped t \<and>
            dict_get d ''url'' = PyStr u \<and> u \<noteq> [] \<and> stripped u) \<and>
     (dict_get d ''published_at'' = PyNone \<or>
        (\<exists>p. dict_get d ''published_at'' = PyDatetime p \<and> is_utc p))"

lemma extract_entry_payload_published:
  assumes "extract_entry_payload lib entry = Inr (Some d)"
  obtains t u p where "first_text entry {''title''} = Some t" "extract_entry_url entry = Some u"
    "parse_first_datetime lib entry ENTRY_PUBLISHED_AT_FIELDS = Inr p"
    "dict_get d ''title'' = PyStr t" "dict_get d ''url'' = PyStr u"
    "dict_get d ''published_at'' = opt_datetime p"
proof -
  obtain t where t: "first_text entry {''title''} = Some t"
    using assms by (auto simp: extract_entry_payload_def split: option.splits)
  obtain u where u: "extract_entry_url entry = Some u"
    using assms t by (auto simp: extract_entry_payload_def split: option.splits)
  from assms t u obtain s a p i where
    "parse_first_datetime lib entry ENTRY_PUBLISHED_AT_FIELDS = Inr p" and
    d: "d = [''title'' \<mapsto> PyStr t, ''url'' \<mapsto> PyStr u, ''summary'' \<mapsto> opt_str s, ''author'' \<mapsto> opt_str a,
             ''published_at'' \<mapsto> opt_datetime p, ''image_url'' \<mapsto> opt_str i]"
    by (auto simp: extract_entry_payload_def)
  moreover have "dict_get d ''title'' = PyStr t" "dict_get d ''url'' = PyStr u"
    "dict_get d ''published_at'' = opt_datetime p" by (simp_all add: d dict_get_def)
  ultimately show ?thesis using that t u by blast
qed

lemma collect_payloads_origin:
  "collect_payloads lib nodes = Inr ds \<Longrightarrow> d \<in> set ds \<Longrightarrow>
    \<exists>n\<in>set nodes. extract_entry_payload lib n = Inr (Some d)"
proof (induction nodes arbitrary: ds)
  case Nil
  then show ?case by simp
next
  case (Cons n nodes)
  then show ?case by (fastforce split: option.splits)
qed

lemma parsed_entry_origin:
  assumes "parse_rss_feed_entries lib content = Inr (entries, lm)" and "d \<in> set entries"
  shows "\<exists>n. extract_entry_payload lib n = Inr (Some d)"
  using assms collect_payloads_origin
  by (fastforce simp: parse_rss_feed_entries_def split: if_splits sum.splits)

lemma clean_entry_payload: "extract_entry_payload lib n = Inr (Some d) \<Longrightarrow> clean_entry d"
  by (erule extract_entry_payload_published)
    (auto simp: clean_entry_def opt_datetime_def split: option.splits
      dest: first_text_Some extract_entry_url_Some parse_first_datetime_utc)

text \<open>
  C4: every entry the parser returns has a non-empty, stripped title and URL, and its publication
  date is absent or in UTC; the feed's modification date is in UTC.
\<close>

theorem parsed_entries_clean:
  assumes "parse_rss_feed_entries lib content = Inr (entries, last_modified)"
  shows "list_all clean_entry entries \<and> (\<forall>d. last_modified = Some d \<longrightarrow> is_utc d)"
proof -
  have "clean_entry d" if "d \<in> set entries" for d
    using parsed_entry_origin [OF assms that] clean_entry_payload by blast
  moreover have "is_utc d" if "last_modified = Some d" for d
    using assms that extract_last_modified_utc
    by (auto simp: parse_rss_feed_entries_def split: if_splits sum.splits)
  ultimately show ?thesis by (simp add: list_all_iff)
qed

definition sample_entries :: "py_dict list" where
  "sample_entries = (case parse_rss_feed_entries sample_stdlib ''x'' of
     Inr (entries, _) \<Rightarrow> entries | Inl _ \<Rightarrow> [])"

lemma sample_feed_parsed:
  "parse_rss_feed_entries sample_stdlib ''x'' = Inr (sample_entries, None)"
proof -
  have "case parse_rss_feed_entries sample_stdlib ''x'' of
      Inr (entries, lm) \<Rightarrow> lm = None | Inl _ \<Rightarrow> False" by code_simp
  then show ?thesis by (auto simp: sample_entries_def split: sum.splits)
qed

theorem parsed_entries_clean_witness:
  "list_all clean_entry sample_entries \<and> length sample_entries = 1"
proof -
  have "length sample_entries = 1" by code_simp
  then show ?thesis using parsed_entries_clean [OF sample_feed_parsed] by simp
qed

end
