(* ===== verification/Feed_Fetch.thy ===== *)
theory Feed_Fetch
  imports Feed_Normalize Feed_Parse
begin

text \<open>
  \<^verbatim>\<open>worker-rss-scrapper/app/clients/networking/rss_fetch_networking_client.py\<close>: the
  conditional request with retry, and the classification of its outcome as a scrape result.

  The HTTP client is a parameter: what the \<open>n\<close>-th request to a URL with given headers yields.  So is
  the formatting of an HTTP date.  Sleeping between attempts is recorded as a list of seconds.
\<close>

section \<open>The client\<close>

record http_response =
  status_code :: int
  response_headers :: "string \<rightharpoonup> string"
  response_text :: string

text \<open>\<^verbatim>\<open>httpx.TimeoutException\<close>, any other \<^verbatim>\<open>httpx.RequestError\<close>, and everything else.\<close>

datatype net_exn = NetTimeout string | NetRequestError string | NetOther py_exn

datatype http_outcome = Response http_response | Raises net_exn

type_synonym headers = "(string \<times> string) list"

record fetch_env =
  env_stdlib :: py_stdlib
  http_get :: "nat \<Rightarrow> string \<Rightarrow> headers option \<Rightarrow> http_outcome"
  format_datetime :: "py_datetime \<Rightarrow> string"

section \<open>Headers and dates\<close>

definition fetch_normalize_datetime :: "py_datetime \<Rightarrow> py_exn + py_datetime" where
  "fetch_normalize_datetime d = (case utc_offset d of
     None \<Rightarrow> Inr (py_replace_utc d) | Some off \<Rightarrow> py_astimezone_utc off d)"

interpretation fetch_utc: utc_normalizer fetch_normalize_datetime
  by unfold_locales (simp_all add: fetch_normalize_datetime_def)

lemma fetch_normalize_eq: "fetch_normalize_datetime = to_utc"
  by (simp add: fun_eq_iff fetch_normalize_datetime_def to_utc_def)

definition clean_header_value :: "string option \<Rightarrow> string option" where
  "clean_header_value value = (case value of None \<Rightarrow> None | Some s \<Rightarrow> strip_or_none s)"

definition parse_http_date :: "fetch_env \<Rightarrow> string option \<Rightarrow> py_exn + py_datetime option" where
  "parse_http_date env value = (case clean_header_value value of
     None \<Rightarrow> Inr None
   | Some s \<Rightarrow>
       (case parsedate_to_datetime (env_stdlib env) s of
          Inl (TypeError m) \<Rightarrow> Inr None
        | Inl (ValueError m) \<Rightarrow> Inr None
        | Inl e \<Rightarrow> Inl e
        | Inr parsed \<Rightarrow> and_then (fetch_normalize_datetime parsed) (\<lambda>d. Inr (Some d))))"

definition DEFAULT_RSS_HEADERS :: headers where
  "DEFAULT_RSS_HEADERS =
     [(''User-Agent'', ''Mozilla/5.0 (X11; Linux x86_64; rv:140.0) Gecko/20100101 Firefox/140.0''),
      (''Accept-Language'', ''en-US,en;q=0.9,fr;q=0.8''),
      (''Accept'', ''application/rss+xml, application/atom+xml, '' @
                   ''application/xml;q=0.9, text/xml;q=0.8, */*;q=0.5''),
      (''Accept-Encoding'', ''gzip, deflate, br''),
      (''Cache-Control'', ''no-cache''),
      (''Connection'', ''keep-alive''),
      (''Pragma'', ''no-cache'')]"

definition browser_headers :: "job_feed \<Rightarrow> headers" where
  "browser_headers feed =
     (if jf_fetchprotection feed = 2
      then DEFAULT_RSS_HEADERS
        @ (case jf_host_header feed of
             None \<Rightarrow> []
           | Some hh \<Rightarrow> if hh = [] then []
               else let host = py_lower (py_strip hh); origin = ''https://'' @ host in
                    [(''Host'', host), (''Origin'', origin), (''Referer'', origin @ ''/'')])
      else [])"

definition build_request_headers :: "fetch_env \<Rightarrow> job_feed \<Rightarrow> py_exn + headers option" where
  "build_request_headers env feed =
     (let hs = browser_headers feed
            @ (case clean_header_value (jf_etag feed) of
                 None \<Rightarrow> [] | Some cleaned_etag \<Rightarrow> [(''If-None-Match'', cleaned_etag)])
      in and_then
           (case jf_last_update feed of
              None \<Rightarrow> Inr []
            | Some d \<Rightarrow> and_then (fetch_normalize_datetime d)
                (\<lambda>n. Inr [(''If-Modified-Since'', format_datetime env n)]))
           (\<lambda>since. let all = hs @ since in Inr (if all = [] then None else Some all)))"

section \<open>The request with retry\<close>

definition DEFAULT_MAX_ATTEMPTS :: nat where
  "DEFAULT_MAX_ATTEMPTS = 3"

definition DEFAULT_BACKOFF_SECONDS :: nat where
  "DEFAULT_BACKOFF_SECONDS = 1"

definition request_attempt ::
  "fetch_env \<Rightarrow> string \<Rightarrow> headers option \<Rightarrow> nat \<Rightarrow> (http_response, net_exn) attempt" where
  "request_attempt env url hs attempt =
     (case http_get env attempt url hs of
        Response r \<Rightarrow>
          if status_code r \<in> {200, 304} then Done r
          else Retryable (NetRequestError
                 (''HTTP '' @ str_int (status_code r) @ '' while checking '' @ url))
      | Raises (NetTimeout m) \<Rightarrow> Retryable (NetTimeout m)
      | Raises (NetRequestError m) \<Rightarrow> Retryable (NetRequestError m)
      | Raises (NetOther e) \<Rightarrow> Fatal (NetOther e))"

text \<open>
  The loop from its \<open>attempt\<close>-th pass: the outcome, the attempts made and the seconds slept.
\<close>

function request_loop ::
  "fetch_env \<Rightarrow> string \<Rightarrow> headers option \<Rightarrow> nat \<Rightarrow> (net_exn + http_response) \<times> nat list \<times> nat list" where
  "request_loop env url hs attempt =
     (case request_attempt env url hs attempt of
        Done r \<Rightarrow> (Inr r, [attempt], [])
      | Fatal e \<Rightarrow> (Inl e, [attempt], [])
      | Retryable e \<Rightarrow>
          if DEFAULT_MAX_ATTEMPTS \<le> attempt then (Inl e, [attempt], [])
          else (case request_loop env url hs (Suc attempt) of
                  (res, attempts, sleeps) \<Rightarrow>
                    (res, attempt # attempts, DEFAULT_BACKOFF_SECONDS * attempt # sleeps)))"
  by pat_completeness auto
termination
  by (relation "measure (\<lambda>(env, url, hs, attempt). DEFAULT_MAX_ATTEMPTS - attempt)") auto

declare request_loop.simps [simp del]

definition perform_request_with_retry ::
  "fetch_env \<Rightarrow> string \<Rightarrow> headers option \<Rightarrow> (net_exn + http_response) \<times> nat list \<times> nat list" where
  "perform_request_with_retry env url hs = request_loop env url hs 1"

interpretation request_retry: bounded_retry DEFAULT_MAX_ATTEMPTS "request_attempt env url hs" id id
  "\<lambda>i. (fst (request_loop env url hs i), fst (snd (request_loop env url hs i)))"
  for env url hs
proof
  fix i e
  assume "i < DEFAULT_MAX_ATTEMPTS" "request_attempt env url hs i = Retryable e"
  then show "(fst (request_loop env url hs i), fst (snd (request_loop env url hs i))) =
    (fst (fst (request_loop env url hs (Suc i)), fst (snd (request_loop env url hs (Suc i)))),
     i # snd (fst (request_loop env url hs (Suc i)), fst (snd (request_loop env url hs (Suc i)))))"
    by (simp add: request_loop.simps [of env url hs i] split: prod.splits)
qed (simp_all add: request_loop.simps)

section \<open>The result of a feed\<close>

definition error_result ::
  "bool \<Rightarrow> job_feed \<Rightarrow> string \<Rightarrow> string option \<Rightarrow> py_datetime option \<Rightarrow> py_exn + scrape_result" where
  "error_result ingest feed error_message etag last_update =
     make_scrape_result
       \<lparr>res_job_id = [], res_ingest = ingest, res_feed_id = jf_feed_id feed,
        res_feed_url = jf_feed_url feed, res_status = ResultError,
        res_error_message = Some error_message, res_new_etag = etag,
        res_new_last_update = last_update, res_fetchprotection = jf_fetchprotection feed,
        res_sources = []\<rparr>"

definition feed_result ::
  "bool \<Rightarrow> job_feed \<Rightarrow> result_status \<Rightarrow> string option \<Rightarrow> py_datetime option \<Rightarrow> feed_source list
     \<Rightarrow> py_exn + scrape_result" where
  "feed_result ingest feed status etag last_update sources =
     make_scrape_result
       \<lparr>res_job_id = [], res_ingest = ingest, res_feed_id = jf_feed_id feed,
        res_feed_url = jf_feed_url feed, res_status = status,
        res_error_message = None, res_new_etag = etag,
        res_new_last_update = last_update, res_fetchprotection = jf_fetchprotection feed,
        res_sources = sources\<rparr>"

definition is_same_version ::
  "job_feed \<Rightarrow> string option \<Rightarrow> py_datetime option \<Rightarrow> py_exn + bool" where
  "is_same_version feed response_etag response_last_modified =
     and_then
       (case (jf_last_update feed, response_last_modified) of
          (Some a, Some b) \<Rightarrow>
            and_then (fetch_normalize_datetime a) (\<lambda>na.
            and_then (fetch_normalize_datetime b) (\<lambda>nb. Inr (na = nb)))
        | _ \<Rightarrow> Inr False)
       (\<lambda>same_date. if same_date then Inr True
          else Inr (case (jf_etag feed, response_etag) of
                      (Some a, Some b) \<Rightarrow> py_strip a = b
                    | _ \<Rightarrow> False))"

definition classify_response ::
  "fetch_env \<Rightarrow> job_feed \<Rightarrow> bool \<Rightarrow> http_response \<Rightarrow> py_exn + scrape_result" where
  "classify_response env feed ingest response =
     (let response_etag = clean_header_value (response_headers response ''etag'') in
      and_then (parse_http_date env (response_headers response ''last-modified''))
        (\<lambda>response_last_modified.
           if status_code response = 304
           then feed_result ingest feed NotModified response_etag response_last_modified []
           else and_then (is_same_version feed response_etag response_last_modified) (\<lambda>same.
             if same
             then feed_result ingest feed NotModified response_etag response_last_modified []
             else (case and_then (parse_rss_feed_entries (env_stdlib env) (response_text response))
                          (\<lambda>(entries, lm). and_then (normalize_feed_sources entries)
                             (\<lambda>sources. Inr (sources, lm))) of
                     Inl e \<Rightarrow> error_result ingest feed (''Feed parse error: '' @ exn_text e)
                                response_etag response_last_modified
                   | Inr (sources, parsed_last_modified) \<Rightarrow>
                       feed_result ingest feed Success response_etag
                         (coalesce response_last_modified parsed_last_modified) sources))))"

text \<open>The result, or the exception that escapes, with the numbers of the requests sent.\<close>

definition fetch_feed_result ::
  "fetch_env \<Rightarrow> job_feed \<Rightarrow> bool \<Rightarrow> (py_exn + scrape_result) \<times> nat list" where
  "fetch_feed_result env feed ingest =
     (if jf_fetchprotection feed = 0
      then (error_result ingest feed ''Blocked by fetch protection'' None None, [])
      else (case build_request_headers env feed of
              Inl e \<Rightarrow> (Inl e, [])
            | Inr request_headers \<Rightarrow>
                (case perform_request_with_retry env (jf_feed_url feed) request_headers of
                   (outcome, attempts, _) \<Rightarrow>
                     (case outcome of
                        Inl (NetTimeout m) \<Rightarrow> error_result ingest feed ''Request timeout'' None None
                      | Inl (NetRequestError m) \<Rightarrow>
                          error_result ingest feed (''Request error: '' @ m) None None
                      | Inl (NetOther e) \<Rightarrow>
                          error_result ingest feed (''Unknown fetch error: '' @ exn_text e) None None
                      | Inr response \<Rightarrow> classify_response env feed ingest response,
                      attempts))))"

section \<open>The requests made\<close>

lemma request_loop_stop:
  "i \<le> DEFAULT_MAX_ATTEMPTS \<Longrightarrow> request_retry.stops_at env url hs i j \<Longrightarrow>
    fst (snd (request_loop env url hs i)) = [i..<Suc j] \<and>
    fst (request_loop env url hs i) = (case request_attempt env url hs j of
        Done a \<Rightarrow> Inr a | Fatal e \<Rightarrow> Inl e | Retryable e \<Rightarrow> Inl e)"
  using request_retry.run_stops_at [of env url hs i j] by (simp split: attempt.splits)

lemma request_loop_sleeps:
  "snd (snd (request_loop env url hs i)) =
    map (\<lambda>a. DEFAULT_BACKOFF_SECONDS * a) (butlast (fst (snd (request_loop env url hs i))))
    \<and> fst (snd (request_loop env url hs i)) \<noteq> []"
proof (induction env url hs i rule: request_loop.induct)
  case (1 env url hs i)
  show ?case
  proof (cases "request_attempt env url hs i")
    case (Retryable e)
    show ?thesis
    proof (cases "DEFAULT_MAX_ATTEMPTS \<le> i")
      case True
      then show ?thesis using Retryable by (simp add: request_loop.simps [of env url hs i])
    next
      case False
      then show ?thesis
        using "1.IH" [OF Retryable False] Retryable
        by (auto simp: request_loop.simps [of env url hs i] split: prod.splits)
    qed
  qed (simp_all add: request_loop.simps [of env url hs i])
qed

lemma request_attempts:
  "\<exists>n\<in>{1, 2, 3}. fst (snd (perform_request_with_retry env url hs)) = [1..<Suc n] \<and>
     (\<forall>m. 1 \<le> m \<longrightarrow> m < n \<longrightarrow> (\<exists>e. request_attempt env url hs m = Retryable e)) \<and>
     (n < 3 \<longrightarrow> (\<forall>e. request_attempt env url hs n \<noteq> Retryable e)) \<and>
     fst (perform_request_with_retry env url hs) =
       (case request_attempt env url hs n of Done a \<Rightarrow> Inr a | Fatal e \<Rightarrow> Inl e | Retryable e \<Rightarrow> Inl e)"
proof -
  have le: "1 \<le> DEFAULT_MAX_ATTEMPTS" by (simp add: DEFAULT_MAX_ATTEMPTS_def)
  obtain j where j: "request_retry.stops_at env url hs 1 j"
    using request_retry.stops_at_exists [OF le] by blast
  then have "1 \<le> j" "j \<le> DEFAULT_MAX_ATTEMPTS"
    and "\<forall>m. 1 \<le> m \<longrightarrow> m < j \<longrightarrow> (\<exists>e. request_attempt env url hs m = Retryable e)"
    and "j < DEFAULT_MAX_ATTEMPTS \<longrightarrow> (\<forall>e. request_attempt env url hs j \<noteq> Retryable e)"
    unfolding request_retry.stops_at_def by blast+
  moreover from this(1,2) have "j \<in> {1, 2, 3}" by (auto simp: DEFAULT_MAX_ATTEMPTS_def)
  ultimately show ?thesis
    using request_loop_stop [OF le j] by (auto simp: perform_request_with_retry_def DEFAULT_MAX_ATTEMPTS_def)
qed

text \<open>The cases of a fetch: refused, no headers, a response to classify, or a failed request.\<close>

lemma fetch_feed_resultE:
  assumes "fetch_feed_result env feed ingest = (res, attempts)"
  obtains (blocked) "jf_fetchprotection feed = 0" "attempts = []"
      "res = error_result ingest feed ''Blocked by fetch protection'' None None"
  | (headers) e where "jf_fetchprotection feed \<noteq> 0" "build_request_headers env feed = Inl e"
      "attempts = []" "res = Inl e"
  | (failed) hs e m where "jf_fetchprotection feed \<noteq> 0" "build_request_headers env feed = Inr hs"
      "fst (perform_request_with_retry env (jf_feed_url feed) hs) = Inl e"
      "attempts = fst (snd (perform_request_with_retry env (jf_feed_url feed) hs))"
      "res = error_result ingest feed m None None"
  | (response) hs r where "jf_fetchprotection feed \<noteq> 0" "build_request_headers env feed = Inr hs"
      "fst (perform_request_with_retry env (jf_feed_url feed) hs) = Inr r"
      "attempts = fst (snd (perform_request_with_retry env (jf_feed_url feed) hs))"
      "res = classify_response env feed ingest r"
proof (cases "jf_fetchprotection feed = 0")
  case True
  then show ?thesis using assms blocked by (auto simp: fetch_feed_result_def)
next
  case nonzero: False
  show ?thesis
  proof (cases "build_request_headers env feed")
    case (Inl e)
    then show ?thesis using assms nonzero headers by (auto simp: fetch_feed_result_def)
  next
    case (Inr hs)
    obtain out ats sl where p: "perform_request_with_retry env (jf_feed_url feed) hs = (out, ats, sl)"
      by (cases "perform_request_with_retry env (jf_feed_url feed) hs") auto
    then show ?thesis
      using assms nonzero Inr failed response
      by (cases out) (auto simp: fetch_feed_result_def split: net_exn.splits)
  qed
qed

section \<open>What a result says\<close>

lemma error_result_Inr:
  "error_result ingest feed m etag lu = Inr r \<Longrightarrow>
    0 \<le> jf_fetchprotection feed \<and> jf_fetchprotection feed \<le> 2 \<and> valid_scrape_result r \<and>
    r = \<lparr>res_job_id = [], res_ingest = ingest, res_feed_id = jf_feed_id feed,
         res_feed_url = jf_feed_url feed, res_status = ResultError, res_error_message = Some m,
         res_new_etag = etag, res_new_last_update = lu,
         res_fetchprotection = jf_fetchprotection feed, res_sources = []\<rparr>"
  by (auto simp: error_result_def make_scrape_result_def valid_scrape_result_def split: if_splits)

lemma feed_result_Inr:
  "feed_result ingest feed st etag lu srcs = Inr r \<Longrightarrow> valid_scrape_result r \<and>
    r = \<lparr>res_job_id = [], res_ingest = ingest, res_feed_id = jf_feed_id feed,
         res_feed_url = jf_feed_url feed, res_status = st, res_error_message = None,
         res_new_etag = etag, res_new_last_update = lu,
         res_fetchprotection = jf_fetchprotection feed, res_sources = srcs\<rparr>"
  by (auto simp: feed_result_def make_scrape_result_def split: if_splits)

lemma parse_http_date_utc: "parse_http_date env v = Inr (Some d) \<Longrightarrow> is_utc d"
  by (auto simp: parse_http_date_def fetch_normalize_eq dest: to_utc.norm_is_utc
      split: option.splits sum.splits py_exn.splits)

text \<open>The cases of a classified response.\<close>

lemma classify_responseE:
  assumes "classify_response env feed ingest response = Inr r"
  obtains (unchanged) etag lm where
      "feed_result ingest feed NotModified etag lm [] = Inr r"
      "etag = clean_header_value (response_headers response ''etag'')"
      "parse_http_date env (response_headers response ''last-modified'') = Inr lm"
      "status_code response = 304 \<or> is_same_version feed etag lm = Inr True"
  | (unparsed) etag lm m where
      "error_result ingest feed m etag lm = Inr r"
      "etag = clean_header_value (response_headers response ''etag'')"
      "parse_http_date env (response_headers response ''last-modified'') = Inr lm"
      "status_code response \<noteq> 304" "is_same_version feed etag lm = Inr False"
  | (parsed) etag lm entries sources plm where
      "feed_result ingest feed Success etag (coalesce lm plm) sources = Inr r"
      "etag = clean_header_value (response_headers response ''etag'')"
      "parse_http_date env (response_headers response ''last-modified'') = Inr lm"
      "status_code response \<noteq> 304" "is_same_version feed etag lm = Inr False"
      "parse_rss_feed_entries (env_stdlib env) (response_text response) = Inr (entries, plm)"
      "normalize_feed_sources entries = Inr sources"
proof -
  let ?etag = "clean_header_value (response_headers response ''etag'')"
  obtain lm where lm: "parse_http_date env (response_headers response ''last-modified'') = Inr lm"
    using assms by (auto simp: classify_response_def Let_def)
  show ?thesis
  proof (cases "status_code response = 304")
    case True
    then show ?thesis using assms lm unchanged by (auto simp: classify_response_def Let_def)
  next
    case False
    then obtain same where same: "is_same_version feed ?etag lm = Inr same"
      using assms lm by (auto simp: classify_response_def Let_def)
    show ?thesis
    proof (cases same)
      case True
      then show ?thesis using assms lm same False unchanged
        by (auto simp: classify_response_def Let_def)
    next
      case different: False
      show ?thesis
      proof (cases "parse_rss_feed_entries (env_stdlib env) (response_text response)")
        case (Inl e)
        then show ?thesis using assms lm same False different unparsed
          by (auto simp: classify_response_def Let_def)
      next
        case (Inr p)
        obtain entries plm where p: "p = (entries, plm)" by (cases p)
        show ?thesis
          by (cases "normalize_feed_sources entries")
            (use assms lm same False different unparsed parsed Inr p in
              \<open>auto simp: classify_response_def Let_def\<close>)
      qed
    qed
  qed
qed

section \<open>Properties\<close>

text \<open>What is worth another attempt: a timeout, a transport error, or a status other than 200 and 304.\<close>

fun worth_retrying :: "http_outcome \<Rightarrow> bool" where
  "worth_retrying (Response r) = (status_code r \<notin> {200, 304})"
| "worth_retrying (Raises (NetTimeout m)) = True"
| "worth_retrying (Raises (NetRequestError m)) = True"
| "worth_retrying (Raises (NetOther e)) = False"

lemma request_attempt_retryable:
  "(\<exists>e. request_attempt env url hs k = Retryable e) \<longleftrightarrow> worth_retrying (http_get env k url hs)"
proof (cases "http_get env k url hs")
  case (Raises e)
  then show ?thesis by (cases e) (simp_all add: request_attempt_def)
qed (simp add: request_attempt_def)

text \<open>
  C6: the requests of a feed.  None is sent for a blocked feed; otherwise the attempts are numbered
  consecutively from 1, are at most three, and another one is made exactly after a timeout, a transport
  error or a status other than 200 and 304, while there are fewer than three; before the attempt \<open>k + 1\<close> the
  client sleeps \<open>k\<close> seconds.
\<close>

theorem fetch_attempts_disciplined:
  "let attempts = snd (fetch_feed_result env feed ingest) in
     attempts = [1..<Suc (length attempts)] \<and> length attempts \<le> 3 \<and>
     (jf_fetchprotection feed = 0 \<longrightarrow> attempts = []) \<and>
     (\<forall>hs. build_request_headers env feed = Inr hs \<longrightarrow> jf_fetchprotection feed \<noteq> 0 \<longrightarrow>
        attempts \<noteq> [] \<and>
        (\<forall>k\<in>set (butlast attempts). worth_retrying (http_get env k (jf_feed_url feed) hs)) \<and>
        (length attempts < 3 \<longrightarrow> \<not> worth_retrying (http_get env (length attempts) (jf_feed_url feed) hs)) \<and>
        snd (snd (perform_request_with_retry env (jf_feed_url feed) hs)) = butlast attempts)"
proof -
  obtain res attempts where f: "fetch_feed_result env feed ingest = (res, attempts)" by fastforce
  have made: "attempts = [1..<Suc (length attempts)] \<and> length attempts \<le> 3 \<and> attempts \<noteq> [] \<and>
      (\<forall>k\<in>set (butlast attempts). worth_retrying (http_get env k (jf_feed_url feed) hs)) \<and>
      (length attempts < 3 \<longrightarrow> \<not> worth_retrying (http_get env (length attempts) (jf_feed_url feed) hs)) \<and>
      snd (snd (perform_request_with_retry env (jf_feed_url feed) hs)) = butlast attempts"
    if a: "attempts = fst (snd (perform_request_with_retry env (jf_feed_url feed) hs))" for hs
  proof -
    obtain n where n: "n \<in> {1, 2, 3}" "attempts = [1..<Suc n]"
      "\<forall>m. 1 \<le> m \<longrightarrow> m < n \<longrightarrow> (\<exists>e. request_attempt env (jf_feed_url feed) hs m = Retryable e)"
      "n < 3 \<longrightarrow> (\<forall>e. request_attempt env (jf_feed_url feed) hs n \<noteq> Retryable e)"
      using request_attempts [of env "jf_feed_url feed" hs] a by blast
    moreover have "snd (snd (perform_request_with_retry env (jf_feed_url feed) hs)) = butlast attempts"
      using request_loop_sleeps [of env "jf_feed_url feed" hs 1] a
      by (simp add: perform_request_with_retry_def DEFAULT_BACKOFF_SECONDS_def)
    moreover have "n \<noteq> 0" "n \<le> 3" using n(1) by auto
    moreover have "n < 3 \<longrightarrow> \<not> worth_retrying (http_get env n (jf_feed_url feed) hs)"
      using n(4) request_attempt_retryable [of env "jf_feed_url feed" hs n] by blast
    ultimately show ?thesis by (simp add: butlast_append request_attempt_retryable)
  qed
  from f show ?thesis
  proof (cases rule: fetch_feed_resultE)
    case (failed hs e m)
    then show ?thesis using f made [OF failed(4)] by (simp add: Let_def)
  next
    case (response hs r)
    then show ?thesis using f made [OF response(4)] by (simp add: Let_def)
  qed (use f in \<open>simp_all add: Let_def\<close>)
qed

theorem fetch_attempts_disciplined_witness:
  "snd (fetch_feed_result
     \<lparr>env_stdlib = sample_stdlib, http_get = \<lambda>_ _ _. Raises (NetTimeout ''t''), format_datetime = \<lambda>_. ''d''\<rparr>
     \<lparr>jf_feed_id = 1, jf_feed_url = ''u'', jf_company_id = None, jf_host_header = None,
      jf_fetchprotection = 1, jf_etag = None, jf_last_update = None,
      jf_last_db_article_published_at = None\<rparr> True) \<noteq> []"
  (is "snd (fetch_feed_result ?env ?feed True) \<noteq> []")
proof -
  have "build_request_headers ?env ?feed = Inr None" by code_simp
  then show ?thesis
    using fetch_attempts_disciplined [of ?env ?feed True] by (auto simp: Let_def)
qed

lemma is_same_version_tag:
  "is_same_version feed (Some b) lm = Inr False \<Longrightarrow> jf_etag feed = Some a \<Longrightarrow> py_strip a \<noteq> b"
  by (auto simp: is_same_version_def split: if_splits)

lemma fetch_feed_result_facts:
  assumes "fetch_feed_result env feed ingest = (Inr r, attempts)"
  shows "res_job_id r = [] \<and> res_ingest r = ingest \<and> res_feed_id r = jf_feed_id feed \<and>
    res_feed_url r = jf_feed_url feed \<and> res_fetchprotection r = jf_fetchprotection feed \<and>
    valid_scrape_result r \<and>
    (res_error_message r \<noteq> None \<longleftrightarrow> res_status r = ResultError) \<and>
    (res_status r \<noteq> Success \<longrightarrow> res_sources r = []) \<and>
    (res_status r = Success \<longrightarrow> jf_fetchprotection feed \<noteq> 0 \<and>
       list_all normal_source (res_sources r) \<and> distinct (map src_url (res_sources r)) \<and>
       (\<forall>a b. jf_etag feed = Some a \<longrightarrow> res_new_etag r = Some b \<longrightarrow> py_strip a \<noteq> b))"
  using assms
proof (cases rule: fetch_feed_resultE)
  case blocked
  show ?thesis using error_result_Inr [OF blocked(3) [symmetric]] by auto
next
  case (headers e)
  then show ?thesis by simp
next
  case (failed hs e m)
  show ?thesis using error_result_Inr [OF failed(5) [symmetric]] by auto
next
  case (response hs resp)
  from response(5) [symmetric] show ?thesis
  proof (cases rule: classify_responseE)
    case (unchanged etag lm)
    show ?thesis using feed_result_Inr [OF unchanged(1)] by auto
  next
    case (unparsed etag lm m)
    show ?thesis using error_result_Inr [OF unparsed(1)] by auto
  next
    case (parsed etag lm entries sources plm)
    have "list_all normal_source sources" "distinct (map src_url sources)"
      using normalize_feed_sources_normal [OF parsed(7)]
        sources.out_keys_distinct [of "{}" entries sources] parsed(7)
      by (auto simp: list_all_iff normalize_feed_sources_def)
    then show ?thesis
      using feed_result_Inr [OF parsed(1)] response(1) is_same_version_tag parsed(5) by auto
  qed
qed

text \<open>
  C7: what a fetch returns.  The result repeats the feed's identifier, URL and protection level,
  satisfies the result schema, has an error message exactly when its status is \<^verbatim>\<open>error\<close>, and
  carries articles only when its status is \<^verbatim>\<open>success\<close>; then the articles are normal, as
  \<open>normalize_feed_sources\<close> leaves them, with pairwise different URLs, and the entity tag is not the one already stored.
\<close>

theorem fetch_result_classified:
  assumes "fetch_feed_result env feed ingest = (Inr r, attempts)"
  shows "res_job_id r = [] \<and> res_ingest r = ingest \<and> res_feed_id r = jf_feed_id feed \<and>
    res_feed_url r = jf_feed_url feed \<and> res_fetchprotection r = jf_fetchprotection feed \<and>
    valid_scrape_result r \<and>
    (res_error_message r \<noteq> None \<longleftrightarrow> res_status r = ResultError) \<and>
    (res_status r \<noteq> Success \<longrightarrow> res_sources r = []) \<and>
    (res_status r = Success \<longrightarrow> jf_fetchprotection feed \<noteq> 0 \<and>
       list_all normal_source (res_sources r) \<and> distinct (map src_url (res_sources r)) \<and>
       (\<forall>a b. jf_etag feed = Some a \<longrightarrow> res_new_etag r = Some b \<longrightarrow> py_strip a \<noteq> b))"
  by (rule fetch_feed_result_facts [OF assms])

definition sample_job_feed :: job_feed where
  "sample_job_feed = \<lparr>jf_feed_id = 7, jf_feed_url = ''u'', jf_company_id = None,
     jf_host_header = None, jf_fetchprotection = 1, jf_etag = Some ''a'', jf_last_update = None,
     jf_last_db_article_published_at = None\<rparr>"

text \<open>A server that times out once and then answers; the date parser is that of \<open>dates\<close>.\<close>

definition sample_env :: "(string \<Rightarrow> py_exn + py_datetime) \<Rightarrow> (string \<rightharpoonup> string) \<Rightarrow> fetch_env" where
  "sample_env dates hs =
     \<lparr>env_stdlib = sample_stdlib\<lparr>parsedate_to_datetime := dates\<rparr>,
      http_get = \<lambda>n _ _. if n = 1 then Raises (NetTimeout ''t'')
        else Response \<lparr>status_code = 200, response_headers = hs, response_text = ''x''\<rparr>,
      format_datetime = \<lambda>_. ''d''\<rparr>"

lemma sample_env_fetch:
  "\<exists>r. fetch_feed_result (sample_env (\<lambda>_. Inl (ValueError ''date'')) [''etag'' \<mapsto> ''a''])
     sample_job_feed True = (Inr r, [1, 2]) \<and> res_status r = NotModified"
proof -
  let ?p = "fetch_feed_result (sample_env (\<lambda>_. Inl (ValueError ''date'')) [''etag'' \<mapsto> ''a''])
     sample_job_feed True"
  have "case fst ?p of Inl _ \<Rightarrow> False | Inr r \<Rightarrow> res_status r = NotModified" by code_simp
  moreover have "snd ?p = [1, 2]" by code_simp
  ultimately show ?thesis by (cases ?p) (auto split: sum.splits)
qed

theorem fetch_result_classified_witness:
  "\<exists>r. fetch_feed_result (sample_env (\<lambda>_. Inl (ValueError ''date'')) [''etag'' \<mapsto> ''a''])
     sample_job_feed True = (Inr r, [1, 2]) \<and> res_feed_id r = 7 \<and> res_sources r = []"
proof -
  obtain r where "fetch_feed_result (sample_env (\<lambda>_. Inl (ValueError ''date'')) [''etag'' \<mapsto> ''a''])
     sample_job_feed True = (Inr r, [1, 2])" "res_status r = NotModified"
    using sample_env_fetch by blast
  then show ?thesis using fetch_result_classified [of _ sample_job_feed True r]
    by (auto simp: sample_job_feed_def)
qed

definition utc_overflows :: "py_datetime \<Rightarrow> bool" where
  "utc_overflows d \<longleftrightarrow> (\<exists>off. utc_offset d = Some off \<and> \<not> wall_in_range (wall_us d - off))"

lemma utc_overflows_iff: "utc_overflows d \<longleftrightarrow> (\<exists>e. to_utc d = Inl e)"
  by (simp add: utc_overflows_def to_utc.norm_raises_iff)

lemma build_request_headers_raises:
  "(\<exists>e. build_request_headers env feed = Inl e) \<longleftrightarrow> (\<exists>d. jf_last_update feed = Some d \<and> utc_overflows d)"
  by (cases "jf_last_update feed")
    (auto simp: build_request_headers_def Let_def and_then_eq_Inl fetch_normalize_eq utc_overflows_iff)

definition last_modified_overflows :: "fetch_env \<Rightarrow> http_response \<Rightarrow> bool" where
  "last_modified_overflows env response \<longleftrightarrow>
     (\<exists>v d. clean_header_value (response_headers response ''last-modified'') = Some v \<and>
        parsedate_to_datetime (env_stdlib env) v = Inr d \<and> utc_overflows d)"

text \<open>The documented behaviour of \<^verbatim>\<open>parsedate_to_datetime\<close>: a date in range, or one of two errors.\<close>

definition http_dates_ok :: "fetch_env \<Rightarrow> bool" where
  "http_dates_ok env \<longleftrightarrow> (\<forall>v. case parsedate_to_datetime (env_stdlib env) v of
     Inl e \<Rightarrow> (\<exists>m. e = TypeError m \<or> e = ValueError m) | Inr d \<Rightarrow> wf_datetime d)"

lemma parse_http_date_raises:
  assumes "http_dates_ok env"
  shows "(\<exists>e. parse_http_date env (response_headers r ''last-modified'') = Inl e) \<longleftrightarrow>
    last_modified_overflows env r"
proof (cases "clean_header_value (response_headers r ''last-modified'')")
  case None
  then show ?thesis by (simp add: parse_http_date_def last_modified_overflows_def)
next
  case (Some v)
  have "case parsedate_to_datetime (env_stdlib env) v of
     Inl e \<Rightarrow> (\<exists>m. e = TypeError m \<or> e = ValueError m) | Inr d \<Rightarrow> wf_datetime d"
    using assms unfolding http_dates_ok_def ..
  then show ?thesis using Some
    by (cases "parsedate_to_datetime (env_stdlib env) v")
      (auto simp: parse_http_date_def last_modified_overflows_def fetch_normalize_eq
        and_then_eq_Inl utc_overflows_iff)
qed

lemma parse_http_date_wf:
  assumes "http_dates_ok env" and "parse_http_date env v = Inr (Some d)"
  shows "wf_datetime d \<and> is_utc d"
proof -
  obtain s where s: "clean_header_value v = Some s"
    using assms(2) by (auto simp: parse_http_date_def split: option.splits)
  have "case parsedate_to_datetime (env_stdlib env) s of
     Inl e \<Rightarrow> (\<exists>m. e = TypeError m \<or> e = ValueError m) | Inr d \<Rightarrow> wf_datetime d"
    using assms(1) unfolding http_dates_ok_def ..
  then show ?thesis using assms(2) s
    by (cases "parsedate_to_datetime (env_stdlib env) s")
      (auto simp: parse_http_date_def fetch_normalize_eq
        dest: to_utc.norm_wf to_utc.norm_is_utc split: py_exn.splits)
qed

lemma is_same_version_total:
  assumes "\<And>d. jf_last_update feed = Some d \<Longrightarrow> \<not> utc_overflows d"
    and "\<And>d. lm = Some d \<Longrightarrow> wf_datetime d \<and> is_utc d"
  shows "\<exists>same. is_same_version feed etag lm = Inr same"
proof (cases "jf_last_update feed"; cases lm)
  fix a b assume ab: "jf_last_update feed = Some a" "lm = Some b"
  obtain na where "to_utc a = Inr na"
    using assms(1) [OF ab(1)] utc_overflows_iff [of a] by (cases "to_utc a") auto
  moreover have "to_utc b = Inr b"
    using assms(2) [OF ab(2)] to_utc.norm_utc_id [of b] by (simp add: wf_datetime_def)
  ultimately show ?thesis using ab by (cases "na = b") (auto simp: is_same_version_def fetch_normalize_eq)
qed (simp_all add: is_same_version_def)

lemma result_schema_total:
  assumes "0 \<le> jf_fetchprotection feed" and "jf_fetchprotection feed \<le> 2"
  shows "\<exists>r. error_result ingest feed m etag lu = Inr r"
    and "list_all normal_source srcs \<Longrightarrow> \<exists>r. feed_result ingest feed st etag lu srcs = Inr r"
  using assms
  by (auto simp: error_result_def feed_result_def make_scrape_result_def valid_scrape_result_def
      list_all_iff normal_source_def)

lemma classify_response_raises:
  assumes prot: "0 \<le> jf_fetchprotection feed" "jf_fetchprotection feed \<le> 2"
    and dates: "http_dates_ok env"
    and lu: "\<And>d. jf_last_update feed = Some d \<Longrightarrow> \<not> utc_overflows d"
  shows "(\<exists>e. classify_response env feed ingest r = Inl e) \<longleftrightarrow> last_modified_overflows env r"
proof (cases "parse_http_date env (response_headers r ''last-modified'')")
  case (Inl e)
  then show ?thesis using parse_http_date_raises [OF dates, of r]
    by (auto simp: classify_response_def Let_def)
next
  case (Inr lm)
  let ?etag = "clean_header_value (response_headers r ''etag'')"
  obtain same where same: "is_same_version feed ?etag lm = Inr same"
    using is_same_version_total [of feed lm ?etag] lu parse_http_date_wf [OF dates] Inr by blast
  have "\<not> last_modified_overflows env r" using parse_http_date_raises [OF dates, of r] Inr by auto
  moreover have "\<exists>x. classify_response env feed ingest r = Inr x"
  proof (cases "status_code r = 304 \<or> same")
    case True
    then show ?thesis
      using Inr same result_schema_total(2) [OF prot, of "[]"]
      by (auto simp: classify_response_def Let_def)
  next
    case False
    show ?thesis
    proof (cases "and_then (parse_rss_feed_entries (env_stdlib env) (response_text r))
        (\<lambda>(entries, lm). and_then (normalize_feed_sources entries) (\<lambda>sources. Inr (sources, lm)))")
      case (Inl e)
      then show ?thesis using Inr same False result_schema_total(1) [OF prot]
        by (simp add: classify_response_def Let_def)
    next
      fix p assume p: "and_then (parse_rss_feed_entries (env_stdlib env) (response_text r))
        (\<lambda>(entries, lm). and_then (normalize_feed_sources entries) (\<lambda>sources. Inr (sources, lm))) = Inr p"
      then have "list_all normal_source (fst p)"
        by (auto simp: list_all_iff dest: normalize_feed_sources_normal)
      then show ?thesis using Inr same False p result_schema_total(2) [OF prot, of "fst p"]
        by (cases p) (simp add: classify_response_def Let_def)
    qed
  qed
  ultimately show ?thesis by auto
qed

text \<open>
  C8: the exceptions that escape a fetch.  For a feed with a protection level of the schema and a date
  parser that raises nothing but TypeError and ValueError, a fetch raises exactly when the feed is not blocked and
  a conversion to UTC leaves the range of dates: that of the feed's last update, whatever its date, while
  the headers are built, and then no request is sent; or that of the \<^verbatim>\<open>Last-Modified\<close> header of the response
  that the attempts end with.  No failure of the network, no status and no content makes a fetch raise.
\<close>

theorem fetch_raises_iff_date_overflow:
  assumes "0 \<le> jf_fetchprotection feed" and "jf_fetchprotection feed \<le> 2" and "http_dates_ok env"
  shows "((\<exists>e. fst (fetch_feed_result env feed ingest) = Inl e) \<longleftrightarrow>
    jf_fetchprotection feed \<noteq> 0 \<and>
    ((\<exists>d. jf_last_update feed = Some d \<and> utc_overflows d) \<or>
     (\<exists>hs response. build_request_headers env feed = Inr hs \<and>
        fst (perform_request_with_retry env (jf_feed_url feed) hs) = Inr response \<and>
        last_modified_overflows env response))) \<and>
    (jf_fetchprotection feed \<noteq> 0 \<and> (\<exists>d. jf_last_update feed = Some d \<and> utc_overflows d) \<longrightarrow>
      snd (fetch_feed_result env feed ingest) = [])"
  (is "?raises \<and> ?early")
proof
  obtain res attempts where f: "fetch_feed_result env feed ingest = (res, attempts)" by fastforce
  note headers_raise = build_request_headers_raises [of env feed]
  from f show ?early by (cases rule: fetch_feed_resultE) (use f headers_raise in auto)
  from f show ?raises
  proof (cases rule: fetch_feed_resultE)
    case blocked
    obtain r where "res = Inr r" using blocked(3) result_schema_total(1) [OF assms(1,2)] by blast
    then show ?thesis using f blocked(1) by simp
  next
    case (headers e)
    then show ?thesis using f headers_raise by auto
  next
    case (failed hs e m)
    have "\<exists>r. res = Inr r" using failed(5) result_schema_total(1) [OF assms(1,2)] by simp
    then show ?thesis using f failed(1-3) headers_raise by auto
  next
    case (response hs r)
    have "(\<exists>e. res = Inl e) \<longleftrightarrow> last_modified_overflows env r"
      unfolding response(5)
      by (rule classify_response_raises [OF assms]) (use response(2) headers_raise in auto)
    then show ?thesis using f response(1-3) headers_raise by auto
  qed
qed

theorem fetch_raises_iff_date_overflow_witness:
  "\<exists>e. fst (fetch_feed_result
      (sample_env (\<lambda>_. Inr \<lparr>wall_us = datetime_max_us, utc_offset = Some (- 1)\<rparr>) [''last-modified'' \<mapsto> ''z''])
      sample_job_feed True) = Inl e"
  (is "\<exists>e. fst (fetch_feed_result ?env _ _) = Inl e")
proof -
  let ?d = "\<lparr>wall_us = datetime_max_us, utc_offset = Some (- 1)\<rparr>"
  let ?r = "\<lparr>status_code = 200, response_headers = [''last-modified'' \<mapsto> ''z''], response_text = ''x''\<rparr>"
  have dates: "http_dates_ok ?env"
    by (simp add: http_dates_ok_def sample_env_def wf_datetime_def wall_in_range_def
        datetime_max_us_def datetime_min_us_def us_per_day_def)
  have hs: "build_request_headers ?env sample_job_feed = Inr (Some [(''If-None-Match'', ''a'')])"
    by code_simp
  have a: "request_attempt ?env u h 2 = Done ?r"
    "request_attempt ?env u h (Suc 0) = Retryable (NetTimeout ''t'')" for u h
    by (simp_all add: request_attempt_def sample_env_def)
  have "request_loop ?env u h 2 = (Inr ?r, [2], [])" for u h
    unfolding request_loop.simps [of _ _ _ 2] a by simp
  then have resp: "fst (perform_request_with_retry ?env u h) = Inr ?r" for u h
    unfolding perform_request_with_retry_def One_nat_def request_loop.simps [of _ _ _ "Suc 0"] a
    by (simp add: DEFAULT_MAX_ATTEMPTS_def numeral_2_eq_2)
  have "clean_header_value (Some ''z'') = Some ''z''" by code_simp
  then have over: "last_modified_overflows ?env ?r"
    by (simp add: last_modified_overflows_def sample_env_def utc_overflows_def wall_in_range_def)
  show ?thesis
    using fetch_raises_iff_date_overflow [OF _ _ dates, of sample_job_feed True] hs resp over
    by (simp add: sample_job_feed_def)
qed

end
