(* ===== verification/Rate_Limiter.thy ===== *)
theory Rate_Limiter
  imports Prelude
begin

text \<open>
  \<^verbatim>\<open>CompanyRateLimiter\<close> of \<^verbatim>\<open>worker-rss-scrapper/app/services/scrape_job_service.py\<close>: a semaphore of
  Python's asyncio whose permits come back one second after each acquisition.  The state is that
  of the semaphore (its value and its queue of waiting tasks, as in CPython 3.11), the timers of
  \<^verbatim>\<open>call_later\<close> and the clock of the event loop in microseconds.  A step
  is what the event loop runs without interruption.
\<close>

section \<open>The semaphore and the timers\<close>

record 't limiter =
  sem_value :: nat
  sem_waiters :: "('t \<times> bool) list"
  release_due :: "nat list"
  loop_clock :: nat
  arrived :: "'t list"
  granted :: "('t \<times> nat) list"

text \<open>
  A waiter is a task and whether its future is done.  \<open>arrived\<close> and \<open>granted\<close> record the calls of
  \<^verbatim>\<open>acquire\<close> and their completions with the time; no operation reads them.
\<close>

definition one_second :: nat where
  "one_second = 1000000"

definition new_limiter :: "nat \<Rightarrow> nat \<Rightarrow> 't limiter" where
  "new_limiter clock max_requests_per_second =
     \<lparr>sem_value = max_requests_per_second, sem_waiters = [], release_due = [], loop_clock = clock,
      arrived = [], granted = []\<rparr>"

definition sem_locked :: "'t limiter \<Rightarrow> bool" where
  "sem_locked l = (sem_value l = 0 \<or> sem_waiters l \<noteq> [])"

fun wake_first :: "('t \<times> bool) list \<Rightarrow> ('t \<times> bool) list option" where
  "wake_first [] = None"
| "wake_first ((t, done) # ws) =
     (if done then map_option (\<lambda>vs. (t, done) # vs) (wake_first ws) else Some ((t, True) # ws))"

definition wake_up_next :: "'t limiter \<Rightarrow> 't limiter" where
  "wake_up_next l = (case wake_first (sem_waiters l) of
     None \<Rightarrow> l
   | Some ws \<Rightarrow> l\<lparr>sem_value := sem_value l - 1, sem_waiters := ws\<rparr>)"

definition sem_release :: "'t limiter \<Rightarrow> 't limiter" where
  "sem_release l = wake_up_next (l\<lparr>sem_value := sem_value l + 1\<rparr>)"

text \<open>The second line of \<^verbatim>\<open>acquire\<close>: the permit is returned one second later.\<close>

definition limiter_grant :: "'t \<Rightarrow> 't limiter \<Rightarrow> 't limiter" where
  "limiter_grant t l = l\<lparr>release_due := release_due l @ [loop_clock l + one_second],
     granted := granted l @ [(t, loop_clock l)]\<rparr>"

text \<open>\<^verbatim>\<open>acquire\<close> up to its first suspension, and from there on when its future is done.\<close>

definition acquire_start :: "'t \<Rightarrow> 't limiter \<Rightarrow> 't limiter" where
  "acquire_start t l0 = (let l = l0\<lparr>arrived := arrived l0 @ [t]\<rparr> in
     if sem_locked l then l\<lparr>sem_waiters := sem_waiters l @ [(t, False)]\<rparr>
     else limiter_grant t (l\<lparr>sem_value := sem_value l - 1\<rparr>))"

definition acquire_resume :: "'t \<Rightarrow> 't limiter \<Rightarrow> 't limiter" where
  "acquire_resume t l = (let l' = l\<lparr>sem_waiters := tl (sem_waiters l)\<rparr> in
     limiter_grant t (if 0 < sem_value l' then wake_up_next l' else l'))"

definition timer_fires :: "nat \<Rightarrow> 't limiter \<Rightarrow> 't limiter" where
  "timer_fires d l = sem_release (l\<lparr>release_due := remove1 d (release_due l)\<rparr>)"

text \<open>The event loop: tasks whose futures are done resume in order; a timer fires when it is due.\<close>

inductive limiter_step :: "'t limiter \<Rightarrow> 't limiter \<Rightarrow> bool" where
  arrive: "limiter_step l (acquire_start t l)"
| resume: "sem_waiters l = (t, True) # ws \<Longrightarrow> limiter_step l (acquire_resume t l)"
| timer: "d \<in> set (release_due l) \<Longrightarrow> d \<le> loop_clock l \<Longrightarrow> limiter_step l (timer_fires d l)"
| tick: "loop_clock l \<le> c \<Longrightarrow> limiter_step l (l\<lparr>loop_clock := c\<rparr>)"

inductive limiter_reach :: "nat \<Rightarrow> 't limiter \<Rightarrow> bool" for n where
  start: "limiter_reach n (new_limiter c n)"
| step: "limiter_reach n l \<Longrightarrow> limiter_step l l' \<Longrightarrow> limiter_reach n l'"

section \<open>The invariant\<close>

definition queue_shape :: "('t \<times> bool) list \<Rightarrow> 't list \<Rightarrow> 't list \<Rightarrow> bool" where
  "queue_shape ws woken asleep \<longleftrightarrow> ws = map (\<lambda>t. (t, True)) woken @ map (\<lambda>t. (t, False)) asleep"

lemma wake_first_shape:
  "queue_shape ws woken asleep \<Longrightarrow> wake_first ws =
    (case asleep of [] \<Rightarrow> None
     | t # rest \<Rightarrow> Some (map (\<lambda>t. (t, True)) (woken @ [t]) @ map (\<lambda>t. (t, False)) rest))"
  unfolding queue_shape_def
  by (induction woken arbitrary: ws) (auto split: list.splits)

text \<open>Timed facts: every grant of the last second still holds its permit.\<close>

definition grants_hold_permits :: "'t limiter \<Rightarrow> bool" where
  "grants_hold_permits l \<longleftrightarrow> (\<forall>g\<in>set (granted l). snd g \<le> loop_clock l) \<and>
     (\<forall>c\<ge>loop_clock l. length (filter (\<lambda>g. c < snd g + one_second) (granted l))
        \<le> length (filter (\<lambda>d. c < d) (release_due l)))"

definition window_count :: "nat \<Rightarrow> 't limiter \<Rightarrow> nat" where
  "window_count a l = length (filter (\<lambda>g. a \<le> snd g \<and> snd g < a + one_second) (granted l))"

definition limiter_timed :: "nat \<Rightarrow> 't limiter \<Rightarrow> bool" where
  "limiter_timed n l \<longleftrightarrow> (\<forall>d\<in>set (release_due l). d \<le> loop_clock l + one_second) \<and>
     grants_hold_permits l \<and> (\<forall>a. window_count a l \<le> n)"

lemma limiter_timed_cong:
  "granted m = granted l \<Longrightarrow> release_due m = release_due l \<Longrightarrow> loop_clock m = loop_clock l \<Longrightarrow>
    limiter_timed n m = limiter_timed n l"
  by (simp add: limiter_timed_def grants_hold_permits_def window_count_def)

definition limiter_inv :: "nat \<Rightarrow> 't limiter \<Rightarrow> bool" where
  "limiter_inv n l \<longleftrightarrow>
     (\<exists>woken asleep. queue_shape (sem_waiters l) woken asleep \<and>
        sem_value l + length woken + length (release_due l) = n \<and>
        (asleep \<noteq> [] \<longrightarrow> sem_value l = 0 \<or> woken \<noteq> []) \<and>
        map fst (granted l) @ woken @ asleep = arrived l) \<and>
     limiter_timed n l"

lemma limiter_invI:
  assumes "queue_shape (sem_waiters l) woken asleep"
    and "sem_value l + length woken + length (release_due l) = n"
    and "asleep \<noteq> [] \<Longrightarrow> sem_value l = 0 \<or> woken \<noteq> []"
    and "map fst (granted l) @ woken @ asleep = arrived l"
    and "limiter_timed n l"
  shows "limiter_inv n l"
  using assms unfolding limiter_inv_def by blast

lemma limiter_invE:
  assumes "limiter_inv n l"
  obtains woken asleep where "queue_shape (sem_waiters l) woken asleep"
    "sem_value l + length woken + length (release_due l) = n"
    "asleep \<noteq> [] \<Longrightarrow> sem_value l = 0 \<or> woken \<noteq> []"
    "map fst (granted l) @ woken @ asleep = arrived l"
    "limiter_timed n l"
  using assms unfolding limiter_inv_def by blast

text \<open>A grant that finds fewer than \<open>n\<close> permits out keeps the timed facts.\<close>

lemma grant_timed:
  assumes timed: "limiter_timed n l" and free: "length (release_due l) < n"
  shows "limiter_timed n (limiter_grant t l)"
proof -
  have hold: "grants_hold_permits l" using timed by (simp add: limiter_timed_def)
  have "window_count a (limiter_grant t l) \<le> n" for a
  proof (cases "a \<le> loop_clock l \<and> loop_clock l < a + one_second")
    case True
    have "window_count a l \<le> length (filter (\<lambda>g. loop_clock l < snd g + one_second) (granted l))"
      unfolding window_count_def by (rule filter_length_mono) (use True in auto)
    also have "\<dots> \<le> length (filter (\<lambda>d. loop_clock l < d) (release_due l))"
      using hold by (simp add: grants_hold_permits_def)
    also have "\<dots> \<le> length (release_due l)" by (rule length_filter_le)
    finally show ?thesis using free by (simp add: window_count_def limiter_grant_def)
  next
    case False
    then have "window_count a (limiter_grant t l) = window_count a l"
      by (auto simp: window_count_def limiter_grant_def)
    then show ?thesis using timed by (simp add: limiter_timed_def)
  qed
  moreover have "grants_hold_permits (limiter_grant t l)"
    using hold by (auto simp: grants_hold_permits_def limiter_grant_def)
  moreover have "\<forall>d\<in>set (release_due (limiter_grant t l)).
      d \<le> loop_clock (limiter_grant t l) + one_second"
    using timed by (simp add: limiter_timed_def limiter_grant_def)
  ultimately show ?thesis by (simp add: limiter_timed_def)
qed

lemma limiter_grant_fields [simp]:
  "sem_value (limiter_grant t l) = sem_value l"
  "sem_waiters (limiter_grant t l) = sem_waiters l"
  "arrived (limiter_grant t l) = arrived l"
  "map fst (granted (limiter_grant t l)) = map fst (granted l) @ [t]"
  "length (release_due (limiter_grant t l)) = Suc (length (release_due l))"
  by (simp_all add: limiter_grant_def)

lemma limiter_inv_new: "limiter_inv n (new_limiter c n)"
  by (rule limiter_invI [of _ "[]" "[]"])
    (simp_all add: new_limiter_def queue_shape_def limiter_timed_def grants_hold_permits_def
      window_count_def)

lemma limiter_inv_arrive:
  assumes "limiter_inv n l"
  shows "limiter_inv n (acquire_start t l)"
  using assms
proof (cases rule: limiter_invE)
  case (1 woken asleep)
  show ?thesis
  proof (cases "sem_locked l")
    case True
    let ?l = "l\<lparr>arrived := arrived l @ [t], sem_waiters := sem_waiters l @ [(t, False)]\<rparr>"
    have start: "acquire_start t l = ?l" using True by (simp add: acquire_start_def sem_locked_def)
    show ?thesis unfolding start
    proof (rule limiter_invI)
      show "queue_shape (sem_waiters ?l) woken (asleep @ [t])"
        using 1(1) by (simp add: queue_shape_def)
      show "sem_value ?l = 0 \<or> woken \<noteq> []"
        using True 1(1,3) by (cases asleep; cases woken) (auto simp: sem_locked_def queue_shape_def)
      show "map fst (granted ?l) @ woken @ asleep @ [t] = arrived ?l"
        using 1(4) by simp
      show "limiter_timed n ?l" using 1(5) by (subst limiter_timed_cong [of _ l]) simp_all
    qed (use 1(2) in simp)
  next
    case False
    then have empty: "sem_waiters l = []" "0 < sem_value l" "woken = []" "asleep = []"
      using 1(1) by (auto simp: sem_locked_def queue_shape_def)
    let ?l = "l\<lparr>arrived := arrived l @ [t], sem_value := sem_value l - 1\<rparr>"
    have start: "acquire_start t l = limiter_grant t ?l"
      using False by (simp add: acquire_start_def sem_locked_def Let_def)
    have "limiter_timed n ?l" using 1(5) by (subst limiter_timed_cong [of _ l]) simp_all
    then have "limiter_timed n (limiter_grant t ?l)"
      by (rule grant_timed) (use 1(2) empty in simp)
    then show ?thesis unfolding start
      by (intro limiter_invI [of _ "[]" "[]"])
        (use 1(2,4) empty in \<open>simp_all add: queue_shape_def\<close>)
  qed
qed

text \<open>Waking the next waiter moves a permit to it.\<close>

lemma wake_up_next_fields:
  assumes "queue_shape (sem_waiters l) woken asleep"
  shows "wake_up_next l = (case asleep of [] \<Rightarrow> l
     | t # rest \<Rightarrow> l\<lparr>sem_value := sem_value l - 1,
         sem_waiters := map (\<lambda>t. (t, True)) (woken @ [t]) @ map (\<lambda>t. (t, False)) rest\<rparr>)"
  using wake_first_shape [OF assms] by (simp add: wake_up_next_def split: list.splits)

lemma timer_timed:
  assumes timed: "limiter_timed n l" and d: "d \<le> loop_clock l"
  shows "limiter_timed n (l\<lparr>release_due := remove1 d (release_due l)\<rparr>)"
proof -
  have keep: "filter (\<lambda>x. c < x) (remove1 d xs) = filter (\<lambda>x. c < x) xs" if "d \<le> c" for c xs
    using that by (induction xs) auto
  then have "grants_hold_permits (l\<lparr>release_due := remove1 d (release_due l)\<rparr>)"
    using timed d by (simp add: limiter_timed_def grants_hold_permits_def)
  moreover have "\<forall>x\<in>set (remove1 d (release_due l)). x \<le> loop_clock l + one_second"
    using timed by (meson limiter_timed_def notin_set_remove1)
  ultimately show ?thesis
    using timed by (simp add: limiter_timed_def window_count_def)
qed

lemma limiter_inv_timer:
  assumes "limiter_inv n l" and d: "d \<in> set (release_due l)" "d \<le> loop_clock l"
  shows "limiter_inv n (timer_fires d l)"
  using assms(1)
proof (cases rule: limiter_invE)
  case (1 woken asleep)
  let ?r = "l\<lparr>release_due := remove1 d (release_due l)\<rparr>"
  let ?l = "?r\<lparr>sem_value := sem_value l + 1\<rparr>"
  have shape: "queue_shape (sem_waiters ?l) woken asleep" using 1(1) by simp
  have len: "Suc (length (remove1 d (release_due l))) = length (release_due l)"
    using d(1) length_pos_if_in_set [OF d(1)] by (simp add: length_remove1)
  have timed: "limiter_timed n ?r" by (rule timer_timed [OF 1(5) d(2)])
  have fires: "timer_fires d l = wake_up_next ?l" by (simp add: timer_fires_def sem_release_def)
  show ?thesis
  proof (cases asleep)
    case Nil
    then have f: "timer_fires d l = ?l" using fires wake_up_next_fields [OF shape] by simp
    have "limiter_timed n ?l" using timed by (subst limiter_timed_cong [of _ ?r]) simp_all
    then show ?thesis unfolding f
      by (intro limiter_invI [of _ woken "[]"]) (use 1(1,2,4) len Nil in simp_all)
  next
    case (Cons t rest)
    let ?m = "?r\<lparr>sem_value := sem_value l,
         sem_waiters := map (\<lambda>t. (t, True)) (woken @ [t]) @ map (\<lambda>t. (t, False)) rest\<rparr>"
    have f: "timer_fires d l = ?m" using fires wake_up_next_fields [OF shape] Cons by simp
    have "limiter_timed n ?m" using timed by (subst limiter_timed_cong [of _ ?r]) simp_all
    then show ?thesis unfolding f
      by (intro limiter_invI [of _ "woken @ [t]" rest])
        (use 1(2,4) len Cons in \<open>simp_all add: queue_shape_def\<close>)
  qed
qed

lemma limiter_inv_resume:
  assumes "limiter_inv n l" and head: "sem_waiters l = (t, True) # ws"
  shows "limiter_inv n (acquire_resume t l)"
  using assms(1)
proof (cases rule: limiter_invE)
  case (1 woken0 asleep)
  obtain woken where w: "woken0 = t # woken" "queue_shape ws woken asleep"
    using 1(1) head by (cases woken0; cases asleep) (auto simp: queue_shape_def)
  let ?l = "l\<lparr>sem_waiters := ws\<rparr>"
  have shape: "queue_shape (sem_waiters ?l) woken asleep" using w(2) by simp
  have free: "length (release_due l) < n" using 1(2) w(1) by simp
  show ?thesis
  proof (cases "0 < sem_value l \<and> asleep \<noteq> []")
    case False
    then have f: "acquire_resume t l = limiter_grant t ?l"
      using head wake_up_next_fields [OF shape] by (auto simp: acquire_resume_def Let_def)
    have "limiter_timed n ?l" using 1(5) by (subst limiter_timed_cong [of _ l]) simp_all
    then have "limiter_timed n (limiter_grant t ?l)" by (rule grant_timed) (use free in simp)
    then show ?thesis unfolding f
      by (intro limiter_invI [of _ woken asleep]) (use 1(2,4) w False in auto)
  next
    case True
    then obtain u rest where u: "asleep = u # rest" by (cases asleep) auto
    let ?m = "l\<lparr>sem_value := sem_value l - 1,
         sem_waiters := map (\<lambda>t. (t, True)) (woken @ [u]) @ map (\<lambda>t. (t, False)) rest\<rparr>"
    have f: "acquire_resume t l = limiter_grant t ?m"
      using True head u wake_up_next_fields [OF shape] by (simp add: acquire_resume_def Let_def)
    have "limiter_timed n ?m" using 1(5) by (subst limiter_timed_cong [of _ l]) simp_all
    then have "limiter_timed n (limiter_grant t ?m)" by (rule grant_timed) (use free in simp)
    then show ?thesis unfolding f
      by (intro limiter_invI [of _ "woken @ [u]" rest])
        (use 1(2,4) w u True in \<open>simp_all add: queue_shape_def\<close>)
  qed
qed

lemma limiter_inv_tick:
  assumes "limiter_inv n l" and "loop_clock l \<le> c"
  shows "limiter_inv n (l\<lparr>loop_clock := c\<rparr>)"
  using assms(1)
proof (cases rule: limiter_invE)
  case (1 woken asleep)
  have "limiter_timed n (l\<lparr>loop_clock := c\<rparr>)"
    using 1(5) assms(2)
    by (fastforce simp: limiter_timed_def grants_hold_permits_def window_count_def)
  then show ?thesis using 1(1-4) by (intro limiter_invI [of _ woken asleep]) simp_all
qed

lemma limiter_reach_inv: "limiter_reach n l \<Longrightarrow> limiter_inv n l"
proof (induction rule: limiter_reach.induct)
  case start
  show ?case by (rule limiter_inv_new)
next
  case (step l l')
  from step.hyps(2) step.IH show ?case
    by (cases rule: limiter_step.cases)
      (simp_all add: limiter_inv_arrive limiter_inv_resume limiter_inv_timer limiter_inv_tick)
qed

section \<open>Every caller gets its turn\<close>

text \<open>The steps of the event loop other than new calls.\<close>

inductive limiter_internal :: "'t limiter \<Rightarrow> 't limiter \<Rightarrow> bool" where
  resumes: "sem_waiters l = (t, True) # ws \<Longrightarrow> limiter_internal l (acquire_resume t l)"
| fires: "d \<in> set (release_due l) \<Longrightarrow> d \<le> loop_clock l \<Longrightarrow> limiter_internal l (timer_fires d l)"
| ticks: "loop_clock l \<le> c \<Longrightarrow> limiter_internal l (l\<lparr>loop_clock := c\<rparr>)"

lemma limiter_internal_step: "limiter_internal l l' \<Longrightarrow> limiter_step l l'"
  by (cases rule: limiter_internal.cases) (auto intro: limiter_step.intros)

lemma limiter_internal_reach:
  "limiter_internal\<^sup>*\<^sup>* l l' \<Longrightarrow> limiter_reach n l \<Longrightarrow> limiter_reach n l'"
  by (induction rule: rtranclp_induct) (auto intro: limiter_reach.step limiter_internal_step)

lemma wake_first_keys: "wake_first ws = Some vs \<Longrightarrow> map fst vs = map fst ws"
  by (induction ws arbitrary: vs rule: wake_first.induct) (auto split: if_splits)

lemma acquire_resume_books:
  "granted (acquire_resume t l) = granted l @ [(t, loop_clock l)]"
  "map fst (sem_waiters (acquire_resume t l)) = map fst (tl (sem_waiters l))"
  by (auto simp: acquire_resume_def limiter_grant_def wake_up_next_def Let_def
      dest: wake_first_keys split: option.splits)

lemma head_is_granted:
  assumes "limiter_reach n l" and "0 < n" and "sem_waiters l = (t, b) # ws"
  shows "\<exists>l'. limiter_internal\<^sup>*\<^sup>* l l' \<and> t \<in> fst ` set (granted l') \<and> map fst (sem_waiters l') = map fst ws"
proof (cases b)
  case True
  then have "limiter_internal l (acquire_resume t l)" using assms(3) by (auto intro: resumes)
  then show ?thesis
    using acquire_resume_books [of t l] assms(3) by (intro exI [of _ "acquire_resume t l"]) auto
next
  case False
  from limiter_reach_inv [OF assms(1)] obtain d where
    d: "d \<in> set (release_due l)" and free: "sem_value l = 0"
  proof (cases rule: limiter_invE)
    case (1 woken asleep)
    have "woken = []" using 1(1) assms(3) False by (cases woken) (auto simp: queue_shape_def)
    moreover from this have "asleep \<noteq> []" using 1(1) assms(3) by (auto simp: queue_shape_def)
    ultimately show thesis using 1(2,3) assms(2) that by (cases "release_due l") auto
  qed
  let ?l1 = "l\<lparr>loop_clock := max (loop_clock l) d\<rparr>"
  let ?l2 = "timer_fires d ?l1"
  have "limiter_internal l ?l1" by (rule ticks) simp
  moreover have "limiter_internal ?l1 ?l2" by (rule fires) (use d in auto)
  moreover have waiters: "sem_waiters ?l2 = (t, True) # ws"
    using assms(3) False
    by (simp add: timer_fires_def sem_release_def wake_up_next_def)
  then have "limiter_internal ?l2 (acquire_resume t ?l2)" by (rule resumes)
  ultimately have "limiter_internal\<^sup>*\<^sup>* l (acquire_resume t ?l2)"
    by (meson converse_rtranclp_into_rtranclp r_into_rtranclp)
  then show ?thesis
    using acquire_resume_books [of t ?l2] waiters
    by (intro exI [of _ "acquire_resume t ?l2"]) auto
qed

lemma caller_is_granted:
  assumes "limiter_reach n l" and "0 < n" and "t \<in> set (arrived l)"
  shows "\<exists>l'. limiter_internal\<^sup>*\<^sup>* l l' \<and> t \<in> fst ` set (granted l')"
proof -
  have books: "map fst (granted m) @ map fst (sem_waiters m) = arrived m" if "limiter_reach n m" for m
    using limiter_reach_inv [OF that] by (cases rule: limiter_invE) (simp add: queue_shape_def comp_def)
  have "t \<in> fst ` set (granted l) \<or> t \<in> fst ` set (sem_waiters l)"
    using books [OF assms(1)] assms(3) by (metis Un_iff set_append set_map)
  moreover have "\<exists>l'. limiter_internal\<^sup>*\<^sup>* l l' \<and> t \<in> fst ` set (granted l')"
    if "t \<in> fst ` set (sem_waiters l)"
    using assms(1) that
  proof (induction "length (sem_waiters l)" arbitrary: l)
    case 0
    then show ?case by simp
  next
    case (Suc n')
    then obtain u b ws where w: "sem_waiters l = (u, b) # ws" by (cases "sem_waiters l") auto
    obtain l1 where l1: "limiter_internal\<^sup>*\<^sup>* l l1" "u \<in> fst ` set (granted l1)"
      "map fst (sem_waiters l1) = map fst ws"
      using head_is_granted [OF Suc.prems(1) assms(2) w] by blast
    show ?case
    proof (cases "t = u")
      case True
      then show ?thesis using l1 by blast
    next
      case False
      have "n' = length (sem_waiters l1)" using Suc.hyps(2) w map_eq_imp_length_eq [OF l1(3)] by simp
      moreover have "t \<in> fst ` set (sem_waiters l1)"
        using False Suc.prems(2) w arg_cong [OF l1(3), of set] by auto
      ultimately obtain l2 where "limiter_internal\<^sup>*\<^sup>* l1 l2" "t \<in> fst ` set (granted l2)"
        using Suc.hyps(1) limiter_internal_reach [OF l1(1) Suc.prems(1)] by blast
      then show ?thesis using l1(1) by (meson rtranclp_trans)
    qed
  qed
  ultimately show ?thesis by blast
qed

section \<open>Properties\<close>

text \<open>
  C9: the rate of a company: in no window of one second, wherever it starts, are more than \<open>n\<close>
  acquisitions completed, whatever the arrivals and the delays of the event loop.
\<close>

theorem limiter_bounds_rate:
  assumes "limiter_reach n l"
  shows "length (filter (\<lambda>g. a \<le> snd g \<and> snd g < a + one_second) (granted l)) \<le> n"
  using limiter_reach_inv [OF assms] by (simp add: limiter_inv_def limiter_timed_def window_count_def)

lemma limiter_run_example:
  "limiter_reach 1 (acquire_start (6 :: nat) (acquire_start 5 (new_limiter 0 1)))"
  by (rule limiter_reach.step [OF limiter_reach.step [OF limiter_reach.start]]) (rule arrive)+

theorem limiter_bounds_rate_witness:
  "length (filter (\<lambda>g. 0 \<le> snd g \<and> snd g < 0 + one_second)
     (granted (acquire_start (6 :: nat) (acquire_start 5 (new_limiter 0 1))))) \<le> 1"
  by (rule limiter_bounds_rate [OF limiter_run_example])

text \<open>
  C10: fairness and progress.  Acquisitions complete in the order of the calls; and a waiting task is
  never forgotten: when the first of them has not been woken, no permit is free and, with a positive
  limit, a timer that returns a permit is set and is due within one second.
\<close>

theorem limiter_fair_and_live:
  assumes "limiter_reach n l"
  shows "map fst (granted l) @ map fst (sem_waiters l) = arrived l \<and>
    (\<forall>t ws. sem_waiters l = (t, False) # ws \<longrightarrow> 0 < n \<longrightarrow> sem_value l = 0 \<and>
       (\<exists>d\<in>set (release_due l). d \<le> loop_clock l + one_second))"
  using limiter_reach_inv [OF assms]
proof (cases rule: limiter_invE)
  case (1 woken asleep)
  have "sem_value l = 0 \<and> (\<exists>d\<in>set (release_due l). d \<le> loop_clock l + one_second)"
    if head: "sem_waiters l = (t, False) # ws" and n: "0 < n" for t ws
  proof -
    have none: "woken = []" using 1(1) head by (cases woken) (auto simp: queue_shape_def)
    then have "asleep \<noteq> []" using 1(1) head by (auto simp: queue_shape_def)
    then have none_free: "sem_value l = 0" using 1(3) none by blast
    then have "release_due l \<noteq> []" using 1(2) none n by auto
    then show ?thesis using none_free 1(5) by (meson hd_in_set limiter_timed_def)
  qed
  moreover have "map fst (granted l) @ map fst (sem_waiters l) = arrived l"
    using 1(1,4) by (simp add: queue_shape_def comp_def)
  ultimately show ?thesis by blast
qed

theorem limiter_fair_and_live_witness:
  "sem_value (acquire_start (6 :: nat) (acquire_start 5 (new_limiter 0 1))) = 0 \<and>
   map fst (granted (acquire_start (6 :: nat) (acquire_start 5 (new_limiter 0 1)))) @ [6] = [5, 6]"
proof -
  have "sem_waiters (acquire_start (6 :: nat) (acquire_start 5 (new_limiter 0 1))) = [(6, False)]"
    "arrived (acquire_start (6 :: nat) (acquire_start 5 (new_limiter 0 1))) = [5, 6]"
    by (simp_all add: acquire_start_def new_limiter_def sem_locked_def limiter_grant_def Let_def)
  then show ?thesis using limiter_fair_and_live [OF limiter_run_example] by auto
qed

end
