(* ===== verification/Scrape_Worker.thy ===== *)
theory Scrape_Worker
  imports Feed_Fetch Redis_Client Company_Grouping Rate_Limiter
begin

text \<open>
  \<^verbatim>\<open>worker-rss-scrapper/app/services/scrape_job_service.py\<close>: from a message of the request stream to the
  published results and the acknowledgement.  The functions of one feed are definitions; the
  concurrency (\<^verbatim>\<open>asyncio.gather\<close> over messages, companies and feeds) is a step relation whose steps are
  the parts between two suspensions that touch shared state.  An exception in one feed ends its
  message's \<^verbatim>\<open>gather\<close>, so the acknowledgement is never reached, while the other feeds go on.
\<close>

section \<open>One feed\<close>

definition result_stream :: "bool \<Rightarrow> result_status \<Rightarrow> string" where
  "result_stream ingest status =
     (if status = ResultError then ''error_feeds_parsing''
      else if ingest then ''rss_ingest_results'' else ''rss_check_results'')"

text \<open>What \<^verbatim>\<open>_process_feed\<close> publishes, or the exception of the fetch.\<close>

definition feed_message :: "fetch_env \<Rightarrow> job_request \<Rightarrow> job_feed \<Rightarrow> py_exn + (string \<times> scrape_result)" where
  "feed_message env scrape_job feed =
     and_then (fst (fetch_feed_result env feed (jr_ingest scrape_job)))
       (\<lambda>result. let result' = result\<lparr>res_job_id := jr_job_id scrape_job, res_ingest := jr_ingest scrape_job\<rparr>
          in Inr (result_stream (jr_ingest scrape_job) (res_status result'), result'))"

datatype feed_failure = FetchRaised py_exn | PublishRaised redis_exn

text \<open>\<^verbatim>\<open>_process_feed\<close> after the rate limiter: the outcome and the entries appended to the streams.\<close>

definition process_feed ::
  "fetch_env \<Rightarrow> (nat \<Rightarrow> nat \<Rightarrow> unit redis_outcome) \<Rightarrow> redis_cache \<Rightarrow> job_request \<Rightarrow> job_feed
     \<Rightarrow> (feed_failure + unit) \<times> (string \<times> scrape_result) list \<times> redis_cache" where
  "process_feed env xadd c scrape_job feed =
     (case feed_message env scrape_job feed of
        Inl e \<Rightarrow> (Inl (FetchRaised e), [], c)
      | Inr (stream, result) \<Rightarrow>
          (case publish_payload stream xadd c of
             (res, n, c') \<Rightarrow>
               ((case res of Inl e \<Rightarrow> Inl (PublishRaised e) | Inr u \<Rightarrow> Inr u),
                replicate n (stream, result), c')))"

text \<open>A published result is about the feed and the job it was asked for.\<close>

definition answers :: "job_request \<Rightarrow> job_feed \<Rightarrow> string \<Rightarrow> scrape_result \<Rightarrow> bool" where
  "answers scrape_job feed stream r \<longleftrightarrow>
     stream = result_stream (jr_ingest scrape_job) (res_status r) \<and>
     res_job_id r = jr_job_id scrape_job \<and> res_ingest r = jr_ingest scrape_job \<and>
     res_feed_id r = jf_feed_id feed \<and> res_feed_url r = jf_feed_url feed \<and>
     res_fetchprotection r = jf_fetchprotection feed \<and>
     (res_status r \<noteq> Success \<longrightarrow> res_sources r = []) \<and>
     list_all normal_source (res_sources r) \<and> distinct (map src_url (res_sources r))"

lemma feed_message_answers:
  assumes "feed_message env scrape_job feed = Inr (stream, r)"
  shows "answers scrape_job feed stream r"
proof -
  obtain r0 attempts where f:
    "fetch_feed_result env feed (jr_ingest scrape_job) = (Inr r0, attempts)"
    and r: "r = r0\<lparr>res_job_id := jr_job_id scrape_job, res_ingest := jr_ingest scrape_job\<rparr>"
      "stream = result_stream (jr_ingest scrape_job) (res_status r0)"
    using assms by (cases "fetch_feed_result env feed (jr_ingest scrape_job)")
      (auto simp: feed_message_def Let_def and_then_eq_Inr)
  show ?thesis
    using fetch_feed_result_facts [OF f] r
    by (cases "res_status r0 = Success") (simp_all add: answers_def)
qed

lemma process_feed_entries:
  assumes "process_feed env xadd c scrape_job feed = (res, entries, c')"
  shows "length entries \<le> 2 \<and> (res = Inr () \<longrightarrow> 1 \<le> length entries) \<and>
    (\<forall>(stream, r)\<in>set entries. answers scrape_job feed stream r)"
proof (cases "feed_message env scrape_job feed")
  case (Inl e)
  then show ?thesis using assms by (auto simp: process_feed_def)
next
  case (Inr m)
  obtain stream r where m: "m = (stream, r)" by (cases m)
  obtain pres n c'' where pub: "publish_payload stream xadd c = (pres, n, c'')"
    by (cases "publish_payload stream xadd c") auto
  have "entries = replicate n (stream, r)" "res = Inr () \<longleftrightarrow> pres = Inr ()"
    using assms Inr m pub by (auto simp: process_feed_def split: sum.splits unit.splits)
  then show ?thesis
    using publish_payload_executions [OF pub] feed_message_answers [of env scrape_job feed stream r] Inr m
    by (auto simp: in_set_replicate)
qed

section \<open>Messages in flight\<close>

text \<open>A feed waits for the rate limiter, then is fetched and published, or its exception escapes.\<close>

datatype feed_task = Waiting | Acquiring | Published | Crashed

type_synonym task_id = "nat \<times> nat"

record job_run =
  run_message :: string
  run_request :: job_request
  run_feeds :: "job_feed list"
  run_tasks :: "feed_task list"
  run_closed :: bool

record worker_state =
  ws_clock :: nat
  ws_limiters :: "string \<rightharpoonup> task_id limiter"
  ws_runs :: "job_run list"
  ws_log :: "(task_id \<times> string \<times> scrape_result) list"
  ws_acked :: "string list"
  ws_rejected :: "string list"

text \<open>
  \<open>run_closed\<close> says that the acknowledgement was sent.  \<open>ws_log\<close> holds the entries of the three result
  streams with the task that published them, \<open>ws_acked\<close> and \<open>ws_rejected\<close> the acknowledged
  messages of valid and of invalid requests.
\<close>

definition worker_init :: worker_state where
  "worker_init = \<lparr>ws_clock = 0, ws_limiters = Map.empty, ws_runs = [], ws_log = [],
     ws_acked = [], ws_rejected = []\<rparr>"

definition get_or_create_company_rate_limiter ::
  "nat \<Rightarrow> nat \<Rightarrow> string \<Rightarrow> (string \<rightharpoonup> task_id limiter) \<Rightarrow> (string \<rightharpoonup> task_id limiter)" where
  "get_or_create_company_rate_limiter company_max_rps clock company_key company_rate_limiters =
     (case company_rate_limiters company_key of
        Some _ \<Rightarrow> company_rate_limiters
      | None \<Rightarrow> company_rate_limiters(company_key \<mapsto> new_limiter clock company_max_rps))"

text \<open>
  A payload read from the stream is of the shape of a request or not; validation also checks the
  field constraints.
\<close>

definition validate_request :: "job_request option \<Rightarrow> py_exn + job_request" where
  "validate_request payload = (case payload of
     None \<Rightarrow> Inl (ValidationError ''RssScrapeJobRequestSchema'') | Some r \<Rightarrow> make_job_request r)"

text \<open>\<^verbatim>\<open>_process_job_message\<close> up to its first suspension: the pools of the companies are set up.\<close>

definition start_job :: "nat \<Rightarrow> string \<Rightarrow> job_request \<Rightarrow> worker_state \<Rightarrow> worker_state" where
  "start_job company_max_rps message_id scrape_job s =
     (let feeds_by_company = group_feeds_by_company (jr_feeds scrape_job);
          feeds = concat (map snd feeds_by_company)
      in s\<lparr>ws_limiters := fold (get_or_create_company_rate_limiter company_max_rps (ws_clock s))
             (map fst feeds_by_company) (ws_limiters s),
           ws_runs := ws_runs s @ [\<lparr>run_message = message_id, run_request = scrape_job, run_feeds = feeds,
             run_tasks = replicate (length feeds) Waiting, run_closed = False\<rparr>]\<rparr>)"

text \<open>An invalid payload is acknowledged; \<open>n\<close> is how often the server executed the command.\<close>

definition receive_message ::
  "nat \<Rightarrow> string \<Rightarrow> job_request option \<Rightarrow> nat \<Rightarrow> worker_state \<Rightarrow> worker_state" where
  "receive_message company_max_rps message_id payload n s =
     (case validate_request payload of
        Inl _ \<Rightarrow> s\<lparr>ws_rejected := ws_rejected s @ replicate (min n 1) message_id\<rparr>
      | Inr scrape_job \<Rightarrow> start_job company_max_rps message_id scrape_job s)"

definition task_feed :: "worker_state \<Rightarrow> task_id \<Rightarrow> job_feed" where
  "task_feed s t = run_feeds (ws_runs s ! fst t) ! snd t"

definition task_key :: "worker_state \<Rightarrow> task_id \<Rightarrow> string" where
  "task_key s t = resolve_company_key (task_feed s t)"

definition is_task :: "worker_state \<Rightarrow> task_id \<Rightarrow> bool" where
  "is_task s t \<longleftrightarrow> fst t < length (ws_runs s) \<and> snd t < length (run_tasks (ws_runs s ! fst t))"

definition task_state :: "worker_state \<Rightarrow> task_id \<Rightarrow> feed_task" where
  "task_state s t = run_tasks (ws_runs s ! fst t) ! snd t"

definition set_task :: "task_id \<Rightarrow> feed_task \<Rightarrow> worker_state \<Rightarrow> worker_state" where
  "set_task t st s = s\<lparr>ws_runs := (ws_runs s)[fst t := (ws_runs s ! fst t)
     \<lparr>run_tasks := (run_tasks (ws_runs s ! fst t))[snd t := st]\<rparr>]\<rparr>"

definition set_limiter :: "string \<Rightarrow> task_id limiter \<Rightarrow> worker_state \<Rightarrow> worker_state" where
  "set_limiter key l s = s\<lparr>ws_limiters := (ws_limiters s)(key \<mapsto> l)\<rparr>"

text \<open>The end of a feed: its entries go to the streams and its outcome is noted.\<close>

definition end_feed ::
  "task_id \<Rightarrow> (feed_failure + unit) \<times> (string \<times> scrape_result) list \<times> redis_cache
     \<Rightarrow> worker_state \<Rightarrow> worker_state" where
  "end_feed t outcome s = (case outcome of (res, entries, _) \<Rightarrow>
     (set_task t (case res of Inr _ \<Rightarrow> Published | Inl _ \<Rightarrow> Crashed) s)
       \<lparr>ws_log := ws_log s @ map (Pair t) entries\<rparr>)"

text \<open>The acknowledgement; \<open>n\<close> is how often the server executed it.\<close>

definition close_run :: "nat \<Rightarrow> nat \<Rightarrow> worker_state \<Rightarrow> worker_state" where
  "close_run i n s = s\<lparr>ws_runs := (ws_runs s)[i := (ws_runs s ! i)\<lparr>run_closed := True\<rparr>],
     ws_acked := ws_acked s @ replicate (min n 1) (run_message (ws_runs s ! i))\<rparr>"

definition advance_clock :: "nat \<Rightarrow> worker_state \<Rightarrow> worker_state" where
  "advance_clock clock s = s\<lparr>ws_clock := clock,
     ws_limiters := (\<lambda>k. map_option (\<lambda>l. l\<lparr>loop_clock := clock\<rparr>) (ws_limiters s k))\<rparr>"

text \<open>
  The steps.  The environment of a fetch and the replies of Redis are arbitrary at every step.
\<close>

inductive worker_step :: "nat \<Rightarrow> worker_state \<Rightarrow> worker_state \<Rightarrow> bool" for company_max_rps where
  receive: "worker_step company_max_rps s (receive_message company_max_rps message_id payload n s)"
| acquire: "is_task s t \<Longrightarrow> task_state s t = Waiting \<Longrightarrow> ws_limiters s (task_key s t) = Some l \<Longrightarrow>
    worker_step company_max_rps s (set_limiter (task_key s t) (acquire_start t l) (set_task t Acquiring s))"
| wake: "ws_limiters s key = Some l \<Longrightarrow> sem_waiters l = (t, True) # ws \<Longrightarrow>
    worker_step company_max_rps s (set_limiter key (acquire_resume t l) s)"
| permit: "ws_limiters s key = Some l \<Longrightarrow> d \<in> set (release_due l) \<Longrightarrow> d \<le> loop_clock l \<Longrightarrow>
    worker_step company_max_rps s (set_limiter key (timer_fires d l) s)"
| clock: "ws_clock s \<le> c \<Longrightarrow> worker_step company_max_rps s (advance_clock c s)"
| fetched: "is_task s t \<Longrightarrow> task_state s t = Acquiring \<Longrightarrow> ws_limiters s (task_key s t) = Some l \<Longrightarrow>
    t \<in> fst ` set (granted l) \<Longrightarrow>
    worker_step company_max_rps s
      (end_feed t (process_feed env xadd cache (run_request (ws_runs s ! fst t)) (task_feed s t)) s)"
| ack: "i < length (ws_runs s) \<Longrightarrow> \<not> run_closed (ws_runs s ! i) \<Longrightarrow>
    list_all (\<lambda>st. st = Published) (run_tasks (ws_runs s ! i)) \<Longrightarrow>
    ack_scrape_job (run_message (ws_runs s ! i)) xack cache = (res, n, cache') \<Longrightarrow>
    worker_step company_max_rps s (close_run i n s)"

inductive worker_reach :: "nat \<Rightarrow> worker_state \<Rightarrow> bool" for company_max_rps where
  init: "worker_reach company_max_rps worker_init"
| step: "worker_reach company_max_rps s \<Longrightarrow> worker_step company_max_rps s s' \<Longrightarrow>
    worker_reach company_max_rps s'"

section \<open>The invariant\<close>

definition entries_of :: "task_id \<Rightarrow> worker_state \<Rightarrow> (task_id \<times> string \<times> scrape_result) list" where
  "entries_of t s = filter (\<lambda>e. fst e = t) (ws_log s)"

definition task_ok :: "worker_state \<Rightarrow> task_id \<Rightarrow> bool" where
  "task_ok s t \<longleftrightarrow> length (entries_of t s) \<le> 2 \<and>
     (\<forall>(_, stream, r)\<in>set (entries_of t s). answers (run_request (ws_runs s ! fst t)) (task_feed s t) stream r) \<and>
     (task_state s t = Published \<longrightarrow> entries_of t s \<noteq> []) \<and>
     (task_state s t \<in> {Waiting, Acquiring} \<longrightarrow> entries_of t s = [])"

definition run_ok :: "job_run \<Rightarrow> bool" where
  "run_ok run \<longleftrightarrow> length (run_tasks run) = length (run_feeds run) \<and>
     mset (run_feeds run) = mset (jr_feeds (run_request run)) \<and> valid_job_request (run_request run) \<and>
     (run_closed run \<longrightarrow> list_all (\<lambda>st. st = Published) (run_tasks run))"

definition limiters_ok :: "nat \<Rightarrow> worker_state \<Rightarrow> bool" where
  "limiters_ok n s \<longleftrightarrow> (\<forall>k l. ws_limiters s k = Some l \<longrightarrow>
     limiter_reach n l \<and> loop_clock l = ws_clock s)"

text \<open>A task that waits is in the books of its company's limiter, a finished one was granted there.\<close>

definition booked :: "feed_task \<Rightarrow> task_id \<Rightarrow> task_id limiter \<Rightarrow> bool" where
  "booked st t l = (case st of Waiting \<Rightarrow> True | Acquiring \<Rightarrow> t \<in> set (arrived l)
     | _ \<Rightarrow> t \<in> fst ` set (granted l))"

definition queued_ok :: "worker_state \<Rightarrow> bool" where
  "queued_ok s \<longleftrightarrow> (\<forall>t. is_task s t \<longrightarrow> (\<exists>l. ws_limiters s (task_key s t) = Some l \<and>
     booked (task_state s t) t l))"

definition worker_inv :: "nat \<Rightarrow> worker_state \<Rightarrow> bool" where
  "worker_inv n s \<longleftrightarrow> (\<forall>run\<in>set (ws_runs s). run_ok run) \<and> (\<forall>t. is_task s t \<longrightarrow> task_ok s t) \<and>
     (\<forall>e\<in>set (ws_log s). is_task s (fst e)) \<and>
     (\<forall>m\<in>set (ws_acked s). \<exists>run\<in>set (ws_runs s). run_message run = m \<and> run_closed run) \<and>
     limiters_ok n s \<and> queued_ok s"

lemma worker_inv_task: "worker_inv n s \<Longrightarrow> is_task s t \<Longrightarrow> task_ok s t"
  unfolding worker_inv_def by blast

lemma worker_inv_queued:
  "worker_inv n s \<Longrightarrow> is_task s t \<Longrightarrow> \<exists>l. ws_limiters s (task_key s t) = Some l \<and>
     booked (task_state s t) t l"
  unfolding worker_inv_def queued_ok_def by blast

named_theorems worker_fields \<open>what the operations on the state leave alone\<close>

lemma set_task_nth:
  "ws_runs (set_task t st s) ! i = (if i = fst t \<and> i < length (ws_runs s)
     then (ws_runs s ! i)\<lparr>run_tasks := (run_tasks (ws_runs s ! i))[snd t := st]\<rparr> else ws_runs s ! i)"
  by (cases "fst t < length (ws_runs s)") (auto simp: set_task_def nth_list_update list_update_beyond)

lemma set_task_fields [worker_fields]:
  "length (ws_runs (set_task t st s)) = length (ws_runs s)"
  "is_task (set_task t st s) u = is_task s u"
  "task_feed (set_task t st s) u = task_feed s u"
  "task_key (set_task t st s) u = task_key s u"
  "run_request (ws_runs (set_task t st s) ! i) = run_request (ws_runs s ! i)"
  "ws_log (set_task t st s) = ws_log s" "ws_limiters (set_task t st s) = ws_limiters s"
  "ws_clock (set_task t st s) = ws_clock s" "ws_acked (set_task t st s) = ws_acked s"
  by (simp_all add: is_task_def task_feed_def task_key_def set_task_nth)
    (simp_all add: set_task_def)

lemma set_task_state:
  "is_task s t \<Longrightarrow> is_task s u \<Longrightarrow> task_state (set_task t st s) u = (if u = t then st else task_state s u)"
  by (cases t; cases u) (auto simp: set_task_def task_state_def is_task_def nth_list_update)

lemma set_limiter_fields [worker_fields]:
  "ws_runs (set_limiter k l s) = ws_runs s" "ws_log (set_limiter k l s) = ws_log s"
  "ws_acked (set_limiter k l s) = ws_acked s" "ws_clock (set_limiter k l s) = ws_clock s"
  "ws_limiters (set_limiter k l s) = (ws_limiters s)(k \<mapsto> l)"
  "is_task (set_limiter k l s) t = is_task s t" "task_feed (set_limiter k l s) t = task_feed s t"
  "task_key (set_limiter k l s) t = task_key s t" "task_state (set_limiter k l s) t = task_state s t"
  "entries_of t (set_limiter k l s) = entries_of t s" "task_ok (set_limiter k l s) t = task_ok s t"
  by (simp_all add: set_limiter_def is_task_def task_feed_def task_key_def task_state_def
      entries_of_def task_ok_def)

lemma advance_clock_fields [worker_fields]:
  "ws_runs (advance_clock c s) = ws_runs s" "ws_log (advance_clock c s) = ws_log s"
  "ws_acked (advance_clock c s) = ws_acked s" "ws_clock (advance_clock c s) = c"
  "is_task (advance_clock c s) t = is_task s t" "task_feed (advance_clock c s) t = task_feed s t"
  "task_key (advance_clock c s) t = task_key s t" "task_state (advance_clock c s) t = task_state s t"
  "entries_of t (advance_clock c s) = entries_of t s" "task_ok (advance_clock c s) t = task_ok s t"
  by (simp_all add: advance_clock_def is_task_def task_feed_def task_key_def task_state_def
      entries_of_def task_ok_def)

lemma run_ok_set_task:
  assumes "run_ok run" and "\<not> run_closed run"
  shows "run_ok (run\<lparr>run_tasks := (run_tasks run)[j := st]\<rparr>)"
  using assms by (simp add: run_ok_def)

lemma set_task_runs_ok:
  assumes "\<forall>run\<in>set (ws_runs s). run_ok run" and "is_task s t" and "task_state s t \<noteq> Published"
  shows "\<forall>run\<in>set (ws_runs (set_task t st s)). run_ok run"
proof -
  let ?run = "ws_runs s ! fst t"
  have in_range: "fst t < length (ws_runs s)" "snd t < length (run_tasks ?run)"
    using assms(2) by (auto simp: is_task_def)
  have ok: "run_ok ?run" using assms(1) in_range(1) by simp
  have "\<not> list_all (\<lambda>st. st = Published) (run_tasks ?run)"
    using assms(3) in_range(2) by (auto simp: list_all_length task_state_def)
  then have "\<not> run_closed ?run" using ok by (auto simp: run_ok_def)
  then have "run_ok (?run\<lparr>run_tasks := (run_tasks ?run)[snd t := st]\<rparr>)"
    by (rule run_ok_set_task [OF ok])
  then show ?thesis
    using assms(1) set_update_subset_insert by (fastforce simp: set_task_def)
qed

lemma set_task_closed:
  "run \<in> set (ws_runs s) \<Longrightarrow> \<exists>run'\<in>set (ws_runs (set_task t st s)).
    run_message run' = run_message run \<and> run_closed run' = run_closed run"
  by (metis (no_types, lifting) in_set_conv_nth job_run.select_convs(1,5) job_run.surjective
      job_run.update_convs(4) length_list_update nth_list_update_eq nth_list_update_neq
      set_task_def worker_state.select_convs(3) worker_state.surjective worker_state.update_convs(3))

section \<open>Every step keeps it\<close>

lemma limiters_ok_update:
  "limiters_ok n s \<Longrightarrow> ws_limiters s k = Some l \<Longrightarrow> limiter_step l l' \<Longrightarrow>
    loop_clock l' = loop_clock l \<Longrightarrow> limiters_ok n (set_limiter k l' s)"
  by (auto simp: limiters_ok_def worker_fields intro: limiter_reach.step)

lemma limiter_clock_kept:
  "loop_clock (acquire_start t l) = loop_clock l" "loop_clock (acquire_resume t l) = loop_clock l"
  "loop_clock (timer_fires d l) = loop_clock l"
  by (auto simp: acquire_start_def acquire_resume_def timer_fires_def sem_release_def limiter_grant_def
      wake_up_next_def Let_def split: option.splits)

lemma limiter_arrived:
  "arrived (acquire_start t l) = arrived l @ [t]" "arrived (acquire_resume t l) = arrived l"
  "arrived (timer_fires d l) = arrived l"
  by (auto simp: acquire_start_def acquire_resume_def timer_fires_def sem_release_def limiter_grant_def
      wake_up_next_def Let_def split: option.splits)

lemma limiter_granted:
  "set (granted l) \<subseteq> set (granted (acquire_start t l))"
  "set (granted l) \<subseteq> set (granted (acquire_resume t l))"
  "granted (timer_fires d l) = granted l"
  by (auto simp: acquire_start_def acquire_resume_def timer_fires_def sem_release_def limiter_grant_def
      wake_up_next_def Let_def split: option.splits)

definition books_grow :: "task_id limiter \<Rightarrow> task_id limiter \<Rightarrow> bool" where
  "books_grow l l' \<longleftrightarrow> set (arrived l) \<subseteq> set (arrived l') \<and> set (granted l) \<subseteq> set (granted l')"

lemma books_grow_steps:
  "books_grow l (acquire_start t l)" "books_grow l (acquire_resume t l)" "books_grow l (timer_fires d l)"
  using limiter_granted(1) [of l t] limiter_granted(2) [of l t] limiter_granted(3) [of d l]
  by (auto simp: books_grow_def limiter_arrived)

lemma booked_mono: "booked st t l \<Longrightarrow> books_grow l l' \<Longrightarrow> booked st t l'"
  by (auto simp: booked_def books_grow_def split: feed_task.splits)

lemma queued_ok_set_limiter:
  assumes "queued_ok s" and "ws_limiters s k = Some l" and "books_grow l l'"
  shows "queued_ok (set_limiter k l' s)"
  unfolding queued_ok_def
proof (intro allI impI)
  fix t assume "is_task (set_limiter k l' s) t"
  then obtain l0 where "ws_limiters s (task_key s t) = Some l0" "booked (task_state s t) t l0"
    using assms(1) unfolding queued_ok_def worker_fields by blast
  then show "\<exists>m. ws_limiters (set_limiter k l' s) (task_key (set_limiter k l' s) t) = Some m \<and>
      booked (task_state (set_limiter k l' s) t) t m"
    using assms(2,3) booked_mono [of "task_state s t" t l0 l']
    by (cases "k = task_key s t") (simp_all add: worker_fields)
qed

lemma worker_inv_set_limiter:
  assumes "worker_inv n s" and "ws_limiters s k = Some l" and "limiter_step l l'"
    and "loop_clock l' = loop_clock l" and "books_grow l l'"
  shows "worker_inv n (set_limiter k l' s)"
  using assms limiters_ok_update [of n s k l l'] queued_ok_set_limiter [of s k l l']
  by (simp add: worker_inv_def worker_fields)

lemma task_ok_set_task:
  assumes "task_ok s u" and "is_task s t" "is_task s u"
    and "u = t \<Longrightarrow> st \<in> {Waiting, Acquiring} \<and> task_state s t \<in> {Waiting, Acquiring}"
  shows "task_ok (set_task t st s) u"
  using assms by (auto simp: task_ok_def entries_of_def worker_fields set_task_state)

lemma worker_inv_acquire:
  assumes inv: "worker_inv n s" and t: "is_task s t" "task_state s t = Waiting"
    and l: "ws_limiters s (task_key s t) = Some l"
  shows "worker_inv n (set_limiter (task_key s t) (acquire_start t l) (set_task t Acquiring s))"
proof -
  let ?s = "set_task t Acquiring s"
  let ?s' = "set_limiter (task_key s t) (acquire_start t l) ?s"
  have "\<forall>run\<in>set (ws_runs ?s). run_ok run"
    using set_task_runs_ok [OF _ t(1)] inv t(2) by (simp add: worker_inv_def)
  moreover have "\<forall>u. is_task s u \<longrightarrow> task_ok ?s u"
    using inv t task_ok_set_task by (auto simp: worker_inv_def)
  moreover have "\<forall>m\<in>set (ws_acked s). \<exists>run\<in>set (ws_runs ?s). run_message run = m \<and> run_closed run"
    using inv set_task_closed unfolding worker_inv_def by metis
  moreover have "limiters_ok n ?s'"
  proof (rule limiters_ok_update)
    show "limiters_ok n ?s" using inv by (simp add: worker_inv_def limiters_ok_def worker_fields)
    show "ws_limiters ?s (task_key s t) = Some l" using l by (simp add: worker_fields)
  qed (simp_all add: limiter_clock_kept arrive)
  moreover have "queued_ok ?s'"
    unfolding queued_ok_def
  proof (intro allI impI)
    fix u assume "is_task ?s' u"
    then have u: "is_task s u" by (simp add: worker_fields)
    then obtain l0 where l0: "ws_limiters s (task_key s u) = Some l0" "booked (task_state s u) u l0"
      using worker_inv_queued [OF inv] by blast
    show "\<exists>l. ws_limiters ?s' (task_key ?s' u) = Some l \<and> booked (task_state ?s' u) u l"
    proof (cases "u = t")
      case True
      then show ?thesis
        using t(1) set_task_state [OF t(1) t(1)] by (simp add: worker_fields booked_def limiter_arrived)
    next
      case False
      then show ?thesis
        using l0 l booked_mono [OF l0(2) books_grow_steps(1) [of l0 t]] set_task_state [OF t(1) u, of Acquiring]
        by (cases "task_key s u = task_key s t") (simp_all add: worker_fields)
    qed
  qed
  ultimately show ?thesis using inv by (simp add: worker_inv_def worker_fields)
qed

lemma end_feed_fields:
  assumes "out = (res, entries, c)"
  shows "ws_log (end_feed t out s) = ws_log s @ map (Pair t) entries"
    and "ws_runs (end_feed t out s) = ws_runs (set_task t (case res of Inr _ \<Rightarrow> Published | Inl _ \<Rightarrow> Crashed) s)"
    and "ws_limiters (end_feed t out s) = ws_limiters s" "ws_clock (end_feed t out s) = ws_clock s"
    and "ws_acked (end_feed t out s) = ws_acked s"
  using assms by (simp_all add: end_feed_def worker_fields)

lemma worker_inv_end_feed:
  assumes inv: "worker_inv n s" and t: "is_task s t" "task_state s t = Acquiring"
    and l: "ws_limiters s (task_key s t) = Some l" "t \<in> fst ` set (granted l)"
    and p: "process_feed env xadd cache (run_request (ws_runs s ! fst t)) (task_feed s t) = (res, entries, c)"
  shows "worker_inv n (end_feed t (res, entries, c) s)"
proof -
  let ?st = "case res of Inr _ \<Rightarrow> Published | Inl _ \<Rightarrow> Crashed"
  let ?s1 = "set_task t ?st s" and ?s = "end_feed t (res, entries, c) s"
  note fields = end_feed_fields [OF refl, of t res entries c s]
  have same: "is_task ?s u = is_task s u" "task_feed ?s u = task_feed s u" "task_key ?s u = task_key s u"
    "task_state ?s u = task_state ?s1 u" "run_request (ws_runs ?s ! i) = run_request (ws_runs s ! i)" for u i
    using set_task_fields [of t ?st s] fields(2)
    by (simp_all add: is_task_def task_feed_def task_key_def task_state_def)
  have e: "entries_of u ?s = entries_of u s @ (if u = t then map (Pair t) entries else [])" for u
    by (auto simp: entries_of_def fields(1) filter_empty_conv comp_def)
  note entries = process_feed_entries [OF p]
  have none: "entries_of t s = []"
    using worker_inv_task [OF inv t(1)] t(2) by (simp add: task_ok_def)
  have "task_ok ?s u" if u: "is_task s u" for u
  proof (cases "u = t")
    case True
    have st: "task_state ?s t = ?st" using set_task_state [OF t(1) t(1), of ?st] by (simp add: same(4))
    have "?st = Published \<longrightarrow> entries \<noteq> []" "?st \<noteq> Waiting" "?st \<noteq> Acquiring"
      using entries by (cases res; auto)+
    then show ?thesis
      using entries none True by (auto simp: task_ok_def e st same(1-3,5))
  next
    case False
    have "task_ok s u" using inv u unfolding worker_inv_def by blast
    then show ?thesis
      using False set_task_state [OF t(1) u, of ?st] by (simp add: task_ok_def e same)
  qed
  moreover have "\<forall>run\<in>set (ws_runs ?s). run_ok run"
    using set_task_runs_ok [OF _ t(1), of ?st] inv t(2) by (simp add: worker_inv_def fields(2))
  moreover have "\<forall>x\<in>set (ws_log ?s). is_task s (fst x)"
    using inv t(1) by (auto simp: worker_inv_def fields(1))
  moreover have "\<forall>m\<in>set (ws_acked s). \<exists>run\<in>set (ws_runs ?s). run_message run = m \<and> run_closed run"
    using inv set_task_closed unfolding worker_inv_def fields(2) by metis
  moreover have "limiters_ok n ?s"
    using inv by (simp add: worker_inv_def limiters_ok_def fields(3,4))
  moreover have "queued_ok ?s"
    unfolding queued_ok_def same fields(3)
  proof (intro allI impI)
    fix u assume u: "is_task s u"
    show "\<exists>l. ws_limiters s (task_key s u) = Some l \<and> booked (task_state ?s1 u) u l"
    proof (cases "u = t")
      case True
      then show ?thesis using l set_task_state [OF t(1) t(1), of ?st]
        by (cases res) (simp_all add: booked_def)
    next
      case False
      then show ?thesis
        using worker_inv_queued [OF inv u] set_task_state [OF t(1) u, of ?st] by simp
    qed
  qed
  ultimately show ?thesis by (simp add: worker_inv_def same fields(5))
qed

lemma worker_inv_close:
  assumes inv: "worker_inv n s" and i: "i < length (ws_runs s)"
    and published: "list_all (\<lambda>st. st = Published) (run_tasks (ws_runs s ! i))"
  shows "worker_inv n (close_run i k s)"
proof -
  let ?s = "close_run i k s" and ?run = "(ws_runs s ! i)\<lparr>run_closed := True\<rparr>"
  have runs: "ws_runs ?s ! j = (if j = i then ?run else ws_runs s ! j)"
    "length (ws_runs ?s) = length (ws_runs s)" for j
    using i by (simp_all add: close_run_def nth_list_update)
  have same: "is_task ?s u = is_task s u" "task_feed ?s u = task_feed s u" "task_key ?s u = task_key s u"
    "task_state ?s u = task_state s u" "run_request (ws_runs ?s ! j) = run_request (ws_runs s ! j)"
    "entries_of u ?s = entries_of u s" "ws_log ?s = ws_log s" "ws_limiters ?s = ws_limiters s"
    "ws_clock ?s = ws_clock s" for u j
    using runs by (simp_all add: is_task_def task_feed_def task_key_def task_state_def entries_of_def)
      (simp_all add: close_run_def)
  have "run_ok ?run" using inv i published by (simp add: worker_inv_def run_ok_def)
  then have "\<forall>run\<in>set (ws_runs ?s). run_ok run"
    using inv set_update_subset_insert [of "ws_runs s" i ?run]
    by (fastforce simp: worker_inv_def close_run_def)
  moreover have "\<exists>run\<in>set (ws_runs ?s). run_message run = m \<and> run_closed run"
    if m: "m \<in> set (ws_acked ?s)" for m
  proof (cases "m = run_message (ws_runs s ! i)")
    case True
    then show ?thesis using i runs(1) [of i] runs(2) by (intro bexI [of _ ?run]) (auto simp: in_set_conv_nth)
  next
    case False
    then have "m \<in> set (ws_acked s)" using m by (auto simp: close_run_def split: if_splits)
    then obtain j where j: "j < length (ws_runs s)" "run_message (ws_runs s ! j) = m" "run_closed (ws_runs s ! j)"
      using inv unfolding worker_inv_def by (metis in_set_conv_nth)
    then have "run_message (ws_runs ?s ! j) = m \<and> run_closed (ws_runs ?s ! j)"
      by (auto simp: runs(1))
    then show ?thesis using j(1) runs(2) by (metis nth_mem)
  qed
  ultimately show ?thesis
    using inv by (simp add: worker_inv_def task_ok_def limiters_ok_def queued_ok_def same)
qed

lemma limiters_created:
  assumes "limiters_ok n s"
  shows "limiters_ok n (s\<lparr>ws_limiters := fold (get_or_create_company_rate_limiter n (ws_clock s)) ks (ws_limiters s)\<rparr>)"
    and "k \<in> set ks \<or> ws_limiters s k \<noteq> None \<Longrightarrow>
      fold (get_or_create_company_rate_limiter n (ws_clock s)) ks (ws_limiters s) k \<noteq> None"
    and "ws_limiters s k = Some l \<Longrightarrow>
      fold (get_or_create_company_rate_limiter n (ws_clock s)) ks (ws_limiters s) k = Some l"
proof -
  let ?f = "get_or_create_company_rate_limiter n (ws_clock s)"
  show keep: "ws_limiters s k = Some l \<Longrightarrow> fold ?f ks (ws_limiters s) k = Some l" for l k
    by (induction ks rule: rev_induct)
      (auto simp: get_or_create_company_rate_limiter_def split: option.splits)
  show "limiters_ok n (s\<lparr>ws_limiters := fold ?f ks (ws_limiters s)\<rparr>)"
  proof (induction ks rule: rev_induct)
    case Nil
    then show ?case using assms by (simp add: limiters_ok_def)
  next
    case (snoc x ks)
    then show ?case
      by (auto simp: limiters_ok_def get_or_create_company_rate_limiter_def new_limiter_def
          intro: limiter_reach.start [unfolded new_limiter_def] split: option.splits)
  qed
  assume "k \<in> set ks \<or> ws_limiters s k \<noteq> None"
  then show "fold ?f ks (ws_limiters s) k \<noteq> None"
    by (induction ks rule: rev_induct)
      (auto simp: get_or_create_company_rate_limiter_def split: option.splits)
qed

lemma worker_inv_start:
  assumes inv: "worker_inv n s" and valid: "valid_job_request scrape_job"
  shows "worker_inv n (start_job n m scrape_job s)"
proof -
  let ?s = "start_job n m scrape_job s"
  define feeds where "feeds = concat (map snd (group_feeds_by_company (jr_feeds scrape_job)))"
  let ?run = "\<lparr>run_message = m, run_request = scrape_job, run_feeds = feeds,
    run_tasks = replicate (length feeds) Waiting, run_closed = False\<rparr>"
  have runs: "ws_runs ?s = ws_runs s @ [?run]" by (simp add: start_job_def feeds_def Let_def)
  have other: "ws_log ?s = ws_log s" "ws_acked ?s = ws_acked s" "ws_clock ?s = ws_clock s"
    by (simp_all add: start_job_def Let_def)
  have old: "is_task ?s u" "task_feed ?s u = task_feed s u" "task_key ?s u = task_key s u"
    "task_state ?s u = task_state s u" "run_request (ws_runs ?s ! fst u) = run_request (ws_runs s ! fst u)"
    if "is_task s u" for u
    using that by (simp_all add: is_task_def task_feed_def task_key_def task_state_def runs nth_append)
  have cases: "is_task s u \<or> fst u = length (ws_runs s) \<and> snd u < length feeds" if "is_task ?s u" for u
    using that by (auto simp: is_task_def runs nth_append split: if_splits)
  have entries: "entries_of u ?s = entries_of u s" for u by (simp add: entries_of_def other)
  have fresh: "entries_of u s = []" if "fst u = length (ws_runs s)" for u
    using inv that unfolding worker_inv_def entries_of_def is_task_def
    by (auto simp: filter_empty_conv)
  have "task_ok ?s u" if u: "is_task ?s u" for u
    using cases [OF u]
  proof
    assume "is_task s u"
    then show ?thesis using worker_inv_task [OF inv] old by (simp add: task_ok_def entries)
  next
    assume new: "fst u = length (ws_runs s) \<and> snd u < length feeds"
    then have "task_state ?s u = Waiting" by (simp add: task_state_def runs nth_append)
    then show ?thesis using fresh [of u] new by (simp add: task_ok_def entries)
  qed
  moreover have "run_ok ?run"
    using valid group_feeds_mset [of "jr_feeds scrape_job"] by (simp add: run_ok_def feeds_def)
  moreover have lims: "limiters_ok n s" using inv by (simp add: worker_inv_def)
  have "limiters_ok n ?s"
    using limiters_created(1) [OF lims] by (simp add: start_job_def limiters_ok_def Let_def)
  moreover have "queued_ok ?s"
    unfolding queued_ok_def
  proof (intro allI impI)
    fix u assume "is_task ?s u"
    then show "\<exists>l. ws_limiters ?s (task_key ?s u) = Some l \<and> booked (task_state ?s u) u l"
    proof (rule cases [THEN disjE])
      assume u: "is_task s u"
      then obtain l where "ws_limiters s (task_key s u) = Some l" "booked (task_state s u) u l"
        using worker_inv_queued [OF inv] by blast
      then show ?thesis
        using old [OF u] limiters_created(3) [OF lims] by (simp add: start_job_def Let_def)
    next
      assume new: "fst u = length (ws_runs s) \<and> snd u < length feeds"
      then have f: "task_feed ?s u = feeds ! snd u" "task_state ?s u = Waiting"
        by (simp_all add: task_feed_def task_state_def runs nth_append)
      have "feeds ! snd u \<in> set (jr_feeds scrape_job)"
        using new nth_mem group_feeds_mset [of "jr_feeds scrape_job"]
        unfolding feeds_def by (metis set_mset_mset)
      then have "task_key ?s u \<in> set (map fst (group_feeds_by_company (jr_feeds scrape_job)))"
        using company_groups.group_keys [of "jr_feeds scrape_job"] f(1) by (simp add: task_key_def)
      then have "ws_limiters ?s (task_key ?s u) \<noteq> None"
        using limiters_created(2) [OF lims] by (simp add: start_job_def Let_def)
      then show ?thesis using f(2) by (auto simp: booked_def)
    qed
  qed
  ultimately show ?thesis
    using inv old by (auto simp: worker_inv_def runs other)
qed

lemma worker_inv_receive:
  assumes "worker_inv n s"
  shows "worker_inv n (receive_message n m payload k s)"
proof (cases "validate_request payload")
  case (Inl e)
  let ?s = "receive_message n m payload k s"
  have s': "?s = s\<lparr>ws_rejected := ws_rejected s @ replicate (min k 1) m\<rparr>"
    using Inl by (simp add: receive_message_def)
  have "is_task ?s u = is_task s u" "task_ok ?s u = task_ok s u" "task_key ?s u = task_key s u"
    "task_state ?s u = task_state s u" for u
    by (simp_all add: s' is_task_def task_ok_def task_key_def task_feed_def task_state_def entries_of_def)
  then show ?thesis
    using assms by (simp add: worker_inv_def limiters_ok_def queued_ok_def)
      (simp add: s')
next
  case (Inr r)
  then have "valid_job_request r"
    by (auto simp: validate_request_def make_job_request_def split: option.splits if_splits)
  then show ?thesis using worker_inv_start [OF assms] Inr by (simp add: receive_message_def)
qed

lemma worker_inv_clock:
  assumes inv: "worker_inv n s" and "ws_clock s \<le> c"
  shows "worker_inv n (advance_clock c s)"
proof -
  have "limiters_ok n (advance_clock c s)"
    unfolding limiters_ok_def
  proof (intro allI impI)
    fix k l assume "ws_limiters (advance_clock c s) k = Some l"
    then obtain l0 where l0: "ws_limiters s k = Some l0" "l = l0\<lparr>loop_clock := c\<rparr>"
      by (auto simp: advance_clock_def)
    then have "limiter_reach n l0" "loop_clock l0 = ws_clock s"
      using inv unfolding worker_inv_def limiters_ok_def by auto
    then show "limiter_reach n l \<and> loop_clock l = ws_clock (advance_clock c s)"
      using l0(2) assms(2) limiter_reach.step [OF _ tick, of n l0 c] by (simp add: worker_fields)
  qed
  moreover have "booked st t (l\<lparr>loop_clock := c\<rparr>) = booked st t l" for st t l
    by (simp add: booked_def split: feed_task.splits)
  then have "queued_ok (advance_clock c s)"
    using worker_inv_queued [OF inv] unfolding queued_ok_def worker_fields
    by (fastforce simp: advance_clock_def)
  ultimately show ?thesis using inv by (simp add: worker_inv_def worker_fields)
qed

lemma worker_reach_inv: "worker_reach n s \<Longrightarrow> worker_inv n s"
proof (induction rule: worker_reach.induct)
  case init
  show ?case
    by (simp add: worker_inv_def worker_init_def is_task_def limiters_ok_def queued_ok_def)
next
  case (step s s')
  from step.hyps(2) step.IH show ?case
  proof (cases rule: worker_step.cases)
    case (receive m payload k)
    then show ?thesis using step.IH worker_inv_receive by simp
  next
    case (acquire t l)
    then show ?thesis using step.IH worker_inv_acquire by simp
  next
    case (wake key l t ws)
    then show ?thesis
      using step.IH worker_inv_set_limiter [OF _ _ resume] by (simp add: limiter_clock_kept books_grow_steps)
  next
    case (permit key l d)
    then show ?thesis
      using step.IH worker_inv_set_limiter [OF _ _ timer] by (simp add: limiter_clock_kept books_grow_steps)
  next
    case (clock c)
    then show ?thesis using step.IH worker_inv_clock by simp
  next
    case (fetched t l env xadd cache)
    then show ?thesis using step.IH worker_inv_end_feed by (metis prod_cases3)
  next
    case (ack i xack cache res k cache')
    then show ?thesis using step.IH worker_inv_close by simp
  qed
qed

section \<open>Finished tasks stay finished\<close>

lemma worker_step_finished:
  assumes "worker_step n s s'" and t: "is_task s t" and fin: "task_state s t \<in> {Published, Crashed}"
  shows "is_task s' t \<and> task_state s' t = task_state s t"
  using assms(1)
proof (cases rule: worker_step.cases)
  case (receive m payload k)
  then show ?thesis using t
    by (auto simp: receive_message_def start_job_def is_task_def task_state_def nth_append Let_def
        split: sum.splits)
next
  case (acquire u l)
  then show ?thesis using t fin set_task_state [OF acquire(2) t, of Acquiring]
    by (auto simp: worker_fields)
next
  case (fetched u l env xadd cache)
  obtain res entries c where
    o: "process_feed env xadd cache (run_request (ws_runs s ! fst u)) (task_feed s u) = (res, entries, c)"
    by (metis prod_cases3)
  have "u \<noteq> t" using fetched(3) fin by auto
  then show ?thesis
    using fetched(1,2) o t set_task_state [OF fetched(2) t] end_feed_fields(2) [OF refl]
      set_task_fields(2) [of u _ s t]
    by (simp add: is_task_def task_state_def)
next
  case (ack i xack cache res k cache')
  then show ?thesis using t
    by (simp add: close_run_def is_task_def task_state_def nth_list_update)
qed (use t in \<open>simp_all add: worker_fields\<close>)

lemma worker_steps_finished:
  assumes "(worker_step n)\<^sup>*\<^sup>* s s'" and "is_task s t" and "task_state s t \<in> {Published, Crashed}"
  shows "is_task s' t \<and> task_state s' t = task_state s t"
  using assms
proof (induction rule: rtranclp_induct)
  case base
  then show ?case by simp
next
  case (step s1 s2)
  then have "is_task s1 t" "task_state s1 t = task_state s t" by auto
  then show ?case using worker_step_finished [OF step(2)] step.prems by simp
qed

lemma worker_reach_steps: "(worker_step n)\<^sup>*\<^sup>* s s' \<Longrightarrow> worker_reach n s \<Longrightarrow> worker_reach n s'"
  by (induction rule: rtranclp_induct) (auto intro: worker_reach.step)

section \<open>Every feed can finish\<close>

lemma steps_trans:
  "(worker_step n)\<^sup>*\<^sup>* s t \<Longrightarrow> worker_step n t u \<Longrightarrow> (worker_step n)\<^sup>*\<^sup>* s u"
  by (rule rtranclp.rtrancl_into_rtrancl)

text \<open>A limiter inside the worker can take its internal steps, the runs and the streams unchanged.\<close>

lemma limiter_steps_lift:
  assumes "limiter_internal\<^sup>*\<^sup>* l l'" and "worker_reach n s" and "ws_limiters s k = Some l"
  shows "\<exists>s'. (worker_step n)\<^sup>*\<^sup>* s s' \<and> ws_limiters s' k = Some l' \<and> ws_runs s' = ws_runs s \<and>
    ws_log s' = ws_log s \<and> ws_acked s' = ws_acked s"
  using assms(1)
proof (induction rule: rtranclp_induct)
  case base
  then show ?case using assms(3) by blast
next
  case (step l1 l2)
  then obtain s1 where s1: "(worker_step n)\<^sup>*\<^sup>* s s1" "ws_limiters s1 k = Some l1"
    "ws_runs s1 = ws_runs s" "ws_log s1 = ws_log s" "ws_acked s1 = ws_acked s" by blast
  have same_clock: "loop_clock l1 = ws_clock s1"
    using worker_reach_inv [OF worker_reach_steps [OF s1(1) assms(2)]] s1(2)
    unfolding worker_inv_def limiters_ok_def by blast
  from step(2) show ?case
  proof (cases rule: limiter_internal.cases)
    case (resumes t ws)
    have "worker_step n s1 (set_limiter k l2 s1)"
      unfolding resumes(1) by (rule wake [OF s1(2) resumes(2)])
    then show ?thesis using s1 by (metis fun_upd_same set_limiter_fields(1-3,5) steps_trans)
  next
    case (fires d)
    have "worker_step n s1 (set_limiter k l2 s1)"
      unfolding fires(1) by (rule permit [OF s1(2) fires(2,3)])
    then show ?thesis using s1 by (metis fun_upd_same set_limiter_fields(1-3,5) steps_trans)
  next
    case (ticks c)
    have "worker_step n s1 (advance_clock c s1)" by (rule clock) (use ticks(2) same_clock in simp)
    moreover have "ws_limiters (advance_clock c s1) k = Some l2"
      using s1(2) ticks(1) by (simp add: advance_clock_def)
    ultimately show ?thesis using s1 by (metis advance_clock_fields(1-3) steps_trans)
  qed
qed

text \<open>A server that never answers, and a Redis that does: the result of any feed can be published.\<close>

definition silent_env :: fetch_env where
  "silent_env = \<lparr>env_stdlib = sample_stdlib, http_get = \<lambda>_ _ _. Raises (NetTimeout ''timeout''),
     format_datetime = \<lambda>_. []\<rparr>"

lemma silent_env_times_out:
  "fst (perform_request_with_retry silent_env url hs) = Inl (NetTimeout ''timeout'')"
proof -
  obtain k where "fst (perform_request_with_retry silent_env url hs) =
      (case request_attempt silent_env url hs k of Done a \<Rightarrow> Inr a | Fatal e \<Rightarrow> Inl e | Retryable e \<Rightarrow> Inl e)"
    using request_attempts [of silent_env url hs] by blast
  then show ?thesis by (simp add: request_attempt_def silent_env_def)
qed

lemma fetch_can_return:
  assumes "valid_job_feed feed" and "\<And>d. jf_last_update feed = Some d \<Longrightarrow> \<not> utc_overflows d"
  shows "\<exists>r. fst (fetch_feed_result silent_env feed ingest) = Inr r"
proof -
  obtain res attempts where f: "fetch_feed_result silent_env feed ingest = (res, attempts)" by fastforce
  have prot: "0 \<le> jf_fetchprotection feed" "jf_fetchprotection feed \<le> 2"
    using assms(1) by (auto simp: valid_job_feed_def)
  from f show ?thesis
  proof (cases rule: fetch_feed_resultE)
    case (headers e)
    then show ?thesis using build_request_headers_raises [of silent_env feed] assms(2) by blast
  next
    case (response hs r)
    then show ?thesis by (simp add: silent_env_times_out)
  qed (use f result_schema_total(1) [OF prot] in auto)
qed

lemma process_can_publish:
  assumes "valid_job_feed feed" and "\<And>d. jf_last_update feed = Some d \<Longrightarrow> \<not> utc_overflows d"
  shows "\<exists>entries c. process_feed silent_env (\<lambda>_ _. Replied ()) empty_cache scrape_job feed =
    (Inr (), entries, c)"
proof -
  obtain r0 where "fst (fetch_feed_result silent_env feed (jr_ingest scrape_job)) = Inr r0"
    using fetch_can_return [OF assms, of "jr_ingest scrape_job"] by blast
  then obtain stream r where "feed_message silent_env scrape_job feed = Inr (stream, r)"
    by (simp add: feed_message_def Let_def)
  moreover obtain m c where "publish_payload stream (\<lambda>_ _. Replied ()) empty_cache = (Inr (), m, c)"
    by (simp add: publish_payload_def run_redis_command_def redis_command_loop.simps [of _ _ "Suc _"]
        get_redis_client_def empty_cache_def)
  ultimately show ?thesis by (simp add: process_feed_def)
qed

lemma set_task_twice: "set_task t a (set_task t b s) = set_task t a s"
  by (cases "fst t < length (ws_runs s)") (auto simp: set_task_def list_update_beyond)

lemma set_task_runs_cong: "ws_runs s = ws_runs s' \<Longrightarrow> ws_runs (set_task t st s) = ws_runs (set_task t st s')"
  by (simp add: set_task_def)

lemma acquiring_can_finish:
  assumes "worker_reach n s" and n: "0 < n" and t: "is_task s t" "task_state s t = Acquiring"
    and feed: "valid_job_feed (task_feed s t)"
      "\<And>d. jf_last_update (task_feed s t) = Some d \<Longrightarrow> \<not> utc_overflows d"
  shows "\<exists>s'. (worker_step n)\<^sup>*\<^sup>* s s' \<and> ws_runs s' = ws_runs (set_task t Published s)"
proof -
  note inv = worker_reach_inv [OF assms(1)]
  obtain l where l: "ws_limiters s (task_key s t) = Some l" "t \<in> set (arrived l)"
    using worker_inv_queued [OF inv t(1)] t(2) by (auto simp: booked_def)
  have "limiter_reach n l" using inv l(1) unfolding worker_inv_def limiters_ok_def by blast
  then obtain l' where l': "limiter_internal\<^sup>*\<^sup>* l l'" "t \<in> fst ` set (granted l')"
    using caller_is_granted [OF _ n l(2)] by blast
  obtain s1 where s1: "(worker_step n)\<^sup>*\<^sup>* s s1" "ws_limiters s1 (task_key s t) = Some l'"
    "ws_runs s1 = ws_runs s"
    using limiter_steps_lift [OF l'(1) assms(1) l(1)] by blast
  have same: "is_task s1 t" "task_state s1 t = Acquiring" "task_key s1 t = task_key s t"
    "task_feed s1 t = task_feed s t"
    using t by (simp_all add: is_task_def task_state_def task_key_def task_feed_def s1(3))
  obtain entries c where p: "process_feed silent_env (\<lambda>_ _. Replied ()) empty_cache
      (run_request (ws_runs s1 ! fst t)) (task_feed s1 t) = (Inr (), entries, c)"
    using process_can_publish [OF feed] same(4) by metis
  have "worker_step n s1 (end_feed t (Inr (), entries, c) s1)"
    using fetched [OF same(1,2) _ l'(2), of n silent_env "\<lambda>_ _. Replied ()" empty_cache] s1(2) same(3) p
    by simp
  moreover have "ws_runs (end_feed t (Inr (), entries, c) s1) = ws_runs (set_task t Published s)"
    using end_feed_fields(2) [OF refl, of t "Inr ()" entries c s1] set_task_runs_cong [OF s1(3)] by simp
  ultimately show ?thesis using steps_trans [OF s1(1)] by blast
qed

lemma task_can_finish:
  assumes "worker_reach n s" and n: "0 < n" and t: "is_task s t" "task_state s t \<noteq> Crashed"
    and feed: "valid_job_feed (task_feed s t)"
      "\<And>d. jf_last_update (task_feed s t) = Some d \<Longrightarrow> \<not> utc_overflows d"
  shows "\<exists>s'. (worker_step n)\<^sup>*\<^sup>* s s' \<and> ws_runs s' = ws_runs (set_task t Published s)"
proof (cases "task_state s t")
  case Waiting
  obtain l where "ws_limiters s (task_key s t) = Some l"
    using worker_inv_queued [OF worker_reach_inv [OF assms(1)] t(1)] by blast
  then have step1: "worker_step n s (set_limiter (task_key s t) (acquire_start t l) (set_task t Acquiring s))"
    (is "worker_step n s ?s1") by (rule acquire [OF t(1) Waiting])
  have same: "is_task ?s1 t" "task_state ?s1 t = Acquiring" "task_feed ?s1 t = task_feed s t"
    using t(1) set_task_state [OF t(1) t(1), of Acquiring] by (simp_all add: worker_fields)
  obtain s' where "(worker_step n)\<^sup>*\<^sup>* ?s1 s'" "ws_runs s' = ws_runs (set_task t Published ?s1)"
    using acquiring_can_finish [OF worker_reach.step [OF assms(1) step1] n same(1,2)] feed same(3) by auto
  moreover have "ws_runs (set_task t Published ?s1) = ws_runs (set_task t Published s)"
    using set_task_runs_cong [of ?s1 "set_task t Acquiring s"] set_task_twice [of t Published Acquiring s]
    by (simp add: worker_fields)
  ultimately show ?thesis using converse_rtranclp_into_rtranclp [of "worker_step n", OF step1] by metis
next
  case Acquiring
  then show ?thesis using acquiring_can_finish [OF assms(1) n t(1)] feed by blast
next
  case Published
  then have "set_task t Published s = s"
    using t(1) by (simp add: set_task_def task_state_def is_task_def list_update_same_conv)
      (metis (no_types, lifting) job_run.surjective job_run.update_convs(4) list_update_id
        job_run.unfold_congs(4) worker_state.surjective worker_state.update_convs(3))
  then show ?thesis by auto
next
  case Crashed
  then show ?thesis using t(2) by simp
qed

definition unfinished :: "nat \<Rightarrow> worker_state \<Rightarrow> nat" where
  "unfinished i s = length (filter (\<lambda>st. st \<noteq> Published) (run_tasks (ws_runs s ! i)))"

lemma length_filter_update:
  "j < length xs \<Longrightarrow> P (xs ! j) \<Longrightarrow> \<not> P y \<Longrightarrow> length (filter P (xs[j := y])) < length (filter P xs)"
proof (induction xs arbitrary: j)
  case (Cons x xs)
  then show ?case by (cases j) auto
qed simp

lemma run_can_finish:
  assumes "worker_reach n s" and "0 < n" and "i < length (ws_runs s)"
    and "Crashed \<notin> set (run_tasks (ws_runs s ! i))"
    and "\<forall>feed\<in>set (run_feeds (ws_runs s ! i)). \<forall>d. jf_last_update feed = Some d \<longrightarrow> \<not> utc_overflows d"
  shows "\<exists>s'. (worker_step n)\<^sup>*\<^sup>* s s' \<and> unfinished i s' = 0 \<and> i < length (ws_runs s') \<and>
    run_message (ws_runs s' ! i) = run_message (ws_runs s ! i) \<and>
    run_closed (ws_runs s' ! i) = run_closed (ws_runs s ! i)"
  using assms
proof (induction "unfinished i s" arbitrary: s rule: less_induct)
  case less
  show ?case
  proof (cases "unfinished i s = 0")
    case True
    then show ?thesis using less.prems by blast
  next
    case False
    then obtain j where j: "j < length (run_tasks (ws_runs s ! i))"
      "run_tasks (ws_runs s ! i) ! j \<noteq> Published"
      by (auto simp: unfinished_def in_set_conv_nth filter_empty_conv)
    let ?t = "(i, j)"
    have "run_tasks (ws_runs s ! i) ! j \<noteq> Crashed" using nth_mem [OF j(1)] less.prems(4) by metis
    then have t: "is_task s ?t" "task_state s ?t \<noteq> Crashed"
      using j(1) less.prems(3) by (simp_all add: is_task_def task_state_def)
    have run: "run_ok (ws_runs s ! i)"
      using worker_reach_inv [OF less.prems(1)] less.prems(3) by (simp add: worker_inv_def)
    then have feed: "task_feed s ?t \<in> set (run_feeds (ws_runs s ! i))"
      using j(1) by (simp add: run_ok_def task_feed_def)
    then have "task_feed s ?t \<in> set (jr_feeds (run_request (ws_runs s ! i)))"
      using run by (metis run_ok_def set_mset_mset)
    then have "valid_job_feed (task_feed s ?t)"
      using run by (simp add: run_ok_def valid_job_request_def)
    then obtain s1 where s1: "(worker_step n)\<^sup>*\<^sup>* s s1" "ws_runs s1 = ws_runs (set_task ?t Published s)"
      using task_can_finish [OF less.prems(1,2) t] feed less.prems(5) by blast
    have r1: "ws_runs s1 ! i = (ws_runs s ! i)\<lparr>run_tasks := (run_tasks (ws_runs s ! i))[j := Published]\<rparr>"
      using less.prems(3) by (simp add: s1(2) set_task_nth)
    have "unfinished i s1 < unfinished i s"
      using length_filter_update [OF j(1), of "\<lambda>st. st \<noteq> Published"] j(2)
      by (simp add: unfinished_def r1)
    moreover have "Crashed \<notin> set (run_tasks (ws_runs s1 ! i))"
      using less.prems(4) set_update_subset_insert [of "run_tasks (ws_runs s ! i)" j Published]
      by (auto simp: r1)
    moreover have "i < length (ws_runs s1)" using less.prems(3) by (simp add: s1(2) worker_fields)
    ultimately obtain s' where "(worker_step n)\<^sup>*\<^sup>* s1 s'" "unfinished i s' = 0" "i < length (ws_runs s')"
      "run_message (ws_runs s' ! i) = run_message (ws_runs s1 ! i)"
      "run_closed (ws_runs s' ! i) = run_closed (ws_runs s1 ! i)"
      using less.hyps [OF _ worker_reach_steps [OF s1(1) less.prems(1)] less.prems(2)] less.prems(5)
      by (auto simp: r1)
    then show ?thesis using s1(1) r1 by (auto intro!: exI [of _ s'] intro: rtranclp_trans)
  qed
qed

lemma run_can_close:
  assumes "worker_reach n s" and "0 < n" and "i < length (ws_runs s)"
    and "Crashed \<notin> set (run_tasks (ws_runs s ! i))" and "\<not> run_closed (ws_runs s ! i)"
    and "\<forall>feed\<in>set (run_feeds (ws_runs s ! i)). \<forall>d. jf_last_update feed = Some d \<longrightarrow> \<not> utc_overflows d"
  shows "\<exists>s'. (worker_step n)\<^sup>*\<^sup>* s s' \<and> i < length (ws_runs s') \<and> run_closed (ws_runs s' ! i) \<and>
    run_message (ws_runs s ! i) \<in> set (ws_acked s')"
proof -
  obtain s1 where s1: "(worker_step n)\<^sup>*\<^sup>* s s1" "unfinished i s1 = 0" "i < length (ws_runs s1)"
    "run_message (ws_runs s1 ! i) = run_message (ws_runs s ! i)" "\<not> run_closed (ws_runs s1 ! i)"
    using run_can_finish [OF assms(1-4,6)] assms(5) by metis
  have published: "list_all (\<lambda>st. st = Published) (run_tasks (ws_runs s1 ! i))"
    using s1(2) by (auto simp: unfinished_def filter_empty_conv list_all_iff)
  obtain k c where a: "ack_scrape_job (run_message (ws_runs s1 ! i)) (\<lambda>_ _. Replied ()) empty_cache = (Inr (), Suc k, c)"
    by (simp add: ack_scrape_job_def ack_message_def run_redis_command_def executions_def
        redis_command_loop.simps [of _ _ "Suc _"] get_redis_client_def empty_cache_def)
  have "worker_step n s1 (close_run i (Suc k) s1)" by (rule ack [OF s1(3,5) published a])
  moreover have "run_closed (ws_runs (close_run i (Suc k) s1) ! i)" "i < length (ws_runs (close_run i (Suc k) s1))"
    "run_message (ws_runs s ! i) \<in> set (ws_acked (close_run i (Suc k) s1))"
    using s1(3,4) by (simp_all add: close_run_def)
  ultimately show ?thesis using steps_trans [OF s1(1)] by blast
qed

section \<open>A run with one feed\<close>

definition sample_request :: job_request where
  "sample_request = \<lparr>jr_job_id = ''j'', jr_requested_at = utc_date 2026 1 1, jr_ingest = True,
     jr_requested_by = ''x'', jr_feeds = [sample_job_feed]\<rparr>"

definition sample_started :: worker_state where
  "sample_started = receive_message 1 ''m'' (Some sample_request) 0 worker_init"

lemma sample_started_reach: "worker_reach 1 sample_started"
  unfolding sample_started_def by (rule worker_reach.step [OF worker_reach.init receive])

lemma sample_started_run:
  "ws_runs sample_started = [\<lparr>run_message = ''m'', run_request = sample_request,
     run_feeds = [sample_job_feed], run_tasks = [Waiting], run_closed = False\<rparr>]"
proof -
  have "valid_job_request sample_request" by code_simp
  then show ?thesis
    by (simp add: sample_started_def receive_message_def validate_request_def make_job_request_def
        start_job_def worker_init_def group_feeds_by_company_def sample_request_def Let_def)
qed

lemma sample_started_can_close:
  "\<exists>s'. (worker_step 1)\<^sup>*\<^sup>* sample_started s' \<and> 0 < length (ws_runs s') \<and> run_closed (ws_runs s' ! 0) \<and>
     ''m'' \<in> set (ws_acked s')"
  using run_can_close [OF sample_started_reach, of 0]
  by (simp add: sample_started_run sample_job_feed_def)

section \<open>Properties\<close>

text \<open>
  C12: delivery.  Every acknowledged message of a valid request belongs to a closed run; and when a run
  is closed, its tasks are the feeds of its request, and for each of them one or two entries are in
  the streams, each of them the result of that feed for that job, in the stream of its status.
\<close>

theorem acked_job_is_fully_published:
  assumes "worker_reach n s"
  shows "(\<forall>m\<in>set (ws_acked s). \<exists>run\<in>set (ws_runs s). run_message run = m \<and> run_closed run) \<and>
    (\<forall>i<length (ws_runs s). run_closed (ws_runs s ! i) \<longrightarrow>
       mset (run_feeds (ws_runs s ! i)) = mset (jr_feeds (run_request (ws_runs s ! i))) \<and>
       (\<forall>j<length (run_feeds (ws_runs s ! i)).
          entries_of (i, j) s \<noteq> [] \<and> length (entries_of (i, j) s) \<le> 2 \<and>
          (\<forall>(_, stream, r)\<in>set (entries_of (i, j) s).
             answers (run_request (ws_runs s ! i)) (run_feeds (ws_runs s ! i) ! j) stream r)))"
proof (intro conjI allI impI ballI)
  note inv = worker_reach_inv [OF assms]
  show "\<exists>run\<in>set (ws_runs s). run_message run = m \<and> run_closed run" if "m \<in> set (ws_acked s)" for m
    using inv that by (simp add: worker_inv_def)
  fix i assume i: "i < length (ws_runs s)" and closed: "run_closed (ws_runs s ! i)"
  have run: "run_ok (ws_runs s ! i)" using inv i by (simp add: worker_inv_def)
  then show "mset (run_feeds (ws_runs s ! i)) = mset (jr_feeds (run_request (ws_runs s ! i)))"
    by (simp add: run_ok_def)
  fix j assume "j < length (run_feeds (ws_runs s ! i))"
  then have t: "is_task s (i, j)" and p: "task_state s (i, j) = Published"
    using run i closed by (simp_all add: run_ok_def is_task_def task_state_def list_all_length)
  show "entries_of (i, j) s \<noteq> []" "length (entries_of (i, j) s) \<le> 2"
    "\<And>e. e \<in> set (entries_of (i, j) s) \<Longrightarrow>
       case e of (_, stream, r) \<Rightarrow> answers (run_request (ws_runs s ! i)) (run_feeds (ws_runs s ! i) ! j) stream r"
    using worker_inv_task [OF inv t] p by (auto simp: task_ok_def task_feed_def)
qed

theorem acked_job_is_fully_published_witness:
  "\<exists>s. worker_reach 1 s \<and> ''m'' \<in> set (ws_acked s) \<and> (\<exists>run\<in>set (ws_runs s). run_closed run)"
proof -
  obtain s where s: "(worker_step 1)\<^sup>*\<^sup>* sample_started s" "''m'' \<in> set (ws_acked s)"
    using sample_started_can_close by blast
  have reach: "worker_reach 1 s" by (rule worker_reach_steps [OF s(1) sample_started_reach])
  then show ?thesis using acked_job_is_fully_published [OF reach] s(2) by blast
qed

text \<open>
  A feed that crashed (its fetch raised, or its result could not be published) keeps its message
  unacknowledged for ever: no state that the worker can reach from there closes the run.
\<close>

theorem crashed_feed_blocks_ack:
  assumes "worker_reach n s" and "is_task s t" and "task_state s t = Crashed"
    and "(worker_step n)\<^sup>*\<^sup>* s s'"
  shows "\<not> run_closed (ws_runs s' ! fst t)"
proof -
  have t: "is_task s' t" "task_state s' t = Crashed"
    using worker_steps_finished [OF assms(4,2)] assms(3) by auto
  have "run_ok (ws_runs s' ! fst t)"
    using worker_reach_inv [OF worker_reach_steps [OF assms(4,1)]] t(1)
    by (simp add: worker_inv_def is_task_def)
  then show ?thesis
    using t by (auto simp: run_ok_def is_task_def task_state_def list_all_length)
qed

lemma sample_crash:
  "\<exists>s. worker_reach 1 s \<and> is_task s (0, 0) \<and> task_state s (0, 0) = Crashed"
proof -
  let ?t = "(0, 0) :: task_id"
  let ?key = "task_key sample_started ?t"
  note inv = worker_reach_inv [OF sample_started_reach]
  have t: "is_task sample_started ?t" "task_state sample_started ?t = Waiting"
    by (simp_all add: is_task_def task_state_def sample_started_run)
  obtain l where l: "ws_limiters sample_started ?key = Some l"
    using worker_inv_queued [OF inv t(1)] by blast
  let ?s1 = "set_limiter ?key (acquire_start ?t l) (set_task ?t Acquiring sample_started)"
  have "worker_step 1 sample_started ?s1" by (rule acquire [OF t l])
  then have r1: "worker_reach 1 ?s1" by (rule worker_reach.step [OF sample_started_reach])
  have t1: "is_task ?s1 ?t" "task_state ?s1 ?t = Acquiring"
    using t(1) set_task_state [OF t(1) t(1), of Acquiring] by (simp_all add: worker_fields)
  obtain l1 where l1: "ws_limiters ?s1 (task_key ?s1 ?t) = Some l1" "?t \<in> set (arrived l1)"
    using worker_inv_queued [OF worker_reach_inv [OF r1] t1(1)] t1(2) by (auto simp: booked_def)
  have "limiter_reach 1 l1"
    using worker_reach_inv [OF r1] l1(1) unfolding worker_inv_def limiters_ok_def by blast
  then obtain l2 where l2: "limiter_internal\<^sup>*\<^sup>* l1 l2" "?t \<in> fst ` set (granted l2)"
    using caller_is_granted [OF _ _ l1(2)] by (metis less_numeral_extra(1))
  obtain s2 where s2: "(worker_step 1)\<^sup>*\<^sup>* ?s1 s2" "ws_limiters s2 (task_key ?s1 ?t) = Some l2"
    "ws_runs s2 = ws_runs ?s1"
    using limiter_steps_lift [OF l2(1) r1 l1(1)] by blast
  have t2: "is_task s2 ?t" "task_state s2 ?t = Acquiring" "task_key s2 ?t = task_key ?s1 ?t"
    using t1 s2(3) by (simp_all add: is_task_def task_state_def task_key_def task_feed_def)
  let ?out = "process_feed silent_env (\<lambda>_ _. BrokeOtherwise ''down'') empty_cache
    (run_request (ws_runs s2 ! fst ?t)) (task_feed s2 ?t)"
  obtain res entries c where o: "?out = (res, entries, c)" by (metis prod_cases3)
  have "res \<noteq> Inr ()"
    using process_feed_entries [OF o] o
    by (auto simp: process_feed_def publish_payload_def run_redis_command_def executions_def
        redis_command_loop.simps [of _ _ "Suc _"] get_redis_client_def empty_cache_def
        split: sum.splits)
  then have "task_state (end_feed ?t ?out s2) ?t = Crashed"
    using set_task_state [OF t2(1) t2(1), of Crashed] end_feed_fields(2) [OF refl, of ?t res entries c s2] o
    by (cases res) (simp_all add: task_state_def)
  moreover have "is_task (end_feed ?t ?out s2) ?t"
    using t2(1) end_feed_fields(2) [OF refl, of ?t res entries c s2] o set_task_fields(2) [of ?t _ s2 ?t]
    by (simp add: is_task_def)
  moreover have "worker_step 1 s2 (end_feed ?t ?out s2)"
    by (rule fetched [OF t2(1,2) _ l2(2)]) (simp add: s2(2) t2(3))
  then have "worker_reach 1 (end_feed ?t ?out s2)"
    by (rule worker_reach.step [OF worker_reach_steps [OF s2(1) r1]])
  ultimately show ?thesis by blast
qed

theorem crashed_feed_blocks_ack_witness:
  "\<exists>s. worker_reach 1 s \<and> is_task s (0, 0) \<and> \<not> run_closed (ws_runs s ! 0)"
  using sample_crash crashed_feed_blocks_ack [OF _ _ _ rtranclp.rtrancl_refl, of 1 _ "(0, 0)"] by auto

text \<open>
  The rate per company: all the feeds of a company, over all the jobs in flight, draw on one limiter
  with \<open>n\<close> permits; no task is finished that it did not grant, and no window of one second holds more
  than \<open>n\<close> of its grants.
\<close>

theorem company_rate_is_bounded:
  assumes "worker_reach n s" and "is_task s t"
  shows "\<exists>l. ws_limiters s (resolve_company_key (task_feed s t)) = Some l \<and>
    (task_state s t = Published \<or> task_state s t = Crashed \<longrightarrow> t \<in> fst ` set (granted l)) \<and>
    (\<forall>a. length (filter (\<lambda>g. a \<le> snd g \<and> snd g < a + one_second) (granted l)) \<le> n)"
proof -
  note inv = worker_reach_inv [OF assms(1)]
  obtain l where l: "ws_limiters s (task_key s t) = Some l" "booked (task_state s t) t l"
    using worker_inv_queued [OF inv assms(2)] by blast
  have "limiter_reach n l" using inv l(1) unfolding worker_inv_def limiters_ok_def by blast
  then have "limiter_inv n l" by (rule limiter_reach_inv)
  then have "\<forall>a. length (filter (\<lambda>g. a \<le> snd g \<and> snd g < a + one_second) (granted l)) \<le> n"
    by (simp add: limiter_inv_def limiter_timed_def window_count_def)
  then show ?thesis using l by (auto simp: booked_def task_key_def)
qed

theorem company_rate_is_bounded_witness:
  "\<exists>l. ws_limiters sample_started (resolve_company_key (task_feed sample_started (0, 0))) = Some l"
proof -
  have "is_task sample_started (0, 0)" by (simp add: is_task_def sample_started_run)
  then show ?thesis using company_rate_is_bounded [OF sample_started_reach] by blast
qed

text \<open>
  C13: progress: a job none of whose feeds crashed can always be completed.  With at least one request
  per second allowed and no feed whose last update lies outside the range of UTC dates, the
  worker can go on so that the message is acknowledged.
\<close>

theorem job_can_complete:
  assumes "worker_reach n s" and "0 < n" and "i < length (ws_runs s)"
    and "Crashed \<notin> set (run_tasks (ws_runs s ! i))" and "\<not> run_closed (ws_runs s ! i)"
    and "\<forall>feed\<in>set (run_feeds (ws_runs s ! i)). \<forall>d. jf_last_update feed = Some d \<longrightarrow> \<not> utc_overflows d"
  shows "\<exists>s'. (worker_step n)\<^sup>*\<^sup>* s s' \<and> i < length (ws_runs s') \<and> run_closed (ws_runs s' ! i) \<and>
    run_message (ws_runs s ! i) \<in> set (ws_acked s')"
  by (rule run_can_close [OF assms])

theorem job_can_complete_witness:
  "\<exists>s'. (worker_step 1)\<^sup>*\<^sup>* sample_started s' \<and> ''m'' \<in> set (ws_acked s')"
  using job_can_complete [OF sample_started_reach, of 0]
  by (auto simp: sample_started_run sample_job_feed_def)

end
