(* ===== verification/Pipeline.thy ===== *)
theory Pipeline
  imports Result_Consumer Job_Enqueue Scrape_Worker
begin

text \<open>
  What the three services rely on from each other: the results a worker publishes pass the validation of the
  db-manager, the status of a job follows its results over any sequence of deliveries, and a closed run has published
  every feed of its request.
\<close>

section \<open>From the worker\<close>

lemma answers_valid:
  assumes "answers request feed stream r" and "valid_job_feed feed"
  shows "validate_result (Some r) = Inr r"
  using assms by (simp add: validate_result_def valid_worker_result_def answers_def valid_job_feed_def
    normal_source_def list_all_iff valid_worker_source_eq)

lemma request_feeds_valid: "valid_job_request request \<Longrightarrow> f \<in> set (jr_feeds request) \<Longrightarrow> valid_job_feed f"
  by (simp add: valid_job_request_def)

text \<open>Whatever a worker put into the streams.\<close>

lemma logged_results_valid:
  assumes "worker_reach n s" and "(t, stream, r) \<in> set (ws_log s)"
  shows "validate_result (Some r) = Inr r"
proof -
  note inv = worker_reach_inv [OF assms(1)]
  have t: "is_task s t" using inv assms(2) by (force simp: worker_inv_def)
  have ans: "answers (run_request (ws_runs s ! fst t)) (task_feed s t) stream r"
    using worker_inv_task [OF inv t] assms(2) by (cases t) (simp add: task_ok_def entries_of_def split_beta)
  have run: "run_ok (ws_runs s ! fst t)" using inv t by (simp add: worker_inv_def is_task_def)
  then have "task_feed s t \<in> set (run_feeds (ws_runs s ! fst t))"
    using t by (simp add: task_feed_def is_task_def run_ok_def)
  then have "task_feed s t \<in> set (jr_feeds (run_request (ws_runs s ! fst t)))"
    using run by (metis run_ok_def set_mset_mset)
  then have "valid_job_feed (task_feed s t)"
    by (rule request_feeds_valid [rotated]) (use run in \<open>simp add: run_ok_def\<close>)
  then show ?thesis by (rule answers_valid [OF ans])
qed

lemma closed_run_published:
  assumes "worker_reach n s" and "run \<in> set (ws_runs s)" and "run_closed run" and "f \<in> set (jr_feeds (run_request run))"
  shows "\<exists>t stream r. (t, stream, r) \<in> set (ws_log s) \<and> answers (run_request run) f stream r"
proof -
  note inv = worker_reach_inv [OF assms(1)]
  obtain i where i: "i < length (ws_runs s)" "ws_runs s ! i = run" using assms(2) by (auto simp: in_set_conv_nth)
  have ok: "run_ok run" using inv assms(2) by (simp add: worker_inv_def)
  then have "f \<in> set (run_feeds run)" using assms(4) by (metis run_ok_def set_mset_mset)
  then obtain j where j: "j < length (run_feeds run)" "run_feeds run ! j = f" by (auto simp: in_set_conv_nth)
  then have t: "is_task s (i, j)" and p: "task_state s (i, j) = Published"
    using ok i assms(3) by (simp_all add: run_ok_def is_task_def task_state_def list_all_length)
  then have "entries_of (i, j) s \<noteq> []" using worker_inv_task [OF inv t] by (simp add: task_ok_def)
  then obtain e where e: "e \<in> set (entries_of (i, j) s)" by (cases "entries_of (i, j) s") auto
  obtain t' stream r where split: "e = (t', stream, r)" by (cases e)
  have "answers run_req f stream r" if "run_req = run_request run" for run_req
    using worker_inv_task [OF inv t] e split i j that by (force simp: task_ok_def task_feed_def)
  then show ?thesis using e split by (auto simp: entries_of_def)
qed

section \<open>In the db-manager\<close>

definition job_counts :: "database \<Rightarrow> (string \<times> int) list" where
  "job_counts db = map (\<lambda>j. (jb_job_id j, jb_feed_count j)) (db_jobs db)"

definition error_count :: "string \<Rightarrow> database \<Rightarrow> int" where
  "error_count j db = int (length (filter (\<lambda>r. rr_status r = ''error'') (job_results j db)))"

text \<open>A job has no result yet, or its status is that of its results.\<close>

definition status_current :: "string \<Rightarrow> database \<Rightarrow> bool" where
  "status_current j db \<longleftrightarrow> job_results j db = [] \<or>
     (\<exists>job. row_with jb_job_id j (db_jobs db) = Some job \<and>
        jb_status job = job_status_of (jb_feed_count job) (int (length (job_results j db))) (error_count j db))"

lemma store_delivery_cases:
  assumes "ledger_ok db" and "unique_key jb_job_id (db_jobs db)"
  obtains (same) "db_results (snd (store_delivery p db)) = db_results db" "db_jobs (snd (store_delivery p db)) = db_jobs db"
  | (new) now payload kind db' where "p = (now, payload, kind)" "persist_worker_result now payload kind db = (Inr True, db')"
      "snd (store_delivery p db) = db'"
proof -
  obtain now payload kind where p: "p = (now, payload, kind)" by (cases p)
  obtain r db' where run: "persist_worker_result now payload kind db = (r, db')" by fastforce
  show ?thesis
  proof (cases "r = Inr True")
    case True
    then show ?thesis using new p run by (simp add: store_delivery_def transaction_def)
  next
    case False
    then show ?thesis using p run
      by (intro same; cases r) (auto simp: store_delivery_def transaction_def elim: persist_cases)
  qed
qed

lemma delivery_keeps_jobs:
  assumes "ledger_ok db" and "unique_key jb_job_id (db_jobs db)"
  shows "job_counts (snd (store_delivery p db)) = job_counts db"
  using assms
proof (cases rule: store_delivery_cases [of db p])
  case (new now payload kind db')
  obtain job where "row_with jb_job_id (res_job_id payload) (db_jobs db) = Some job"
    "db_jobs db' = update_row jb_job_id (res_job_id payload)
      (\<lambda>row. row\<lparr>jb_status := job_status_of (jb_feed_count job) (int (length (job_results (res_job_id payload) db')))
         (int (length (filter (\<lambda>r. rr_status r = ''error'') (job_results (res_job_id payload) db')))),
         jb_updated_at := now\<rparr>) (db_jobs db)"
    using persist_stored_job [OF new(2) assms] by blast
  then show ?thesis using new(3) by (simp add: job_counts_def map_key_update)
qed (simp add: job_counts_def)

lemma job_counts_unique: "job_counts db' = job_counts db \<Longrightarrow> unique_key jb_job_id (db_jobs db') = unique_key jb_job_id (db_jobs db)"
  unfolding job_counts_def unique_key_def by (drule arg_cong [where f = "map fst"]) (simp add: comp_def)

lemma delivery_keeps_status_current:
  assumes ok: "ledger_ok db" "unique_key jb_job_id (db_jobs db)" and cur: "status_current j db"
  shows "status_current j (snd (store_delivery p db))"
  using ok
proof (cases rule: store_delivery_cases [of db p])
  case same
  then show ?thesis using cur by (simp add: status_current_def job_results_def error_count_def)
next
  case (new now payload kind db')
  let ?j = "res_job_id payload"
  obtain job where job: "row_with jb_job_id ?j (db_jobs db) = Some job"
    "db_jobs db' = update_row jb_job_id ?j
      (\<lambda>row. row\<lparr>jb_status := job_status_of (jb_feed_count job) (int (length (job_results ?j db')))
         (int (length (filter (\<lambda>r. rr_status r = ''error'') (job_results ?j db')))),
         jb_updated_at := now\<rparr>) (db_jobs db)"
    using persist_stored_job [OF new(2) ok] by blast
  obtain row where row: "db_results db' = db_results db @ [row]" "rr_job_id row = ?j"
    using persist_stored_ledger [OF new(2) ok(1)] by (auto simp: result_key_def build_idempotency_key_def)
  show ?thesis
  proof (cases "j = ?j")
    case True
    then show ?thesis using job new(3) by (simp add: status_current_def row_with_update error_count_def)
  next
    case False
    then have "job_results j db' = job_results j db" "row_with jb_job_id j (db_jobs db') = row_with jb_job_id j (db_jobs db)"
      using row by (simp_all add: job_results_def job(2) row_with_update)
    then show ?thesis using cur new(3) by (simp add: status_current_def error_count_def)
  qed
qed

lemma deliver_all_keeps:
  assumes "ledger_ok db" and "unique_key jb_job_id (db_jobs db)"
  shows "ledger_ok (deliver_all ps db) \<and> job_counts (deliver_all ps db) = job_counts db \<and>
    (status_current j db \<longrightarrow> status_current j (deliver_all ps db))"
  using assms
proof (induction ps arbitrary: db)
  case (Cons p ps)
  let ?db = "snd (store_delivery p db)"
  have ok: "ledger_ok ?db" by (rule store_delivery_ledger_ok [OF Cons.prems(1)])
  have counts: "job_counts ?db = job_counts db" by (rule delivery_keeps_jobs [OF Cons.prems])
  then have unique: "unique_key jb_job_id (db_jobs ?db)" using job_counts_unique Cons.prems(2) by blast
  show ?case
    using Cons.IH [OF ok unique] counts delivery_keeps_status_current [OF Cons.prems] by (simp add: deliver_all_def)
qed (simp add: deliver_all_def)

text \<open>A committed delivery for a known job leaves its key in the ledger.\<close>

lemma committed_delivery_recorded:
  assumes "store_delivery (now, payload, kind) db = (Inr b, db')" and "ledger_ok db"
    and "res_job_id payload \<in> keys_of jb_job_id (db_jobs db)"
  shows "ledger db' (res_job_id payload, res_feed_id payload) \<noteq> None"
proof -
  have key: "delivery_key (now, payload, kind) = (res_job_id payload, res_feed_id payload)"
    by (simp add: delivery_key_def build_idempotency_key_def)
  show ?thesis
  proof (cases b)
    case True
    then have "store_delivery (now, payload, kind) db = (Inr True, db')" using assms(1) by simp
    from result_ledger.record_new [OF assms(2) this] show ?thesis by (auto simp: key)
  next
    case False
    then have "persist_worker_result now payload kind db = (Inr False, db')"
      using assms(1) by (simp add: store_delivery_def transaction_Inr)
    then have same: "db' = db" and ins: "insert_job_result_if_new payload kind db = (Inr False, db)"
      by (auto elim: persist_cases)
    from ins show ?thesis
    proof (cases rule: insert_result_cases)
      case (old row)
      then have "result_key row = (res_job_id payload, res_feed_id payload)"
        using known_job_key [OF assms(2,3) old(4)] by (simp add: build_idempotency_key_def)
      then show ?thesis using old(5) same row_with_None [of result_key "result_key row" "db_results db"]
        by (simp add: ledger_def)
    qed (use assms(3) in simp_all)
  qed
qed

lemma job_counts_keys: "job_counts db' = job_counts db \<Longrightarrow> keys_of jb_job_id (db_jobs db') = keys_of jb_job_id (db_jobs db)"
  unfolding job_counts_def keys_of_def by (drule arg_cong [where f = "\<lambda>xs. fst ` set xs"]) (simp add: image_comp comp_def)

lemma recorded_after_delivery:
  assumes ok: "ledger_ok db" "unique_key jb_job_id (db_jobs db)"
    and ps: "ps = pre @ (now, payload, kind) # post"
    and commit: "fst (store_delivery (now, payload, kind) (deliver_all pre db)) = Inr b"
    and job: "res_job_id payload \<in> keys_of jb_job_id (db_jobs db)"
  shows "\<exists>row. ledger (deliver_all ps db) (res_job_id payload, res_feed_id payload) = Some row"
proof -
  note keeps = deliver_all_keeps [OF ok, of pre]
  obtain db' where db': "store_delivery (now, payload, kind) (deliver_all pre db) = (Inr b, db')"
    using commit by (metis eq_fst_iff)
  have "res_job_id payload \<in> keys_of jb_job_id (db_jobs (deliver_all pre db))"
    using job_counts_keys keeps job by blast
  then obtain row where "ledger db' (res_job_id payload, res_feed_id payload) = Some row"
    using committed_delivery_recorded [OF db'] keeps by blast
  moreover have "ledger_ok db'" using store_delivery_ledger_ok [of "deliver_all pre db"] db' keeps by (metis snd_conv)
  moreover have "deliver_all ps db = deliver_all post db'" using ps db' by (simp add: deliver_all_def)
  ultimately show ?thesis using result_ledger.lookup_stable by (metis deliver_all_eq)
qed

text \<open>The results of a job are at least as many as the feeds that have one.\<close>

lemma recorded_feeds_le:
  assumes "distinct fs" and "\<And>f. f \<in> set fs \<Longrightarrow> \<exists>row. ledger db (j, f) = Some row"
  shows "length fs \<le> length (job_results j db)"
proof -
  have "set fs \<subseteq> rr_feed_id ` set (job_results j db)"
  proof
    fix f assume "f \<in> set fs"
    then obtain row where "row \<in> set (db_results db)" "result_key row = (j, f)"
      using assms(2) by (metis ledger_def row_with_SomeD)
    then show "f \<in> rr_feed_id ` set (job_results j db)" by (force simp: job_results_def result_key_def)
  qed
  then have "card (set fs) \<le> card (rr_feed_id ` set (job_results j db))" by (rule card_mono [rotated]) simp
  also have "\<dots> \<le> card (set (job_results j db))" by (rule card_image_le) simp
  also have "\<dots> \<le> length (job_results j db)" by (rule card_length)
  finally show ?thesis using assms(1) by (simp add: distinct_card)
qed

section \<open>All three\<close>

text \<open>The stream of a result, as the consumer names its kind.\<close>

definition stream_kind :: "string \<Rightarrow> string" where
  "stream_kind stream = resolve_queue_kind stream ''rss_check_results'' ''rss_ingest_results'' ''error_feeds_parsing''"

text \<open>Some delivery of a published result was committed.\<close>

definition committed_once :: "database \<Rightarrow> delivery list \<Rightarrow> string \<Rightarrow> scrape_result \<Rightarrow> bool" where
  "committed_once db ps stream r \<longleftrightarrow> (\<exists>pre now post b. ps = pre @ (now, r, stream_kind stream) # post \<and>
     fst (store_delivery (now, r, stream_kind stream) (deliver_all pre db)) = Inr b)"

lemma created_job_facts:
  assumes "job_created j status feeds db db'" and "db_ok db" and "length j \<le> 36"
  shows "ledger_ok db'" and "unique_key jb_job_id (db_jobs db')" and "job_results j db' = []"
    and "(j, int (length feeds)) \<in> set (job_counts db')"
proof -
  obtain job rows where new: "j \<notin> keys_of jb_job_id (db_jobs db)"
    "db' = db\<lparr>db_jobs := db_jobs db @ [job], db_job_feeds := db_job_feeds db @ rows\<rparr>"
    "jb_job_id job = j" "jb_feed_count job = int (length feeds)"
    using assms(1) by (auto simp: job_created_def)
  show "ledger_ok db'" using db_ok_ledger [OF assms(2)] new(2,3) assms(3) by (simp add: ledger_ok_def)
  have "unique_key jb_job_id (db_jobs db)" using assms(2) by (simp add: schema_defs)
  then show "unique_key jb_job_id (db_jobs db')" using unique_key_insert [of jb_job_id "db_jobs db" job] new by simp
  have "\<And>r. r \<in> set (db_results db) \<Longrightarrow> rr_job_id r \<in> keys_of jb_job_id (db_jobs db)"
    using assms(2) by (auto simp: schema_defs list_all_iff)
  then show "job_results j db' = []" using new(1,2) by (auto simp: job_results_def filter_empty_conv)
  show "(j, int (length feeds)) \<in> set (job_counts db')" using new by (simp add: job_counts_def)
qed

lemma completed_status:
  assumes "status_current j db" and "(j, int n) \<in> set (job_counts db)" and "unique_key jb_job_id (db_jobs db)"
    and "0 < n" and "n \<le> length (job_results j db)"
  shows "\<exists>job. row_with jb_job_id j (db_jobs db) = Some job \<and>
    jb_status job = (if 0 < error_count j db then ''completed_with_errors'' else ''completed'')"
proof -
  have some: "job_results j db \<noteq> []" using assms(4,5) by auto
  then obtain job where job: "row_with jb_job_id j (db_jobs db) = Some job"
    "jb_status job = job_status_of (jb_feed_count job) (int (length (job_results j db))) (error_count j db)"
    using assms(1) by (auto simp: status_current_def)
  obtain row where "row \<in> set (db_jobs db)" "jb_job_id row = j" "jb_feed_count row = int n"
    using assms(2) by (auto simp: job_counts_def)
  then have "jb_feed_count job = int n" using row_with_unique [OF assms(3)] job(1) by (metis option.inject)
  then show ?thesis using job some assms(4,5) by (simp add: job_status_of_def)
qed

lemma pipeline_completes:
  assumes created: "job_created j status feeds db db'" and ok: "db_ok db" "length j \<le> 36"
    and feeds: "feeds \<noteq> []" "distinct (map jf_feed_id feeds)"
    and recorded: "\<And>f. f \<in> set feeds \<Longrightarrow> \<exists>row. ledger (deliver_all ps db') (j, jf_feed_id f) = Some row"
  shows "\<exists>job. row_with jb_job_id j (db_jobs (deliver_all ps db')) = Some job \<and>
    jb_status job = (if 0 < error_count j (deliver_all ps db') then ''completed_with_errors'' else ''completed'')"
proof -
  note facts = created_job_facts [OF created ok]
  have current: "status_current j db'" using facts(3) by (simp add: status_current_def)
  note keeps = deliver_all_keeps [OF facts(1,2), of ps j]
  have enough: "length feeds \<le> length (job_results j (deliver_all ps db'))"
    using recorded_feeds_le [OF feeds(2), of "deliver_all ps db'" j] recorded by auto
  show ?thesis
  proof (rule completed_status [OF _ _ _ _ enough])
    show "status_current j (deliver_all ps db')" using keeps current by blast
    show "(j, int (length feeds)) \<in> set (job_counts (deliver_all ps db'))" using keeps facts(4) by simp
    show "unique_key jb_job_id (db_jobs (deliver_all ps db'))" using keeps job_counts_unique facts(2) by blast
    show "0 < length feeds" using feeds(1) by simp
  qed
qed

lemma queued_job_facts:
  assumes "enqueue_rss_scrape_job netloc_ok env ingest requested_by feed_ids enabled_only backend = (Inr answer, backend')"
    and "list_rss_feed_scrape_payloads netloc_ok feed_ids enabled_only (bs_db backend) = Inr feeds" and "feeds \<noteq> []"
    and "length (ee_job_id env) = 36"
  shows "job_created (ee_job_id env) ''queued'' feeds (bs_db backend) (bs_db backend')"
    and "drop (length (bs_requests backend)) (bs_requests backend') = job_requests env ingest requested_by feeds"
proof -
  obtain db where db: "create_rss_scrape_job (ee_created env) (ee_job_id env) ingest requested_by (ee_now env)
      ''queued'' feeds (bs_db backend) = (Inr (), db)"
    "backend' = backend\<lparr>bs_db := db, bs_requests := bs_requests backend @ job_requests env ingest requested_by feeds\<rparr>"
    using assms(1)
  proof (cases rule: enqueue_cases)
    case (queued feeds' db)
    then show ?thesis using assms(2,3) that by simp
  qed simp_all
  have valid: "\<forall>f\<in>set feeds. valid_job_feed f" by (rule payloads_Inr(3) [OF assms(2)])
  show "job_created (ee_job_id env) ''queued'' feeds (bs_db backend) (bs_db backend')"
    using create_job_Inr [OF db(1) _ _ valid] db(2) assms(4) by simp
  show "drop (length (bs_requests backend)) (bs_requests backend') = job_requests env ingest requested_by feeds"
    by (simp add: db(2))
qed

lemma payloads_distinct:
  assumes "list_rss_feed_scrape_payloads netloc_ok feed_ids enabled_only db = Inr feeds" and "db_ok db"
  shows "distinct (map jf_feed_id feeds)"
proof -
  have "unique_key fd_id (db_feeds db)" using assms(2) by (simp add: schema_defs)
  then show ?thesis
    unfolding payloads_Inr(1) [OF assms(1)] selected_feeds_def by (rule sort_key_distinct)
qed

lemma requested_feed_published:
  assumes "\<forall>s\<in>set workers. worker_reach n s"
    and "\<forall>request\<in>set (job_requests env ingest requested_by feeds).
      \<exists>s\<in>set workers. \<exists>run\<in>set (ws_runs s). run_request run = request \<and> run_closed run"
    and "f \<in> set feeds"
  shows "\<exists>s\<in>set workers. \<exists>t stream r. (t, stream, r) \<in> set (ws_log s) \<and>
    res_job_id r = ee_job_id env \<and> res_feed_id r = jf_feed_id f"
proof -
  have "f \<in> set (concat (map jr_feeds (job_requests env ingest requested_by feeds)))"
    using assms(3) job_requests_mset by (metis set_mset_mset)
  then obtain request where request: "request \<in> set (job_requests env ingest requested_by feeds)" "f \<in> set (jr_feeds request)"
    by auto
  then obtain s run where run: "s \<in> set workers" "run \<in> set (ws_runs s)" "run_request run = request" "run_closed run"
    using assms(2) by blast
  have reach: "worker_reach n s" using assms(1) run(1) by blast
  obtain t stream r where r: "(t, stream, r) \<in> set (ws_log s)" "answers (run_request run) f stream r"
    using closed_run_published [OF reach run(2,4)] run(3) request(2) by blast
  then have "res_job_id r = ee_job_id env \<and> res_feed_id r = jf_feed_id f"
    using run(3) job_request_member [OF request(1)] by (simp add: answers_def)
  then show ?thesis using run(1) r(1) by blast
qed

text \<open>The entry of a job that had none.\<close>

lemma new_entry_unique:
  assumes "ledger_ok db" and "unique_key jb_job_id (db_jobs db)" and "job_results j db = []"
    and "ledger (deliver_all ps db) (j, f) = Some row"
  shows "filter (\<lambda>r. result_key r = (j, f)) (db_results (deliver_all ps db)) = [row] \<and>
    (\<exists>p\<in>set ps. delivery_key p = (j, f) \<and> delivery_entry p = Some row)"
proof
  have "unique_key result_key (db_results (deliver_all ps db))"
    using deliver_all_keeps [OF assms(1,2), of ps] by (simp add: ledger_ok_def)
  then have rows: "distinct (db_results (deliver_all ps db))" "inj_on result_key (set (db_results (deliver_all ps db)))"
    by (auto simp: unique_key_def distinct_map)
  have row: "row \<in> set (db_results (deliver_all ps db))" "result_key row = (j, f)"
    using assms(4) unfolding ledger_def by (auto dest: row_with_SomeD)
  have "filter (\<lambda>r. result_key r = (j, f)) (db_results (deliver_all ps db)) = filter (\<lambda>r. r = row) (db_results (deliver_all ps db))"
    by (rule filter_cong [OF refl]) (use rows(2) row in \<open>auto simp: inj_on_def\<close>)
  then show "filter (\<lambda>r. result_key r = (j, f)) (db_results (deliver_all ps db)) = [row]"
    using rows(1) row(1) by (simp add: filter_unique)
  have "ledger db (j, f) = None"
    using assms(3) by (auto simp: ledger_def row_with_None keys_of_def job_results_def result_key_def filter_empty_conv)
  then obtain pre p post where "ps = pre @ p # post" "delivery_key p = (j, f)" "delivery_entry p = Some row"
    using result_ledger.deliver_origin [OF assms(1), of "(j, f)" ps row] assms(4) by (auto simp: deliver_all_eq)
  then show "\<exists>p\<in>set ps. delivery_key p = (j, f) \<and> delivery_entry p = Some row" by auto
qed

lemma error_count_positive:
  "0 < error_count j db \<longleftrightarrow> (\<exists>r\<in>set (db_results db). rr_job_id r = j \<and> rr_status r = ''error'')"
  by (auto simp: error_count_def job_results_def length_greater_0_conv [symmetric] filter_empty_conv simp del: length_greater_0_conv)

section \<open>A job of one feed\<close>

definition traced_db :: database where
  "traced_db = empty_db\<lparr>db_feeds := [\<lparr>fd_id = 7, fd_url = ''u'', fd_section = None, fd_enabled = True,
     fd_trust_score = 1, fd_company_id = None\<rparr>]\<rparr>"

definition traced_env :: enqueue_env where
  "traced_env = \<lparr>ee_job_id = replicate 36 CHR ''a'', ee_now = db_datetime 0, ee_created = 1, ee_batch_size = None,
     ee_commit = CommitOk, ee_xadd = \<lambda>_. Replied (), ee_failed = 2, ee_mark = CommitOk\<rparr>"

definition traced_feed :: job_feed where
  "traced_feed = \<lparr>jf_feed_id = 7, jf_feed_url = ''u'', jf_company_id = None, jf_host_header = None,
     jf_fetchprotection = 1, jf_etag = None, jf_last_update = None, jf_last_db_article_published_at = None\<rparr>"

definition traced_request :: job_request where
  "traced_request = \<lparr>jr_job_id = replicate 36 CHR ''a'', jr_requested_at = db_datetime 0, jr_ingest = True,
     jr_requested_by = ''x'', jr_feeds = [traced_feed]\<rparr>"

definition traced_backend :: "backend_state" where
  "traced_backend = \<lparr>bs_db = traced_db, bs_requests = []\<rparr>"

definition traced_enqueued :: database where
  "traced_enqueued = traced_db\<lparr>db_jobs := [\<lparr>jb_job_id = replicate 36 CHR ''a'', jb_ingest = True, jb_requested_by = ''x'',
       jb_requested_at = 0, jb_feed_count = 1, jb_status = ''queued'', jb_updated_at = 1\<rparr>],
     db_job_feeds := [\<lparr>jbf_job_id = replicate 36 CHR ''a'', jbf_feed_id = 7, jbf_feed_url = ''u'', jbf_last_article = None\<rparr>]\<rparr>"

lemma traced_enqueue:
  "enqueue_rss_scrape_job (\<lambda>_. True) traced_env True ''x'' None True traced_backend =
    (Inr (replicate 36 CHR ''a'', ''queued''), \<lparr>bs_db = traced_enqueued, bs_requests = [traced_request]\<rparr>)"
  by code_simp

lemma traced_payloads: "list_rss_feed_scrape_payloads (\<lambda>_. True) None True traced_db = Inr [traced_feed]"
  by code_simp

definition traced_result :: scrape_result where
  "traced_result = \<lparr>res_job_id = replicate 36 CHR ''a'', res_ingest = True, res_feed_id = 7, res_feed_url = ''u'',
     res_status = ResultError, res_error_message = Some ''Request timeout'', res_new_etag = None,
     res_new_last_update = None, res_fetchprotection = 1, res_sources = []\<rparr>"

definition traced_key :: string where
  "traced_key = resolve_company_key traced_feed"

definition traced_received :: worker_state where
  "traced_received = receive_message 1 ''m'' (Some traced_request) 0 worker_init"

definition traced_acquired :: worker_state where
  "traced_acquired = set_limiter traced_key (acquire_start (0, 0) (new_limiter 0 1)) (set_task (0, 0) Acquiring traced_received)"

definition traced_fetched :: worker_state where
  "traced_fetched = end_feed (0, 0)
     (process_feed silent_env (\<lambda>_ _. Replied ()) empty_cache traced_request traced_feed) traced_acquired"

definition traced_worker :: worker_state where
  "traced_worker = close_run 0 1 traced_fetched"

definition traced_runs :: "feed_task \<Rightarrow> bool \<Rightarrow> job_run list" where
  "traced_runs st b = [\<lparr>run_message = ''m'', run_request = traced_request, run_feeds = [traced_feed],
     run_tasks = [st], run_closed = b\<rparr>]"

lemma traced_request_valid: "valid_job_request traced_request"
  by code_simp

lemma traced_received_eq:
  "traced_received = worker_init\<lparr>ws_limiters := [traced_key \<mapsto> new_limiter 0 1], ws_runs := traced_runs Waiting False\<rparr>"
  using traced_request_valid
  by (simp add: traced_received_def receive_message_def validate_request_def make_job_request_def start_job_def worker_init_def
    group_feeds_by_company_def traced_request_def Let_def get_or_create_company_rate_limiter_def traced_key_def traced_runs_def)

lemma traced_fetch: "fst (fetch_feed_result silent_env traced_feed True) = Inr (traced_result\<lparr>res_job_id := []\<rparr>)"
  by code_simp

lemma traced_process:
  "\<exists>c. process_feed silent_env (\<lambda>_ _. Replied ()) empty_cache traced_request traced_feed =
    (Inr (), [(''error_feeds_parsing'', traced_result)], c)"
proof -
  have "feed_message silent_env traced_request traced_feed = Inr (''error_feeds_parsing'', traced_result)"
    using traced_fetch by (simp add: feed_message_def traced_request_def Let_def result_stream_def traced_result_def)
  moreover obtain c where "publish_payload ''error_feeds_parsing'' (\<lambda>_ _. Replied ()) empty_cache = (Inr (), Suc 0, c)"
    by (simp add: publish_payload_def run_redis_command_def executions_def
        redis_command_loop.simps [of _ _ "Suc _"] get_redis_client_def empty_cache_def)
  ultimately show ?thesis by (simp add: process_feed_def)
qed

lemma traced_worker_eq:
  "ws_log traced_worker = [((0, 0), ''error_feeds_parsing'', traced_result)]" "ws_runs traced_worker = traced_runs Published True"
  "ws_runs traced_fetched = traced_runs Published False" "ws_runs traced_acquired = traced_runs Acquiring False"
  using traced_process
  by (auto simp: traced_worker_def close_run_def traced_fetched_def end_feed_def set_task_def traced_acquired_def set_limiter_def
    traced_received_eq worker_init_def traced_runs_def)

lemma traced_worker_reach: "worker_reach 1 traced_worker"
proof -
  have recv: "worker_reach 1 traced_received"
    unfolding traced_received_def by (rule worker_reach.step [OF worker_reach.init receive])
  have feed: "task_feed s (0, 0) = traced_feed" if "ws_runs s = traced_runs st b" for s st b
    using that by (simp add: task_feed_def traced_runs_def)
  have key: "task_key s (0, 0) = traced_key" if "ws_runs s = traced_runs st b" for s st b
    using feed [OF that] by (simp add: task_key_def traced_key_def)
  have task: "is_task s (0, 0)" "task_state s (0, 0) = st" if "ws_runs s = traced_runs st b" for s st b
    using that by (simp_all add: is_task_def task_state_def traced_runs_def)
  have runs: "ws_runs traced_received = traced_runs Waiting False" "ws_limiters traced_received traced_key = Some (new_limiter 0 1)"
    by (simp_all add: traced_received_eq)
  have "worker_step 1 traced_received traced_acquired"
    using acquire [OF task [OF runs(1)]] runs(2) by (simp add: key [OF runs(1)] traced_acquired_def)
  then have acq: "worker_reach 1 traced_acquired" by (rule worker_reach.step [OF recv])
  note aruns = traced_worker_eq(4)
  have granted: "(0, 0) \<in> fst ` set (granted (acquire_start (0 :: nat, 0 :: nat) (new_limiter 0 1)))"
    by (simp add: acquire_start_def sem_locked_def new_limiter_def limiter_grant_def Let_def)
  have lim: "ws_limiters traced_acquired traced_key = Some (acquire_start (0, 0) (new_limiter 0 1))"
    by (simp add: traced_acquired_def set_limiter_def)
  have "run_request (ws_runs traced_acquired ! 0) = traced_request" by (simp add: aruns traced_runs_def)
  then have "worker_step 1 traced_acquired traced_fetched"
    using fetched [OF task [OF aruns] _ granted, of 1 silent_env "\<lambda>_ _. Replied ()" empty_cache] lim
    by (simp add: key [OF aruns] feed [OF aruns] traced_fetched_def)
  then have fet: "worker_reach 1 traced_fetched" by (rule worker_reach.step [OF acq])
  obtain c where a: "ack_scrape_job (run_message (ws_runs traced_fetched ! 0)) (\<lambda>_ _. Replied ()) empty_cache = (Inr (), 1, c)"
    by (simp add: ack_scrape_job_def ack_message_def run_redis_command_def executions_def
        redis_command_loop.simps [of _ _ "Suc _"] get_redis_client_def empty_cache_def)
  have "worker_step 1 traced_fetched traced_worker"
    unfolding traced_worker_def
    by (rule ack [OF _ _ _ a]) (simp_all add: traced_worker_eq(3) traced_runs_def)
  then show ?thesis by (rule worker_reach.step [OF fet])
qed

lemma traced_commit: "fst (store_delivery (5, traced_result, ''error'') traced_enqueued) = Inr True"
  by code_simp

lemma traced_db_ok: "db_ok traced_db"
  by (simp add: traced_db_def empty_db_def schema_defs unique_key_def)

end
