(* ===== verification/Catalog_Session.thy ===== *)
theory Catalog_Session
  imports Database Catalog_Normalize
begin

text \<open>
  The backend's SQLAlchemy session (\<^verbatim>\<open>database.py\<close>: \<^verbatim>\<open>autoflush=False\<close>) and the operations of the catalog on it:
  \<^verbatim>\<open>rss_company_db_cli.py\<close>, \<^verbatim>\<open>rss_tags_db_cli.py\<close>, \<^verbatim>\<open>utils_rss_feeds_db_cli.py\<close> and \<^verbatim>\<open>list_rss_feeds_by_urls\<close> of
  \<^verbatim>\<open>get_rss_feeds_db_cli.py\<close>.

  Queries and bulk deletions act on what was flushed; changed objects wait in the session, which
  writes them when a new object is flushed or at the commit.
\<close>

section \<open>The session\<close>

text \<open>
  \<open>ss_db\<close> is the database as the transaction sees it.  The other tables are the changed objects: companies,
  feeds, the tag collections and the scraping states of feeds; \<open>ss_new_scrapings\<close> are scraping states that have no row
  yet.  The sequences are not transactional.
\<close>

record session =
  ss_db :: database
  ss_companies :: "company_row list"
  ss_feeds :: "feed_row list"
  ss_feed_tags :: "(int \<times> int list) list"
  ss_scrapings :: "scraping_row list"
  ss_new_scrapings :: "scraping_row list"
  ss_company_seq :: int
  ss_feed_seq :: int
  ss_tag_seq :: int

text \<open>An object of the identity map: changed, or as the table has it.\<close>

definition object_with :: "('r \<Rightarrow> 'k) \<Rightarrow> 'k \<Rightarrow> 'r list \<Rightarrow> 'r list \<Rightarrow> 'r option" where
  "object_with key k changed rows =
     (case row_with key k changed of Some r \<Rightarrow> Some r | None \<Rightarrow> row_with key k rows)"

definition put_row :: "('r \<Rightarrow> 'k) \<Rightarrow> 'r \<Rightarrow> 'r list \<Rightarrow> 'r list" where
  "put_row key r rows =
     (if key r \<in> keys_of key rows then update_row key (key r) (\<lambda>_. r) rows else rows @ [r])"

text \<open>The table as it will be once the changed objects are written.\<close>

definition overlay :: "('r \<Rightarrow> 'k) \<Rightarrow> 'r list \<Rightarrow> 'r list \<Rightarrow> 'r list" where
  "overlay key changed rows = map (\<lambda>r. case row_with key (key r) changed of Some r' \<Rightarrow> r' | None \<Rightarrow> r) rows"

section \<open>Column types\<close>

text \<open>\<^verbatim>\<open>char(n)\<close>: padded with spaces.\<close>

definition bpchar :: "nat \<Rightarrow> string \<Rightarrow> py_exn + string" where
  "bpchar n s = and_then (varchar n s) (\<lambda>t. Inr (t @ replicate (n - length t) CHR '' ''))"

definition company_values :: "company_row \<Rightarrow> py_exn + company_row" where
  "company_values r =
     and_then (sql_texts [Some (co_name r), co_host r, co_icon_url r, co_country r, co_language r]) (\<lambda>_.
     and_then (varchar 50 (co_name r)) (\<lambda>name.
     and_then (nullable (varchar 255) (co_host r)) (\<lambda>host.
     and_then (nullable (varchar 500) (co_icon_url r)) (\<lambda>icon_url.
     and_then (nullable (bpchar 2) (co_country r)) (\<lambda>country.
     and_then (nullable (bpchar 2) (co_language r)) (\<lambda>language.
       if 0 \<le> co_fetchprotection r \<and> co_fetchprotection r \<le> 2
       then Inr (r\<lparr>co_name := name, co_host := host, co_icon_url := icon_url, co_country := country,
                   co_language := language\<rparr>)
       else Inl (OtherException ''CheckViolation'')))))))"

definition feed_values :: "database \<Rightarrow> feed_row \<Rightarrow> py_exn + feed_row" where
  "feed_values db r =
     and_then (sql_texts [Some (fd_url r), fd_section r]) (\<lambda>_.
     and_then (varchar 500 (fd_url r)) (\<lambda>url.
     and_then (nullable (varchar 50) (fd_section r)) (\<lambda>section_name.
       if \<not> (0 \<le> fd_trust_score r \<and> fd_trust_score r \<le> 1) then Inl (OtherException ''CheckViolation'')
       else if (case fd_company_id r of None \<Rightarrow> False | Some c \<Rightarrow> c \<notin> keys_of co_id (db_companies db))
       then Inl (OtherException ''ForeignKeyViolation'')
       else Inr (r\<lparr>fd_url := url, fd_section := section_name\<rparr>))))"

definition scraping_values :: "database \<Rightarrow> scraping_row \<Rightarrow> py_exn + scraping_row" where
  "scraping_values db r =
     (if \<not> (0 \<le> sc_fetchprotection r \<and> sc_fetchprotection r \<le> 2) then Inl (OtherException ''CheckViolation'')
      else if sc_feed_id r \<notin> keys_of fd_id (db_feeds db) then Inl (OtherException ''ForeignKeyViolation'')
      else Inr r)"

definition tag_values :: "tag_row \<Rightarrow> py_exn + tag_row" where
  "tag_values r =
     and_then (sql_texts [Some (tg_name r)]) (\<lambda>_.
     and_then (varchar 50 (tg_name r)) (\<lambda>name. Inr (r\<lparr>tg_name := name\<rparr>)))"

section \<open>Writing the changed objects\<close>

text \<open>
  An UPDATE of one object: its row must still be there, or the unit of work raises \<^verbatim>\<open>StaleDataError\<close>.
  \<open>tab\<close> and \<open>upd\<close> read and change the table.
\<close>

definition write_row ::
  "('r \<Rightarrow> 'k) \<Rightarrow> (database \<Rightarrow> 'r list) \<Rightarrow> (('r list \<Rightarrow> 'r list) \<Rightarrow> database \<Rightarrow> database)
     \<Rightarrow> (database \<Rightarrow> 'r \<Rightarrow> py_exn + 'r) \<Rightarrow> 'r \<Rightarrow> unit sql" where
  "write_row key tab upd conv r db =
     (if key r \<notin> keys_of key (tab db) then (Inl (OtherException ''StaleDataError''), db)
      else case conv db r of
        Inl e \<Rightarrow> (Inl e, db)
      | Inr r' \<Rightarrow> (Inr (), upd (update_row key (key r) (\<lambda>_. r')) db))"

text \<open>An INSERT: the keys listed in \<open>unique\<close> must be new.\<close>

definition insert_row ::
  "('r \<Rightarrow> 'k) \<Rightarrow> (database \<Rightarrow> 'r list) \<Rightarrow> (('r list \<Rightarrow> 'r list) \<Rightarrow> database \<Rightarrow> database)
     \<Rightarrow> (database \<Rightarrow> 'r \<Rightarrow> py_exn + 'r) \<Rightarrow> 'r \<Rightarrow> unit sql" where
  "insert_row key tab upd conv r db =
     (case conv db r of
        Inl e \<Rightarrow> (Inl e, db)
      | Inr r' \<Rightarrow>
          if key r' \<in> keys_of key (tab db) then (Inl (OtherException ''UniqueViolation''), db)
          else (Inr (), upd (\<lambda>rows. rows @ [r']) db))"

definition write_feed_tags :: "int \<times> int list \<Rightarrow> unit sql" where
  "write_feed_tags change db =
     (let (feed_id, tag_ids) = change;
          old = map ft_tag_id (filter (\<lambda>r. ft_feed_id r = feed_id) (db_feed_tags db))
      in (Inr (), db\<lparr>db_feed_tags :=
            filter (\<lambda>r. ft_feed_id r = feed_id \<longrightarrow> ft_tag_id r \<in> set tag_ids) (db_feed_tags db)
              @ map (\<lambda>t. \<lparr>ft_feed_id = feed_id, ft_tag_id = t\<rparr>) (filter (\<lambda>t. t \<notin> set old) tag_ids)\<rparr>))"

definition write_changes :: "session \<Rightarrow> unit sql" where
  "write_changes s =
     sql_bind (sql_for (write_row co_id db_companies db_companies_update (\<lambda>_. company_values)) (ss_companies s)) (\<lambda>_.
     sql_bind (sql_for (write_row fd_id db_feeds db_feeds_update feed_values) (ss_feeds s)) (\<lambda>_.
     sql_bind (sql_for (write_row sc_feed_id db_scrapings db_scrapings_update scraping_values) (ss_scrapings s)) (\<lambda>_.
     sql_bind (sql_for (insert_row sc_feed_id db_scrapings db_scrapings_update scraping_values) (ss_new_scrapings s)) (\<lambda>_.
       sql_for write_feed_tags (ss_feed_tags s)))))"

text \<open>A statement of the database within the session.\<close>

definition in_session :: "'a sql \<Rightarrow> (session, 'a) stmt" where
  "in_session m s = (case m (ss_db s) of (r, db) \<Rightarrow> (r, s\<lparr>ss_db := db\<rparr>))"

definition clear_changes :: "session \<Rightarrow> session" where
  "clear_changes s = s\<lparr>ss_companies := [], ss_feeds := [], ss_feed_tags := [], ss_scrapings := [], ss_new_scrapings := []\<rparr>"

definition flush :: "(session, unit) stmt" where
  "flush s = (case in_session (write_changes s) s of
     (Inl e, s') \<Rightarrow> (Inl e, s') | (Inr _, s') \<Rightarrow> (Inr (), clear_changes s'))"

section \<open>Identifiers\<close>

text \<open>
  The identifiers of companies, feeds and tags are of type SERIAL: a sequence over the positive integers of four bytes,
  whose \<^verbatim>\<open>nextval\<close> raises past its end.
\<close>

definition serial_ok :: "int \<Rightarrow> bool" where
  "serial_ok n \<longleftrightarrow> 1 \<le> n \<and> n < 2 ^ 31"

definition next_serial :: "(session \<Rightarrow> int) \<Rightarrow> (session \<Rightarrow> session) \<Rightarrow> (session, int) stmt" where
  "next_serial seq advance s =
     (if serial_ok (seq s) then (Inr (seq s), advance s)
      else (Inl (OtherException ''SequenceGeneratorLimitExceeded''), s))"

lemma next_serial_Inr:
  "next_serial seq advance s = (Inr i, s') \<longleftrightarrow> serial_ok (seq s) \<and> i = seq s \<and> s' = advance s"
  by (auto simp: next_serial_def)

section \<open>Companies\<close>

definition read_text :: "string \<Rightarrow> (session, unit) stmt" where
  "read_text t = sql_lift (sql_texts [Some t])"

definition get_company_by_name :: "string \<Rightarrow> (session, company_row option) stmt" where
  "get_company_by_name company_name =
     sql_bind (read_text company_name) (\<lambda>_ s.
       (Inr (case row_with co_name company_name (db_companies (ss_db s)) of
               None \<Rightarrow> None
             | Some r \<Rightarrow> object_with co_id (co_id r) (ss_companies s) (db_companies (ss_db s))), s))"

definition get_company_by_id :: "int \<Rightarrow> (session, company_row option) stmt" where
  "get_company_by_id company_id s =
     (Inr (if company_id \<in> keys_of co_id (db_companies (ss_db s))
           then object_with co_id company_id (ss_companies s) (db_companies (ss_db s)) else None), s)"

text \<open>\<^verbatim>\<open>_update_company_metadata\<close>: an icon of spaces is stored as NULL.\<close>

definition update_company_metadata ::
  "(string \<Rightarrow> bool) \<Rightarrow> string option \<Rightarrow> string option \<Rightarrow> string option \<Rightarrow> string option \<Rightarrow> int
     \<Rightarrow> company_row \<Rightarrow> py_exn + company_row" where
  "update_company_metadata netloc_ok host icon_url country language fetchprotection company =
     and_then (normalize_host netloc_ok host) (\<lambda>host.
       Inr (company\<lparr>co_host := host,
         co_icon_url := (case icon_url of None \<Rightarrow> None | Some i \<Rightarrow> if py_strip i = [] then None else Some (py_strip i)),
         co_country := normalize_country country,
         co_language := normalize_country language,
         co_fetchprotection := max 0 (min 2 fetchprotection)\<rparr>))"

definition next_company_id :: "(session, int) stmt" where
  "next_company_id = next_serial ss_company_seq (\<lambda>s. s\<lparr>ss_company_seq := ss_company_seq s + 1\<rparr>)"

definition insert_company :: "company_row \<Rightarrow> (session, company_row) stmt" where
  "insert_company company =
     sql_bind flush (\<lambda>_.
     sql_bind next_company_id (\<lambda>new_id.
     sql_bind (in_session (insert_row co_name db_companies db_companies_update (\<lambda>_. company_values)
        (company\<lparr>co_id := new_id\<rparr>))) (\<lambda>_.
       sql_return (company\<lparr>co_id := new_id\<rparr>))))"

definition get_or_create_company ::
  "(string \<Rightarrow> bool) \<Rightarrow> string \<Rightarrow> string option \<Rightarrow> string option \<Rightarrow> string option \<Rightarrow> string option \<Rightarrow> int
     \<Rightarrow> (session, company_row \<times> bool) stmt" where
  "get_or_create_company netloc_ok company_name host icon_url country language fetchprotection =
     sql_bind (get_company_by_name company_name) (\<lambda>existing_company.
       (case existing_company of
          Some company \<Rightarrow>
            sql_bind (sql_lift (update_company_metadata netloc_ok host icon_url country language fetchprotection company))
              (\<lambda>company s. (Inr (company, False), s\<lparr>ss_companies := put_row co_id company (ss_companies s)\<rparr>))
        | None \<Rightarrow>
            sql_bind (sql_lift (normalize_host netloc_ok host)) (\<lambda>host.
            sql_bind (insert_company
              \<lparr>co_id = 0, co_name = company_name, co_host = host, co_icon_url = icon_url,
               co_country = normalize_country country, co_language = normalize_country language,
               co_fetchprotection = max 0 (min 2 fetchprotection), co_enabled = True\<rparr>) (\<lambda>company.
              sql_return (company, True)))))"

section \<open>Tags\<close>

definition next_tag_id :: "(session, int) stmt" where
  "next_tag_id = next_serial ss_tag_seq (\<lambda>s. s\<lparr>ss_tag_seq := ss_tag_seq s + 1\<rparr>)"

definition insert_tag :: "string \<Rightarrow> (session, unit) stmt" where
  "insert_tag tag_name =
     sql_bind next_tag_id (\<lambda>new_id.
       in_session (insert_row tg_name db_tags db_tags_update (\<lambda>_. tag_values) \<lparr>tg_id = new_id, tg_name = tag_name\<rparr>))"

definition tag_ids_named :: "string list \<Rightarrow> tag_row list \<Rightarrow> int list" where
  "tag_ids_named names tags = List.map_filter (\<lambda>n. map_option tg_id (row_with tg_name n tags)) names"

text \<open>The identifiers of the tags in the order of the input, and how many were created.\<close>

definition get_or_create_tags :: "string list \<Rightarrow> (session, int list \<times> nat) stmt" where
  "get_or_create_tags tag_names =
     (let unique_tag_names = dedup_str tag_names in
      if unique_tag_names = [] then sql_return ([], 0)
      else
        sql_bind (sql_lift (sql_texts (map Some unique_tag_names))) (\<lambda>_ s.
          (let missing_tag_names =
                 filter (\<lambda>n. n \<notin> keys_of tg_name (db_tags (ss_db s))) unique_tag_names
           in sql_bind
                (if missing_tag_names = [] then sql_return ()
                 else sql_bind flush (\<lambda>_. sql_for insert_tag missing_tag_names))
                (\<lambda>_ s'. (Inr (tag_ids_named unique_tag_names (db_tags (ss_db s')), length missing_tag_names), s')) s)))"

section \<open>Feeds\<close>

definition list_rss_feeds_by_urls :: "string list \<Rightarrow> (session, string \<rightharpoonup> int) stmt" where
  "list_rss_feeds_by_urls urls =
     sql_bind (sql_lift (sql_texts (map Some urls))) (\<lambda>_ s.
       (Inr (\<lambda>url. if url \<in> set urls then map_option fd_id (row_with fd_url url (db_feeds (ss_db s))) else None), s))"

definition normalize_fetchprotection :: "int option \<Rightarrow> int" where
  "normalize_fetchprotection fetchprotection =
     (case fetchprotection of Some p \<Rightarrow> if 0 \<le> p \<and> p \<le> 2 then p else 1 | None \<Rightarrow> 1)"

definition new_scraping :: "int \<Rightarrow> int \<Rightarrow> scraping_row" where
  "new_scraping feed_id fetchprotection =
     \<lparr>sc_feed_id = feed_id, sc_fetchprotection = fetchprotection, sc_last_update = None, sc_etag = None,
      sc_error_nbr = 0, sc_error_msg = None\<rparr>"

text \<open>The protection of an existing feed only rises; a feed without a scraping state gets one.\<close>

definition raise_protection :: "int \<Rightarrow> int option \<Rightarrow> session \<Rightarrow> session" where
  "raise_protection feed_id fetchprotection s =
     (let level = (\<lambda>r. case fetchprotection of None \<Rightarrow> sc_fetchprotection r
                       | Some p \<Rightarrow> max (normalize_fetchprotection (Some (sc_fetchprotection r)))
                                       (normalize_fetchprotection (Some p)))
      in case row_with sc_feed_id feed_id (ss_new_scrapings s) of
           Some r \<Rightarrow> s\<lparr>ss_new_scrapings := put_row sc_feed_id (r\<lparr>sc_fetchprotection := level r\<rparr>) (ss_new_scrapings s)\<rparr>
         | None \<Rightarrow>
             (case object_with sc_feed_id feed_id (ss_scrapings s) (db_scrapings (ss_db s)) of
                Some r \<Rightarrow> if level r = sc_fetchprotection r then s
                          else s\<lparr>ss_scrapings := put_row sc_feed_id (r\<lparr>sc_fetchprotection := level r\<rparr>) (ss_scrapings s)\<rparr>
              | None \<Rightarrow> s\<lparr>ss_new_scrapings := ss_new_scrapings s
                            @ [new_scraping feed_id (level (new_scraping feed_id 1))]\<rparr>))"

definition next_feed_id :: "(session, int) stmt" where
  "next_feed_id = next_serial ss_feed_seq (\<lambda>s. s\<lparr>ss_feed_seq := ss_feed_seq s + 1\<rparr>)"

definition insert_feed :: "feed_upsert \<Rightarrow> int list \<Rightarrow> (session, int) stmt" where
  "insert_feed payload tags =
     sql_bind flush (\<lambda>_.
     sql_bind next_feed_id (\<lambda>new_id.
     sql_bind (in_session (insert_row fd_url db_feeds db_feeds_update feed_values
       \<lparr>fd_id = new_id, fd_url = up_url payload, fd_section = up_section payload, fd_enabled = up_enabled payload,
        fd_trust_score = up_trust_score payload, fd_company_id = None\<rparr>)) (\<lambda>_.
     sql_bind (in_session (insert_row sc_feed_id db_scrapings db_scrapings_update scraping_values
       (new_scraping new_id (normalize_fetchprotection (up_fetchprotection payload))))) (\<lambda>_.
     sql_bind (in_session (write_feed_tags (new_id, tags))) (\<lambda>_.
       sql_return new_id)))))"

definition feed_object :: "int \<Rightarrow> session \<Rightarrow> feed_row option" where
  "feed_object feed_id s = object_with fd_id feed_id (ss_feeds s) (db_feeds (ss_db s))"

definition set_feed_tags :: "int \<Rightarrow> int list \<Rightarrow> session \<Rightarrow> session" where
  "set_feed_tags feed_id tags s = s\<lparr>ss_feed_tags := put_row fst (feed_id, tags) (ss_feed_tags s)\<rparr>"

definition upsert_feed :: "feed_upsert \<Rightarrow> int list \<Rightarrow> int option \<Rightarrow> (session, int \<times> bool) stmt" where
  "upsert_feed payload tags existing_feed =
     sql_bind (case existing_feed of
         Some feed_id \<Rightarrow> sql_return (Some feed_id)
       | None \<Rightarrow> sql_bind (read_text (up_url payload)) (\<lambda>_ s.
           (Inr (map_option fd_id (row_with fd_url (up_url payload) (db_feeds (ss_db s)))), s)))
     (\<lambda>existing_feed.
       (case existing_feed of
          None \<Rightarrow> sql_bind (insert_feed payload tags) (\<lambda>new_id. sql_return (new_id, True))
        | Some feed_id \<Rightarrow> (\<lambda>s.
            (case feed_object feed_id s of
               None \<Rightarrow> (Inl (OtherException ''ObjectDeletedError''), s)
             | Some feed \<Rightarrow>
                 (Inr (feed_id, False),
                  set_feed_tags feed_id tags (raise_protection feed_id (up_fetchprotection payload)
                    (s\<lparr>ss_feeds := put_row fd_id
                        (feed\<lparr>fd_section := up_section payload, fd_enabled := up_enabled payload,
                              fd_trust_score := up_trust_score payload\<rparr>) (ss_feeds s)\<rparr>)))))))"

definition link_company_to_feed :: "int \<Rightarrow> int \<Rightarrow> (session, bool) stmt" where
  "link_company_to_feed company_id feed_id s =
     (if feed_id \<notin> keys_of fd_id (db_feeds (ss_db s)) then (Inr False, s)
      else case feed_object feed_id s of
        None \<Rightarrow> (Inr False, s)
      | Some feed \<Rightarrow>
          if fd_company_id feed = Some company_id then (Inr False, s)
          else (Inr True, s\<lparr>ss_feeds := put_row fd_id (feed\<lparr>fd_company_id := Some company_id\<rparr>) (ss_feeds s)\<rparr>))"

text \<open>
  A bulk deletion: the server's cascades remove all that refers to the feeds, and the session forgets their
  objects, but not their scraping states.
\<close>

definition delete_feeds :: "int set \<Rightarrow> database \<Rightarrow> database" where
  "delete_feeds ids db = db\<lparr>
     db_feeds := filter (\<lambda>r. fd_id r \<notin> ids) (db_feeds db),
     db_feed_tags := filter (\<lambda>r. ft_feed_id r \<notin> ids) (db_feed_tags db),
     db_scrapings := filter (\<lambda>r. sc_feed_id r \<notin> ids) (db_scrapings db),
     db_job_feeds := filter (\<lambda>r. jbf_feed_id r \<notin> ids) (db_job_feeds db),
     db_results := filter (\<lambda>r. rr_feed_id r \<notin> ids) (db_results db),
     db_source_links := filter (\<lambda>r. sl_feed_id r \<notin> ids) (db_source_links db)\<rparr>"

definition delete_company_feeds_not_in_urls :: "int \<Rightarrow> string set \<Rightarrow> (session, nat) stmt" where
  "delete_company_feeds_not_in_urls company_id expected_urls s =
     (let linked_feed_ids = map fd_id
            (filter (\<lambda>r. fd_company_id r = Some company_id \<and> fd_url r \<notin> expected_urls) (db_feeds (ss_db s)))
      in if linked_feed_ids = [] then (Inr 0, s)
         else (Inr (length linked_feed_ids),
               s\<lparr>ss_db := delete_feeds (set linked_feed_ids) (ss_db s),
                 ss_feeds := filter (\<lambda>r. fd_id r \<notin> set linked_feed_ids) (ss_feeds s),
                 ss_feed_tags := filter (\<lambda>r. fst r \<notin> set linked_feed_ids) (ss_feed_tags s)\<rparr>))"

end
