(* ===== verification/Catalog_Sync.thy ===== *)
theory Catalog_Sync
  imports Catalog_Session
begin

text \<open>
  The synchronisation of the catalog with the database, \<^verbatim>\<open>backend/app/services/rss/rss_sync_service.py\<close>: one
  transaction over the changed files of the repository.  \<open>load_source_feeds_from_json\<close> of
  \<^verbatim>\<open>clients/networking/rss/sync_rss_feeds_repository.py\<close> and \<^verbatim>\<open>RssSourceCatalogSchema\<close> are here too.
\<close>

section \<open>Catalog files\<close>

record catalog =
  ca_company :: string
  ca_host :: "string option"
  ca_img :: "string option"
  ca_country :: "string option"
  ca_language :: "string option"
  ca_fetchprotection :: int
  ca_feeds :: "catalog_feed list"

definition optional_length :: "nat \<Rightarrow> nat \<Rightarrow> string option \<Rightarrow> bool" where
  "optional_length lo hi v = (case v of None \<Rightarrow> True | Some s \<Rightarrow> lo \<le> length s \<and> length s \<le> hi)"

definition make_catalog :: "catalog \<Rightarrow> py_exn + catalog" where
  "make_catalog c =
     (if 1 \<le> length (ca_company c) \<and> length (ca_company c) \<le> 100 \<and> optional_length 1 255 (ca_host c)
         \<and> optional_length 0 500 (ca_img c) \<and> optional_length 2 2 (ca_country c) \<and> optional_length 2 2 (ca_language c)
         \<and> 0 \<le> ca_fetchprotection c \<and> ca_fetchprotection c \<le> 2
      then and_then (map_ok make_catalog_feed (ca_feeds c)) (\<lambda>feeds. Inr (c\<lparr>ca_feeds := feeds\<rparr>))
      else Inl (ValidationError ''RssSourceCatalogSchema''))"

text \<open>
  What a path of the working tree holds: nothing, no regular file, bytes that cannot be read as text, or a text that
  is no JSON, no object, an object whose fields do not have the types of the schema, or one whose fields do.
\<close>

datatype catalog_path =
    NoPath
  | NoFile
  | Unreadable py_exn
  | InvalidJson
  | NotAnObject
  | WrongTypes
  | Payload catalog

definition catalog_parse_error :: py_exn where
  "catalog_parse_error = OtherException ''RssCatalogParseError''"

definition load_source_feeds_from_json :: "catalog_path \<Rightarrow> py_exn + catalog" where
  "load_source_feeds_from_json path =
     (case path of
        NoPath \<Rightarrow> Inl catalog_parse_error
      | NoFile \<Rightarrow> Inl catalog_parse_error
      | Unreadable e \<Rightarrow> Inl e
      | InvalidJson \<Rightarrow> Inl catalog_parse_error
      | NotAnObject \<Rightarrow> Inl catalog_parse_error
      | WrongTypes \<Rightarrow> Inl catalog_parse_error
      | Payload c \<Rightarrow> (case make_catalog c of Inl _ \<Rightarrow> Inl catalog_parse_error | Inr catalog \<Rightarrow> Inr catalog))"

definition extract_company_name :: "string \<Rightarrow> py_exn + string" where
  "extract_company_name relative_json_file_path =
     (case normalize_name_from_filename relative_json_file_path of
        Inl (ValueError _) \<Rightarrow> Inl catalog_parse_error | r \<Rightarrow> r)"

section \<open>One file\<close>

text \<open>The loop over the entries; \<open>existing\<close> is \<^verbatim>\<open>existing_feeds_by_url\<close>.\<close>

fun sync_feeds :: "int \<Rightarrow> (string \<rightharpoonup> int) \<Rightarrow> feed_upsert list \<Rightarrow> (session, unit) stmt" where
  "sync_feeds company_id existing [] s = (Inr (), s)"
| "sync_feeds company_id existing (payload # payloads) s =
     sql_bind (get_or_create_tags (up_tags payload)) (\<lambda>(tags, _).
     sql_bind (upsert_feed payload tags (existing (up_url payload))) (\<lambda>(feed_id, _).
     sql_bind (link_company_to_feed company_id feed_id) (\<lambda>_.
       sync_feeds company_id (existing(up_url payload \<mapsto> feed_id)) payloads))) s"

definition sync_company_feeds :: "company_row \<Rightarrow> catalog_feed list \<Rightarrow> (session, unit) stmt" where
  "sync_company_feeds company feeds =
     sql_bind (sql_lift (map_ok (\<lambda>f. normalize_source_feed_entry f (co_fetchprotection company)) feeds)) (\<lambda>payloads.
     sql_bind (list_rss_feeds_by_urls (map up_url payloads)) (\<lambda>existing.
     sql_bind (sync_feeds (co_id company) existing payloads) (\<lambda>_.
     sql_bind (delete_company_feeds_not_in_urls (co_id company) (set (map up_url payloads))) (\<lambda>_.
       sql_return ()))))"

definition sync_catalog :: "(string \<Rightarrow> bool) \<Rightarrow> string \<Rightarrow> catalog \<Rightarrow> (session, unit) stmt" where
  "sync_catalog netloc_ok fallback_company_name catalog =
     sql_bind (case ca_img catalog of
         None \<Rightarrow> sql_raise (OtherException ''AttributeError'') | Some img \<Rightarrow> sql_return (py_strip img)) (\<lambda>icon_url.
     sql_bind (get_or_create_company netloc_ok
         (if py_strip (ca_company catalog) = [] then fallback_company_name else py_strip (ca_company catalog))
         (ca_host catalog) (Some icon_url) (normalize_country (ca_country catalog))
         (normalize_country (ca_language catalog)) (max 0 (min 2 (ca_fetchprotection catalog)))) (\<lambda>(company, _).
       sync_company_feeds company (ca_feeds catalog)))"

definition sync_missing_file :: "string \<Rightarrow> (session, unit) stmt" where
  "sync_missing_file fallback_company_name =
     sql_bind (get_company_by_name fallback_company_name) (\<lambda>existing_company.
       (case existing_company of
          None \<Rightarrow> sql_return ()
        | Some company \<Rightarrow> sql_bind (delete_company_feeds_not_in_urls (co_id company) {}) (\<lambda>_. sql_return ())))"

text \<open>\<open>files\<close> is the working tree: what each relative path holds.\<close>

definition sync_catalog_file :: "(string \<Rightarrow> bool) \<Rightarrow> (string \<Rightarrow> catalog_path) \<Rightarrow> string \<Rightarrow> (session, unit) stmt" where
  "sync_catalog_file netloc_ok files relative_json_file_path =
     sql_bind (sql_lift (extract_company_name relative_json_file_path)) (\<lambda>fallback_company_name.
       if files relative_json_file_path = NoPath then sync_missing_file fallback_company_name
       else sql_bind (sql_lift (load_source_feeds_from_json (files relative_json_file_path)))
              (sync_catalog netloc_ok fallback_company_name))"

section \<open>The transaction\<close>

definition rolled_back :: "session \<Rightarrow> session \<Rightarrow> session" where
  "rolled_back s s' = clear_changes (s'\<lparr>ss_db := ss_db s\<rparr>)"

definition sync_changed_files ::
  "(string \<Rightarrow> bool) \<Rightarrow> (string \<Rightarrow> catalog_path) \<Rightarrow> commit_outcome \<Rightarrow> string list \<Rightarrow> (session, unit) stmt" where
  "sync_changed_files netloc_ok files commit changed_files s =
     (if changed_files = [] then (Inr (), s)
      else case sql_bind (sql_for (sync_catalog_file netloc_ok files) changed_files) (\<lambda>_. flush) s of
        (Inl e, s') \<Rightarrow> (Inl e, rolled_back s s')
      | (Inr _, s') \<Rightarrow>
          (case commit of
             CommitOk \<Rightarrow> (Inr (), s')
           | CommitRaises applied msg \<Rightarrow> (Inl (OtherException msg), if applied then s' else rolled_back s s')))"

end
