(* ===== verification/Catalog_Facts.thy ===== *)
theory Catalog_Facts
  imports Catalog_Sync
begin

text \<open>
  Facts of the session of the catalog: what a flush writes, and what every operation does to the catalog
  as it will be once the changed objects are written (\<open>catalog_view\<close>).
\<close>

section \<open>Changed rows\<close>

lemma row_with_cong: "map key rows = map key rows' \<Longrightarrow> (row_with key k rows = None) = (row_with key k rows' = None)"
  by (metis row_with_None keys_of_def set_map)

lemma overlay_Nil [simp]: "overlay key [] rows = rows"
  by (simp add: overlay_def row_with_def)

lemma overlay_Nil_rows [simp]: "overlay key changed [] = []"
  by (simp add: overlay_def)

lemma overlay_key: "key (case row_with key (key r) changed of Some r' \<Rightarrow> r' | None \<Rightarrow> r) = key r"
  by (auto split: option.splits dest: row_with_SomeD)

lemma map_key_overlay [simp]: "map key (overlay key changed rows) = map key rows"
  by (simp add: overlay_def overlay_key)

lemma keys_of_overlay [simp]: "keys_of key (overlay key changed rows) = keys_of key rows"
  unfolding keys_of_def set_map [symmetric] by (simp only: map_key_overlay)

lemma map_key_write: "map key (update_row key (key r) (\<lambda>_. r) rows) = map key rows"
  by (simp add: update_row_def)

lemma unique_key_overlay [simp]: "unique_key key (overlay key changed rows) = unique_key key rows"
  by (simp add: unique_key_def)

lemma overlay_append: "overlay key changed (rows @ rows') = overlay key changed rows @ overlay key changed rows'"
  by (simp add: overlay_def)

lemma overlay_filter:
  "(\<And>r r'. key r' = key r \<Longrightarrow> P r' = P r) \<Longrightarrow>
    overlay key changed (filter P rows) = filter P (overlay key changed rows)"
proof (induction rows)
  case (Cons r rows)
  have "P (case row_with key (key r) changed of Some r' \<Rightarrow> r' | None \<Rightarrow> r) = P r"
    by (rule Cons.prems) (rule overlay_key)
  then show ?case using Cons.IH [OF Cons.prems] by (simp add: overlay_def)
qed simp

lemma row_with_overlay:
  "row_with key k (overlay key changed rows) =
    (case row_with key k rows of None \<Rightarrow> None | Some r \<Rightarrow> object_with key k changed rows)"
proof (induction rows)
  case (Cons r rows)
  show ?case
    using Cons overlay_key [of key r changed]
    by (auto simp: overlay_def row_with_def object_with_def split: option.splits)
qed (simp add: row_with_def)

lemma row_with_write:
  "key r = j \<Longrightarrow> row_with key k (update_row key j (\<lambda>_. r) rows) =
    (if k = j then map_option (\<lambda>_. r) (row_with key k rows) else row_with key k rows)"
  by (induction rows) (auto simp: update_row_def row_with_def)

lemma row_with_put: "row_with key k (put_row key r rows) = (if k = key r then Some r else row_with key k rows)"
proof (cases "key r \<in> keys_of key rows")
  case True
  then obtain r0 where "row_with key (key r) rows = Some r0"
    using row_with_None [of key "key r" rows] by (cases "row_with key (key r) rows") auto
  then show ?thesis using True by (auto simp: put_row_def row_with_write)
next
  case False
  then have "row_with key (key r) rows = None" by (simp add: row_with_None)
  then show ?thesis using False by (auto simp: put_row_def row_with_append split: option.splits)
qed

lemma keys_of_put: "keys_of key (put_row key r rows) = insert (key r) (keys_of key rows)"
proof (rule set_eqI)
  fix k show "(k \<in> keys_of key (put_row key r rows)) = (k \<in> insert (key r) (keys_of key rows))"
    using row_with_None [of key k "put_row key r rows"] row_with_None [of key k rows]
    by (auto simp: row_with_put split: if_splits)
qed

lemma in_put_row: "r0 \<in> set (put_row key r rows) \<Longrightarrow> r0 = r \<or> r0 \<in> set rows"
  by (auto simp: put_row_def update_row_def split: if_splits)

lemma unique_key_put: "unique_key key rows \<Longrightarrow> unique_key key (put_row key r rows)"
proof (cases "key r \<in> keys_of key rows")
  case True
  have "map key (update_row key (key r) (\<lambda>_. r) rows) = map key rows" by (simp add: update_row_def)
  then show "unique_key key rows \<Longrightarrow> unique_key key (put_row key r rows)"
    using True by (simp add: put_row_def unique_key_def)
qed (simp add: put_row_def unique_key_insert)

lemma overlay_put: "overlay key (put_row key r changed) rows = update_row key (key r) (\<lambda>_. r) (overlay key changed rows)"
  unfolding overlay_def update_row_def map_map
  by (rule map_cong [OF refl]) (use overlay_key [of key _ changed] in \<open>simp add: row_with_put\<close>)

lemma overlay_update:
  assumes "unique_key key (r # changed)"
  shows "overlay key changed (update_row key (key r) (\<lambda>_. r) rows) = overlay key (r # changed) rows"
proof -
  have "row_with key (key r) changed = None" using assms by (simp add: unique_key_def row_with_None keys_of_def)
  then show ?thesis unfolding overlay_def update_row_def map_map
    by (intro map_cong [OF refl]) (auto simp: row_with_def)
qed

lemma map_overlay:
  assumes "\<And>r r0. r \<in> set changed \<Longrightarrow> r0 \<in> set rows \<Longrightarrow> key r = key r0 \<Longrightarrow> f r = f r0"
  shows "map f (overlay key changed rows) = map f rows"
  unfolding overlay_def map_map
  by (rule map_cong [OF refl]) (auto split: option.splits dest!: row_with_SomeD simp: assms)

section \<open>Tables\<close>

text \<open>A table of the database: reading it and changing it.\<close>

locale db_table =
  fixes tab :: "database \<Rightarrow> 'r list"
    and upd :: "('r list \<Rightarrow> 'r list) \<Rightarrow> database \<Rightarrow> database"
  assumes tab_upd: "tab (upd f db) = f (tab db)"
    and upd_upd: "upd f (upd g db) = upd (\<lambda>rows. f (g rows)) db"
    and upd_cong: "f (tab db) = g (tab db) \<Longrightarrow> upd f db = upd g db"
    and upd_same: "upd (\<lambda>rows. rows) db = db"
begin

lemma upd_tab: "upd (\<lambda>_. tab db) db = db"
  using upd_cong [of "\<lambda>_. tab db" db "\<lambda>rows. rows"] upd_same by simp

lemma upd_upd_const: "upd (\<lambda>_. rows) (upd f db) = upd (\<lambda>_. rows) db"
  by (simp add: upd_upd)

lemma write_row_Inr:
  "write_row key tab upd conv r db = (Inr (), db') \<longleftrightarrow>
     key r \<in> keys_of key (tab db) \<and> (\<exists>r'. conv db r = Inr r' \<and> db' = upd (update_row key (key r) (\<lambda>_. r')) db)"
  by (auto simp: write_row_def split: sum.splits)

lemma insert_row_Inr:
  "insert_row key tab upd conv r db = (Inr (), db') \<longleftrightarrow>
     (\<exists>r'. conv db r = Inr r' \<and> key r' \<notin> keys_of key (tab db) \<and> db' = upd (\<lambda>rows. rows @ [r']) db)"
  by (auto simp: insert_row_def split: sum.splits)

text \<open>Writing objects that are stored as they are.\<close>

lemma write_rows:
  assumes "sql_for (write_row key tab upd conv) changed db = (Inr (), db')" and "unique_key key changed"
    and "\<And>db r r'. r \<in> set changed \<Longrightarrow> conv db r = Inr r' \<Longrightarrow> r' = r"
  shows "tab db' = overlay key changed (tab db) \<and> db' = upd (\<lambda>_. tab db') db \<and>
    keys_of key changed \<subseteq> keys_of key (tab db)"
  using assms
proof (induction changed arbitrary: db)
  case Nil
  then show ?case by (simp add: upd_tab)
next
  case (Cons r changed)
  obtain db1 where db1: "write_row key tab upd conv r db = (Inr (), db1)"
    "sql_for (write_row key tab upd conv) changed db1 = (Inr (), db')"
    using Cons.prems(1) by (auto split: prod.splits sum.splits)
  then obtain r' where r': "conv db r = Inr r'" "db1 = upd (update_row key (key r) (\<lambda>_. r')) db"
    "key r \<in> keys_of key (tab db)"
    by (auto simp: write_row_Inr)
  have same: "r' = r" using Cons.prems(3) r'(1) by simp
  have keys: "keys_of key (tab db1) = keys_of key (tab db)"
    unfolding keys_of_def r'(2) same tab_upd set_map [symmetric] by (simp only: map_key_write)
  have "unique_key key changed" using Cons.prems(2) by (simp add: unique_key_def)
  then have IH: "tab db' = overlay key changed (tab db1) \<and> db' = upd (\<lambda>_. tab db') db1 \<and>
      keys_of key changed \<subseteq> keys_of key (tab db1)"
    by (rule Cons.IH [OF db1(2)]) (rule Cons.prems(3), simp)
  have "tab db' = overlay key (r # changed) (tab db)"
    using conjunct1 [OF IH] r'(2) same overlay_update [OF Cons.prems(2)] by (simp add: tab_upd)
  moreover have "db' = upd (\<lambda>_. tab db') db" using IH unfolding r'(2) upd_upd_const by blast
  ultimately show ?case using IH keys r'(3) by simp
qed

text \<open>Writing objects whose stored form keeps an attribute of the row.\<close>

lemma write_rows_keep:
  assumes "sql_for (write_row key tab upd conv) changed db = (Inr (), db')"
    and "\<And>db r r'. r \<in> set changed \<Longrightarrow> conv db r = Inr r' \<Longrightarrow> f r' = f r"
    and "\<And>r r0. r \<in> set changed \<Longrightarrow> r0 \<in> set rows0 \<Longrightarrow> key r = key r0 \<Longrightarrow> f r = f r0"
    and "map f (tab db) = map f rows0" and "\<And>r. key r = fst (f r)"
  shows "map f (tab db') = map f rows0 \<and> db' = upd (\<lambda>_. tab db') db"
  using assms(1-4)
proof (induction changed arbitrary: db)
  case Nil
  then show ?case by (simp add: upd_tab)
next
  case (Cons r changed)
  obtain db1 where db1: "write_row key tab upd conv r db = (Inr (), db1)"
    "sql_for (write_row key tab upd conv) changed db1 = (Inr (), db')"
    using Cons.prems(1) by (auto split: prod.splits sum.splits)
  then obtain r' where r': "conv db r = Inr r'" "db1 = upd (update_row key (key r) (\<lambda>_. r')) db"
    by (auto simp: write_row_Inr)
  have "f r' = f r" using Cons.prems(2) [of r db r'] r'(1) by simp
  moreover have "f r1 = f r" if "r1 \<in> set (tab db)" "key r1 = key r" for r1
  proof -
    have "f r1 \<in> f ` set rows0" using that(1) Cons.prems(4) by (metis image_eqI set_map)
    then obtain r0 where "r0 \<in> set rows0" "f r1 = f r0" by auto
    then show ?thesis using Cons.prems(3) [of r r0] assms(5) that(2) by (metis list.set_intros(1))
  qed
  ultimately have "map f (update_row key (key r) (\<lambda>_. r') (tab db)) = map f (tab db)"
    unfolding update_row_def map_map by (intro map_cong [OF refl]) simp
  then have "map f (tab db1) = map f rows0" using r'(2) Cons.prems(4) by (simp add: tab_upd)
  then have "map f (tab db') = map f rows0 \<and> db' = upd (\<lambda>_. tab db') db1"
    using Cons.IH [OF db1(2)] Cons.prems(2,3) by simp
  then show ?case using r'(2) by (metis upd_upd_const)
qed

text \<open>Inserting objects that are stored as they are.\<close>

lemma insert_rows:
  assumes "sql_for (insert_row key tab upd conv) new db = (Inr (), db')"
    and "\<And>db r r'. r \<in> set new \<Longrightarrow> conv db r = Inr r' \<Longrightarrow> r' = r"
  shows "tab db' = tab db @ new \<and> db' = upd (\<lambda>_. tab db') db"
  using assms
proof (induction new arbitrary: db)
  case Nil
  then show ?case by (simp add: upd_tab)
next
  case (Cons r new)
  obtain db1 where db1: "insert_row key tab upd conv r db = (Inr (), db1)"
    "sql_for (insert_row key tab upd conv) new db1 = (Inr (), db')"
    using Cons.prems(1) by (auto split: prod.splits sum.splits)
  then have "db1 = upd (\<lambda>rows. rows @ [r]) db" using Cons.prems(2) by (auto simp: insert_row_Inr)
  then show ?case using Cons.IH [OF db1(2)] Cons.prems(2) by (simp add: tab_upd upd_upd_const) metis
qed

end

interpretation companies: db_table db_companies db_companies_update
  by unfold_locales (simp_all add: comp_def)

interpretation feeds: db_table db_feeds db_feeds_update
  by unfold_locales (simp_all add: comp_def)

interpretation scrapings: db_table db_scrapings db_scrapings_update
  by unfold_locales (simp_all add: comp_def)

interpretation tags: db_table db_tags db_tags_update
  by unfold_locales (simp_all add: comp_def)

end
