(* ===== verification/Catalog_View.thy ===== *)
theory Catalog_View
  imports Catalog_Facts
begin

text \<open>
  The catalog as the session will leave it: for every address the feed, the level of protection of its scraping
  state and the names of its tags.  A flush does not change this view; every operation of the synchronisation
  changes it at the address it is called for.
\<close>

section \<open>The view\<close>

definition eff_feeds :: "session \<Rightarrow> feed_row list" where
  "eff_feeds s = overlay fd_id (ss_feeds s) (db_feeds (ss_db s))"

definition eff_scrapings :: "session \<Rightarrow> scraping_row list" where
  "eff_scrapings s = overlay sc_feed_id (ss_scrapings s) (db_scrapings (ss_db s)) @ ss_new_scrapings s"

definition link_set :: "feed_tag_row list \<Rightarrow> int \<Rightarrow> int set" where
  "link_set links f = ft_tag_id ` {l \<in> set links. ft_feed_id l = f}"

definition eff_tags :: "session \<Rightarrow> int \<Rightarrow> int set" where
  "eff_tags s f = (case map_of (ss_feed_tags s) f of
     Some ts \<Rightarrow> set ts | None \<Rightarrow> link_set (db_feed_tags (ss_db s)) f)"

definition tag_names :: "tag_row list \<Rightarrow> int set \<Rightarrow> string set" where
  "tag_names tags ids = tg_name ` {t \<in> set tags. tg_id t \<in> ids}"

definition protection :: "scraping_row list \<Rightarrow> int \<Rightarrow> int option" where
  "protection rows f = map_option sc_fetchprotection (row_with sc_feed_id f rows)"

type_synonym feed_view = "feed_row \<times> int option \<times> string set"

definition catalog_view :: "session \<Rightarrow> string \<Rightarrow> feed_view option" where
  "catalog_view s u = map_option
     (\<lambda>r. (r, protection (eff_scrapings s) (fd_id r), tag_names (db_tags (ss_db s)) (eff_tags s (fd_id r))))
     (row_with fd_url u (eff_feeds s))"

definition company_key :: "company_row \<Rightarrow> int \<times> string" where
  "company_key r = (co_id r, co_name r)"

definition company_keys :: "session \<Rightarrow> (int \<times> string) list" where
  "company_keys s = map company_key (db_companies (ss_db s))"

lemma eff_tags_cong:
  "ss_feed_tags s' = ss_feed_tags s \<Longrightarrow> db_feed_tags (ss_db s') = db_feed_tags (ss_db s) \<Longrightarrow> eff_tags s' = eff_tags s"
  by (rule ext) (simp only: eff_tags_def)

section \<open>The invariant of the session\<close>

definition feed_fits :: "feed_row \<Rightarrow> bool" where
  "feed_fits r \<longleftrightarrow> length (fd_url r) \<le> 500 \<and> (case fd_section r of None \<Rightarrow> True | Some t \<Rightarrow> length t \<le> 50)"

definition feeds_ok :: "int \<Rightarrow> feed_row list \<Rightarrow> feed_row list \<Rightarrow> bool" where
  "feeds_ok seq changed rows \<longleftrightarrow>
     unique_key fd_id rows \<and> unique_key fd_url rows \<and> (\<forall>r\<in>set rows. fd_id r < seq \<and> feed_fits r) \<and>
     unique_key fd_id changed \<and>
     (\<forall>r\<in>set changed. feed_fits r \<and> (\<exists>r0\<in>set rows. fd_id r0 = fd_id r \<and> fd_url r0 = fd_url r))"

definition scrapings_ok ::
  "int \<Rightarrow> feed_row list \<Rightarrow> scraping_row list \<Rightarrow> scraping_row list \<Rightarrow> scraping_row list \<Rightarrow> bool" where
  "scrapings_ok seq feeds changed new rows \<longleftrightarrow>
     unique_key sc_feed_id (rows @ new) \<and> unique_key sc_feed_id changed \<and>
     (\<forall>k\<in>keys_of sc_feed_id (changed @ new @ rows). k < seq) \<and>
     (\<forall>k\<in>keys_of sc_feed_id changed. k \<in> keys_of fd_id feeds \<longrightarrow> k \<in> keys_of sc_feed_id rows)"

definition tags_ok ::
  "int \<Rightarrow> int \<Rightarrow> tag_row list \<Rightarrow> (int \<times> int list) list \<Rightarrow> feed_tag_row list \<Rightarrow> bool" where
  "tags_ok tag_seq feed_seq tags changes links \<longleftrightarrow>
     unique_key tg_name tags \<and> unique_key tg_id tags \<and> (\<forall>t\<in>set tags. tg_id t < tag_seq) \<and>
     unique_key fst changes \<and> (\<forall>(f, ts)\<in>set changes. f < feed_seq \<and> (\<forall>t\<in>set ts. t < tag_seq)) \<and>
     (\<forall>l\<in>set links. ft_feed_id l < feed_seq \<and> ft_tag_id l < tag_seq)"

definition companies_ok :: "int \<Rightarrow> company_row list \<Rightarrow> company_row list \<Rightarrow> bool" where
  "companies_ok seq changed rows \<longleftrightarrow>
     unique_key co_id rows \<and> unique_key co_name rows \<and> (\<forall>r\<in>set rows. co_id r < seq \<and> length (co_name r) \<le> 50) \<and>
     unique_key co_id changed \<and> (\<forall>r\<in>set changed. company_key r \<in> company_key ` set rows)"

definition session_ok :: "session \<Rightarrow> bool" where
  "session_ok s \<longleftrightarrow>
     feeds_ok (ss_feed_seq s) (ss_feeds s) (db_feeds (ss_db s)) \<and>
     scrapings_ok (ss_feed_seq s) (db_feeds (ss_db s)) (ss_scrapings s) (ss_new_scrapings s) (db_scrapings (ss_db s)) \<and>
     tags_ok (ss_tag_seq s) (ss_feed_seq s) (db_tags (ss_db s)) (ss_feed_tags s) (db_feed_tags (ss_db s)) \<and>
     companies_ok (ss_company_seq s) (ss_companies s) (db_companies (ss_db s))"

section \<open>Values that fit their columns\<close>

lemma feed_values_fits: "feed_fits r \<Longrightarrow> feed_values db r = Inr r' \<Longrightarrow> r' = r"
  by (auto simp: feed_fits_def feed_values_def split: option.splits if_splits)

lemma scraping_values_same: "scraping_values db r = Inr r' \<Longrightarrow> r' = r"
  by (auto simp: scraping_values_def split: if_splits)

lemma company_values_key: "length (co_name r) \<le> 50 \<Longrightarrow> company_values r = Inr r' \<Longrightarrow> company_key r' = company_key r"
  by (auto simp: company_values_def company_key_def split: if_splits)

lemma unique_pair: "unique_key key rows \<Longrightarrow> r \<in> set rows \<Longrightarrow> r0 \<in> set rows \<Longrightarrow> key r = key r0 \<Longrightarrow> r = r0"
  using row_with_unique [of key rows] by (metis option.inject)

lemma changed_company_key:
  assumes "companies_ok seq changed rows" and "r \<in> set changed" and "r0 \<in> set rows" and "co_id r = co_id r0"
  shows "company_key r = company_key r0"
proof -
  obtain r1 where r1: "r1 \<in> set rows" "company_key r = company_key r1"
    using assms(1,2) unfolding companies_ok_def by blast
  have "co_id r1 = co_id r0" using r1(2) assms(4) by (simp add: company_key_def)
  moreover have "unique_key co_id rows" using assms(1) unfolding companies_ok_def by blast
  ultimately have "r1 = r0" using unique_pair r1(1) assms(3) by metis
  then show ?thesis using r1(2) by simp
qed

section \<open>Flushing\<close>

lemma link_set_append: "link_set (links @ links') f = link_set links f \<union> link_set links' f"
  by (auto simp: link_set_def)

lemma link_set_new: "link_set (map (\<lambda>t. \<lparr>ft_feed_id = f, ft_tag_id = t\<rparr>) ts) g = (if g = f then set ts else {})"
proof (induction ts)
  case Nil
  then show ?case by (simp add: link_set_def)
next
  case (Cons t ts)
  have "link_set (l # links) g = (if ft_feed_id l = g then insert (ft_tag_id l) (link_set links g) else link_set links g)"
    for l links by (auto simp: link_set_def)
  then show ?case using Cons by auto
qed

lemma link_set_filter:
  "link_set (filter (\<lambda>l. ft_feed_id l = f \<longrightarrow> ft_tag_id l \<in> T) links) g =
    (if g = f then link_set links f \<inter> T else link_set links g)"
  by (auto simp: link_set_def)

lemma link_set_write:
  assumes "write_feed_tags (f, ts) db = (Inr (), db')"
  shows "db' = db\<lparr>db_feed_tags := db_feed_tags db'\<rparr> \<and>
    link_set (db_feed_tags db') g = (if g = f then set ts else link_set (db_feed_tags db) g) \<and>
    (\<forall>l\<in>set (db_feed_tags db'). l \<in> set (db_feed_tags db) \<or> ft_feed_id l = f \<and> ft_tag_id l \<in> set ts)"
proof -
  let ?old = "map ft_tag_id (filter (\<lambda>r. ft_feed_id r = f) (db_feed_tags db))"
  have db': "db' = db\<lparr>db_feed_tags :=
      filter (\<lambda>r. ft_feed_id r = f \<longrightarrow> ft_tag_id r \<in> set ts) (db_feed_tags db)
        @ map (\<lambda>t. \<lparr>ft_feed_id = f, ft_tag_id = t\<rparr>) (filter (\<lambda>t. t \<notin> set ?old) ts)\<rparr>"
    using assms by (simp add: write_feed_tags_def)
  have old: "ft_tag_id ` {r \<in> set (db_feed_tags db). ft_feed_id r = f} = link_set (db_feed_tags db) f"
    by (simp add: link_set_def)
  have "link_set (db_feed_tags db') g = (if g = f then set ts else link_set (db_feed_tags db) g)"
    unfolding db' by (auto simp: link_set_append link_set_new link_set_filter old)
  then show ?thesis unfolding db' by auto
qed

lemma write_feed_tags_loop:
  assumes "sql_for write_feed_tags changes db = (Inr (), db')" and "unique_key fst changes"
  shows "db' = db\<lparr>db_feed_tags := db_feed_tags db'\<rparr> \<and>
    (\<forall>f. link_set (db_feed_tags db') f =
      (case map_of changes f of Some ts \<Rightarrow> set ts | None \<Rightarrow> link_set (db_feed_tags db) f)) \<and>
    (\<forall>l\<in>set (db_feed_tags db'). l \<in> set (db_feed_tags db) \<or>
      (\<exists>ts. (ft_feed_id l, ts) \<in> set changes \<and> ft_tag_id l \<in> set ts))"
  using assms
proof (induction changes arbitrary: db)
  case (Cons ch changes)
  obtain f ts where ch: "ch = (f, ts)" by (cases ch)
  obtain db1 where db1: "write_feed_tags (f, ts) db = (Inr (), db1)"
    "sql_for write_feed_tags changes db1 = (Inr (), db')"
    using Cons.prems(1) ch by (auto split: prod.splits sum.splits)
  have f: "map_of changes f = None" and u: "unique_key fst changes"
    using Cons.prems(2) ch by (auto simp: unique_key_def map_of_eq_None_iff)
  note step = link_set_write [OF db1(1)] and IH = Cons.IH [OF db1(2) u]
  have "db' = db\<lparr>db_feed_tags := db_feed_tags db'\<rparr>"
    using conjunct1 [OF IH] conjunct1 [OF step] by (metis (no_types, lifting) database.surjective database.update_convs(4))
  moreover have "link_set (db_feed_tags db') g =
      (case map_of (ch # changes) g of Some ts \<Rightarrow> set ts | None \<Rightarrow> link_set (db_feed_tags db) g)" for g
    using conjunct1 [OF conjunct2 [OF IH]] step f ch by (cases "g = f") (auto split: option.splits)
  moreover have "\<forall>l\<in>set (db_feed_tags db'). l \<in> set (db_feed_tags db) \<or>
      (\<exists>ts. (ft_feed_id l, ts) \<in> set (ch # changes) \<and> ft_tag_id l \<in> set ts)"
    using conjunct2 [OF conjunct2 [OF IH]] conjunct2 [OF conjunct2 [OF step]] ch by fastforce
  ultimately show ?case by blast
qed simp

text \<open>What a flush leaves: the view's tables, and no changed object.\<close>

lemma flush_Inr:
  assumes ok: "session_ok s" and fl: "flush s = (Inr (), s')"
  shows "s' = clear_changes (s\<lparr>ss_db := ss_db s'\<rparr>)" (is ?A)
    and "db_feeds (ss_db s') = eff_feeds s" (is ?B)
    and "db_scrapings (ss_db s') = eff_scrapings s" (is ?C)
    and "link_set (db_feed_tags (ss_db s')) f = eff_tags s f" (is ?D)
    and "\<forall>l\<in>set (db_feed_tags (ss_db s')). ft_feed_id l < ss_feed_seq s \<and> ft_tag_id l < ss_tag_seq s" (is ?E)
    and "company_keys s' = company_keys s" (is ?F)
    and "ss_db s' = (ss_db s)\<lparr>db_companies := db_companies (ss_db s'), db_feeds := db_feeds (ss_db s'),
      db_scrapings := db_scrapings (ss_db s'), db_feed_tags := db_feed_tags (ss_db s')\<rparr>" (is ?G)
proof -
  obtain db' where w: "write_changes s (ss_db s) = (Inr (), db')" and s': "s' = clear_changes (s\<lparr>ss_db := db'\<rparr>)"
    using fl by (auto simp: flush_def in_session_def split: prod.splits sum.splits)
  have db': "ss_db s' = db'" by (simp add: s' clear_changes_def)
  obtain d1 d2 d3 d4 where
    d1: "sql_for (write_row co_id db_companies db_companies_update (\<lambda>_. company_values)) (ss_companies s) (ss_db s)
      = (Inr (), d1)" and
    d2: "sql_for (write_row fd_id db_feeds db_feeds_update feed_values) (ss_feeds s) d1 = (Inr (), d2)" and
    d3: "sql_for (write_row sc_feed_id db_scrapings db_scrapings_update scraping_values) (ss_scrapings s) d2
      = (Inr (), d3)" and
    d4: "sql_for (insert_row sc_feed_id db_scrapings db_scrapings_update scraping_values) (ss_new_scrapings s) d3
      = (Inr (), d4)" and
    d5: "sql_for write_feed_tags (ss_feed_tags s) d4 = (Inr (), db')"
    using w by (auto simp: write_changes_def sql_bind_Inr)
  note okd = ok [unfolded session_ok_def]
  have okc: "companies_ok (ss_company_seq s) (ss_companies s) (db_companies (ss_db s))" using okd by blast
  have c1: "map company_key (db_companies d1) = map company_key (db_companies (ss_db s)) \<and>
      d1 = (ss_db s)\<lparr>db_companies := db_companies d1\<rparr>"
  proof (rule companies.write_rows_keep [OF d1])
    fix r r' assume r: "r \<in> set (ss_companies s)" "company_values r = Inr r'"
    then obtain r0 where "r0 \<in> set (db_companies (ss_db s))" "company_key r = company_key r0"
      using okc by (auto simp: companies_ok_def)
    then have "length (co_name r) \<le> 50" using okc by (auto simp: companies_ok_def company_key_def)
    then show "company_key r' = company_key r" using r(2) by (rule company_values_key)
  next
    fix r r0 assume "r \<in> set (ss_companies s)" "r0 \<in> set (db_companies (ss_db s))" "co_id r = co_id r0"
    then show "company_key r = company_key r0" by (rule changed_company_key [OF okc])
  qed (simp_all add: company_key_def)
  have feeds1: "db_feeds d1 = db_feeds (ss_db s)" "db_scrapings d1 = db_scrapings (ss_db s)"
    "db_feed_tags d1 = db_feed_tags (ss_db s)"
    using conjunct2 [OF c1] by (metis database.select_convs database.surjective database.update_convs(1))+
  have okf: "feeds_ok (ss_feed_seq s) (ss_feeds s) (db_feeds (ss_db s))" using okd by blast
  have c2: "db_feeds d2 = eff_feeds s \<and> d2 = d1\<lparr>db_feeds := db_feeds d2\<rparr>"
    using feeds.write_rows [OF d2] okf feed_values_fits unfolding eff_feeds_def feeds1 feeds_ok_def by blast
  have okS: "scrapings_ok (ss_feed_seq s) (db_feeds (ss_db s)) (ss_scrapings s) (ss_new_scrapings s)
      (db_scrapings (ss_db s))" using okd by blast
  have scr2: "db_scrapings d2 = db_scrapings (ss_db s)" "db_feed_tags d2 = db_feed_tags (ss_db s)"
    using conjunct2 [OF c2] feeds1 by (metis database.select_convs database.surjective database.update_convs(2))+
  have c3: "db_scrapings d3 = overlay sc_feed_id (ss_scrapings s) (db_scrapings d2) \<and>
      d3 = d2\<lparr>db_scrapings := db_scrapings d3\<rparr>"
    using scrapings.write_rows [OF d3] okS scraping_values_same unfolding scrapings_ok_def by blast
  have c4: "db_scrapings d4 = db_scrapings d3 @ ss_new_scrapings s \<and> d4 = d3\<lparr>db_scrapings := db_scrapings d4\<rparr>"
    using scrapings.insert_rows [OF d4] scraping_values_same by blast
  have d4': "d4 = (ss_db s)\<lparr>db_companies := db_companies d4, db_feeds := eff_feeds s, db_scrapings := eff_scrapings s\<rparr>"
  proof -
    define C1 X where "C1 = db_companies d1" and X: "X = db_scrapings d3"
    have "d2 = d1\<lparr>db_feeds := eff_feeds s\<rparr>" using c2 by metis
    moreover have "d3 = d2\<lparr>db_scrapings := X\<rparr>" using c3 unfolding X by blast
    moreover have "d4 = d3\<lparr>db_scrapings := eff_scrapings s\<rparr>"
      using c3 c4 scr2 unfolding eff_scrapings_def by metis
    ultimately have "d4 = d1\<lparr>db_feeds := eff_feeds s, db_scrapings := eff_scrapings s\<rparr>"
      by simp
    then have "d4 = (ss_db s)\<lparr>db_companies := C1, db_feeds := eff_feeds s, db_scrapings := eff_scrapings s\<rparr>"
      using conjunct2 [OF c1, folded \<open>C1 = db_companies d1\<close>] by simp
    then show ?thesis by simp
  qed
  have okt: "tags_ok (ss_tag_seq s) (ss_feed_seq s) (db_tags (ss_db s)) (ss_feed_tags s) (db_feed_tags (ss_db s))"
    using okd by blast
  have c5: "db' = d4\<lparr>db_feed_tags := db_feed_tags db'\<rparr> \<and>
    (\<forall>f. link_set (db_feed_tags db') f =
      (case map_of (ss_feed_tags s) f of Some ts \<Rightarrow> set ts | None \<Rightarrow> link_set (db_feed_tags d4) f)) \<and>
    (\<forall>l\<in>set (db_feed_tags db'). l \<in> set (db_feed_tags d4) \<or>
      (\<exists>ts. (ft_feed_id l, ts) \<in> set (ss_feed_tags s) \<and> ft_tag_id l \<in> set ts))"
    by (rule write_feed_tags_loop [OF d5]) (use okt in \<open>simp add: tags_ok_def\<close>)
  show ?A using s' db' by simp
  have links4: "db_feed_tags d4 = db_feed_tags (ss_db s)" by (subst d4') simp
  have d': "db' = (ss_db s)\<lparr>db_companies := db_companies d4, db_feeds := eff_feeds s, db_scrapings := eff_scrapings s,
      db_feed_tags := db_feed_tags db'\<rparr>"
    using conjunct1 [OF c5] d4' by (metis database.update_convs(4))
  show ?B unfolding db' by (subst d') simp
  show ?C unfolding db' by (subst d') simp
  show ?D using c5 unfolding links4 db' eff_tags_def by blast
  show ?E using c5 links4 okt unfolding db' tags_ok_def by fastforce
  have "db_companies d2 = db_companies d1" by (subst conjunct2 [OF c2]) simp
  moreover have "db_companies d3 = db_companies d2" by (subst conjunct2 [OF c3]) simp
  moreover have "db_companies d4 = db_companies d3" by (subst conjunct2 [OF c4]) simp
  moreover have "db_companies db' = db_companies d4" by (subst d') simp
  ultimately have comp: "db_companies db' = db_companies d1" by simp
  show ?F using c1 comp unfolding db' company_keys_def by simp
  have tabs: "db_companies db' = db_companies d4" "db_feeds db' = eff_feeds s" "db_scrapings db' = eff_scrapings s"
    by (subst d', simp)+
  show ?G unfolding db' tabs by (rule d')
qed

lemma clear_changes_simps [simp]:
  "ss_db (clear_changes s) = ss_db s" "ss_companies (clear_changes s) = []" "ss_feeds (clear_changes s) = []"
  "ss_feed_tags (clear_changes s) = []" "ss_scrapings (clear_changes s) = []" "ss_new_scrapings (clear_changes s) = []"
  "ss_company_seq (clear_changes s) = ss_company_seq s" "ss_feed_seq (clear_changes s) = ss_feed_seq s"
  "ss_tag_seq (clear_changes s) = ss_tag_seq s"
  by (simp_all add: clear_changes_def)

lemma flush_fields:
  assumes "session_ok s" and "flush s = (Inr (), s')"
  shows "ss_companies s' = []" "ss_feeds s' = []" "ss_feed_tags s' = []" "ss_scrapings s' = []" "ss_new_scrapings s' = []"
    "ss_company_seq s' = ss_company_seq s" "ss_feed_seq s' = ss_feed_seq s" "ss_tag_seq s' = ss_tag_seq s"
    "db_tags (ss_db s') = db_tags (ss_db s)"
proof -
  obtain d where d: "s' = clear_changes (s\<lparr>ss_db := d\<rparr>)" using flush_Inr(1) [OF assms] by blast
  show "ss_companies s' = []" "ss_feeds s' = []" "ss_feed_tags s' = []" "ss_scrapings s' = []" "ss_new_scrapings s' = []"
    "ss_company_seq s' = ss_company_seq s" "ss_feed_seq s' = ss_feed_seq s" "ss_tag_seq s' = ss_tag_seq s"
    by (simp_all add: d)
  obtain a b c e where "ss_db s' = (ss_db s)\<lparr>db_companies := a, db_feeds := b, db_scrapings := c, db_feed_tags := e\<rparr>"
    using flush_Inr(7) [OF assms] by blast
  then show "db_tags (ss_db s') = db_tags (ss_db s)" by simp
qed

lemma flush_eff:
  assumes "session_ok s" and "flush s = (Inr (), s')"
  shows "eff_feeds s' = eff_feeds s" "eff_scrapings s' = eff_scrapings s" "eff_tags s' = eff_tags s"
  using flush_Inr [OF assms] flush_fields [OF assms]
  by (auto simp: eff_feeds_def [of s'] eff_scrapings_def [of s'] eff_tags_def [of s'])

lemma flush_view:
  assumes "session_ok s" and "flush s = (Inr (), s')"
  shows "catalog_view s' = catalog_view s"
  by (rule ext) (simp add: catalog_view_def flush_eff [OF assms] flush_fields [OF assms])

lemma company_keys_ok:
  assumes "companies_ok seq changed rows" and "map company_key rows' = map company_key rows"
  shows "companies_ok seq [] rows'"
proof -
  have k: "map co_id rows' = map co_id rows" "map co_name rows' = map co_name rows"
    using arg_cong [OF assms(2), of "map fst"] arg_cong [OF assms(2), of "map snd"]
    by (simp_all add: company_key_def comp_def)
  have "\<forall>r\<in>set rows'. co_id r < seq \<and> length (co_name r) \<le> 50"
  proof
    fix r assume "r \<in> set rows'"
    then have "company_key r \<in> company_key ` set rows" using assms(2) by (metis image_eqI set_map)
    then show "co_id r < seq \<and> length (co_name r) \<le> 50"
      using assms(1) by (auto simp: companies_ok_def company_key_def)
  qed
  then show ?thesis using assms(1) k by (simp add: companies_ok_def unique_key_def)
qed

lemma eff_feeds_ok:
  assumes "session_ok s"
  shows "unique_key fd_id (eff_feeds s)" "unique_key fd_url (eff_feeds s)"
    "map fd_url (eff_feeds s) = map fd_url (db_feeds (ss_db s))"
    "r \<in> set (eff_feeds s) \<Longrightarrow> fd_id r < ss_feed_seq s \<and> feed_fits r"
proof -
  have okf: "feeds_ok (ss_feed_seq s) (ss_feeds s) (db_feeds (ss_db s))"
    using assms unfolding session_ok_def by blast
  show "unique_key fd_id (eff_feeds s)" using okf by (simp add: eff_feeds_def feeds_ok_def)
  show urls: "map fd_url (eff_feeds s) = map fd_url (db_feeds (ss_db s))"
    unfolding eff_feeds_def
  proof (rule map_overlay)
    fix r r0 assume r: "r \<in> set (ss_feeds s)" "r0 \<in> set (db_feeds (ss_db s))" "fd_id r = fd_id r0"
    then obtain r1 where r1: "r1 \<in> set (db_feeds (ss_db s))" "fd_id r1 = fd_id r" "fd_url r1 = fd_url r"
      using okf unfolding feeds_ok_def by blast
    have "unique_key fd_id (db_feeds (ss_db s))" using okf unfolding feeds_ok_def by blast
    then have "r1 = r0" by (rule unique_pair) (use r1 r in auto)
    then show "fd_url r = fd_url r0" using r1 by simp
  qed
  show "unique_key fd_url (eff_feeds s)" using okf urls by (simp add: unique_key_def feeds_ok_def)
  assume r: "r \<in> set (eff_feeds s)"
  have "fd_id r \<in> fd_id ` set (db_feeds (ss_db s))"
    using imageI [OF r, of fd_id] keys_of_overlay [of fd_id "ss_feeds s" "db_feeds (ss_db s)"]
    by (simp add: keys_of_def eff_feeds_def)
  moreover have "r \<in> set (ss_feeds s) \<or> r \<in> set (db_feeds (ss_db s))"
    using r by (auto simp: eff_feeds_def overlay_def split: option.splits dest: row_with_SomeD)
  ultimately show "fd_id r < ss_feed_seq s \<and> feed_fits r" using okf unfolding feeds_ok_def by auto
qed

lemma flush_ok:
  assumes "session_ok s" and "flush s = (Inr (), s')"
  shows "session_ok s'"
proof -
  note fl = flush_Inr [OF assms] and fields = flush_fields [OF assms] and ok = assms(1) [unfolded session_ok_def]
  have "companies_ok (ss_company_seq s') (ss_companies s') (db_companies (ss_db s'))"
    unfolding fields using company_keys_ok fl(6) ok unfolding company_keys_def by blast
  moreover have "feeds_ok (ss_feed_seq s') (ss_feeds s') (db_feeds (ss_db s'))"
  proof -
    show ?thesis
      unfolding fields fl(2) using eff_feeds_ok [OF assms(1)] by (simp add: feeds_ok_def unique_key_def)
  qed
  moreover have "scrapings_ok (ss_feed_seq s') (db_feeds (ss_db s')) (ss_scrapings s') (ss_new_scrapings s')
      (db_scrapings (ss_db s'))"
  proof -
    have okS: "scrapings_ok (ss_feed_seq s) (db_feeds (ss_db s)) (ss_scrapings s) (ss_new_scrapings s)
      (db_scrapings (ss_db s))" using ok by blast
    have "keys_of sc_feed_id (eff_scrapings s) = keys_of sc_feed_id (db_scrapings (ss_db s) @ ss_new_scrapings s)"
      by (simp add: eff_scrapings_def)
    then have "\<forall>k\<in>keys_of sc_feed_id (eff_scrapings s). k < ss_feed_seq s"
      using okS by (auto simp: scrapings_ok_def)
    moreover have "map sc_feed_id (eff_scrapings s) = map sc_feed_id (db_scrapings (ss_db s) @ ss_new_scrapings s)"
      by (simp add: eff_scrapings_def)
    ultimately show ?thesis
      unfolding fields fl(3) using okS by (simp add: scrapings_ok_def unique_key_def)
  qed
  moreover have "tags_ok (ss_tag_seq s') (ss_feed_seq s') (db_tags (ss_db s')) (ss_feed_tags s') (db_feed_tags (ss_db s'))"
    unfolding fields using ok fl(5) by (simp add: tags_ok_def unique_key_def)
  ultimately show ?thesis by (simp add: session_ok_def)
qed

end
