(* ===== verification/Catalog_Steps.thy ===== *)
theory Catalog_Steps
  imports Catalog_View
begin

text \<open>
  What each operation of the synchronisation does to the view of the catalog, and that it keeps the
  invariant of the session.
\<close>

section \<open>Rows with two keys\<close>

lemma unique_key_row:
  "unique_key key rows \<Longrightarrow> r \<in> set rows \<Longrightarrow> row_with key (key r) rows = Some r"
  by (simp add: row_with_unique)

lemma row_with_other_key:
  assumes "unique_key key rows" and "unique_key key2 rows" and "r0 \<in> set rows"
    and "key r = key r0" and "key2 r = key2 r0"
  shows "row_with key2 k (update_row key (key r0) (\<lambda>_. r) rows) =
    (if k = key2 r0 then Some r else row_with key2 k rows)"
proof -
  have "update_row key (key r0) (\<lambda>_. r) rows = update_row key2 (key2 r0) (\<lambda>_. r) rows"
    unfolding update_row_def
    by (rule map_cong [OF refl]) (metis assms(1-3) unique_pair)
  then show ?thesis
    using unique_key_row [OF assms(2,3)] assms(5) by (simp add: row_with_write)
qed

lemma varchar_stripped:
  assumes "stripped s" and "varchar n s = Inr t"
  shows "t = s"
proof (cases "length s \<le> n")
  case False
  then have "last (drop n s) = last s" "drop n s \<noteq> []" by simp_all
  moreover have "list_all (\<lambda>c. c = CHR '' '') (drop n s)"
    using assms(2) False by (auto simp: varchar_def split: if_splits)
  ultimately have "last s = CHR '' ''" using last_in_set [of "drop n s"] by (simp add: list_all_iff)
  moreover have "s \<noteq> []" using False by auto
  ultimately show ?thesis using assms(1) by (simp add: stripped_def py_isspace_def code_point_def)
qed (use assms(2) in simp)

section \<open>Bounds\<close>

lemma eff_tags_bound:
  assumes "session_ok s" and "t \<in> eff_tags s f"
  shows "t < ss_tag_seq s"
  using assms by (fastforce simp: session_ok_def tags_ok_def eff_tags_def link_set_def split: option.splits dest: map_of_SomeD)

lemma eff_tags_new:
  assumes "session_ok s" and "ss_feed_seq s \<le> f"
  shows "eff_tags s f = {}"
proof -
  have "map_of (ss_feed_tags s) f = None"
    using assms by (fastforce simp: session_ok_def tags_ok_def map_of_eq_None_iff)
  then show ?thesis using assms by (fastforce simp: session_ok_def tags_ok_def eff_tags_def link_set_def)
qed

lemma tag_names_append:
  assumes "\<forall>t\<in>ids. t < seq" and "\<forall>r\<in>set new. seq \<le> tg_id r"
  shows "tag_names (tags @ new) ids = tag_names tags ids"
  using assms by (fastforce simp: tag_names_def)

section \<open>Changing an existing feed\<close>

definition touch_feed :: "feed_row \<Rightarrow> session \<Rightarrow> session" where
  "touch_feed r s = s\<lparr>ss_feeds := put_row fd_id r (ss_feeds s)\<rparr>"

lemma touch_feed_simps [simp]:
  "ss_db (touch_feed r s) = ss_db s" "ss_feed_tags (touch_feed r s) = ss_feed_tags s"
  "ss_scrapings (touch_feed r s) = ss_scrapings s" "ss_new_scrapings (touch_feed r s) = ss_new_scrapings s"
  "ss_companies (touch_feed r s) = ss_companies s" "ss_company_seq (touch_feed r s) = ss_company_seq s"
  "ss_feed_seq (touch_feed r s) = ss_feed_seq s" "ss_tag_seq (touch_feed r s) = ss_tag_seq s"
  "eff_scrapings (touch_feed r s) = eff_scrapings s"
  by (simp_all add: touch_feed_def eff_scrapings_def)

lemma touch_feed_tags [simp]: "eff_tags (touch_feed r s) = eff_tags s"
  by (rule eff_tags_cong) simp_all

lemma eff_feed_row:
  assumes "r \<in> set (eff_feeds s)" and "session_ok s"
  shows "\<exists>r0\<in>set (db_feeds (ss_db s)). fd_id r0 = fd_id r \<and> fd_url r0 = fd_url r"
  using assms
  by (fastforce simp: eff_feeds_def overlay_def session_ok_def feeds_ok_def split: option.splits dest: row_with_SomeD)

lemma feed_object_eff:
  "f \<in> keys_of fd_id (db_feeds (ss_db s)) \<Longrightarrow> feed_object f s = row_with fd_id f (eff_feeds s)"
  unfolding feed_object_def eff_feeds_def row_with_overlay
  by (cases "row_with fd_id f (db_feeds (ss_db s))") (simp_all add: row_with_None)

lemma touch_feed_eff:
  assumes "session_ok s" and "r0 \<in> set (eff_feeds s)" and "fd_id r = fd_id r0" and "fd_url r = fd_url r0" and "feed_fits r"
  shows "session_ok (touch_feed r s)" (is ?A)
    and "row_with fd_url u (eff_feeds (touch_feed r s)) =
      (if u = fd_url r0 then Some r else row_with fd_url u (eff_feeds s))" (is ?B)
proof -
  obtain r1 where r1: "r1 \<in> set (db_feeds (ss_db s))" "fd_id r1 = fd_id r" "fd_url r1 = fd_url r"
    using eff_feed_row [OF assms(2,1)] assms(3,4) by auto
  have okf: "feeds_ok (ss_feed_seq s) (ss_feeds s) (db_feeds (ss_db s))" using assms(1) unfolding session_ok_def by blast
  have "feeds_ok (ss_feed_seq s) (put_row fd_id r (ss_feeds s)) (db_feeds (ss_db s))"
    using okf r1 assms(5) in_put_row [of _ fd_id r "ss_feeds s"] unfolding feeds_ok_def
    by (blast intro: unique_key_put)
  then show ?A using assms(1) unfolding session_ok_def by (simp add: touch_feed_def)
  have "eff_feeds (touch_feed r s) = update_row fd_id (fd_id r0) (\<lambda>_. r) (eff_feeds s)"
    by (simp add: touch_feed_def eff_feeds_def overlay_put assms(3))
  then show ?B
    using row_with_other_key [OF eff_feeds_ok(1,2) [OF assms(1)] assms(2-4)] by simp
qed

text \<open>The level of protection a feed gets, from the one it has.\<close>

definition raised :: "int option \<Rightarrow> int option \<Rightarrow> int" where
  "raised old fetchprotection =
     (let level = (case old of None \<Rightarrow> 1 | Some q \<Rightarrow> q)
      in case fetchprotection of
           None \<Rightarrow> level
         | Some p \<Rightarrow> max (normalize_fetchprotection (Some level)) (normalize_fetchprotection (Some p)))"

lemma row_with_append_list:
  "row_with key k (xs @ ys) = (case row_with key k xs of Some r \<Rightarrow> Some r | None \<Rightarrow> row_with key k ys)"
  by (induction xs) (auto simp: row_with_def)

lemma protection_append:
  "protection (xs @ ys) f = (case protection xs f of Some p \<Rightarrow> Some p | None \<Rightarrow> protection ys f)"
  by (simp add: protection_def row_with_append_list split: option.splits)

lemma protection_put:
  "protection (put_row sc_feed_id r rows) g = (if g = sc_feed_id r then Some (sc_fetchprotection r) else protection rows g)"
  by (simp add: protection_def row_with_put)

lemma protection_None: "protection rows f = None \<longleftrightarrow> f \<notin> keys_of sc_feed_id rows"
  by (simp add: protection_def row_with_None)

lemma raise_protection_frame [simp]:
  "ss_db (raise_protection f fp s) = ss_db s" "ss_feeds (raise_protection f fp s) = ss_feeds s"
  "ss_feed_tags (raise_protection f fp s) = ss_feed_tags s" "ss_companies (raise_protection f fp s) = ss_companies s"
  "ss_company_seq (raise_protection f fp s) = ss_company_seq s" "ss_feed_seq (raise_protection f fp s) = ss_feed_seq s"
  "ss_tag_seq (raise_protection f fp s) = ss_tag_seq s"
  by (simp_all add: raise_protection_def Let_def split: option.splits)

lemma raise_protection_eff [simp]:
  "eff_feeds (raise_protection f fp s) = eff_feeds s" "eff_tags (raise_protection f fp s) = eff_tags s"
  by (simp add: eff_feeds_def) (rule eff_tags_cong; simp)

lemma raise_protection_cases:
  assumes "session_ok s" and "f \<in> keys_of fd_id (db_feeds (ss_db s))"
  obtains (new) r where "row_with sc_feed_id f (ss_new_scrapings s) = Some r"
      "raise_protection f fp s =
        s\<lparr>ss_new_scrapings := put_row sc_feed_id (r\<lparr>sc_fetchprotection := raised (Some (sc_fetchprotection r)) fp\<rparr>)
          (ss_new_scrapings s)\<rparr>"
      "protection (eff_scrapings s) f = Some (sc_fetchprotection r)"
  | (kept) r :: scraping_row where "protection (eff_scrapings s) f = Some (sc_fetchprotection r)"
      "raised (Some (sc_fetchprotection r)) fp = sc_fetchprotection r" "raise_protection f fp s = s"
  | (changed) r where "row_with sc_feed_id f (ss_new_scrapings s) = None" "sc_feed_id r = f"
      "f \<in> keys_of sc_feed_id (db_scrapings (ss_db s))" "protection (eff_scrapings s) f = Some (sc_fetchprotection r)"
      "raise_protection f fp s =
        s\<lparr>ss_scrapings := put_row sc_feed_id (r\<lparr>sc_fetchprotection := raised (Some (sc_fetchprotection r)) fp\<rparr>)
          (ss_scrapings s)\<rparr>"
  | (absent) "protection (eff_scrapings s) f = None"
      "f \<notin> keys_of sc_feed_id (db_scrapings (ss_db s) @ ss_new_scrapings s)"
      "raise_protection f fp s =
        s\<lparr>ss_new_scrapings := ss_new_scrapings s @ [new_scraping f (raised None fp)]\<rparr>"
proof -
  have okS: "scrapings_ok (ss_feed_seq s) (db_feeds (ss_db s)) (ss_scrapings s) (ss_new_scrapings s)
      (db_scrapings (ss_db s))" using assms(1) unfolding session_ok_def by blast
  have old: "protection (overlay sc_feed_id (ss_scrapings s) (db_scrapings (ss_db s))) f =
      (if f \<in> keys_of sc_feed_id (db_scrapings (ss_db s))
       then map_option sc_fetchprotection (object_with sc_feed_id f (ss_scrapings s) (db_scrapings (ss_db s))) else None)"
    using row_with_None [of sc_feed_id f "db_scrapings (ss_db s)"]
    by (auto simp: protection_def row_with_overlay split: option.splits)
  show ?thesis
  proof (cases "row_with sc_feed_id f (ss_new_scrapings s)")
    case (Some r)
    then have "f \<in> keys_of sc_feed_id (ss_new_scrapings s)" using row_with_SomeD [OF Some] by (auto simp: keys_of_def)
    then have "f \<notin> keys_of sc_feed_id (db_scrapings (ss_db s))"
      using okS by (auto simp: scrapings_ok_def unique_key_def keys_of_def)
    then have "protection (eff_scrapings s) f = Some (sc_fetchprotection r)"
      unfolding eff_scrapings_def protection_append old using Some by (simp add: protection_def)
    then show ?thesis
      by (rule new [OF Some, rotated]) (simp add: raise_protection_def Some raised_def Let_def split: option.splits)
  next
    case None
    then have no: "protection (ss_new_scrapings s) f = None" by (simp add: protection_def)
    show ?thesis
    proof (cases "object_with sc_feed_id f (ss_scrapings s) (db_scrapings (ss_db s))")
      case obj: (Some r)
      have r: "sc_feed_id r = f" using obj by (auto simp: object_with_def split: option.splits dest: row_with_SomeD)
      have mem: "f \<in> keys_of sc_feed_id (db_scrapings (ss_db s))"
        using okS assms(2) obj row_with_None [of sc_feed_id f "ss_scrapings s"]
          row_with_None [of sc_feed_id f "db_scrapings (ss_db s)"]
        unfolding scrapings_ok_def object_with_def by (cases "row_with sc_feed_id f (ss_scrapings s)") auto
      have p: "protection (eff_scrapings s) f = Some (sc_fetchprotection r)"
        unfolding eff_scrapings_def protection_append old using mem obj by simp
      show ?thesis
      proof (cases "raised (Some (sc_fetchprotection r)) fp = sc_fetchprotection r")
        case True
        then show ?thesis
          by (intro kept [OF p]) (simp_all add: raise_protection_def None obj raised_def Let_def split: option.splits)
      next
        case False
        then show ?thesis
          by (intro changed [OF None r mem p])
            (auto simp: raise_protection_def None obj raised_def Let_def split: option.splits)
      qed
    next
      case obj: None
      then have "f \<notin> keys_of sc_feed_id (db_scrapings (ss_db s))"
        using row_with_None [of sc_feed_id f "db_scrapings (ss_db s)"] by (auto simp: object_with_def split: option.splits)
      then show ?thesis
        using None row_with_None [of sc_feed_id f "ss_new_scrapings s"] no
        by (intro absent)
          (simp_all add: eff_scrapings_def protection_append old raise_protection_def obj raised_def new_scraping_def
            Let_def split: option.splits)
    qed
  qed
qed

lemma scrapings_ok_new_keys:
  "map sc_feed_id new' = map sc_feed_id new \<Longrightarrow> scrapings_ok seq feeds changed new rows \<Longrightarrow>
    scrapings_ok seq feeds changed new' rows"
  unfolding scrapings_ok_def unique_key_def keys_of_def by (metis (no_types, lifting) map_append set_map)

lemma raise_protection_eff2:
  assumes "session_ok s" and "f \<in> keys_of fd_id (db_feeds (ss_db s))"
  shows "session_ok (raise_protection f fp s)"
    and "protection (eff_scrapings (raise_protection f fp s)) g =
      (if g = f then Some (raised (protection (eff_scrapings s) f) fp) else protection (eff_scrapings s) g)"
proof -
  have okS: "scrapings_ok (ss_feed_seq s) (db_feeds (ss_db s)) (ss_scrapings s) (ss_new_scrapings s)
      (db_scrapings (ss_db s))" using assms(1) unfolding session_ok_def by blast
  have f: "f < ss_feed_seq s" using assms by (auto simp: session_ok_def feeds_ok_def keys_of_def)
  have "scrapings_ok (ss_feed_seq s) (db_feeds (ss_db s)) (ss_scrapings (raise_protection f fp s))
      (ss_new_scrapings (raise_protection f fp s)) (db_scrapings (ss_db s)) \<and>
    protection (eff_scrapings (raise_protection f fp s)) g =
      (if g = f then Some (raised (protection (eff_scrapings s) f) fp) else protection (eff_scrapings s) g)"
    using assms
  proof (cases rule: raise_protection_cases [where fp = fp])
    case (new r)
    have r: "sc_feed_id r = f" "r \<in> set (ss_new_scrapings s)" using row_with_SomeD [OF new(1)] by auto
    then have k: "f \<in> keys_of sc_feed_id (ss_new_scrapings s)" by (auto simp: keys_of_def)
    let ?r = "r\<lparr>sc_fetchprotection := raised (Some (sc_fetchprotection r)) fp\<rparr>"
    have "map sc_feed_id (put_row sc_feed_id ?r (ss_new_scrapings s)) = map sc_feed_id (ss_new_scrapings s)"
      using k r(1) map_key_write [of sc_feed_id ?r] by (simp add: put_row_def)
    then have "scrapings_ok (ss_feed_seq s) (db_feeds (ss_db s)) (ss_scrapings s)
        (put_row sc_feed_id ?r (ss_new_scrapings s)) (db_scrapings (ss_db s))"
      using okS by (rule scrapings_ok_new_keys)
    moreover have "f \<notin> keys_of sc_feed_id (db_scrapings (ss_db s))"
      using okS k by (auto simp: scrapings_ok_def unique_key_def keys_of_def)
    then have "protection (overlay sc_feed_id (ss_scrapings s) (db_scrapings (ss_db s))) f = None"
      by (simp add: protection_None)
    ultimately show ?thesis
      using new(3) r(1) unfolding new(2)
      by (simp add: eff_scrapings_def protection_append protection_put cong: option.case_cong)
  next
    case (kept r)
    then show ?thesis using okS by simp
  next
    case (changed r)
    let ?r = "r\<lparr>sc_fetchprotection := raised (Some (sc_fetchprotection r)) fp\<rparr>"
    have "scrapings_ok (ss_feed_seq s) (db_feeds (ss_db s)) (put_row sc_feed_id ?r (ss_scrapings s))
        (ss_new_scrapings s) (db_scrapings (ss_db s))"
      using okS f changed(2,3) unique_key_put [of sc_feed_id "ss_scrapings s" ?r]
      by (simp add: scrapings_ok_def keys_of_put)
    moreover have "protection (update_row sc_feed_id f (\<lambda>_. ?r) rows) g =
        (if g = f then (if f \<in> keys_of sc_feed_id rows then Some (sc_fetchprotection ?r) else None)
         else protection rows g)" for rows
      using row_with_None [of sc_feed_id f rows]
      by (cases "row_with sc_feed_id f rows") (auto simp: protection_def row_with_write changed(2))
    ultimately show ?thesis
      using changed(2-4) unfolding changed(5)
      by (simp add: eff_scrapings_def protection_append overlay_put cong: option.case_cong)
  next
    case absent
    let ?r = "new_scraping f (raised None fp)"
    have "scrapings_ok (ss_feed_seq s) (db_feeds (ss_db s)) (ss_scrapings s) (ss_new_scrapings s @ [?r])
        (db_scrapings (ss_db s))"
      using okS f absent(2) by (simp add: scrapings_ok_def unique_key_def keys_of_def new_scraping_def image_Un)
    moreover have "protection (ss_new_scrapings s @ [?r]) g =
        (if g = f then Some (raised None fp) else protection (ss_new_scrapings s) g)"
      using absent(2) by (simp add: protection_append protection_None [THEN iffD2] split: option.splits)
        (simp add: protection_def row_with_def new_scraping_def)
    ultimately show ?thesis
      using absent(2) unfolding absent(3)
      by (simp add: eff_scrapings_def protection_append protection_None [THEN iffD2] absent(1) [unfolded eff_scrapings_def]
          cong: option.case_cong)
  qed
  then show "session_ok (raise_protection f fp s)"
    "protection (eff_scrapings (raise_protection f fp s)) g =
      (if g = f then Some (raised (protection (eff_scrapings s) f) fp) else protection (eff_scrapings s) g)"
    using assms(1) by (simp_all add: session_ok_def)
qed

text \<open>The tags of a feed.\<close>

lemma map_of_row_with: "map_of xs k = map_option snd (row_with fst k xs)"
  by (induction xs) (auto simp: row_with_def)

lemma set_feed_tags_simps [simp]:
  "ss_db (set_feed_tags f ts s) = ss_db s" "ss_feeds (set_feed_tags f ts s) = ss_feeds s"
  "ss_scrapings (set_feed_tags f ts s) = ss_scrapings s" "ss_new_scrapings (set_feed_tags f ts s) = ss_new_scrapings s"
  "ss_companies (set_feed_tags f ts s) = ss_companies s" "ss_company_seq (set_feed_tags f ts s) = ss_company_seq s"
  "ss_feed_seq (set_feed_tags f ts s) = ss_feed_seq s" "ss_tag_seq (set_feed_tags f ts s) = ss_tag_seq s"
  "eff_feeds (set_feed_tags f ts s) = eff_feeds s" "eff_scrapings (set_feed_tags f ts s) = eff_scrapings s"
  by (simp_all add: set_feed_tags_def eff_feeds_def eff_scrapings_def)

lemma set_feed_tags_eff:
  assumes "session_ok s" and "f < ss_feed_seq s" and "\<forall>t\<in>set ts. t < ss_tag_seq s"
  shows "session_ok (set_feed_tags f ts s)"
    and "eff_tags (set_feed_tags f ts s) g = (if g = f then set ts else eff_tags s g)"
proof -
  have "tags_ok (ss_tag_seq s) (ss_feed_seq s) (db_tags (ss_db s)) (put_row fst (f, ts) (ss_feed_tags s))
      (db_feed_tags (ss_db s))"
    using assms in_put_row [of _ fst "(f, ts)" "ss_feed_tags s"] unique_key_put [of fst "ss_feed_tags s" "(f, ts)"]
    unfolding session_ok_def tags_ok_def by fastforce
  then show "session_ok (set_feed_tags f ts s)"
    using assms(1) unfolding session_ok_def by (simp add: set_feed_tags_def)
  show "eff_tags (set_feed_tags f ts s) g = (if g = f then set ts else eff_tags s g)"
    by (simp add: eff_tags_def set_feed_tags_def map_of_row_with row_with_put cong: option.case_cong)
qed

text \<open>The update of an existing feed, and of the company of a feed.\<close>

definition feed_of_payload :: "feed_upsert \<Rightarrow> feed_row \<Rightarrow> feed_row" where
  "feed_of_payload p r = r\<lparr>fd_section := up_section p, fd_enabled := up_enabled p, fd_trust_score := up_trust_score p\<rparr>"

lemma view_row: "catalog_view s u = Some (r, p, ts) \<Longrightarrow> r \<in> set (eff_feeds s) \<and> fd_url r = u"
  by (auto simp: catalog_view_def dest: row_with_SomeD)

lemma eff_feed_id: "r \<in> set (eff_feeds s) \<Longrightarrow> fd_id r \<in> keys_of fd_id (db_feeds (ss_db s))"
  unfolding eff_feeds_def using keys_of_overlay [of fd_id "ss_feeds s"] by (auto simp: keys_of_def)

lemma view_other:
  assumes "session_ok s" and "r0 \<in> set (eff_feeds s)" and "row_with fd_url u (eff_feeds s) = Some r" and "u \<noteq> fd_url r0"
  shows "fd_id r \<noteq> fd_id r0"
proof
  assume "fd_id r = fd_id r0"
  moreover have "r \<in> set (eff_feeds s)" "fd_url r = u" using row_with_SomeD [OF assms(3)] by auto
  ultimately show False using unique_pair [OF eff_feeds_ok(1) [OF assms(1)] _ assms(2)] assms(4) by blast
qed

lemma touch_feed_view:
  assumes "session_ok s" and v: "catalog_view s u = Some (r0, lvl, tgs)"
    and "fd_id r = fd_id r0" and "fd_url r = fd_url r0" and "feed_fits r"
  shows "session_ok (touch_feed r s)" and "catalog_view (touch_feed r s) = (catalog_view s)(u \<mapsto> (r, lvl, tgs))"
proof -
  note r0 = view_row [OF v]
  note eff = touch_feed_eff [OF assms(1) conjunct1 [OF r0] assms(3-5)]
  show "session_ok (touch_feed r s)" by (rule eff(1))
  have "row_with fd_url u (eff_feeds s) = Some r0"
    "lvl = protection (eff_scrapings s) (fd_id r0)" "tgs = tag_names (db_tags (ss_db s)) (eff_tags s (fd_id r0))"
    using v by (auto simp: catalog_view_def)
  then show "catalog_view (touch_feed r s) = (catalog_view s)(u \<mapsto> (r, lvl, tgs))"
    using r0 assms(3) by (auto simp: fun_eq_iff catalog_view_def eff(2))
qed

lemma upsert_existing_view:
  assumes "session_ok s" and v: "catalog_view s (up_url p) = Some (r0, lvl, tgs)"
    and tags: "\<forall>t\<in>set ts. t < ss_tag_seq s" and p: "valid_feed_upsert p"
    and up: "upsert_feed p ts (Some (fd_id r0)) s = (Inr (f, created), s')"
  shows "session_ok s'" and "f = fd_id r0"
    and "catalog_view s' = (catalog_view s)(up_url p \<mapsto>
      (feed_of_payload p r0, Some (raised lvl (up_fetchprotection p)), tag_names (db_tags (ss_db s)) (set ts)))"
    and "ss_db s' = ss_db s" and "ss_feeds s' = put_row fd_id (feed_of_payload p r0) (ss_feeds s)"
    and "ss_feed_seq s' = ss_feed_seq s" "ss_tag_seq s' = ss_tag_seq s"
proof -
  note r0 = view_row [OF v]
  let ?r = "feed_of_payload p r0"
  have id: "fd_id r0 \<in> keys_of fd_id (db_feeds (ss_db s))" by (rule eff_feed_id) (use r0 in simp)
  have "feed_object (fd_id r0) s = Some r0"
    unfolding feed_object_eff [OF id] using unique_key_row [OF eff_feeds_ok(1) [OF assms(1)]] r0 by blast
  then have res: "f = fd_id r0 \<and> s' = set_feed_tags (fd_id r0) ts
      (raise_protection (fd_id r0) (up_fetchprotection p) (touch_feed ?r s))"
    using up by (auto simp: upsert_feed_def sql_bind_def touch_feed_def feed_of_payload_def)
  then show "f = fd_id r0" "ss_db s' = ss_db s" "ss_feeds s' = put_row fd_id ?r (ss_feeds s)"
    "ss_feed_seq s' = ss_feed_seq s" "ss_tag_seq s' = ss_tag_seq s"
    by (simp_all add: touch_feed_def)
  have fits: "feed_fits ?r"
    using p eff_feeds_ok(4) [OF assms(1) conjunct1 [OF r0]]
    by (simp add: feed_fits_def feed_of_payload_def valid_feed_upsert_def)
  have keep: "fd_id ?r = fd_id r0" "fd_url ?r = fd_url r0" by (simp_all add: feed_of_payload_def)
  let ?s1 = "touch_feed ?r s"
  note t1 = touch_feed_view [OF assms(1) v keep fits]
  have id1: "fd_id r0 \<in> keys_of fd_id (db_feeds (ss_db ?s1))" using id by simp
  let ?s2 = "raise_protection (fd_id r0) (up_fetchprotection p) ?s1"
  note t2 = raise_protection_eff2 [OF t1(1) id1, of "up_fetchprotection p"]
  have f: "fd_id r0 < ss_feed_seq ?s2" using eff_feeds_ok(4) [OF assms(1) conjunct1 [OF r0]] by simp
  have ts: "\<forall>t\<in>set ts. t < ss_tag_seq ?s2" using tags by simp
  note t3 = set_feed_tags_eff [OF t2(1) f ts]
  show "session_ok s'" using t3(1) res by simp
  have lvl: "lvl = protection (eff_scrapings s) (fd_id r0)" "row_with fd_url (up_url p) (eff_feeds s) = Some r0"
    using v by (auto simp: catalog_view_def)
  have "eff_feeds s' = eff_feeds ?s1" "db_tags (ss_db s') = db_tags (ss_db s)"
    "\<And>g. protection (eff_scrapings s') g =
      (if g = fd_id r0 then Some (raised lvl (up_fetchprotection p)) else protection (eff_scrapings s) g)"
    "\<And>g. eff_tags s' g = (if g = fd_id r0 then set ts else eff_tags s g)"
    using res t2(2) t3(2) lvl(1) by simp_all
  moreover have "row_with fd_url u (eff_feeds ?s1) = (if u = fd_url r0 then Some ?r else row_with fd_url u (eff_feeds s))" for u
    by (rule touch_feed_eff(2) [OF assms(1) conjunct1 [OF r0] keep fits])
  moreover have "fd_id r \<noteq> fd_id r0" if "row_with fd_url u (eff_feeds s) = Some r" "u \<noteq> fd_url r0" for u r
    by (rule view_other [OF assms(1) conjunct1 [OF r0] that])
  ultimately show "catalog_view s' = (catalog_view s)(up_url p \<mapsto>
      (?r, Some (raised lvl (up_fetchprotection p)), tag_names (db_tags (ss_db s)) (set ts)))"
    using r0 keep
    by (intro ext) (auto simp: catalog_view_def map_option_case split: option.splits)
qed

lemma link_view:
  assumes "session_ok s" and v: "catalog_view s u = Some (r0, lvl, tgs)"
    and link: "link_company_to_feed c (fd_id r0) s = (Inr b, s')"
  shows "session_ok s'" and "catalog_view s' = (catalog_view s)(u \<mapsto> (r0\<lparr>fd_company_id := Some c\<rparr>, lvl, tgs))"
    and "ss_db s' = ss_db s" and "fd_url ` set (ss_feeds s') \<subseteq> insert u (fd_url ` set (ss_feeds s))"
    and "ss_feed_seq s' = ss_feed_seq s" "ss_tag_seq s' = ss_tag_seq s"
proof -
  note r0 = view_row [OF v]
  let ?r = "r0\<lparr>fd_company_id := Some c\<rparr>"
  have id: "fd_id r0 \<in> keys_of fd_id (db_feeds (ss_db s))" by (rule eff_feed_id) (use r0 in simp)
  have "feed_object (fd_id r0) s = Some r0"
    unfolding feed_object_eff [OF id] using unique_key_row [OF eff_feeds_ok(1) [OF assms(1)]] r0 by blast
  then have res: "s' = s \<and> ?r = r0 \<or> s' = touch_feed ?r s"
    using link id by (auto simp: link_company_to_feed_def touch_feed_def split: if_splits)
  have fits: "feed_fits ?r" using eff_feeds_ok(4) [OF assms(1) conjunct1 [OF r0]] by (simp add: feed_fits_def)
  note t1 = touch_feed_view [OF assms(1) v _ _ fits, simplified]
  show "session_ok s'" using res t1(1) assms(1) by auto
  show "catalog_view s' = (catalog_view s)(u \<mapsto> (?r, lvl, tgs))"
    using res t1(2) v by (metis map_upd_triv)
  show "ss_db s' = ss_db s" "ss_feed_seq s' = ss_feed_seq s" "ss_tag_seq s' = ss_tag_seq s" using res by auto
  show "fd_url ` set (ss_feeds s') \<subseteq> insert u (fd_url ` set (ss_feeds s))"
    using res r0 by (auto simp: touch_feed_def dest!: in_put_row)
qed

end
