(* ===== verification/Table_Types.thy ===== *)
theory Table_Types
  imports Pipeline Catalog_Steps
begin

text \<open>
  The column types and checks of the tables as the migrations leave them, and that the services only write rows of
  these types: a value that does not fit is refused by a conversion, and never stored.
\<close>

section \<open>Columns\<close>

definition clean_string :: "string \<Rightarrow> bool" where
  "clean_string s = (CHR 0x00 \<notin> set s)"

definition fits :: "nat \<Rightarrow> string \<Rightarrow> bool" where
  "fits n s = (length s \<le> n \<and> clean_string s)"

definition int4_ok :: "int \<Rightarrow> bool" where
  "int4_ok i = (- (2 ^ 31) \<le> i \<and> i < 2 ^ 31)"

definition opt :: "('a \<Rightarrow> bool) \<Rightarrow> 'a option \<Rightarrow> bool" where
  "opt P v = (case v of None \<Rightarrow> True | Some x \<Rightarrow> P x)"

lemma opt_simps [simp]: "opt P None" "opt P (Some x) = P x"
  by (simp_all add: opt_def)

lemma opt_coalesce: "opt P a \<Longrightarrow> opt P b \<Longrightarrow> opt P (coalesce a b)"
  by (cases a) (simp_all add: coalesce_def)

section \<open>Tables\<close>

definition scraping_typed :: "scraping_row \<Rightarrow> bool" where
  "scraping_typed r = (int4_ok (sc_feed_id r) \<and> 0 \<le> sc_fetchprotection r \<and> sc_fetchprotection r \<le> 2 \<and>
     opt (fits 255) (sc_etag r) \<and> int4_ok (sc_error_nbr r) \<and> 0 \<le> sc_error_nbr r \<and> opt clean_string (sc_error_msg r))"

definition source_typed :: "source_row \<Rightarrow> bool" where
  "source_typed r = (int4_ok (so_id r) \<and> fits 500 (so_title r) \<and> opt clean_string (so_summary r) \<and>
     opt (fits 255) (so_author r) \<and> fits 1000 (so_url r) \<and> opt (fits 1000) (so_image_url r))"

definition link_typed :: "source_link \<Rightarrow> bool" where
  "link_typed l = (int4_ok (sl_source_id l) \<and> int4_ok (sl_feed_id l))"

definition job_typed :: "job_row \<Rightarrow> bool" where
  "job_typed j = (fits 36 (jb_job_id j) \<and> fits 100 (jb_requested_by j) \<and> int4_ok (jb_feed_count j) \<and> 0 \<le> jb_feed_count j \<and>
     jb_status j \<in> {''queued'', ''processing'', ''completed'', ''completed_with_errors'', ''failed''})"

definition job_feed_typed :: "job_feed_row \<Rightarrow> bool" where
  "job_feed_typed r = (fits 36 (jbf_job_id r) \<and> int4_ok (jbf_feed_id r) \<and> fits 500 (jbf_feed_url r))"

definition result_typed :: "result_row \<Rightarrow> bool" where
  "result_typed r = (fits 36 (rr_job_id r) \<and> int4_ok (rr_feed_id r) \<and>
     rr_status r \<in> {''success'', ''not_modified'', ''error''} \<and> rr_queue_kind r \<in> {''check'', ''ingest'', ''error''} \<and>
     opt clean_string (rr_error_message r) \<and> opt (\<lambda>p. - (2 ^ 15) \<le> p \<and> p < 2 ^ 15) (rr_fetchprotection r) \<and>
     opt (fits 255) (rr_new_etag r))"

definition tables_typed :: "database \<Rightarrow> bool" where
  "tables_typed db = (list_all scraping_typed (db_scrapings db) \<and> list_all source_typed (db_sources db) \<and>
     list_all link_typed (db_source_links db) \<and> list_all job_typed (db_jobs db) \<and>
     list_all job_feed_typed (db_job_feeds db) \<and> list_all result_typed (db_results db))"

lemma tables_typed_seq [simp]: "tables_typed (db\<lparr>source_seq := n\<rparr>) = tables_typed db"
  by (simp add: tables_typed_def)

section \<open>Conversions\<close>

lemma sql_texts_Inr: "sql_texts vs = Inr u \<longleftrightarrow> (\<forall>v\<in>set vs. opt clean_string v)"
  by (auto simp: sql_texts_def list_all_iff opt_def clean_string_def split: option.splits)

lemma varchar_fits: "varchar n s = Inr t \<Longrightarrow> clean_string s \<Longrightarrow> fits n t"
  by (auto simp: varchar_def fits_def clean_string_def split: if_splits dest: in_set_takeD)

lemma nullable_varchar_fits: "nullable (varchar n) v = Inr w \<Longrightarrow> opt clean_string v \<Longrightarrow> opt (fits n) w"
  by (cases v) (auto dest: varchar_fits)

lemma int4_fits: "int4 i = Inr j \<longleftrightarrow> j = i \<and> int4_ok i"
  by (simp add: int4_ok_def)

lemmas conversions = sql_texts_Inr varchar_fits nullable_varchar_fits int4_ok_def

lemma result_row_typed:
  assumes "sql_texts [Some (res_job_id payload), res_error_message payload, res_new_etag payload] = Inr u"
    and "result_row_of payload kind = Inr row" and "0 \<le> res_fetchprotection payload" and "res_fetchprotection payload \<le> 2"
  shows "result_typed row"
  using assms status_text_in [of "res_status payload"]
  by (auto simp: result_typed_def result_row_of_def conversions split: if_splits)

lemma scraping_row_typed:
  assumes "scraping_row_of payload = Inr row" and "0 \<le> res_fetchprotection payload" and "res_fetchprotection payload \<le> 2"
  shows "scraping_typed row"
  using assms by (auto simp: scraping_typed_def scraping_row_of_def conversions Let_def)

lemma source_row_typed:
  assumes "sql_texts [Some (src_title source), src_summary source, src_author source, Some (src_url source), src_image_url source] = Inr u"
    and "source_row_of i source d = Inr row"
  shows "source_typed row"
  using assms by (auto simp: source_typed_def source_row_of_def conversions)

lemma job_row_typed:
  assumes "job_row_of now job_id ingest requested_by requested_at status feeds = Inr row" and "jb_status row \<in> job_statuses"
  shows "job_typed row"
  using assms by (auto simp: job_typed_def job_row_of_def job_statuses_def conversions)

lemma job_feed_row_typed: "job_feed_row_of job_id feed = Inr row \<Longrightarrow> job_feed_typed row"
  by (auto simp: job_feed_typed_def job_feed_row_of_def conversions)

section \<open>Statements\<close>

lemma insert_result_types:
  assumes "0 \<le> res_fetchprotection payload" and "res_fetchprotection payload \<le> 2"
  shows "sql_keeps tables_typed (insert_job_result_if_new payload kind)"
  unfolding sql_keeps_def
  by (auto simp: insert_job_result_if_new_def tables_typed_def result_row_typed [OF _ _ assms]
    split: sum.splits if_splits)

lemma scraping_update_typed:
  assumes "scraping_typed excluded" and "scraping_typed row" and "int4_ok n" and "0 \<le> n"
  shows "scraping_typed (scraping_update excluded n row)"
  using assms by (simp add: scraping_typed_def scraping_update_def opt_coalesce)

lemma upsert_scraping_types:
  assumes "0 \<le> res_fetchprotection payload" and "res_fetchprotection payload \<le> 2"
  shows "sql_keeps tables_typed (upsert_feed_scraping_state payload)"
  unfolding sql_keeps_def
proof (intro allI impI)
  fix db u db' assume ok: "tables_typed db" and run: "upsert_feed_scraping_state payload db = (Inr u, db')"
  obtain excluded where row: "scraping_row_of payload = Inr excluded"
    using run by (auto simp: upsert_feed_scraping_state_def split: sum.splits)
  have new: "scraping_typed excluded" by (rule scraping_row_typed [OF row assms])
  show "tables_typed db'"
  proof (cases "row_with sc_feed_id (sc_feed_id excluded) (db_scrapings db)")
    case None
    then show ?thesis using run row ok new
      by (auto simp: upsert_feed_scraping_state_def tables_typed_def split: if_splits)
  next
    case (Some old)
    then have "scraping_typed old" using ok row_with_SomeD [OF Some] by (auto simp: tables_typed_def list_all_iff)
    then have old: "int4_ok (sc_error_nbr old)" "0 \<le> sc_error_nbr old" by (simp_all add: scraping_typed_def)
    define n where "n = (if res_status payload = ResultError then sc_error_nbr old + 1 else sc_error_nbr old)"
    have n: "int4_ok n" "0 \<le> n" "db' = db\<lparr>db_scrapings := update_row sc_feed_id (sc_feed_id excluded)
        (scraping_update excluded n) (db_scrapings db)\<rparr>"
      using run row Some old
      by (auto simp: n_def upsert_feed_scraping_state_def int4_def int4_ok_def split: if_splits)
    have "list_all scraping_typed (db_scrapings db')"
      unfolding n(3) using ok new n(1,2)
      by (auto simp: tables_typed_def intro!: list_all_update_row scraping_update_typed)
    then show ?thesis using ok n(3) by (simp add: tables_typed_def)
  qed
qed

lemma source_update_typed: "source_typed excluded \<Longrightarrow> source_typed row \<Longrightarrow> source_typed (source_update excluded row)"
  by (simp add: source_typed_def source_update_def opt_coalesce)

lemma upsert_source_types:
  assumes "upsert_source source d db = (Inr (i, p), db')" and "tables_typed db"
  shows "tables_typed db' \<and> int4_ok i"
proof -
  obtain u excluded where row: "sql_texts [Some (src_title source), src_summary source, src_author source, Some (src_url source), src_image_url source] = Inr u"
    "source_row_of (source_seq db) source d = Inr excluded"
    using assms(1) by (auto simp: upsert_source_def Let_def split: sum.splits)
  have new: "source_typed excluded" by (rule source_row_typed [OF row])
  show ?thesis
  proof (cases "row_with source_key (source_key excluded) (db_sources db)")
    case None
    then show ?thesis using assms row new by (auto simp: upsert_source_def tables_typed_def source_typed_def)
  next
    case (Some old)
    then have "source_typed old" using assms(2) row_with_SomeD [OF Some] by (auto simp: tables_typed_def list_all_iff)
    moreover have "list_all source_typed (update_row source_key (source_key excluded) (source_update excluded) (db_sources db))"
      using assms(2) new by (auto simp: tables_typed_def intro!: list_all_update_row source_update_typed)
    ultimately show ?thesis using assms row Some by (auto simp: upsert_source_def tables_typed_def source_typed_def)
  qed
qed

lemma link_source_types: "link_source i f p db = (Inr u, db') \<Longrightarrow> tables_typed db \<Longrightarrow> int4_ok i \<Longrightarrow> tables_typed db'"
  by (auto simp: link_source_def Let_def tables_typed_def link_typed_def int4_def int4_ok_def split: if_splits)

lemma upsert_sources_types: "sql_keeps tables_typed (upsert_sources_for_feed payload)"
proof -
  have "sql_keeps tables_typed (upsert_source_for_feed f source)" for f source
    unfolding sql_keeps_def
    using upsert_source_types link_source_types by (metis upsert_source_for_feed_cases)
  then show ?thesis by (simp add: upsert_sources_for_feed_def sql_keeps_for)
qed

lemma refresh_types: "sql_keeps tables_typed (refresh_rss_scrape_job_status now job_id)"
  unfolding sql_keeps_def
proof (intro allI impI)
  fix db u db' assume ok: "tables_typed db" and run: "refresh_rss_scrape_job_status now job_id db = (Inr u, db')"
  from run show "tables_typed db'"
  proof (cases rule: refresh_cases)
    case (refreshed job)
    have "list_all job_typed (db_jobs db')"
      unfolding refreshed(2) using ok
      by (auto simp: tables_typed_def job_typed_def job_status_of_def intro!: list_all_update_row)
    then show ?thesis using ok refreshed(2) by (simp add: tables_typed_def)
  qed (use ok in simp)
qed

lemma persist_types:
  assumes "0 \<le> res_fetchprotection payload" and "res_fetchprotection payload \<le> 2"
  shows "sql_keeps tables_typed (persist_worker_result now payload kind)"
  unfolding persist_worker_result_def
  by (auto intro!: sql_keeps_bind insert_result_types upsert_scraping_types assms simp: upsert_sources_types refresh_types)

lemma create_job_types:
  assumes "status \<in> job_statuses"
  shows "sql_keeps tables_typed (create_rss_scrape_job now job_id ingest requested_by requested_at status feeds)"
proof -
  have insert: "tables_typed db'" if "insert_job job db = (Inr u, db')" "tables_typed db"
      "job_row_of now job_id ingest requested_by requested_at status feeds = Inr job" for job db u db'
    using that job_row_typed [OF that(3)] by (auto simp: insert_job_def tables_typed_def split: if_splits)
  have feeds: "sql_keeps tables_typed (sql_for (insert_job_feed job_id) feeds)"
    by (rule sql_keeps_for)
      (auto simp: sql_keeps_def insert_job_feed_def tables_typed_def job_feed_row_typed split: sum.splits if_splits)
  show ?thesis
    unfolding sql_keeps_def create_rss_scrape_job_def sql_bind_Inr
    using insert sql_keepsD [OF feeds] by auto
qed

lemma set_status_types: "sql_keeps tables_typed (set_rss_scrape_job_status now job_id status)"
proof -
  have "list_all job_typed (update_row jb_job_id job_id (\<lambda>job. job\<lparr>jb_status := status, jb_updated_at := now\<rparr>) rows)"
    if "list_all job_typed rows" "status \<in> job_statuses" for rows
    by (rule list_all_update_row [OF that(1)]) (use that(2) in \<open>auto simp: job_typed_def job_statuses_def\<close>)
  then show ?thesis
    by (auto simp: sql_keeps_def set_rss_scrape_job_status_def tables_typed_def split: sum.splits if_splits)
qed

section \<open>Services\<close>

lemma committed_types:
  assumes "sql_keeps tables_typed m" and "tables_typed db"
  shows "tables_typed (snd (committed commit m db))"
proof (cases "m db")
  case (Pair r db')
  then show ?thesis using assms sql_keepsD [OF assms(1), of db _ db']
    by (cases r; cases commit) (simp_all add: committed_def)
qed

lemma process_message_types:
  assumes "tables_typed (cs_db s)"
  shows "tables_typed (cs_db (snd (process_result_message env stream i raw s)))"
proof (cases "validate_result raw")
  case (Inl e)
  then show ?thesis using assms by (simp add: process_result_message_def acknowledge_db)
next
  case (Inr payload)
  let ?m = "persist_worker_result (me_now env) payload
      (resolve_queue_kind stream ''rss_check_results'' ''rss_ingest_results'' ''error_feeds_parsing'')"
  have "sql_keeps tables_typed ?m"
    using Inr persist_types by (auto simp: validate_result_def valid_worker_result_def split: option.splits if_splits)
  then have "tables_typed (snd (committed (me_commit env) ?m (cs_db s)))" using committed_types assms by blast
  then show ?thesis
    using Inr by (cases "committed (me_commit env) ?m (cs_db s)")
      (auto simp: process_result_message_def Let_def acknowledge_db split: sum.splits)
qed

lemma process_batch_types: "tables_typed (cs_db s) \<Longrightarrow> tables_typed (cs_db (snd (process_batch ms s)))"
proof (induction ms arbitrary: s)
  case (Cons m ms)
  obtain env stream i raw where m: "m = (env, stream, i, raw)" by (cases m)
  obtain r s' where r: "process_result_message env stream i raw s = (r, s')" by fastforce
  then have "tables_typed (cs_db s')" using process_message_types [OF Cons.prems, of env stream i raw] by simp
  then show ?case using Cons.IH [of s'] r m by (cases r) simp_all
qed simp

lemma enqueue_types:
  assumes "tables_typed (bs_db s)"
  shows "tables_typed (bs_db (snd (enqueue_rss_scrape_job netloc_ok env ingest requested_by feed_ids enabled_only s)))"
proof (cases "list_rss_feed_scrape_payloads netloc_ok feed_ids enabled_only (bs_db s)")
  case (Inl e)
  then show ?thesis using assms by (simp add: enqueue_rss_scrape_job_def)
next
  case (Inr feeds)
  let ?status = "if feeds \<noteq> [] then ''queued'' else ''completed''"
  let ?m = "create_rss_scrape_job (ee_created env) (ee_job_id env) ingest requested_by (ee_now env) ?status feeds"
  have "sql_keeps tables_typed ?m" by (rule create_job_types) (simp add: job_statuses_def)
  then have db: "tables_typed (snd (committed (ee_commit env) ?m (bs_db s)))" using committed_types assms by blast
  have mark: "tables_typed (mark_job_as_failed_after_publish_error env db)" if "tables_typed db" for db
  proof (cases "set_rss_scrape_job_status (ee_failed env) (ee_job_id env) ''failed'' db")
    case (Pair r db')
    have "tables_typed db'" if "r = Inr b" for b
      using sql_keepsD [OF set_status_types] Pair that \<open>tables_typed db\<close> by blast
    then show ?thesis using Pair that
      by (cases r; cases "ee_mark env") (auto simp: mark_job_as_failed_after_publish_error_def committed_def split: bool.splits)
  qed
  show ?thesis
    using Inr db mark
    by (cases "committed (ee_commit env) ?m (bs_db s)")
      (auto simp: enqueue_rss_scrape_job_def Let_def split: sum.splits prod.splits bool.splits)
qed

section \<open>The catalog\<close>

definition company_typed :: "company_row \<Rightarrow> bool" where
  "company_typed r = (int4_ok (co_id r) \<and> fits 50 (co_name r) \<and> opt (fits 255) (co_host r) \<and> opt (fits 500) (co_icon_url r) \<and>
     opt (\<lambda>c. fits 2 c \<and> length c = 2) (co_country r) \<and> opt (\<lambda>c. fits 2 c \<and> length c = 2) (co_language r) \<and>
     0 \<le> co_fetchprotection r \<and> co_fetchprotection r \<le> 2)"

definition feed_typed :: "feed_row \<Rightarrow> bool" where
  "feed_typed r = (int4_ok (fd_id r) \<and> fits 500 (fd_url r) \<and> opt (fits 50) (fd_section r) \<and>
     0 \<le> fd_trust_score r \<and> fd_trust_score r \<le> 1 \<and> opt int4_ok (fd_company_id r))"

definition tag_typed :: "tag_row \<Rightarrow> bool" where
  "tag_typed r = (int4_ok (tg_id r) \<and> fits 50 (tg_name r))"

definition catalog_typed :: "database \<Rightarrow> bool" where
  "catalog_typed db = (list_all company_typed (db_companies db) \<and> list_all feed_typed (db_feeds db) \<and>
     list_all tag_typed (db_tags db))"

lemma bpchar_fits: "nullable (bpchar n) v = Inr w \<Longrightarrow> opt clean_string v \<Longrightarrow> opt (\<lambda>c. fits n c \<and> length c = n) w"
  by (cases v) (auto simp: bpchar_def fits_def clean_string_def dest!: varchar_fits)

lemma company_values_typed: "company_values r = Inr r' \<Longrightarrow> int4_ok (co_id r) \<Longrightarrow> company_typed r'"
  by (auto simp: company_values_def company_typed_def sql_texts_Inr varchar_fits nullable_varchar_fits bpchar_fits
    split: if_splits)

text \<open>The company of a feed is one of the table, so its identifier is of the type of the column.\<close>

lemma feed_values_typed:
  assumes "feed_values db r = Inr r'" and "int4_ok (fd_id r)" and "list_all company_typed (db_companies db)"
  shows "feed_typed r'"
proof -
  have "opt int4_ok (fd_company_id r)"
  proof (cases "fd_company_id r")
    case (Some c)
    then have "c \<in> keys_of co_id (db_companies db)" using assms(1) by (auto simp: feed_values_def split: if_splits)
    then show ?thesis using assms(3) Some by (auto simp: keys_of_def list_all_iff company_typed_def)
  qed simp
  then show ?thesis
    using assms(1,2) by (auto simp: feed_values_def feed_typed_def sql_texts_Inr varchar_fits nullable_varchar_fits
      split: if_splits)
qed

lemma tag_values_typed: "tag_values r = Inr r' \<Longrightarrow> int4_ok (tg_id r) \<Longrightarrow> tag_typed r'"
  by (auto simp: tag_values_def tag_typed_def sql_texts_Inr varchar_fits)

text \<open>
  Each statement that writes one of these tables converts the row first; an update leaves the identifier of a row of
  the table, and an insertion has one of the sequence.
\<close>

definition types_kept :: "(session, 'a) stmt \<Rightarrow> bool" where
  "types_kept m = sql_keeps (\<lambda>s. catalog_typed (ss_db s)) m"

named_theorems types_keep \<open>operations that only store typed rows\<close>

lemma types_kept_return [types_keep]:
  "types_kept (sql_return x)" "types_kept (sql_raise e)" "types_kept (sql_lift r)" "types_kept (\<lambda>s. (f s, s))"
  by (simp_all add: types_kept_def sql_keeps_def)

lemma types_kept_bind [types_keep]: "types_kept m \<Longrightarrow> (\<And>x. types_kept (f x)) \<Longrightarrow> types_kept (sql_bind m f)"
  unfolding types_kept_def by (rule sql_keeps_bind)

lemma types_kept_for [types_keep]: "(\<And>x. types_kept (f x)) \<Longrightarrow> types_kept (sql_for f xs)"
  unfolding types_kept_def by (rule sql_keeps_for)

lemma types_kept_here: "(\<And>s. types_kept (m s)) \<Longrightarrow> types_kept (\<lambda>s. m s s)"
  unfolding types_kept_def sql_keeps_def by blast

text \<open>Changes of the session's objects alone.\<close>

lemma types_kept_objects: "(\<And>s. ss_db (snd (m s)) = ss_db s) \<Longrightarrow> types_kept m"
  unfolding types_kept_def sql_keeps_def by (metis snd_conv)

lemma types_kept_in_session: "sql_keeps catalog_typed m \<Longrightarrow> types_kept (in_session m)"
  by (auto simp: types_kept_def sql_keeps_def in_session_def split: prod.splits)

lemma serial_typed: "serial_ok i \<Longrightarrow> int4_ok i"
  by (simp add: serial_ok_def int4_ok_def)

lemma written_id_typed: "list_all P rows \<Longrightarrow> k \<in> keys_of key rows \<Longrightarrow> (\<And>r. P r \<Longrightarrow> int4_ok (key r)) \<Longrightarrow> int4_ok k"
  by (auto simp: keys_of_def list_all_iff)

lemma write_rows_typed:
  "sql_keeps catalog_typed (write_row co_id db_companies db_companies_update (\<lambda>_. company_values) co)"
  "sql_keeps catalog_typed (write_row fd_id db_feeds db_feeds_update feed_values fd)"
  "sql_keeps catalog_typed (write_row sc_feed_id db_scrapings db_scrapings_update scraping_values sc)"
proof -
  show "sql_keeps catalog_typed (write_row co_id db_companies db_companies_update (\<lambda>_. company_values) co)"
    by (auto simp: sql_keeps_def write_row_def catalog_typed_def company_typed_def
      intro!: list_all_update_row company_values_typed dest: written_id_typed split: if_splits sum.splits)
  show "sql_keeps catalog_typed (write_row fd_id db_feeds db_feeds_update feed_values fd)"
    by (auto simp: sql_keeps_def write_row_def catalog_typed_def feed_typed_def
      intro!: list_all_update_row feed_values_typed dest: written_id_typed split: if_splits sum.splits)
  show "sql_keeps catalog_typed (write_row sc_feed_id db_scrapings db_scrapings_update scraping_values sc)"
    by (auto simp: sql_keeps_def write_row_def catalog_typed_def split: if_splits sum.splits)
qed

lemma insert_rows_typed:
  "int4_ok (co_id co) \<Longrightarrow>
    sql_keeps catalog_typed (insert_row co_name db_companies db_companies_update (\<lambda>_. company_values) co)"
  "int4_ok (fd_id fd) \<Longrightarrow> sql_keeps catalog_typed (insert_row fd_url db_feeds db_feeds_update feed_values fd)"
  "int4_ok (tg_id tg) \<Longrightarrow>
    sql_keeps catalog_typed (insert_row tg_name db_tags db_tags_update (\<lambda>_. tag_values) tg)"
  "sql_keeps catalog_typed (insert_row sc_feed_id db_scrapings db_scrapings_update scraping_values sc)"
  "sql_keeps catalog_typed (write_feed_tags change)"
  by (auto simp: sql_keeps_def insert_row_def catalog_typed_def company_values_typed feed_values_typed tag_values_typed
    write_feed_tags_def Let_def split: if_splits sum.splits prod.splits)

lemma types_kept_flush [types_keep]: "types_kept flush"
proof -
  have "sql_keeps catalog_typed (write_changes s)" for s
    unfolding write_changes_def by (intro sql_keeps_bind sql_keeps_for write_rows_typed insert_rows_typed)
  then have "types_kept (in_session (write_changes s))" for s by (rule types_kept_in_session)
  then have "types_kept (\<lambda>s. in_session (write_changes s) s)" by (rule types_kept_here)
  then show ?thesis
    unfolding types_kept_def sql_keeps_def flush_def
    by (auto simp: clear_changes_def split: prod.splits sum.splits)
qed

text \<open>What follows the next value of a sequence may count on its range.\<close>

lemma types_kept_serial:
  assumes "\<And>s. ss_db (advance s) = ss_db s" and "\<And>i. int4_ok i \<Longrightarrow> types_kept (f i)"
  shows "types_kept (sql_bind (next_serial seq advance) f)"
  unfolding types_kept_def sql_keeps_def
proof (intro allI impI)
  fix s x s' assume ok: "catalog_typed (ss_db s)" and run: "sql_bind (next_serial seq advance) f s = (Inr x, s')"
  then have "int4_ok (seq s)" "f (seq s) (advance s) = (Inr x, s')"
    by (auto simp: sql_bind_Inr next_serial_Inr serial_typed)
  then show "catalog_typed (ss_db s')"
    using assms(2) [of "seq s"] assms(1) [of s] ok unfolding types_kept_def sql_keeps_def by metis
qed

lemma types_kept_next:
  "(\<And>i. int4_ok i \<Longrightarrow> types_kept (f i)) \<Longrightarrow> types_kept (sql_bind next_company_id f)"
  "(\<And>i. int4_ok i \<Longrightarrow> types_kept (g i)) \<Longrightarrow> types_kept (sql_bind next_tag_id g)"
  "(\<And>i. int4_ok i \<Longrightarrow> types_kept (h i)) \<Longrightarrow> types_kept (sql_bind next_feed_id h)"
  unfolding next_company_id_def next_tag_id_def next_feed_id_def by (rule types_kept_serial; simp)+

lemma types_kept_inserts [types_keep]:
  "int4_ok (co_id co) \<Longrightarrow>
    types_kept (in_session (insert_row co_name db_companies db_companies_update (\<lambda>_. company_values) co))"
  "int4_ok (fd_id fd) \<Longrightarrow> types_kept (in_session (insert_row fd_url db_feeds db_feeds_update feed_values fd))"
  "int4_ok (tg_id tg) \<Longrightarrow> types_kept (in_session (insert_row tg_name db_tags db_tags_update (\<lambda>_. tag_values) tg))"
  "types_kept (in_session (insert_row sc_feed_id db_scrapings db_scrapings_update scraping_values sc))"
  "types_kept (in_session (write_feed_tags change))"
  by (intro types_kept_in_session insert_rows_typed; assumption)+

lemma types_kept_company [types_keep]: "types_kept (get_or_create_company netloc_ok n h i c l fp)"
proof -
  have "types_kept (get_company_by_name n)"
    unfolding get_company_by_name_def read_text_def by (intro types_keep)
  moreover have "types_kept (\<lambda>s. (Inr (co, False), s\<lparr>ss_companies := put_row co_id co (ss_companies s)\<rparr>))" for co
    by (rule types_kept_objects) simp
  moreover have "types_kept (insert_company co)" for co
    unfolding insert_company_def
    by (rule types_kept_bind [OF types_kept_flush], rule types_kept_next) (simp add: types_keep)
  ultimately show ?thesis
    unfolding get_or_create_company_def by (intro types_keep) (auto split: option.splits intro!: types_keep)
qed

lemma types_kept_tags [types_keep]: "types_kept (get_or_create_tags names)"
proof -
  have "types_kept (insert_tag n)" for n unfolding insert_tag_def by (rule types_kept_next) (simp add: types_keep)
  then have part: "types_kept (sql_bind (if missing = [] then sql_return () else sql_bind flush (\<lambda>_. sql_for insert_tag missing))
      (\<lambda>_ s'. (f s', s')))" for missing and f :: "session \<Rightarrow> py_exn + int list \<times> nat"
    by (cases "missing = []") (auto intro!: types_keep)
  show ?thesis
  proof (cases "dedup_str names = []")
    case True
    then show ?thesis by (simp add: get_or_create_tags_def types_kept_return)
  next
    case False
    then show ?thesis
      unfolding get_or_create_tags_def Let_def
      by (simp only: if_False) (rule types_kept_bind [OF types_kept_return(3)], rule types_kept_here, rule part)
  qed
qed

lemma types_kept_feed [types_keep]: "types_kept (upsert_feed p ts ex)" "types_kept (link_company_to_feed c f)"
  "types_kept (delete_company_feeds_not_in_urls c E)" "types_kept (list_rss_feeds_by_urls urls)"
proof -
  have ins: "types_kept (insert_feed p ts)"
    unfolding insert_feed_def
    by (rule types_kept_bind [OF types_kept_flush], rule types_kept_next) (simp add: types_keep)
  have "types_kept (\<lambda>s. (case feed_object f s of
               None \<Rightarrow> (Inl (OtherException ''ObjectDeletedError''), s)
             | Some feed \<Rightarrow> (Inr (f, False), set_feed_tags f ts (raise_protection f (up_fetchprotection p)
                    (s\<lparr>ss_feeds := put_row fd_id (g feed) (ss_feeds s)\<rparr>)))))" for f g
    by (rule types_kept_objects) (simp add: set_feed_tags_def split: option.splits)
  then show "types_kept (upsert_feed p ts ex)"
    unfolding upsert_feed_def read_text_def using ins
    by (intro types_keep) (auto split: option.splits intro!: types_keep)
  show "types_kept (link_company_to_feed c f)"
    by (rule types_kept_objects) (simp add: link_company_to_feed_def split: option.splits)
  show "types_kept (delete_company_feeds_not_in_urls c E)"
    by (auto simp: types_kept_def sql_keeps_def delete_company_feeds_not_in_urls_def Let_def delete_feeds_def
      catalog_typed_def list_all_iff split: if_splits)
  show "types_kept (list_rss_feeds_by_urls urls)" unfolding list_rss_feeds_by_urls_def by (intro types_keep)
qed

lemma types_kept_feeds [types_keep]: "types_kept (sync_feeds c existing ps)"
proof (induction ps arbitrary: existing)
  case Nil
  then show ?case by (intro types_kept_objects) simp
next
  case (Cons p ps)
  have "sync_feeds c existing (p # ps) =
     sql_bind (get_or_create_tags (up_tags p)) (\<lambda>(tags, _).
     sql_bind (upsert_feed p tags (existing (up_url p))) (\<lambda>(feed_id, _).
     sql_bind (link_company_to_feed c feed_id) (\<lambda>_.
       sync_feeds c (existing(up_url p \<mapsto> feed_id)) ps)))" by (rule ext) simp
  then show ?case using Cons by (auto intro!: types_keep split: prod.splits)
qed

lemma types_kept_file [types_keep]: "types_kept (sync_catalog_file netloc_ok files f)"
proof -
  have "types_kept (sync_company_feeds co fs)" for co fs
    unfolding sync_company_feeds_def by (intro types_keep)
  then have "types_kept (sync_catalog netloc_ok n cat)" for n cat
    unfolding sync_catalog_def by (cases "ca_img cat") (auto intro!: types_keep split: prod.splits)
  moreover have "types_kept (get_company_by_name n)" for n
    unfolding get_company_by_name_def read_text_def by (intro types_keep)
  then have "types_kept (sync_missing_file n)" for n
    unfolding sync_missing_file_def by (intro types_keep) (auto split: option.splits intro!: types_keep)
  ultimately show ?thesis
    unfolding sync_catalog_file_def by (cases "files f = NoPath") (auto intro!: types_keep)
qed

lemma sync_types:
  assumes "catalog_typed (ss_db s)"
  shows "catalog_typed (ss_db (snd (sync_changed_files netloc_ok files commit fs s)))"
proof -
  let ?m = "sql_bind (sql_for (sync_catalog_file netloc_ok files) fs) (\<lambda>_. flush)"
  obtain r s' where m: "?m s = (r, s')" by (cases "?m s")
  have "types_kept ?m" by (intro types_keep)
  then have "catalog_typed (ss_db s')" if "r = Inr u" for u
    using m that assms unfolding types_kept_def sql_keeps_def by blast
  then show ?thesis
    using m assms by (cases r; cases commit) (auto simp: sync_changed_files_def rolled_back_def clear_changes_def)
qed

text \<open>
  C35: the types of the columns.  When every row of the tables of articles, scraping states and jobs is of the types and
  within the checks the migrations declare (lengths, integer ranges, no NUL, the admitted words), it is so after any
  batch of messages the db-manager consumes and after any job the backend enqueues, whatever the payloads and feeds,
  the outcomes of the commits and the replies of Redis.  When every company, feed and tag is of the types and within the
  checks of its table, with its identifier and the company of a feed in the range of the column, it is so after any
  synchronisation of catalog files, whatever they hold, also where a sequence of identifiers has reached its end.
\<close>

theorem services_write_typed_rows:
  assumes "tables_typed db" and "catalog_typed (ss_db session)"
  shows "tables_typed (cs_db (snd (process_batch ms \<lparr>cs_db = db, cs_acked = acked\<rparr>))) \<and>
    tables_typed (bs_db (snd (enqueue_rss_scrape_job netloc_ok env ingest requested_by feed_ids enabled_only
      \<lparr>bs_db = db, bs_requests = requests\<rparr>))) \<and>
    catalog_typed (ss_db (snd (sync_changed_files netloc_ok files commit changed_files session)))"
  using sync_types [OF assms(2)] process_batch_types [of "\<lparr>cs_db = db, cs_acked = acked\<rparr>" ms]
    enqueue_types [of "\<lparr>bs_db = db, bs_requests = requests\<rparr>"] assms by simp

lemma services_write_typed_rows_witness:
  "list_all source_typed (db_sources (cs_db (snd (process_batch
     [(\<lparr>me_now = 5, me_commit = CommitOk, me_xack = \<lambda>_ _. Replied (), me_cache = empty_cache\<rparr>,
       ''rss_ingest_results'', ''1'', Some sample_payload)] \<lparr>cs_db = sample_db, cs_acked = []\<rparr>))))"
proof -
  have "tables_typed sample_db"
    by (simp add: tables_typed_def sample_db_def empty_db_def job_typed_def fits_def clean_string_def int4_ok_def)
  moreover have "catalog_typed (ss_db (session.make empty_db [] [] [] [] [] 1 1 1))"
    by (simp add: catalog_typed_def empty_db_def session.make_def)
  ultimately show ?thesis using services_write_typed_rows [of sample_db "session.make empty_db [] [] [] [] [] 1 1 1"] unfolding tables_typed_def by blast
qed

end
