(* ===== verification/Job_Properties.thy ===== *)
theory Job_Properties
  imports Job_Enqueue Result_Consumer
begin

text \<open>
  The properties of the producer of scrape jobs: which feeds a job has, that the stream gets each of them
  once, what a failed publication leaves behind, and what the readers of a job report.
\<close>

section \<open>Auxiliary facts\<close>

lemma mark_failed:
  assumes "job_created job_id ''queued'' feeds db0 db" and "job_id = ee_job_id env"
    and "sql_texts [Some job_id] = Inr ()"
  shows "mark_job_as_failed_after_publish_error env db =
    (case ee_mark env of
       CommitRaises False msg \<Rightarrow> db
     | _ \<Rightarrow> db\<lparr>db_jobs := update_row jb_job_id job_id
         (\<lambda>job. job\<lparr>jb_status := ''failed'', jb_updated_at := ee_failed env\<rparr>) (db_jobs db)\<rparr>)"
proof -
  have "job_id \<in> keys_of jb_job_id (db_jobs db)" using assms(1) by (auto simp: job_created_def)
  moreover have "sql_texts [Some job_id, Some ''failed''] = Inr ()"
    using assms(3) by (simp add: sql_texts_def split: if_splits)
  ultimately show ?thesis
    using assms(2)
    by (simp add: mark_job_as_failed_after_publish_error_def set_rss_scrape_job_status_def job_statuses_def
        committed_def split: commit_outcome.splits bool.splits)
qed

lemma created_row:
  assumes "job_created job_id status feeds db0 db"
  shows "\<exists>job. row_with jb_job_id job_id (db_jobs db) = Some job \<and> jb_status job = status \<and>
    jb_feed_count job = int (length feeds)"
proof -
  obtain job rows where job: "db = db0\<lparr>db_jobs := db_jobs db0 @ [job], db_job_feeds := db_job_feeds db0 @ rows\<rparr>"
    "jb_job_id job = job_id" "jb_status job = status" "jb_feed_count job = int (length feeds)"
    "job_id \<notin> keys_of jb_job_id (db_jobs db0)"
    using assms by (auto simp: job_created_def)
  have "row_with jb_job_id job_id (db_jobs db0) = None" using job(5) row_with_None by metis
  then show ?thesis using job by (simp add: row_with_append)
qed

lemma create_job_texts:
  "create_rss_scrape_job now job_id ingest requested_by requested_at status feeds db = (Inr u, db') \<Longrightarrow>
    sql_texts [Some job_id] = Inr ()"
  by (auto simp: create_rss_scrape_job_def sql_bind_Inr job_row_of_def sql_texts_def split: sum.splits if_splits)

section \<open>The feeds of a job\<close>

text \<open>
  C23: the payloads.  On rows that respect their columns and hosts the address parser accepts, listing the
  payloads does not raise: it gives one valid payload for every feed that is asked for (every enabled feed when
  only those are, and all of them when no identifiers are given), by increasing identifier, each once.
\<close>

theorem payloads_select_feeds:
  assumes "payload_rows_ok netloc_ok db" and "unique_key fd_id (db_feeds db)"
  shows "\<exists>ps. list_rss_feed_scrape_payloads netloc_ok feed_ids enabled_only db = Inr ps \<and>
    sorted (map jf_feed_id ps) \<and> distinct (map jf_feed_id ps) \<and> (\<forall>p\<in>set ps. valid_job_feed p) \<and>
    (\<forall>f\<in>set (db_feeds db). fd_id f \<in> jf_feed_id ` set ps \<longleftrightarrow> (enabled_only \<longrightarrow> fd_enabled f) \<and>
       (\<forall>ids. feed_ids = Some ids \<longrightarrow> ids \<noteq> [] \<longrightarrow> 0 < fd_id f \<and> fd_id f \<in> set ids)) \<and>
    jf_feed_id ` set ps \<subseteq> keys_of fd_id (db_feeds db)"
proof -
  let ?sel = "selected_feeds feed_ids enabled_only db"
  have "\<exists>ps. map_ok (feed_payload netloc_ok db) ?sel = Inr ps"
    by (rule map_ok_total) (simp add: feed_payload_total [OF assms(1)] selected_set)
  then obtain ps where ps: "list_rss_feed_scrape_payloads netloc_ok feed_ids enabled_only db = Inr ps"
    by (cases "requested_ids feed_ids = Some []") (auto simp: list_rss_feed_scrape_payloads_def)
  have ids: "map jf_feed_id ps = map fd_id ?sel" by (rule payloads_Inr(1) [OF ps])
  then have set: "jf_feed_id ` set ps = fd_id ` set ?sel" by (metis set_map)
  have "fd_id f \<in> fd_id ` set ?sel \<longleftrightarrow> f \<in> set ?sel" if f: "f \<in> set (db_feeds db)" for f
  proof
    assume "fd_id f \<in> fd_id ` set ?sel"
    then obtain g where "g \<in> set ?sel" "fd_id g = fd_id f" by auto
    moreover from this have "g = f"
      using assms(2) f selected_set [of g] by (auto simp: unique_key_def distinct_map dest: inj_onD)
    ultimately show "f \<in> set ?sel" by simp
  qed simp
  then have "\<forall>f\<in>set (db_feeds db). fd_id f \<in> jf_feed_id ` set ps \<longleftrightarrow> (enabled_only \<longrightarrow> fd_enabled f) \<and>
      (\<forall>ids. feed_ids = Some ids \<longrightarrow> ids \<noteq> [] \<longrightarrow> 0 < fd_id f \<and> fd_id f \<in> set ids)"
    using set selected_set by auto
  moreover have "jf_feed_id ` set ps \<subseteq> keys_of fd_id (db_feeds db)"
    using set selected_set by (auto simp: keys_of_def)
  ultimately show ?thesis
    using ps ids selected_ids [OF assms(2)] payloads_Inr(3) [OF ps] by auto
qed

definition catalog_db :: database where
  "catalog_db = empty_db\<lparr>
     db_companies := [\<lparr>co_id = 1, co_name = ''A'', co_host = Some ''A.example'', co_icon_url = None,
       co_country = None, co_language = None, co_fetchprotection = 2, co_enabled = True\<rparr>],
     db_feeds := [
       \<lparr>fd_id = 3, fd_url = ''u3'', fd_section = None, fd_enabled = True, fd_trust_score = 1, fd_company_id = Some 1\<rparr>,
       \<lparr>fd_id = 1, fd_url = ''u1'', fd_section = None, fd_enabled = True, fd_trust_score = 1, fd_company_id = Some 1\<rparr>,
       \<lparr>fd_id = 2, fd_url = ''u2'', fd_section = None, fd_enabled = False, fd_trust_score = 1, fd_company_id = None\<rparr>]\<rparr>"

lemma catalog_db_ok: "payload_rows_ok (\<lambda>_. True) catalog_db" "unique_key fd_id (db_feeds catalog_db)"
proof -
  have "normalize_host (\<lambda>_. True) (Some ''A.example'') = Inr (Some ''a.example'')" by code_simp
  then show "payload_rows_ok (\<lambda>_. True) catalog_db"
    by (simp add: payload_rows_ok_def catalog_db_def empty_db_def opt_length_between_def)
qed (simp add: catalog_db_def unique_key_def)

theorem payloads_select_feeds_witness:
  "\<exists>ps. list_rss_feed_scrape_payloads (\<lambda>_. True) (Some [3, 2, - 1]) True catalog_db = Inr ps \<and> jf_feed_id ` set ps = {3}"
proof -
  obtain ps where ps: "list_rss_feed_scrape_payloads (\<lambda>_. True) (Some [3, 2, - 1]) True catalog_db = Inr ps"
    and iff: "\<forall>f\<in>set (db_feeds catalog_db). fd_id f \<in> jf_feed_id ` set ps \<longleftrightarrow> (True \<longrightarrow> fd_enabled f) \<and>
       (\<forall>ids. Some [3, 2, - 1] = Some ids \<longrightarrow> ids \<noteq> [] \<longrightarrow> 0 < fd_id f \<and> fd_id f \<in> set ids)"
    and sub: "jf_feed_id ` set ps \<subseteq> keys_of fd_id (db_feeds catalog_db)"
    using payloads_select_feeds [OF catalog_db_ok, of "Some [3, 2, - 1]" True] by (elim exE conjE) (rule that; assumption)
  have "3 \<in> jf_feed_id ` set ps" using bspec [OF iff, of "db_feeds catalog_db ! 0"] by (simp add: catalog_db_def)
  moreover have "1 \<notin> jf_feed_id ` set ps" using bspec [OF iff, of "db_feeds catalog_db ! 1"] by (simp add: catalog_db_def)
  moreover have "2 \<notin> jf_feed_id ` set ps" using bspec [OF iff, of "db_feeds catalog_db ! 2"] by (simp add: catalog_db_def)
  moreover have "keys_of fd_id (db_feeds catalog_db) = {3, 1, 2}" by (simp add: catalog_db_def)
  moreover have "S = {3}" if "3 \<in> S" "1 \<notin> S" "2 \<notin> S" "S \<subseteq> {3, 1, 2}" for S :: "int set"
    using that by auto
  ultimately have "jf_feed_id ` set ps = {3}" using sub by metis
  then show ?thesis using ps by blast
qed

section \<open>Enqueueing\<close>

text \<open>
  C24: a queued job.  When enqueueing returns, the answer names the job with the status it was created with; the
  database has gained exactly the job and one row for each of its feeds; and the stream has gained requests of
  that job, none empty or larger than the batch size, that together carry each feed exactly once.  A job without
  feeds is born completed and publishes nothing.
\<close>

theorem queued_job_is_published:
  assumes "enqueue_rss_scrape_job netloc_ok env ingest requested_by feed_ids enabled_only s = (Inr answer, s')"
    and "length (ee_job_id env) = 36"
  shows "\<exists>feeds requests. list_rss_feed_scrape_payloads netloc_ok feed_ids enabled_only (bs_db s) = Inr feeds \<and>
    answer = (ee_job_id env, if feeds = [] then ''completed'' else ''queued'') \<and>
    job_created (ee_job_id env) (snd answer) feeds (bs_db s) (bs_db s') \<and>
    bs_requests s' = bs_requests s @ requests \<and> mset (concat (map jr_feeds requests)) = mset feeds \<and>
    (\<forall>r\<in>set requests. jr_job_id r = ee_job_id env \<and> jr_ingest r = ingest \<and> jr_feeds r \<noteq> [] \<and>
       int (length (jr_feeds r)) \<le> resolve_queue_batch_size (ee_batch_size env))"
  using assms(1)
proof (cases rule: enqueue_cases)
  case (queued feeds db)
  have valid: "\<forall>f\<in>set feeds. valid_job_feed f" by (rule payloads_Inr(3) [OF queued(1)])
  have "job_created (ee_job_id env) (if feeds \<noteq> [] then ''queued'' else ''completed'') feeds (bs_db s) db"
    by (rule create_job_Inr [OF queued(2) _ _ valid]) (simp_all add: assms(2))
  then show ?thesis
    using queued job_requests_mset [of env ingest requested_by feeds]
      job_request_member [of _ env ingest requested_by feeds]
    by (intro exI [of _ feeds]
        exI [of _ "if feeds = [] then [] else job_requests env ingest requested_by feeds"]) auto
qed simp_all

definition sample_enqueue :: enqueue_env where
  "sample_enqueue = \<lparr>ee_job_id = replicate 36 CHR ''a'', ee_now = db_datetime 0, ee_created = 1,
     ee_batch_size = Some ''1'', ee_commit = CommitOk, ee_xadd = \<lambda>i. if i = 5 then LostConnection True ''m'' else Replied (),
     ee_failed = 2, ee_mark = CommitOk\<rparr>"

definition sample_backend :: backend_state where
  "sample_backend = \<lparr>bs_db = catalog_db, bs_requests = []\<rparr>"

lemma sample_enqueue_runs:
  "fst (enqueue_rss_scrape_job (\<lambda>_. True) sample_enqueue True ''x'' None True sample_backend) =
    Inr (replicate 36 CHR ''a'', ''queued'')"
  by code_simp

theorem queued_job_is_published_witness:
  "\<exists>feeds. list_rss_feed_scrape_payloads (\<lambda>_. True) None True catalog_db = Inr feeds \<and> feeds \<noteq> [] \<and>
    job_created (replicate 36 CHR ''a'') ''queued'' feeds catalog_db
      (bs_db (snd (enqueue_rss_scrape_job (\<lambda>_. True) sample_enqueue True ''x'' None True sample_backend)))"
proof -
  obtain s' where run: "enqueue_rss_scrape_job (\<lambda>_. True) sample_enqueue True ''x'' None True sample_backend =
      (Inr (replicate 36 CHR ''a'', ''queued''), s')"
    using sample_enqueue_runs by (metis eq_fst_iff)
  have env: "length (ee_job_id sample_enqueue) = 36" "ee_job_id sample_enqueue = replicate 36 CHR ''a''"
    "bs_db sample_backend = catalog_db"
    by (simp_all add: sample_enqueue_def sample_backend_def)
  from queued_job_is_published [OF run env(1)] show ?thesis
    unfolding run env(2,3) by (auto split: if_splits)
qed

text \<open>
  C25: a failed publication.  When the job is committed and the reply to its \<open>k\<close>-th batch is not good, the caller
  gets the publish error; the stream has gained the batches before it, and the \<open>k\<close>-th too if the server had
  executed the command; the job and its feeds remain, with the status \<^verbatim>\<open>failed\<close> if that update is committed.
\<close>

theorem failed_publish_leaves_prefix:
  assumes "list_rss_feed_scrape_payloads netloc_ok feed_ids enabled_only (bs_db s) = Inr feeds"
    and "create_rss_scrape_job (ee_created env) (ee_job_id env) ingest requested_by (ee_now env) ''queued'' feeds
      (bs_db s) = (Inr (), db)"
    and "ee_commit env = CommitOk" and "ee_mark env = CommitOk"
    and "length (ee_job_id env) = 36" and "1 \<le> length requested_by" and "length requested_by \<le> 100"
    and "k < length (job_requests env ingest requested_by feeds)"
    and "\<forall>i<k. ee_xadd env i = Replied ()" and "ee_xadd env k \<noteq> Replied ()"
  shows "\<exists>s' job. enqueue_rss_scrape_job netloc_ok env ingest requested_by feed_ids enabled_only s =
      (Inl (OtherException ''RssJobQueuePublishError''), s') \<and>
    bs_requests s' = bs_requests s @
      take (if executed (ee_xadd env k) then Suc k else k) (job_requests env ingest requested_by feeds) \<and>
    row_with jb_job_id (ee_job_id env) (db_jobs (bs_db s')) = Some job \<and> jb_status job = ''failed'' \<and>
    jb_feed_count job = int (length feeds) \<and> db_job_feeds (bs_db s') = db_job_feeds db"
proof -
  have some: "feeds \<noteq> []"
    using assms(8) by (auto simp: job_requests_def mix_feeds_by_company_def iter_feed_batches_def)
  have valid: "\<forall>f\<in>set feeds. valid_job_feed f" by (rule payloads_Inr(3) [OF assms(1)])
  have created: "job_created (ee_job_id env) ''queued'' feeds (bs_db s) db"
    by (rule create_job_Inr [OF assms(2) _ _ valid]) (simp_all add: assms(5))
  obtain job where job: "row_with jb_job_id (ee_job_id env) (db_jobs db) = Some job"
    "jb_feed_count job = int (length feeds)"
    using created_row [OF created] by blast
  have pub: "publish_batches (ee_xadd env) 0 (job_requests env ingest requested_by feeds) =
      (False, take (if executed (ee_xadd env k) then Suc k else k) (job_requests env ingest requested_by feeds))"
    using publish_fails_at [OF job_requests_valid [OF valid assms(5-7)] assms(8), of "ee_xadd env" 0] assms(9,10)
    by simp
  have mark: "mark_job_as_failed_after_publish_error env db = db\<lparr>db_jobs := update_row jb_job_id (ee_job_id env)
      (\<lambda>job. job\<lparr>jb_status := ''failed'', jb_updated_at := ee_failed env\<rparr>) (db_jobs db)\<rparr>"
    using mark_failed [OF created refl create_job_texts [OF assms(2)]] assms(4) by simp
  have "enqueue_rss_scrape_job netloc_ok env ingest requested_by feed_ids enabled_only s =
      (Inl (OtherException ''RssJobQueuePublishError''),
       s\<lparr>bs_db := mark_job_as_failed_after_publish_error env db,
         bs_requests := bs_requests s @ take (if executed (ee_xadd env k) then Suc k else k)
           (job_requests env ingest requested_by feeds)\<rparr>)"
    using assms(1-3) some pub
    by (simp add: enqueue_rss_scrape_job_def committed_def job_requests_def)
  then show ?thesis
    using job mark by (simp add: row_with_update)
qed

definition failing_enqueue :: enqueue_env where
  "failing_enqueue = sample_enqueue\<lparr>ee_xadd := \<lambda>i. if i = 1 then LostConnection True ''m'' else Replied ()\<rparr>"

definition sample_feeds :: "job_feed list" where
  "sample_feeds = (case list_rss_feed_scrape_payloads (\<lambda>_. True) None True catalog_db of Inl _ \<Rightarrow> [] | Inr fs \<Rightarrow> fs)"

lemma failing_enqueue_facts:
  "\<not> isl (list_rss_feed_scrape_payloads (\<lambda>_. True) None True catalog_db)"
  "fst (create_rss_scrape_job (ee_created failing_enqueue) (ee_job_id failing_enqueue) True ''x''
     (ee_now failing_enqueue) ''queued'' sample_feeds catalog_db) = Inr ()"
  "length (job_requests failing_enqueue True ''x'' sample_feeds) = 2"
  by code_simp+

theorem failed_publish_leaves_prefix_witness:
  "\<exists>s' job. enqueue_rss_scrape_job (\<lambda>_. True) failing_enqueue True ''x'' None True sample_backend =
      (Inl (OtherException ''RssJobQueuePublishError''), s') \<and> length (bs_requests s') = 2 \<and>
    row_with jb_job_id (replicate 36 CHR ''a'') (db_jobs (bs_db s')) = Some job \<and> jb_status job = ''failed''"
proof -
  have env: "bs_db sample_backend = catalog_db" "bs_requests sample_backend = []" "ee_commit failing_enqueue = CommitOk"
    "ee_mark failing_enqueue = CommitOk" "ee_job_id failing_enqueue = replicate 36 CHR ''a''"
    "\<forall>i<1. ee_xadd failing_enqueue i = Replied ()" "ee_xadd failing_enqueue 1 = LostConnection True ''m''"
    by (simp_all add: failing_enqueue_def sample_enqueue_def sample_backend_def)
  have listed: "list_rss_feed_scrape_payloads (\<lambda>_. True) None True (bs_db sample_backend) = Inr sample_feeds"
    using failing_enqueue_facts(1) by (auto simp: env sample_feeds_def split: sum.splits)
  obtain db where db: "create_rss_scrape_job (ee_created failing_enqueue) (ee_job_id failing_enqueue) True ''x''
      (ee_now failing_enqueue) ''queued'' sample_feeds (bs_db sample_backend) = (Inr (), db)"
    using failing_enqueue_facts(2) unfolding env(1) by (metis prod.collapse)
  show ?thesis
    using failed_publish_leaves_prefix [OF listed db env(3,4), of 1] env failing_enqueue_facts(3) by auto
qed

text \<open>
  \<^verbatim>\<open>failed\<close> does not last.  Whatever the status of a job was, the acceptance of one of its results replaces it by
  the status its results count up to, never \<^verbatim>\<open>failed\<close>: a job whose publication failed half way is reported as queued,
  in progress or, when every published feed happens to make up the count, complete.
\<close>

theorem failed_status_is_overwritten:
  assumes "persist_worker_result now payload kind db = (Inr True, db')" and "db_ok db"
  shows "\<exists>job. row_with jb_job_id (res_job_id payload) (db_jobs db') = Some job \<and> jb_status job \<noteq> ''failed'' \<and>
    jb_status job = job_status_of (jb_feed_count job) (int (length (job_results (res_job_id payload) db')))
      (int (length (filter (\<lambda>r. rr_status r = ''error'') (job_results (res_job_id payload) db'))))"
proof -
  have ok: "ledger_ok db" "unique_key jb_job_id (db_jobs db)"
    using assms(2) db_ok_ledger by (auto simp: schema_defs)
  have "job_status_of n p e \<noteq> ''failed''" for n p e by (simp add: job_status_of_def)
  then show ?thesis using persist_stored_job [OF assms(1) ok] by (auto simp: row_with_update)
qed

theorem failed_status_is_overwritten_witness:
  "\<exists>db' job. persist_worker_result 5 sample_payload ''ingest''
      (sample_db\<lparr>db_jobs := map (jb_status_update (\<lambda>_. ''failed'')) (db_jobs sample_db)\<rparr>) = (Inr True, db') \<and>
    row_with jb_job_id ''j'' (db_jobs db') = Some job \<and> jb_status job \<noteq> ''failed''"
proof -
  let ?db = "sample_db\<lparr>db_jobs := map (jb_status_update (\<lambda>_. ''failed'')) (db_jobs sample_db)\<rparr>"
  have "fst (persist_worker_result 5 sample_payload ''ingest'' ?db) = Inr True" by code_simp
  then obtain db' where run: "persist_worker_result 5 sample_payload ''ingest'' ?db = (Inr True, db')"
    by (metis prod.collapse)
  have ok: "db_ok ?db"
    by (simp add: sample_db_def empty_db_def schema_defs unique_key_def job_row_ok_def)
  have "res_job_id sample_payload = ''j''" by (simp add: sample_payload_def)
  then show ?thesis using run failed_status_is_overwritten [OF run ok] by auto
qed

section \<open>Reading a job\<close>

lemma status_partition:
  "list_all result_row_ok rows \<Longrightarrow> int (length rows) =
    count_status ''success'' rows + count_status ''not_modified'' rows + count_status ''error'' rows"
  by (induction rows) (auto simp: count_status_def result_row_ok_def)

text \<open>
  What the readers report.  The reader of a job answers exactly when the job exists; its counts of successes,
  unmodified feeds and errors add up to the number processed, that of the job's stored results.  The reader of its
  feeds has one line for each feed of the job, by increasing identifier, marked pending exactly when
  the ledger has no result for it, and otherwise with the status stored there.
\<close>

theorem job_reads_follow_ledger:
  assumes "db_ok db"
  shows "(get_rss_scrape_job_status_read job_id db = None \<longleftrightarrow> job_id \<notin> keys_of jb_job_id (db_jobs db)) \<and>
    (\<forall>read. get_rss_scrape_job_status_read job_id db = Some read \<longrightarrow>
       js_feeds_processed read = int (length (job_results job_id db)) \<and>
       js_feeds_success read + js_feeds_not_modified read + js_feeds_error read = js_feeds_processed read) \<and>
    (\<forall>lines. list_rss_scrape_job_feeds job_id db = Some lines \<longrightarrow>
       sorted (map jfr_feed_id lines) \<and>
       mset (map jfr_feed_id lines) = mset (map jbf_feed_id (filter (\<lambda>f. jbf_job_id f = job_id) (db_job_feeds db))) \<and>
       (\<forall>l\<in>set lines. jfr_status l =
          (case ledger db (job_id, jfr_feed_id l) of None \<Rightarrow> ''pending'' | Some r \<Rightarrow> rr_status r)))"
proof (intro conjI allI impI)
  show "get_rss_scrape_job_status_read job_id db = None \<longleftrightarrow> job_id \<notin> keys_of jb_job_id (db_jobs db)"
    by (auto simp: get_rss_scrape_job_status_read_def Let_def row_with_None [symmetric] split: option.splits)
next
  fix read assume read: "get_rss_scrape_job_status_read job_id db = Some read"
  have "list_all result_row_ok (job_results job_id db)"
    using assms by (auto simp: schema_defs list_all_iff job_results_def)
  then show "js_feeds_processed read = int (length (job_results job_id db))"
    "js_feeds_success read + js_feeds_not_modified read + js_feeds_error read = js_feeds_processed read"
    using read status_partition [of "job_results job_id db"]
    by (auto simp: get_rss_scrape_job_status_read_def Let_def job_results_def split: option.splits)
next
  fix lines assume "list_rss_scrape_job_feeds job_id db = Some lines"
  then have lines: "lines = list_rss_scrape_job_feed_reads job_id db"
    by (auto simp: list_rss_scrape_job_feeds_def split: option.splits)
  have ids: "jfr_feed_id (joined_read db f) = jbf_feed_id f" for f
    by (simp add: joined_read_def split: option.splits)
  then have map_ids: "map jfr_feed_id lines =
      map jbf_feed_id (sort_key jbf_feed_id (filter (\<lambda>f. jbf_job_id f = job_id) (db_job_feeds db)))"
    by (simp add: lines list_rss_scrape_job_feed_reads_def)
  show "sorted (map jfr_feed_id lines)" by (simp add: map_ids)
  show "mset (map jfr_feed_id lines) = mset (map jbf_feed_id (filter (\<lambda>f. jbf_job_id f = job_id) (db_job_feeds db)))"
    unfolding map_ids mset_map mset_sort ..
  show "\<forall>l\<in>set lines. jfr_status l =
      (case ledger db (job_id, jfr_feed_id l) of None \<Rightarrow> ''pending'' | Some r \<Rightarrow> rr_status r)"
  proof
    fix l assume "l \<in> set lines"
    then obtain f where f: "l = joined_read db f" "jbf_job_id f = job_id"
      by (auto simp: lines list_rss_scrape_job_feed_reads_def)
    show "jfr_status l = (case ledger db (job_id, jfr_feed_id l) of None \<Rightarrow> ''pending'' | Some r \<Rightarrow> rr_status r)"
    proof (cases "ledger db (job_id, jbf_feed_id f)")
      case None
      then show ?thesis using f ids by (simp add: joined_read_def ledger_def)
    next
      case (Some r)
      then have "result_row_ok r"
        using assms by (auto simp: schema_defs list_all_iff ledger_def dest: row_with_SomeD)
      then show ?thesis using Some f ids by (auto simp: joined_read_def ledger_def result_row_ok_def)
    qed
  qed
qed

theorem job_reads_follow_ledger_witness:
  "get_rss_scrape_job_status_read ''k'' sample_db = None"
  using job_reads_follow_ledger [OF sample_db_ok, of "''k''"] by (simp add: sample_db_def)

end
