(* ===== verification/Worker_Auth.thy ===== *)
theory Worker_Auth
  imports Feed_Parse
begin

text \<open>
  Worker authentication: the issuing side, \<^verbatim>\<open>backend/app/services/internal/worker_auth_service.py\<close>, and the
  worker's side, \<^verbatim>\<open>worker-rss-scrapper/app/services/worker_auth_service.py\<close> over
  \<^verbatim>\<open>worker-rss-scrapper/app/clients/api/worker_api_client.py\<close>.  The JWT library, the HTTP transport and
  \<^verbatim>\<open>datetime.fromisoformat\<close> are parameters; the rounding of \<^verbatim>\<open>datetime.timestamp\<close> to a double is not modelled.
\<close>

section \<open>Time\<close>

definition us_per_second :: int where
  "us_per_second = 1000000"

text \<open>\<^verbatim>\<open>t + timedelta(seconds=s)\<close> on an aware time.\<close>

definition add_seconds :: "py_datetime \<Rightarrow> int \<Rightarrow> py_exn + py_datetime" where
  "add_seconds t s =
     (if wall_in_range (wall_us t + s * us_per_second) then Inr (t\<lparr>wall_us := wall_us t + s * us_per_second\<rparr>)
      else Inl (OverflowError ''date value out of range''))"

lemma add_seconds_Inr:
  "add_seconds t s = Inr u \<longleftrightarrow> u = t\<lparr>wall_us := wall_us t + s * us_per_second\<rparr> \<and> wall_in_range (wall_us u)"
  by (auto simp: add_seconds_def)

section \<open>The issuing side\<close>

record issuer_env =
  env_WORKER_CREDENTIALS :: "string option"
  env_WORKER_ID :: "string option"
  env_WORKER_SECRET :: "string option"
  env_WORKER_TOKEN_SECRET :: "string option"
  env_WORKER_TOKEN_TTL_SECONDS :: "string option"

record token_request =
  tr_worker_id :: string
  tr_worker_secret :: string

definition make_token_request :: "token_request \<Rightarrow> py_exn + token_request" where
  "make_token_request r =
     (if 1 \<le> length (tr_worker_id r) \<and> length (tr_worker_id r) \<le> 100 \<and>
         1 \<le> length (tr_worker_secret r) \<and> length (tr_worker_secret r) \<le> 500
      then Inr r else Inl (ValidationError ''WorkerTokenRequestSchema''))"

record token_claims =
  claim_sub :: string
  claim_iat :: int
  claim_exp :: int
  claim_scope :: string

record token_read =
  tk_access_token :: string
  tk_expires_at :: py_datetime

definition env_default :: "string \<Rightarrow> string option \<Rightarrow> string" where
  "env_default fallback v = (case v of None \<Rightarrow> fallback | Some s \<Rightarrow> s)"

definition credential_of_chunk :: "string \<Rightarrow> (string \<times> string) option" where
  "credential_of_chunk chunk =
     (let item = py_strip chunk in
      if item = [] \<or> CHR '':'' \<notin> set item then None
      else
        let worker_id = py_strip (before_first CHR '':'' item);
            worker_secret = py_strip (after_first CHR '':'' item)
        in if worker_id \<noteq> [] \<and> worker_secret \<noteq> [] then Some (worker_id, worker_secret) else None)"

text \<open>The dictionary as the list of its assignments: the last one of a key counts.\<close>

definition resolve_worker_credentials :: "issuer_env \<Rightarrow> (string \<times> string) list" where
  "resolve_worker_credentials env =
     (let credentials_env = py_strip (env_default [] (env_WORKER_CREDENTIALS env));
          credentials = (if credentials_env = [] then []
                         else List.map_filter credential_of_chunk (split_on CHR '','' credentials_env))
      in if credentials \<noteq> [] then credentials
         else [(env_default ''worker_rss_scrapper'' (env_WORKER_ID env),
                env_default ''change-me'' (env_WORKER_SECRET env))])"

definition credential_get :: "(string \<times> string) list \<Rightarrow> string \<Rightarrow> string option" where
  "credential_get credentials worker_id = map_of (rev credentials) worker_id"

definition resolve_worker_token_secret :: "issuer_env \<Rightarrow> string" where
  "resolve_worker_token_secret env = env_default ''manifeed-worker-token-secret'' (env_WORKER_TOKEN_SECRET env)"

definition resolve_token_ttl_seconds :: "issuer_env \<Rightarrow> int" where
  "resolve_token_ttl_seconds env =
     (case py_int (env_default (str_int 3600) (env_WORKER_TOKEN_TTL_SECONDS env)) of
        Inl _ \<Rightarrow> 3600 | Inr ttl_seconds \<Rightarrow> max 60 ttl_seconds)"

definition issue_worker_access_token ::
  "(token_claims \<Rightarrow> string \<Rightarrow> string) \<Rightarrow> issuer_env \<Rightarrow> py_datetime \<Rightarrow> token_request \<Rightarrow> py_exn + token_read" where
  "issue_worker_access_token jwt_encode env now payload =
     (let expected_secret = credential_get (resolve_worker_credentials env) (tr_worker_id payload) in
      if expected_secret = None \<or> expected_secret \<noteq> Some (tr_worker_secret payload)
      then Inl (OtherException ''401 Invalid worker credentials'')
      else and_then (add_seconds now (resolve_token_ttl_seconds env)) (\<lambda>expires_at.
        Inr \<lparr>tk_access_token = jwt_encode
               \<lparr>claim_sub = tr_worker_id payload, claim_iat = instant now div us_per_second,
                claim_exp = instant expires_at div us_per_second, claim_scope = ''worker''\<rparr>
               (resolve_worker_token_secret env),
             tk_expires_at = expires_at\<rparr>))"

section \<open>The client of the API\<close>

text \<open>What the request for a token yields; a body may be no JSON, no object, or an object.\<close>

datatype json_value = JsonText string | JsonOther

datatype token_response =
    TokenHttpError string
  | TokenNotJson string
  | TokenNotObject
  | TokenObject "string \<rightharpoonup> json_value"

datatype auth_exn = AuthenticationError string | OtherAuthError py_exn

record worker_env =
  we_api_url :: "string option"
  we_worker_id :: "string option"
  we_worker_secret :: "string option"

definition token_endpoint :: "worker_env \<Rightarrow> string" where
  "token_endpoint env =
     rev (dropWhile (\<lambda>c. c = CHR ''/'') (rev (env_default ''http://backend:8000'' (we_api_url env))))
       @ ''/internal/workers/token''"

definition text_field :: "(string \<rightharpoonup> json_value) \<Rightarrow> string \<Rightarrow> string option" where
  "text_field payload k = (case payload k of
     Some (JsonText s) \<Rightarrow> if s = [] then None else Some s | _ \<Rightarrow> None)"

definition request_worker_token ::
  "py_stdlib \<Rightarrow> token_response \<Rightarrow> auth_exn + string \<times> py_datetime" where
  "request_worker_token lib response =
     (case response of
        TokenHttpError m \<Rightarrow> Inl (AuthenticationError (''Token request failed: '' @ m))
      | TokenNotJson m \<Rightarrow> Inl (OtherAuthError (ValueError m))
      | TokenNotObject \<Rightarrow> Inl (OtherAuthError (OtherException ''AttributeError''))
      | TokenObject payload \<Rightarrow>
          (case text_field payload ''access_token'' of
             None \<Rightarrow> Inl (AuthenticationError ''Token response does not contain a valid access_token'')
           | Some access_token \<Rightarrow>
               (case text_field payload ''expires_at'' of
                  None \<Rightarrow> Inl (AuthenticationError ''Token response does not contain a valid expires_at'')
                | Some expires_at_raw \<Rightarrow>
                    (case fromisoformat lib (zulu_to_offset expires_at_raw) of
                       Inl (ValueError m) \<Rightarrow> Inl (AuthenticationError ''Token response contains an invalid expires_at'')
                     | Inl e \<Rightarrow> Inl (OtherAuthError e)
                     | Inr expires_at \<Rightarrow> Inr (access_token, expires_at)))))"

section \<open>The worker's cache\<close>

record token_cache =
  cached_token :: "string option"
  cached_expires_at :: "py_datetime option"

definition TOKEN_REFRESH_BUFFER :: int where
  "TOKEN_REFRESH_BUFFER = 60"

definition cache_is_fresh :: "py_datetime \<Rightarrow> token_cache \<Rightarrow> py_exn + bool" where
  "cache_is_fresh now cache =
     (case (cached_token cache, cached_expires_at cache) of
        (Some token, Some expires_at) \<Rightarrow>
          if token = [] then Inr False
          else and_then (add_seconds now TOKEN_REFRESH_BUFFER) (\<lambda>limit. Inr (instant limit < instant expires_at))
      | _ \<Rightarrow> Inr False)"

text \<open>
  \<open>post\<close> answers a request for a token, by its endpoint, worker and secret.  The result has the requests that
  were made.  The token is stored before its expiry is normalised, which may raise.
\<close>

definition ensure_worker_authenticated ::
  "py_stdlib \<Rightarrow> (string \<Rightarrow> string \<Rightarrow> string \<Rightarrow> token_response) \<Rightarrow> worker_env \<Rightarrow> py_datetime \<Rightarrow> token_cache
     \<Rightarrow> (auth_exn + string) \<times> (string \<times> string \<times> string) list \<times> token_cache" where
  "ensure_worker_authenticated lib post env now cache =
     (case cache_is_fresh now cache of
        Inl e \<Rightarrow> (Inl (OtherAuthError e), [], cache)
      | Inr True \<Rightarrow> (Inr (the (cached_token cache)), [], cache)
      | Inr False \<Rightarrow>
          (let worker_id = env_default ''worker_rss_scrapper'' (we_worker_id env);
               worker_secret = env_default ''change-me'' (we_worker_secret env);
               request = (token_endpoint env, worker_id, worker_secret)
           in if py_strip worker_id = [] \<or> py_strip worker_secret = []
              then (Inl (AuthenticationError ''Worker credentials are not configured''), [], cache)
              else (case request_worker_token lib (post (token_endpoint env) worker_id worker_secret) of
                      Inl e \<Rightarrow> (Inl e, [request], cache)
                    | Inr (token, expires_at) \<Rightarrow>
                        (case to_utc expires_at of
                           Inl e \<Rightarrow> (Inl (OtherAuthError e), [request], cache\<lparr>cached_token := Some token\<rparr>)
                         | Inr d \<Rightarrow> (Inr token, [request], \<lparr>cached_token = Some token, cached_expires_at = Some d\<rparr>)))))"

section \<open>Facts\<close>

lemma ttl_at_least: "60 \<le> resolve_token_ttl_seconds env"
  by (auto simp: resolve_token_ttl_seconds_def split: sum.splits)

lemma resolve_worker_credentials_nonempty: "resolve_worker_credentials env \<noteq> []"
  by (simp add: resolve_worker_credentials_def Let_def)

lemma issue_Inr_iff:
  "issue_worker_access_token jwt_encode env now payload = Inr tk \<longleftrightarrow>
     credential_get (resolve_worker_credentials env) (tr_worker_id payload) = Some (tr_worker_secret payload) \<and>
     (\<exists>expires_at. add_seconds now (resolve_token_ttl_seconds env) = Inr expires_at \<and>
        tk = \<lparr>tk_access_token = jwt_encode
               \<lparr>claim_sub = tr_worker_id payload, claim_iat = instant now div us_per_second,
                claim_exp = instant expires_at div us_per_second, claim_scope = ''worker''\<rparr>
               (resolve_worker_token_secret env),
             tk_expires_at = expires_at\<rparr>)"
  by (auto simp: issue_worker_access_token_def Let_def and_then_eq_Inr)

lemma instant_add: "add_seconds t s = Inr u \<Longrightarrow> instant u = instant t + s * us_per_second"
  by (auto simp: add_seconds_Inr instant_def split: option.splits)

text \<open>The route of the backend as the worker's client sees it; \<open>isoformat\<close> is the JSON text of a time.\<close>

definition backend_post ::
  "(token_claims \<Rightarrow> string \<Rightarrow> string) \<Rightarrow> (py_datetime \<Rightarrow> string) \<Rightarrow> issuer_env \<Rightarrow> py_datetime
     \<Rightarrow> string \<Rightarrow> string \<Rightarrow> string \<Rightarrow> token_response" where
  "backend_post jwt_encode isoformat env now endpoint worker_id worker_secret =
     (case and_then (make_token_request \<lparr>tr_worker_id = worker_id, tr_worker_secret = worker_secret\<rparr>)
             (issue_worker_access_token jwt_encode env now) of
        Inl e \<Rightarrow> TokenHttpError (exn_text e)
      | Inr tk \<Rightarrow> TokenObject [''access_token'' \<mapsto> JsonText (tk_access_token tk),
                               ''expires_at'' \<mapsto> JsonText (isoformat (tk_expires_at tk))])"

definition no_token :: token_cache where
  "no_token = \<lparr>cached_token = None, cached_expires_at = None\<rparr>"

lemma no_token_stale [simp]: "cache_is_fresh now no_token = Inr False"
  by (simp add: cache_is_fresh_def no_token_def)

lemma backend_token:
  assumes "make_token_request \<lparr>tr_worker_id = i, tr_worker_secret = w\<rparr> = Inr r"
    and "issue_worker_access_token jwt_encode env now r = Inr tk"
    and "\<And>c k. jwt_encode c k \<noteq> []" and "\<And>d. isoformat d \<noteq> []"
    and "\<And>d. is_utc d \<Longrightarrow> wall_in_range (wall_us d) \<Longrightarrow> fromisoformat lib (zulu_to_offset (isoformat d)) = Inr d"
    and "is_utc now"
  shows "request_worker_token lib (backend_post jwt_encode isoformat env now endpoint i w) =
    Inr (tk_access_token tk, tk_expires_at tk) \<and> is_utc (tk_expires_at tk) \<and> wall_in_range (wall_us (tk_expires_at tk))"
proof -
  have "is_utc (tk_expires_at tk)" "tk_access_token tk \<noteq> []" "wall_in_range (wall_us (tk_expires_at tk))"
    using assms(2,3,6) by (auto simp: issue_Inr_iff add_seconds_Inr is_utc_def)
  then show ?thesis
    using assms(1,2,4,5) by (simp add: backend_post_def request_worker_token_def text_field_def)
qed

section \<open>Properties\<close>

text \<open>
  C26: authentication from end to end.  A worker without a cached token, talking to the backend, is authenticated exactly
  when its identifier and secret are credentials the backend knows, are not blank and fit the request; the backend
  is asked exactly once, and not at all when one of them is blank.  The token then serves every later call without another
  request up to one minute before it expires, and every call after that asks again, whatever the backend would answer.
\<close>

theorem worker_token_lifecycle:
  assumes "\<And>c k. jwt_encode c k \<noteq> []" and "\<And>d. isoformat d \<noteq> []"
    and "\<And>d. is_utc d \<Longrightarrow> wall_in_range (wall_us d) \<Longrightarrow> fromisoformat lib (zulu_to_offset (isoformat d)) = Inr d"
    and "is_utc now" and "add_seconds now (resolve_token_ttl_seconds benv) = Inr expires_at"
    and "i = env_default ''worker_rss_scrapper'' (we_worker_id wenv)"
    and "w = env_default ''change-me'' (we_worker_secret wenv)"
    and "ensure_worker_authenticated lib (backend_post jwt_encode isoformat benv now) wenv now no_token = (r, requests, cache)"
  shows "((\<exists>token. r = Inr token) \<longleftrightarrow> credential_get (resolve_worker_credentials benv) i = Some w \<and>
      py_strip i \<noteq> [] \<and> py_strip w \<noteq> [] \<and> length i \<le> 100 \<and> length w \<le> 500) \<and>
    requests = (if py_strip i = [] \<or> py_strip w = [] then [] else [(token_endpoint wenv, i, w)]) \<and>
    (\<forall>token later post limit. r = Inr token \<longrightarrow> is_utc later \<longrightarrow> add_seconds later 60 = Inr limit \<longrightarrow>
       instant later + 60 * us_per_second < instant now + resolve_token_ttl_seconds benv * us_per_second \<longrightarrow>
       ensure_worker_authenticated lib post wenv later cache = (Inr token, [], cache)) \<and>
    (\<forall>token later post limit. r = Inr token \<longrightarrow> is_utc later \<longrightarrow> add_seconds later 60 = Inr limit \<longrightarrow>
       instant now + resolve_token_ttl_seconds benv * us_per_second \<le> instant later + 60 * us_per_second \<longrightarrow>
       cache_is_fresh later cache = Inr False \<and>
       fst (snd (ensure_worker_authenticated lib post wenv later cache)) = [(token_endpoint wenv, i, w)])"
proof (cases "py_strip i = [] \<or> py_strip w = []")
  case True
  then have "r = Inl (AuthenticationError ''Worker credentials are not configured'') \<and> requests = []"
    using assms(6-8) by (auto simp: ensure_worker_authenticated_def Let_def)
  then show ?thesis using True by auto
next
  case named: False
  let ?response = "backend_post jwt_encode isoformat benv now (token_endpoint wenv) i w"
  have run: "(r, requests, cache) = (case request_worker_token lib ?response of
      Inl e \<Rightarrow> (Inl e, [(token_endpoint wenv, i, w)], no_token)
    | Inr (token, expires_at) \<Rightarrow> (case to_utc expires_at of
        Inl e \<Rightarrow> (Inl (OtherAuthError e), [(token_endpoint wenv, i, w)], no_token\<lparr>cached_token := Some token\<rparr>)
      | Inr d \<Rightarrow> (Inr token, [(token_endpoint wenv, i, w)], \<lparr>cached_token = Some token, cached_expires_at = Some d\<rparr>)))"
    using assms(8) named by (simp add: ensure_worker_authenticated_def Let_def assms(6,7) [symmetric])
  have nonempty: "i \<noteq> []" "w \<noteq> []" using named py_strip_Nil_iff by fastforce+
  show ?thesis
  proof (cases "length i \<le> 100 \<and> length w \<le> 500 \<and> credential_get (resolve_worker_credentials benv) i = Some w")
    case False
    then have "\<exists>m. ?response = TokenHttpError m"
      by (auto simp: backend_post_def make_token_request_def issue_worker_access_token_def)
    then show ?thesis using run False named by (auto simp: request_worker_token_def)
  next
    case True
    let ?r = "\<lparr>tr_worker_id = i, tr_worker_secret = w\<rparr>"
    have made: "make_token_request ?r = Inr ?r"
      using True nonempty by (simp add: make_token_request_def Suc_le_eq)
    obtain tk where tk: "issue_worker_access_token jwt_encode benv now ?r = Inr tk" "tk_expires_at tk = expires_at"
      using True assms(5) by (auto simp: issue_worker_access_token_def)
    have token: "request_worker_token lib ?response = Inr (tk_access_token tk, expires_at)"
      "is_utc expires_at" "wall_in_range (wall_us expires_at)"
      using backend_token [OF made tk(1) assms(1-4)] tk(2) by simp_all
    have got: "r = Inr (tk_access_token tk)" "requests = [(token_endpoint wenv, i, w)]"
      "cache = \<lparr>cached_token = Some (tk_access_token tk), cached_expires_at = Some expires_at\<rparr>"
      using run token to_utc.norm_utc_id by simp_all
    have "tk_access_token tk \<noteq> []" using tk(1) assms(1) by (auto simp: issue_Inr_iff)
    then have fresh: "cache_is_fresh later cache = Inr (instant later + 60 * us_per_second < instant expires_at)"
      if "add_seconds later 60 = Inr limit" for later limit
      using that got(3) instant_add [OF that] by (simp add: cache_is_fresh_def TOKEN_REFRESH_BUFFER_def)
    have "instant expires_at = instant now + resolve_token_ttl_seconds benv * us_per_second"
      by (rule instant_add [OF assms(5)])
    moreover have "fst (snd (ensure_worker_authenticated lib post wenv later cache)) = [(token_endpoint wenv, i, w)]"
      if "cache_is_fresh later cache = Inr False" for later post
      using that named
      by (simp add: ensure_worker_authenticated_def Let_def assms(6,7) [symmetric] split: sum.splits prod.splits)
    moreover have "ensure_worker_authenticated lib post wenv later cache = (Inr (tk_access_token tk), [], cache)"
      if "cache_is_fresh later cache = Inr True" for later post
      using that by (simp add: ensure_worker_authenticated_def got(3))
    ultimately show ?thesis
      using True named got(1,2) fresh by auto
  qed
qed

definition unary_iso :: "py_datetime \<Rightarrow> string" where
  "unary_iso d = CHR ''a'' # replicate (nat (wall_us d - datetime_min_us)) CHR ''a''"

definition unary_stdlib :: py_stdlib where
  "unary_stdlib = sample_stdlib\<lparr>fromisoformat :=
     (\<lambda>s. Inr \<lparr>wall_us = datetime_min_us + int (length (tl s)), utc_offset = Some 0\<rparr>)\<rparr>"

lemma zulu_replicate [simp]: "zulu_to_offset (replicate n CHR ''a'') = replicate n CHR ''a''"
  by (induction n) (simp_all add: zulu_to_offset_def)

lemma unary_roundtrip:
  "is_utc d \<Longrightarrow> wall_in_range (wall_us d) \<Longrightarrow> fromisoformat unary_stdlib (zulu_to_offset (unary_iso d)) = Inr d"
  using zulu_replicate [of "Suc (nat (wall_us d - datetime_min_us))"]
  by (simp add: unary_iso_def unary_stdlib_def is_utc_def wall_in_range_def)

definition sample_issuer :: issuer_env where
  "sample_issuer = \<lparr>env_WORKER_CREDENTIALS = Some '' w : old, w: s:1,,x'', env_WORKER_ID = None,
     env_WORKER_SECRET = None, env_WORKER_TOKEN_SECRET = None, env_WORKER_TOKEN_TTL_SECONDS = Some ''5''\<rparr>"

definition sample_worker :: worker_env where
  "sample_worker = \<lparr>we_api_url = None, we_worker_id = Some ''w'', we_worker_secret = Some ''s:1''\<rparr>"

lemma sample_issuer_facts:
  "add_seconds (utc_date 2026 1 1) (resolve_token_ttl_seconds sample_issuer) =
    Inr ((utc_date 2026 1 1)\<lparr>wall_us := wall_us (utc_date 2026 1 1) + 60000000\<rparr>)"
  "credential_get (resolve_worker_credentials sample_issuer) ''w'' = Some ''s:1''"
  "py_strip ''w'' \<noteq> []" "py_strip ''s:1'' \<noteq> []"
  by code_simp+

theorem worker_token_lifecycle_witness:
  "\<exists>token. fst (ensure_worker_authenticated unary_stdlib
     (backend_post (\<lambda>c k. CHR ''t'' # k) unary_iso sample_issuer (utc_date 2026 1 1)) sample_worker (utc_date 2026 1 1)
     no_token) = Inr token"
proof -
  obtain r requests cache where run: "ensure_worker_authenticated unary_stdlib
     (backend_post (\<lambda>c k. CHR ''t'' # k) unary_iso sample_issuer (utc_date 2026 1 1)) sample_worker (utc_date 2026 1 1)
     no_token = (r, requests, cache)"
    by (metis prod_cases3)
  have names: "''w'' = env_default ''worker_rss_scrapper'' (we_worker_id sample_worker)"
    "''s:1'' = env_default ''change-me'' (we_worker_secret sample_worker)"
    by (simp_all add: sample_worker_def env_default_def)
  have "\<And>d. unary_iso d \<noteq> []" by (simp add: unary_iso_def)
  from worker_token_lifecycle [OF _ this unary_roundtrip utc_date_is_utc sample_issuer_facts(1) names run]
  show ?thesis using sample_issuer_facts(2-) run by simp
qed

end
