(* ===== verification/Job_Lock.thy ===== *)
theory Job_Lock
  imports Prelude
begin

text \<open>
  \<^verbatim>\<open>backend/app/utils/job_lock.py\<close>: the named lock of a backend process, backed for some names by an advisory
  lock of the PostgreSQL server, as a state machine over the attempts of several processes.  An attempt
  takes the local lock, then, for a name with an identifier, a connection and the server's lock; it runs; and
  it gives everything back: the server's lock, the connection, and the local lock last.  Closing the connection may
  raise, and then the local lock stays.  An advisory lock belongs to its connection, which may take it again.  Connections
  live as long as their attempt: a server that loses one gives its lock away early, which is not modelled.
\<close>

section \<open>The state\<close>

text \<open>
  Where an attempt is: a running one knows the connection that holds the server's lock, if any; a stuck one has
  ended, but closing its connection raised, so that the local lock was not released.
\<close>

datatype lock_phase = Trying | Running "nat option" | Refused | Finished | Stuck

record lock_attempt =
  at_process :: nat
  at_name :: string
  at_phase :: lock_phase

text \<open>\<open>ls_pg\<close>: for a held identifier, the connection and how often it took the lock.\<close>

record lock_state =
  ls_local :: "(nat \<times> string) set"
  ls_pg :: "int \<rightharpoonup> nat \<times> nat"
  ls_attempts :: "lock_attempt list"

definition lock_init :: lock_state where
  "lock_init = \<lparr>ls_local = {}, ls_pg = Map.empty, ls_attempts = []\<rparr>"

definition PG_LOCK_IDS :: "string \<rightharpoonup> int" where
  "PG_LOCK_IDS = [''rss_patch_feed_enabled'' \<mapsto> 83001, ''rss_patch_company_enabled'' \<mapsto> 83002, ''rss_sync'' \<mapsto> 83003]"

section \<open>Operations\<close>

text \<open>\<^verbatim>\<open>pg_try_advisory_lock\<close> and \<^verbatim>\<open>pg_advisory_unlock\<close> on the server.\<close>

definition try_pg_lock :: "nat \<Rightarrow> int \<Rightarrow> (int \<rightharpoonup> nat \<times> nat) \<Rightarrow> bool \<times> (int \<rightharpoonup> nat \<times> nat)" where
  "try_pg_lock conn lock_id pg = (case pg lock_id of
     None \<Rightarrow> (True, pg(lock_id \<mapsto> (conn, 1)))
   | Some (holder, n) \<Rightarrow> if holder = conn then (True, pg(lock_id \<mapsto> (conn, Suc n))) else (False, pg))"

definition release_pg_lock :: "nat \<Rightarrow> int \<Rightarrow> (int \<rightharpoonup> nat \<times> nat) \<Rightarrow> (int \<rightharpoonup> nat \<times> nat)" where
  "release_pg_lock conn lock_id pg = (case pg lock_id of
     None \<Rightarrow> pg
   | Some (holder, n) \<Rightarrow>
       if holder \<noteq> conn then pg else if n \<le> 1 then pg(lock_id := None) else pg(lock_id \<mapsto> (conn, n - 1)))"

definition set_phase :: "nat \<Rightarrow> lock_phase \<Rightarrow> lock_state \<Rightarrow> lock_state" where
  "set_phase i phase s = s\<lparr>ls_attempts := (ls_attempts s)[i := (ls_attempts s ! i)\<lparr>at_phase := phase\<rparr>]\<rparr>"

definition release_local :: "nat \<Rightarrow> lock_state \<Rightarrow> lock_state" where
  "release_local i s = s\<lparr>ls_local := ls_local s - {(at_process (ls_attempts s ! i), at_name (ls_attempts s ! i))}\<rparr>"

text \<open>\<^verbatim>\<open>local_lock.acquire(blocking=False)\<close>.\<close>

definition begin_attempt :: "nat \<Rightarrow> string \<Rightarrow> lock_state \<Rightarrow> lock_state" where
  "begin_attempt p name s =
     (if (p, name) \<in> ls_local s
      then s\<lparr>ls_attempts := ls_attempts s @ [\<lparr>at_process = p, at_name = name, at_phase = Refused\<rparr>]\<rparr>
      else s\<lparr>ls_local := insert (p, name) (ls_local s),
             ls_attempts := ls_attempts s @ [\<lparr>at_process = p, at_name = name, at_phase = Trying\<rparr>]\<rparr>)"

text \<open>
  What the session's database does: there is none or it is not PostgreSQL (\<^verbatim>\<open>get_bind\<close> may raise), connecting
  raises, or there is a connection, on which the attempt to lock is answered or raises, with or without the server
  having taken the lock.
\<close>

datatype pg_bind = NotPostgres | ConnectRaises | Answers nat | LockRaises nat bool

fun bound_connection :: "pg_bind \<Rightarrow> nat option" where
  "bound_connection (Answers c) = Some c"
| "bound_connection (LockRaises c applied) = Some c"
| "bound_connection _ = None"

text \<open>
  \<^verbatim>\<open>pg_lock_conn.close()\<close>, which is not guarded, and then \<^verbatim>\<open>local_lock.release()\<close>: \<open>closed\<close> says whether closing
  returned.
\<close>

definition close_and_release :: "nat \<Rightarrow> bool \<Rightarrow> lock_phase \<Rightarrow> lock_state \<Rightarrow> lock_state" where
  "close_and_release i closed ended s =
     (if closed then set_phase i ended (release_local i s) else set_phase i Stuck s)"

definition enter_attempt :: "nat \<Rightarrow> pg_bind \<Rightarrow> bool \<Rightarrow> lock_state \<Rightarrow> lock_state" where
  "enter_attempt i db closed s =
     (case PG_LOCK_IDS (at_name (ls_attempts s ! i)) of
        None \<Rightarrow> set_phase i (Running None) s
      | Some lock_id \<Rightarrow>
          (case db of
             NotPostgres \<Rightarrow> set_phase i (Running None) s
           | ConnectRaises \<Rightarrow> set_phase i Refused (release_local i s)
           | LockRaises c applied \<Rightarrow>
               close_and_release i closed Refused (if applied then s\<lparr>ls_pg := snd (try_pg_lock c lock_id (ls_pg s))\<rparr> else s)
           | Answers c \<Rightarrow>
               (case try_pg_lock c lock_id (ls_pg s) of
                  (True, pg) \<Rightarrow> set_phase i (Running (Some c)) (s\<lparr>ls_pg := pg\<rparr>)
                | (False, pg) \<Rightarrow> close_and_release i closed Refused s)))"

text \<open>
  The end of the body: \<open>unlocked\<close> says whether the server executed the release, whose failure is swallowed.  Without a
  connection there is nothing to close.
\<close>

definition leave_attempt :: "nat \<Rightarrow> bool \<Rightarrow> bool \<Rightarrow> lock_state \<Rightarrow> lock_state" where
  "leave_attempt i unlocked closed s =
     (let a = ls_attempts s ! i;
          pg = (case (PG_LOCK_IDS (at_name a), at_phase a) of
                  (Some lock_id, Running (Some c)) \<Rightarrow> if unlocked then release_pg_lock c lock_id (ls_pg s) else ls_pg s
                | _ \<Rightarrow> ls_pg s)
      in close_and_release i (at_phase a = Running None \<or> closed) Finished (s\<lparr>ls_pg := pg\<rparr>))"

definition in_phase :: "lock_state \<Rightarrow> nat \<Rightarrow> (lock_phase \<Rightarrow> bool) \<Rightarrow> bool" where
  "in_phase s i P \<longleftrightarrow> i < length (ls_attempts s) \<and> P (at_phase (ls_attempts s ! i))"

fun is_running :: "lock_phase \<Rightarrow> bool" where
  "is_running (Running c) = True"
| "is_running _ = False"

definition active :: "lock_phase \<Rightarrow> bool" where
  "active ph \<longleftrightarrow> ph = Trying \<or> is_running ph"

text \<open>The phases in which an attempt has its local lock.\<close>

definition keeps_local :: "lock_phase \<Rightarrow> bool" where
  "keeps_local ph \<longleftrightarrow> active ph \<or> ph = Stuck"

text \<open>A connection is checked out of its pool by one attempt at a time.\<close>

definition connection_free :: "lock_state \<Rightarrow> nat \<Rightarrow> bool" where
  "connection_free s c \<longleftrightarrow> list_all (\<lambda>a. at_phase a \<noteq> Running (Some c)) (ls_attempts s)"

inductive lock_step :: "lock_state \<Rightarrow> lock_state \<Rightarrow> bool" where
  begins: "lock_step s (begin_attempt p name s)"
| enters: "in_phase s i (\<lambda>ph. ph = Trying) \<Longrightarrow>
    (\<And>c. bound_connection db = Some c \<Longrightarrow> connection_free s c) \<Longrightarrow> lock_step s (enter_attempt i db closed s)"
| leaves: "in_phase s i is_running \<Longrightarrow> lock_step s (leave_attempt i unlocked closed s)"

inductive lock_reach :: "lock_state \<Rightarrow> bool" where
  start: "lock_reach lock_init"
| step: "lock_reach s \<Longrightarrow> lock_step s s' \<Longrightarrow> lock_reach s'"

section \<open>The invariant\<close>

definition attempt_key :: "lock_attempt \<Rightarrow> nat \<times> string" where
  "attempt_key a = (at_process a, at_name a)"

definition kept_keys :: "lock_attempt list \<Rightarrow> (nat \<times> string) list" where
  "kept_keys as = map attempt_key (filter (\<lambda>a. keeps_local (at_phase a)) as)"

definition held_connections :: "lock_attempt list \<Rightarrow> nat list" where
  "held_connections as = List.map_filter (\<lambda>a. case at_phase a of Running (Some c) \<Rightarrow> Some c | _ \<Rightarrow> None) as"

text \<open>A running attempt with a connection holds the server's lock of its name.\<close>

definition holds_pg :: "(int \<rightharpoonup> nat \<times> nat) \<Rightarrow> lock_attempt \<Rightarrow> bool" where
  "holds_pg pg a \<longleftrightarrow> (case at_phase a of
     Running (Some c) \<Rightarrow>
       (case PG_LOCK_IDS (at_name a) of None \<Rightarrow> False | Some lock_id \<Rightarrow> \<exists>n\<ge>1. pg lock_id = Some (c, n))
   | _ \<Rightarrow> True)"

definition lock_inv :: "lock_state \<Rightarrow> bool" where
  "lock_inv s \<longleftrightarrow> distinct (kept_keys (ls_attempts s)) \<and> set (kept_keys (ls_attempts s)) = ls_local s \<and>
     distinct (held_connections (ls_attempts s)) \<and> list_all (holds_pg (ls_pg s)) (ls_attempts s)"

lemma active_simps [simp]:
  "active Trying" "active (Running c)" "\<not> active Refused" "\<not> active Finished" "\<not> active Stuck"
  by (simp_all add: active_def)

lemma keeps_local_simps [simp]:
  "keeps_local Trying" "keeps_local (Running c)" "\<not> keeps_local Refused" "\<not> keeps_local Finished" "keeps_local Stuck"
  by (simp_all add: keeps_local_def)

lemma kept_keys_simps [simp]:
  "kept_keys [] = []" "kept_keys (as @ bs) = kept_keys as @ kept_keys bs"
  "kept_keys (a # as) = (if keeps_local (at_phase a) then [attempt_key a] else []) @ kept_keys as"
  by (simp_all add: kept_keys_def)

lemma held_connections_simps [simp]:
  "held_connections [] = []"
  "held_connections (a # as) =
    (case at_phase a of Running (Some c) \<Rightarrow> [c] | _ \<Rightarrow> []) @ held_connections as"
  by (simp_all add: held_connections_def List.map_filter_simps split: lock_phase.splits option.splits)

lemma held_connections_append [simp]: "held_connections (as @ bs) = held_connections as @ held_connections bs"
  by (induction as) simp_all

lemma in_held: "c \<in> set (held_connections as) \<longleftrightarrow> (\<exists>a\<in>set as. at_phase a = Running (Some c))"
  by (induction as) (auto split: lock_phase.splits option.splits)

lemma holds_pg_try:
  "holds_pg pg b \<Longrightarrow> at_phase b \<noteq> Running (Some c) \<Longrightarrow> holds_pg (snd (try_pg_lock c lock_id pg)) b"
  by (auto simp: holds_pg_def try_pg_lock_def split: lock_phase.splits option.splits)

lemma holds_pg_release:
  "holds_pg pg b \<Longrightarrow> at_phase b \<noteq> Running (Some c) \<Longrightarrow> holds_pg (release_pg_lock c lock_id pg) b"
  by (auto simp: holds_pg_def release_pg_lock_def split: lock_phase.splits option.splits)

lemma try_pg_lock_takes:
  "try_pg_lock c lock_id pg = (True, pg') \<Longrightarrow> \<exists>n\<ge>1. pg' lock_id = Some (c, n)"
  by (auto simp: try_pg_lock_def split: option.splits if_splits)

text \<open>The attempt of an index, with what is before and after it.\<close>

lemma split_attempts:
  assumes "in_phase s i P"
  obtains as a bs where "ls_attempts s = as @ a # bs" "i = length as" "ls_attempts s ! i = a" "P (at_phase a)"
proof -
  have i: "i < length (ls_attempts s)" "P (at_phase (ls_attempts s ! i))" using assms by (simp_all add: in_phase_def)
  then show ?thesis
    by (intro that [of "take i (ls_attempts s)" "ls_attempts s ! i" "drop (Suc i) (ls_attempts s)"])
      (simp_all add: id_take_nth_drop [symmetric])
qed

lemma set_phase_split:
  "ls_attempts s = as @ a # bs \<Longrightarrow> i = length as \<Longrightarrow>
    set_phase i ph s = s\<lparr>ls_attempts := as @ a\<lparr>at_phase := ph\<rparr> # bs\<rparr>"
  by (simp add: set_phase_def)

lemma lock_inv_begin: "lock_inv s \<Longrightarrow> lock_inv (begin_attempt p name s)"
  by (auto simp: lock_inv_def begin_attempt_def attempt_key_def holds_pg_def)

text \<open>Refusing and finishing an active attempt, which drops its key.\<close>

lemma lock_inv_end:
  assumes inv: "lock_inv s" and s: "ls_attempts s = as @ a # bs" "i = length as"
    and a: "keeps_local (at_phase a)" and ph: "\<not> keeps_local ph" "\<not> is_running ph"
    and pg: "\<And>b. b \<in> set (as @ bs) \<Longrightarrow> holds_pg pg b"
  shows "lock_inv (set_phase i ph (release_local i (s\<lparr>ls_pg := pg\<rparr>)))"
proof -
  have locs: "ls_local s = insert (attempt_key a) (set (kept_keys as) \<union> set (kept_keys bs))"
    and dist: "distinct (kept_keys as @ attempt_key a # kept_keys bs)"
    using inv s a by (auto simp: lock_inv_def)
  have held: "distinct (held_connections (as @ bs))"
    using inv s by (auto simp: lock_inv_def split: lock_phase.splits option.splits)
  have ended: "holds_pg pg (a\<lparr>at_phase := ph\<rparr>)" "held_connections [a\<lparr>at_phase := ph\<rparr>] = []"
    using ph by (cases ph; simp add: holds_pg_def)+
  have "set_phase i ph (release_local i (s\<lparr>ls_pg := pg\<rparr>)) =
      s\<lparr>ls_pg := pg, ls_local := ls_local s - {attempt_key a}, ls_attempts := as @ a\<lparr>at_phase := ph\<rparr> # bs\<rparr>"
    using s by (simp add: set_phase_def release_local_def attempt_key_def)
  then show ?thesis
    using locs dist held ended ph pg by (auto simp: lock_inv_def list_all_iff)
qed

text \<open>An attempt whose connection does not close keeps its key.\<close>

lemma lock_inv_stuck:
  assumes inv: "lock_inv s" and s: "ls_attempts s = as @ a # bs" "i = length as"
    and a: "keeps_local (at_phase a)" and pg: "\<And>b. b \<in> set (as @ bs) \<Longrightarrow> holds_pg pg b"
  shows "lock_inv (set_phase i Stuck (s\<lparr>ls_pg := pg\<rparr>))"
  using inv s a pg
  by (auto simp: lock_inv_def set_phase_split attempt_key_def list_all_iff holds_pg_def
      split: lock_phase.splits option.splits)

lemma lock_inv_close:
  assumes "lock_inv s" "ls_attempts s = as @ a # bs" "i = length as" "keeps_local (at_phase a)"
    and "\<And>b. b \<in> set (as @ bs) \<Longrightarrow> holds_pg pg b" and "ended \<in> {Refused, Finished}"
  shows "lock_inv (close_and_release i closed ended (s\<lparr>ls_pg := pg\<rparr>))"
  using lock_inv_end [OF assms(1-4), of ended pg] lock_inv_stuck [OF assms(1-4), of pg] assms(5,6)
  by (auto simp: close_and_release_def)

lemma lock_inv_run:
  assumes inv: "lock_inv s" and s: "ls_attempts s = as @ a # bs" "i = length as" "at_phase a = Trying"
    and pg: "\<And>b. b \<in> set (as @ bs) \<Longrightarrow> holds_pg pg b" "holds_pg pg (a\<lparr>at_phase := Running conn\<rparr>)"
    and free: "\<And>c. conn = Some c \<Longrightarrow> connection_free s c"
  shows "lock_inv (set_phase i (Running conn) (s\<lparr>ls_pg := pg\<rparr>))"
proof -
  have "c \<notin> set (held_connections (as @ bs))" if "conn = Some c" for c
    using free [OF that] s(1) by (auto simp: connection_free_def in_held list_all_iff)
  then show ?thesis
    using inv s pg
    by (cases conn) (auto simp: lock_inv_def set_phase_split list_all_iff attempt_key_def)
qed

lemma lock_inv_enter:
  assumes inv: "lock_inv s" and i: "in_phase s i (\<lambda>ph. ph = Trying)"
    and free: "\<And>c. bound_connection db = Some c \<Longrightarrow> connection_free s c"
  shows "lock_inv (enter_attempt i db closed s)"
proof -
  obtain as a bs where s: "ls_attempts s = as @ a # bs" "i = length as" "ls_attempts s ! i = a" "at_phase a = Trying"
    by (rule split_attempts [OF i])
  have holds: "holds_pg (ls_pg s) b" if "b \<in> set (as @ bs)" for b
    using inv s(1) that by (auto simp: lock_inv_def list_all_iff)
  have tried: "holds_pg (snd (try_pg_lock c lock_id (ls_pg s))) b"
    if "bound_connection db = Some c" "b \<in> set (as @ bs)" for c lock_id b
    using holds_pg_try [OF holds [OF that(2)]] free [OF that(1)] that(2) s(1) by (auto simp: connection_free_def list_all_iff)
  have trying: "keeps_local (at_phase a)" using s(4) by simp
  have alone: "lock_inv (set_phase i (Running None) s)" "lock_inv (set_phase i Refused (release_local i s))"
    "lock_inv (close_and_release i closed Refused s)"
    using lock_inv_run [OF inv s(1,2,4) holds, of None] lock_inv_close [OF inv s(1,2) trying holds, of Refused closed]
      lock_inv_close [OF inv s(1,2) trying holds, of Refused True]
    by (simp_all add: holds_pg_def close_and_release_def)
  show ?thesis
  proof (cases "PG_LOCK_IDS (at_name a)")
    case None
    then show ?thesis using alone s(3) by (simp add: enter_attempt_def)
  next
    case (Some lock_id)
    show ?thesis
    proof (cases db)
      case (Answers c)
      obtain ok pg where tr: "try_pg_lock c lock_id (ls_pg s) = (ok, pg)" by fastforce
      show ?thesis
      proof (cases ok)
        case True
        have "holds_pg pg (a\<lparr>at_phase := Running (Some c)\<rparr>)"
          using try_pg_lock_takes [of c lock_id "ls_pg s" pg] tr True Some by (auto simp: holds_pg_def)
        then have "lock_inv (set_phase i (Running (Some c)) (s\<lparr>ls_pg := pg\<rparr>))"
          using lock_inv_run [OF inv s(1,2,4), of pg "Some c"] tried [of c _ lock_id] free Answers tr by simp
        then show ?thesis using Some Answers tr True s(3) by (simp add: enter_attempt_def)
      next
        case False
        then show ?thesis using Some Answers tr alone s(3) by (simp add: enter_attempt_def)
      qed
    next
      case (LockRaises c applied)
      have "lock_inv (close_and_release i closed Refused (s\<lparr>ls_pg := snd (try_pg_lock c lock_id (ls_pg s))\<rparr>))"
        by (rule lock_inv_close [OF inv s(1,2) trying]) (use tried [of c _ lock_id] LockRaises in auto)
      then show ?thesis using Some LockRaises alone s(3) by (simp add: enter_attempt_def)
    qed (use Some alone s(3) in \<open>simp_all add: enter_attempt_def\<close>)
  qed
qed

lemma lock_inv_leave:
  assumes inv: "lock_inv s" and i: "in_phase s i is_running"
  shows "lock_inv (leave_attempt i unlocked closed s)"
proof -
  obtain as a bs where s: "ls_attempts s = as @ a # bs" "i = length as" "ls_attempts s ! i = a" "is_running (at_phase a)"
    by (rule split_attempts [OF i])
  define pg where "pg = (case (PG_LOCK_IDS (at_name a), at_phase a) of
      (Some lock_id, Running (Some c)) \<Rightarrow> if unlocked then release_pg_lock c lock_id (ls_pg s) else ls_pg s
    | _ \<Rightarrow> ls_pg s)"
  have "holds_pg pg b" if b: "b \<in> set (as @ bs)" for b
  proof -
    have held: "holds_pg (ls_pg s) b" using inv s(1) b by (auto simp: lock_inv_def list_all_iff)
    have "at_phase b \<noteq> Running (Some c)" if "at_phase a = Running (Some c)" for c
      using inv s(1) that b by (auto simp: lock_inv_def in_held)
    then show ?thesis
      using held holds_pg_release [OF held]
      by (auto simp: pg_def split: option.splits lock_phase.splits)
  qed
  then have "lock_inv (close_and_release i (at_phase a = Running None \<or> closed) Finished (s\<lparr>ls_pg := pg\<rparr>))"
    by (intro lock_inv_close [OF inv s(1,2)]) (use s(4) in \<open>auto simp: active_def keeps_local_def\<close>)
  then show ?thesis using s(3) by (simp add: leave_attempt_def Let_def pg_def)
qed

lemma lock_reach_inv: "lock_reach s \<Longrightarrow> lock_inv s"
proof (induction rule: lock_reach.induct)
  case start
  then show ?case by (simp add: lock_inv_def lock_init_def)
next
  case (step s s')
  from step.hyps(2) step.IH show ?case
    by (cases rule: lock_step.cases) (auto intro: lock_inv_begin lock_inv_enter lock_inv_leave)
qed

section \<open>Properties\<close>




lemma kept_iff: "key \<in> set (kept_keys (ls_attempts s)) \<longleftrightarrow>
    (\<exists>i. in_phase s i keeps_local \<and> attempt_key (ls_attempts s ! i) = key)"
  by (auto simp: kept_keys_def in_phase_def in_set_conv_nth)


lemma lock_run:
  "lock_reach s \<Longrightarrow> i = length (ls_attempts s) \<Longrightarrow> (p, name) \<notin> ls_local s \<Longrightarrow>
    (\<And>c. bound_connection db = Some c \<Longrightarrow> connection_free s c) \<Longrightarrow>
    lock_reach (enter_attempt i db closed (begin_attempt p name s))"
  by (rule lock_reach.step [OF lock_reach.step [OF _ lock_step.begins [of s p name]] lock_step.enters])
    (simp_all add: in_phase_def begin_attempt_def connection_free_def)

definition one_sync :: lock_state where
  "one_sync = enter_attempt 0 (Answers 7) True (begin_attempt 0 ''rss_sync'' lock_init)"

lemma one_sync_state:
  "one_sync = \<lparr>ls_local = {(0, ''rss_sync'')}, ls_pg = [83003 \<mapsto> (7, 1)],
     ls_attempts = [\<lparr>at_process = 0, at_name = ''rss_sync'', at_phase = Running (Some 7)\<rparr>]\<rparr>"
  by (simp add: one_sync_def enter_attempt_def begin_attempt_def lock_init_def PG_LOCK_IDS_def try_pg_lock_def set_phase_def)

lemma one_sync_reach: "lock_reach one_sync"
  unfolding one_sync_def by (rule lock_run [OF lock_reach.start]) (simp_all add: lock_init_def connection_free_def)

lemma one_sync_leaves: "lock_reach (leave_attempt 0 unlocked closed one_sync)"
  by (rule lock_reach.step [OF one_sync_reach]) (rule lock_step.leaves, simp add: one_sync_state in_phase_def)




text \<open>A stuck attempt stays stuck, so its process has lost the local lock of its name for good.\<close>

lemma stuck_stays:
  assumes "lock_step s s'" and "in_phase s k (\<lambda>ph. ph = Stuck)"
  shows "in_phase s' k (\<lambda>ph. ph = Stuck) \<and> attempt_key (ls_attempts s' ! k) = attempt_key (ls_attempts s ! k)"
proof -
  have k: "k < length (ls_attempts s)" "at_phase (ls_attempts s ! k) = Stuck" using assms(2) by (simp_all add: in_phase_def)
  have other: "in_phase (set_phase i ph t) k (\<lambda>ph. ph = Stuck) \<and>
      attempt_key (ls_attempts (set_phase i ph t) ! k) = attempt_key (ls_attempts s ! k)"
    if "i \<noteq> k" "ls_attempts t = ls_attempts s" for i ph t
    using that k by (simp add: set_phase_def in_phase_def)
  from assms(1) show ?thesis
  proof cases
    case (begins p name)
    then show ?thesis using k by (auto simp: begin_attempt_def in_phase_def nth_append)
  next
    case (enters i db closed)
    then have "i \<noteq> k" using k by (auto simp: in_phase_def)
    then show ?thesis
      using other [of i] unfolding enters(1) enter_attempt_def close_and_release_def release_local_def
      by (auto split: option.splits pg_bind.splits prod.splits bool.splits)
  next
    case (leaves i unlocked closed)
    then have "i \<noteq> k" using k by (auto simp: in_phase_def)
    then show ?thesis
      using other [of i] unfolding leaves(1) leave_attempt_def close_and_release_def release_local_def
      by (auto simp: Let_def)
  qed
qed

lemma stuck_refuses:
  assumes "lock_step\<^sup>*\<^sup>* s s'" and "lock_reach s" and "in_phase s k (\<lambda>ph. ph = Stuck)"
  shows "at_phase (last (ls_attempts (begin_attempt (at_process (ls_attempts s ! k)) (at_name (ls_attempts s ! k)) s'))) = Refused"
proof -
  have "lock_reach s' \<and> in_phase s' k (\<lambda>ph. ph = Stuck) \<and>
      attempt_key (ls_attempts s' ! k) = attempt_key (ls_attempts s ! k)"
    using assms by (induction rule: rtranclp_induct) (auto dest: stuck_stays lock_reach.step)
  then have "lock_inv s'" "attempt_key (ls_attempts s ! k) \<in> set (kept_keys (ls_attempts s'))"
    using lock_reach_inv by (auto simp: kept_iff in_phase_def intro!: exI [of _ k])
  then have "attempt_key (ls_attempts s ! k) \<in> ls_local s'" by (simp add: lock_inv_def)
  then show ?thesis by (simp add: begin_attempt_def attempt_key_def)
qed

text \<open>
  The gaps of the lock.  The repartitioning of the articles has no identifier on the server, so two processes can
  run it at once although both are on PostgreSQL; when the release of a server's lock fails, the lock stays with its
  pooled connection after the job has ended, and no attempt on another connection gets to run; and when closing the
  connection raises, the process refuses every later attempt under that name.
\<close>

theorem job_lock_gaps:
  "(\<exists>s. lock_reach s \<and> (\<forall>i\<in>{0, 1}. in_phase s i is_running \<and> at_process (ls_attempts s ! i) = i \<and>
      at_name (ls_attempts s ! i) = ''sources_repartition_partitions'')) \<and>
   (\<exists>s. lock_reach s \<and> (\<forall>i. \<not> in_phase s i keeps_local) \<and>
      (\<forall>p c closed. c \<noteq> 7 \<longrightarrow> \<not> is_running (at_phase (last (ls_attempts
         (enter_attempt (length (ls_attempts s)) (Answers c) closed (begin_attempt p ''rss_sync'' s))))))) \<and>
   (\<exists>s. lock_reach s \<and> (\<forall>i. \<not> in_phase s i active) \<and>
      (\<forall>s'. lock_step\<^sup>*\<^sup>* s s' \<longrightarrow> at_phase (last (ls_attempts (begin_attempt 0 ''rss_sync'' s'))) = Refused))"
proof (intro conjI)
  let ?n = "''sources_repartition_partitions''"
  let ?first = "enter_attempt 0 (Answers 7) True (begin_attempt 0 ?n lock_init)"
  have first: "?first = \<lparr>ls_local = {(0, ?n)}, ls_pg = Map.empty,
      ls_attempts = [\<lparr>at_process = 0, at_name = ?n, at_phase = Running None\<rparr>]\<rparr>"
    by (simp add: enter_attempt_def begin_attempt_def lock_init_def PG_LOCK_IDS_def set_phase_def)
  have "lock_reach ?first"
    by (rule lock_run [OF lock_reach.start]) (simp_all add: lock_init_def connection_free_def)
  then have "lock_reach (enter_attempt 1 (Answers 8) True (begin_attempt 1 ?n ?first))"
    by (rule lock_run) (simp_all add: first connection_free_def)
  moreover have "\<forall>i\<in>{0, 1}. in_phase (enter_attempt 1 (Answers 8) True (begin_attempt 1 ?n ?first)) i is_running \<and>
      at_process (ls_attempts (enter_attempt 1 (Answers 8) True (begin_attempt 1 ?n ?first)) ! i) = i \<and>
      at_name (ls_attempts (enter_attempt 1 (Answers 8) True (begin_attempt 1 ?n ?first)) ! i) = ?n"
    unfolding first by (simp add: enter_attempt_def begin_attempt_def PG_LOCK_IDS_def set_phase_def in_phase_def)
  ultimately show "\<exists>s. lock_reach s \<and> (\<forall>i\<in>{0, 1}. in_phase s i is_running \<and> at_process (ls_attempts s ! i) = i \<and>
      at_name (ls_attempts s ! i) = ?n)" by blast
next
  let ?s = "leave_attempt 0 False True one_sync"
  have s: "?s = \<lparr>ls_local = {}, ls_pg = [83003 \<mapsto> (7, 1)],
       ls_attempts = [\<lparr>at_process = 0, at_name = ''rss_sync'', at_phase = Finished\<rparr>]\<rparr>"
    unfolding one_sync_state
    by (simp add: leave_attempt_def set_phase_def release_local_def close_and_release_def PG_LOCK_IDS_def)
  have "\<forall>i. \<not> in_phase ?s i keeps_local" unfolding s by (auto simp: in_phase_def)
  moreover have "\<forall>p c closed. c \<noteq> 7 \<longrightarrow> \<not> is_running (at_phase (last (ls_attempts
         (enter_attempt (length (ls_attempts ?s)) (Answers c) closed (begin_attempt p ''rss_sync'' ?s)))))"
    unfolding s
    by (simp add: enter_attempt_def begin_attempt_def PG_LOCK_IDS_def try_pg_lock_def set_phase_def close_and_release_def
        release_local_def)
  ultimately show "\<exists>s. lock_reach s \<and> (\<forall>i. \<not> in_phase s i keeps_local) \<and>
      (\<forall>p c closed. c \<noteq> 7 \<longrightarrow> \<not> is_running (at_phase (last (ls_attempts
         (enter_attempt (length (ls_attempts s)) (Answers c) closed (begin_attempt p ''rss_sync'' s))))))"
    using one_sync_leaves by blast
next
  let ?s = "leave_attempt 0 True False one_sync"
  have s: "ls_attempts ?s = [\<lparr>at_process = 0, at_name = ''rss_sync'', at_phase = Stuck\<rparr>]"
    unfolding one_sync_state
    by (simp add: leave_attempt_def set_phase_def close_and_release_def Let_def)
  then have "in_phase ?s 0 (\<lambda>ph. ph = Stuck)" "\<forall>i. \<not> in_phase ?s i active" by (auto simp: in_phase_def)
  moreover from this(1) have "\<forall>s'. lock_step\<^sup>*\<^sup>* ?s s' \<longrightarrow>
      at_phase (last (ls_attempts (begin_attempt 0 ''rss_sync'' s'))) = Refused"
    using stuck_refuses [OF _ one_sync_leaves, of True False _ 0] s by simp
  ultimately show "\<exists>s. lock_reach s \<and> (\<forall>i. \<not> in_phase s i active) \<and>
      (\<forall>s'. lock_step\<^sup>*\<^sup>* s s' \<longrightarrow> at_phase (last (ls_attempts (begin_attempt 0 ''rss_sync'' s'))) = Refused)"
    using one_sync_leaves by blast
qed

end
