(* ===== verification/Feed_Admin.thy ===== *)
theory Feed_Admin
  imports Job_Enqueue Catalog_Session
begin

text \<open>
  The administration of feeds and companies in the backend: the reads of \<^verbatim>\<open>get_rss_feeds_db_cli.py\<close>, the toggles of
  \<^verbatim>\<open>services/rss/rss_toggle_service.py\<close>, the icons of \<^verbatim>\<open>resolve_rss_icon_path.py\<close>, and how the API answers
  (\<^verbatim>\<open>errors/rss/exception_handlers.py\<close>, \<^verbatim>\<open>routers/rss_router.py\<close>, \<^verbatim>\<open>main.py\<close>).
\<close>

section \<open>Errors of the API\<close>

text \<open>The classes of \<^verbatim>\<open>custom_exceptions.py\<close> with their messages.\<close>

datatype rss_error =
    RssRepositorySyncError string
  | RssCatalogParseError string
  | RssIconNotFoundError string
  | RssFeedNotFoundError string
  | RssCompanyNotFoundError string
  | RssFeedToggleForbiddenError string
  | RssJobAlreadyRunningError string
  | RssJobQueuePublishError string

text \<open>What a service raises: one of those, an \<^verbatim>\<open>HTTPException\<close>, or what no handler is registered for.\<close>

datatype api_error =
    Rss rss_error
  | HttpError nat string
  | Unhandled py_exn

fun rss_status :: "rss_error \<Rightarrow> nat \<times> string" where
  "rss_status (RssRepositorySyncError m) = (502, m)"
| "rss_status (RssCatalogParseError m) = (422, m)"
| "rss_status (RssIconNotFoundError m) = (404, m)"
| "rss_status (RssFeedNotFoundError m) = (404, m)"
| "rss_status (RssCompanyNotFoundError m) = (404, m)"
| "rss_status (RssFeedToggleForbiddenError m) = (409, m)"
| "rss_status (RssJobAlreadyRunningError m) = (409, m)"
| "rss_status (RssJobQueuePublishError m) = (502, m)"

text \<open>The status code of the answer.\<close>

fun api_status :: "api_error + 'a \<Rightarrow> nat" where
  "api_status (Inr x) = 200"
| "api_status (Inl (Rss e)) = fst (rss_status e)"
| "api_status (Inl (HttpError code m)) = code"
| "api_status (Inl (Unhandled e)) = 500"

type_synonym ('s, 'a) service = "'s \<Rightarrow> (api_error + 'a) \<times> 's"

text \<open>
  \<^verbatim>\<open>with job_lock(db, name)\<close> in a route: \<open>free\<close> says whether both locks were free.  What the connection of the lock
  raises itself, when it is opened, used or closed, and who gets the lock, is the subject of \<^verbatim>\<open>Job_Lock\<close>.
\<close>

definition with_job_lock :: "bool \<Rightarrow> string \<Rightarrow> ('s, 'a) service \<Rightarrow> ('s, 'a) service" where
  "with_job_lock free message m s = (if free then m s else (Inl (Rss (RssJobAlreadyRunningError message)), s))"

text \<open>A statement that reports whether it matched a row, its commit, and the error if it did not.\<close>

definition update_and_commit :: "commit_outcome \<Rightarrow> bool sql \<Rightarrow> rss_error \<Rightarrow> 'a \<Rightarrow> (database, 'a) service" where
  "update_and_commit commit update not_found result db =
     (case update db of
        (Inl e, _) \<Rightarrow> (Inl (Unhandled e), db)
      | (Inr False, _) \<Rightarrow> (Inl (Rss not_found), db)
      | (Inr True, db') \<Rightarrow>
          (case commit of
             CommitOk \<Rightarrow> (Inr result, db')
           | CommitRaises applied msg \<Rightarrow> (Inl (Unhandled (OtherException msg)), if applied then db' else db)))"

section \<open>Reading feeds\<close>

record feed_read =
  fr_id :: int
  fr_url :: string
  fr_section :: "string option"
  fr_enabled :: bool
  fr_trust_score :: rat
  fr_fetchprotection :: int
  fr_company :: "company_row option"

definition shown_fetchprotection :: "scraping_row option \<Rightarrow> company_row option \<Rightarrow> int" where
  "shown_fetchprotection scraping company =
     (let level = (\<lambda>v. case v of None \<Rightarrow> False | Some p \<Rightarrow> 0 \<le> p \<and> p \<le> (2 :: int));
          scraping_fetchprotection = map_option sc_fetchprotection scraping;
          company_fetchprotection = map_option co_fetchprotection company
      in if level scraping_fetchprotection then the scraping_fetchprotection
         else if level company_fetchprotection then the company_fetchprotection
         else 1)"

definition to_company_read :: "company_row \<Rightarrow> company_row" where
  "to_company_read company =
     \<lparr>co_id = co_id company, co_name = co_name company, co_host = co_host company, co_icon_url = co_icon_url company,
      co_country = co_country company, co_language = co_language company,
      co_fetchprotection = co_fetchprotection company, co_enabled = co_enabled company\<rparr>"

definition to_rss_feed_read :: "database \<Rightarrow> feed_row \<Rightarrow> feed_read" where
  "to_rss_feed_read db feed =
     \<lparr>fr_id = fd_id feed, fr_url = fd_url feed, fr_section = fd_section feed, fr_enabled = fd_enabled feed,
      fr_trust_score = fd_trust_score feed,
      fr_fetchprotection = shown_fetchprotection (feed_scraping db feed) (feed_company db feed),
      fr_company = map_option to_company_read (feed_company db feed)\<rparr>"

text \<open>An empty list of identifiers selects every feed.\<close>

definition list_rss_feeds :: "int list option \<Rightarrow> database \<Rightarrow> feed_row list" where
  "list_rss_feeds feed_ids db =
     sort_key fd_id (filter (\<lambda>f. case feed_ids of None \<Rightarrow> True | Some ids \<Rightarrow> ids = [] \<or> fd_id f \<in> set ids) (db_feeds db))"

definition list_rss_feeds_read :: "int list option \<Rightarrow> database \<Rightarrow> feed_read list" where
  "list_rss_feeds_read feed_ids db = map (to_rss_feed_read db) (list_rss_feeds feed_ids db)"

definition list_enabled_rss_feeds :: "int list option \<Rightarrow> database \<Rightarrow> feed_row list" where
  "list_enabled_rss_feeds feed_ids db =
     (let selected = filter (\<lambda>f. fd_enabled f \<and>
            (case feed_scraping db f of None \<Rightarrow> True | Some r \<Rightarrow> sc_fetchprotection r \<noteq> 0)) (db_feeds db)
      in case feed_ids of
           None \<Rightarrow> sort_key fd_id selected
         | Some ids \<Rightarrow>
             if ids = [] then sort_key fd_id selected
             else if filter (\<lambda>i. 0 < i) ids = [] then []
             else sort_key fd_id (filter (\<lambda>f. fd_id f \<in> set (filter (\<lambda>i. 0 < i) ids)) selected))"

definition get_rss_feed_by_id :: "int \<Rightarrow> database \<Rightarrow> feed_row option" where
  "get_rss_feed_by_id feed_id db = row_with fd_id feed_id (db_feeds db)"

definition read_rss_feeds :: "(database, feed_read list) service" where
  "read_rss_feeds db = (Inr (list_rss_feeds_read None db), db)"

section \<open>Toggles\<close>

definition set_rss_feed_enabled :: "int \<Rightarrow> bool \<Rightarrow> bool sql" where
  "set_rss_feed_enabled feed_id enabled db =
     (Inr (feed_id \<in> keys_of fd_id (db_feeds db)),
      db\<lparr>db_feeds := update_row fd_id feed_id (\<lambda>f. f\<lparr>fd_enabled := enabled\<rparr>) (db_feeds db)\<rparr>)"

definition set_rss_company_enabled :: "int \<Rightarrow> bool \<Rightarrow> bool sql" where
  "set_rss_company_enabled company_id enabled db =
     (Inr (company_id \<in> keys_of co_id (db_companies db)),
      db\<lparr>db_companies := update_row co_id company_id (\<lambda>c. c\<lparr>co_enabled := enabled\<rparr>) (db_companies db)\<rparr>)"

definition feed_not_found :: "int \<Rightarrow> rss_error" where
  "feed_not_found feed_id = RssFeedNotFoundError (''RSS feed '' @ str_int feed_id @ '' not found'')"

definition company_not_found :: "int \<Rightarrow> rss_error" where
  "company_not_found company_id = RssCompanyNotFoundError (''RSS company '' @ str_int company_id @ '' not found'')"

definition quote :: char where
  "quote = CHR 0x27"

text \<open>The answers hold the identifier and the state.\<close>

definition toggle_rss_feed_enabled :: "commit_outcome \<Rightarrow> int \<Rightarrow> bool \<Rightarrow> (database, int \<times> bool) service" where
  "toggle_rss_feed_enabled commit feed_id enabled db =
     (case get_rss_feed_by_id feed_id db of
        None \<Rightarrow> (Inl (Rss (feed_not_found feed_id)), db)
      | Some feed \<Rightarrow>
          if fd_enabled feed = enabled then (Inr (fd_id feed, fd_enabled feed), db)
          else (case feed_company db feed of
            Some company \<Rightarrow>
              if \<not> co_enabled company
              then (Inl (Rss (RssFeedToggleForbiddenError (''Cannot toggle feed '' @ str_int feed_id @ '': company '' @ [quote]
                      @ co_name company @ [quote] @ '' is disabled''))), db)
              else update_and_commit commit (set_rss_feed_enabled feed_id enabled) (feed_not_found feed_id)
                     (fd_id feed, enabled) db
          | None \<Rightarrow> update_and_commit commit (set_rss_feed_enabled feed_id enabled) (feed_not_found feed_id)
                     (fd_id feed, enabled) db))"

definition toggle_rss_company_enabled :: "commit_outcome \<Rightarrow> int \<Rightarrow> bool \<Rightarrow> (database, int \<times> bool) service" where
  "toggle_rss_company_enabled commit company_id enabled db =
     (case row_with co_id company_id (db_companies db) of
        None \<Rightarrow> (Inl (Rss (company_not_found company_id)), db)
      | Some company \<Rightarrow>
          if co_enabled company = enabled then (Inr (co_id company, co_enabled company), db)
          else update_and_commit commit (set_rss_company_enabled company_id enabled) (company_not_found company_id)
                 (co_id company, enabled) db)"

definition update_rss_feed_enabled :: "bool \<Rightarrow> commit_outcome \<Rightarrow> int \<Rightarrow> bool \<Rightarrow> (database, int \<times> bool) service" where
  "update_rss_feed_enabled free commit feed_id enabled =
     with_job_lock free ''RSS feed toggle already running'' (toggle_rss_feed_enabled commit feed_id enabled)"

definition update_rss_company_enabled :: "bool \<Rightarrow> commit_outcome \<Rightarrow> int \<Rightarrow> bool \<Rightarrow> (database, int \<times> bool) service" where
  "update_rss_company_enabled free commit company_id enabled =
     with_job_lock free ''RSS company toggle already running'' (toggle_rss_company_enabled commit company_id enabled)"

section \<open>Icons\<close>

text \<open>\<^verbatim>\<open>Path(p).parts\<close> of a relative path, and the suffix of a file name.\<close>

definition path_parts :: "string \<Rightarrow> string list" where
  "path_parts p = filter (\<lambda>x. x \<noteq> [] \<and> x \<noteq> ''.'') (split_on CHR ''/'' p)"

definition name_suffix :: "string \<Rightarrow> string" where
  "name_suffix n =
     (let ext = after_last CHR ''.'' n; stem = take (length n - length ext - 1) n
      in if CHR ''.'' \<notin> set n \<or> stem = [] \<or> ext = [] then [] else CHR ''.'' # ext)"

text \<open>
  The file system: \<open>fs_resolve\<close> is \<^verbatim>\<open>Path.resolve\<close>, on the components of an absolute path; it follows links and
  may raise.
\<close>

record file_system =
  fs_resolve :: "string list \<Rightarrow> py_exn + string list"
  fs_is_file :: "string list \<Rightarrow> bool"

definition icon_error :: "string \<Rightarrow> api_error + 'a" where
  "icon_error m = Inl (Rss (RssIconNotFoundError m))"

definition resolved :: "file_system \<Rightarrow> string list \<Rightarrow> api_error + string list" where
  "resolved fs p = (case fs_resolve fs p of Inl e \<Rightarrow> Inl (Unhandled e) | Inr q \<Rightarrow> Inr q)"

definition resolve_rss_icon_file_path :: "file_system \<Rightarrow> string list \<Rightarrow> string \<Rightarrow> api_error + string list" where
  "resolve_rss_icon_file_path fs repository_path icon_url =
     (let icon_url = py_strip icon_url in
      if icon_url = [] then icon_error ''Icon path is empty.''
      else
        let parts = path_parts (dropWhile (\<lambda>c. c = CHR ''/'') icon_url) in
        if ''..'' \<in> set parts then icon_error ''Icon path is invalid.''
        else
          let icon_path = (if take 1 parts = [''img''] then parts else ''img'' # parts) in
          and_then (resolved fs repository_path) (\<lambda>repository_path.
          and_then (resolved fs (repository_path @ icon_path)) (\<lambda>icon_path.
            if take (length repository_path) icon_path \<noteq> repository_path then icon_error ''Icon path is invalid.''
            else if icon_path = [] \<or> py_lower (name_suffix (last icon_path)) \<noteq> ''.svg''
            then icon_error ''Only svg icons are supported.''
            else if \<not> fs_is_file fs icon_path then icon_error (''Icon not found: '' @ icon_url)
            else Inr icon_path)))"

text \<open>The answer to \<^verbatim>\<open>GET /rss/img/...\<close>: the file, its media type and its name.\<close>

definition get_rss_icon_file_path ::
  "file_system \<Rightarrow> string list \<Rightarrow> string \<Rightarrow> api_error + (string list \<times> string \<times> string)" where
  "get_rss_icon_file_path fs repository_path icon_url =
     and_then (resolve_rss_icon_file_path fs repository_path icon_url) (\<lambda>icon_path.
       Inr (icon_path, ''image/svg+xml'', last icon_path))"

end
