(* ===== verification/Catalog_Git.thy ===== *)
theory Catalog_Git
  imports Catalog_Sync Feed_Admin "HOL-Library.List_Lexorder" "HOL-Library.Char_ord"
begin

text \<open>
  The working copy of the catalog repository and what a synchronisation does with it:
  \<^verbatim>\<open>utils/git_repository_utils.py\<close>, \<^verbatim>\<open>utils/directory_utils.py\<close>, \<^verbatim>\<open>utils/rss_repository_utils.py\<close>,
  \<^verbatim>\<open>clients/networking/rss/sync_rss_feeds_repository.py\<close>, \<^verbatim>\<open>sync_rss_catalog\<close> and its route.

  Git and the file system are parameters: what each command answers and how it changes the world, and what a path holds.
\<close>

section \<open>The world\<close>

text \<open>What \<^verbatim>\<open>subprocess.run\<close> of a command ends with: its output, its error output, or an exception.\<close>

datatype git_exit = GitOk string | GitFailed string | GitRaises py_exn

text \<open>A directory is the list of the components of its absolute path.\<close>

type_synonym directory = "string list"

record 'w git_host =
  gh_run :: "string list \<Rightarrow> directory option \<Rightarrow> 'w \<Rightarrow> git_exit \<times> 'w"
  gh_exists :: "directory \<Rightarrow> 'w \<Rightarrow> bool"
  gh_is_dir :: "directory \<Rightarrow> 'w \<Rightarrow> bool"
  gh_entries :: "directory \<Rightarrow> 'w \<Rightarrow> string list"
  gh_mkdir :: "directory \<Rightarrow> 'w \<Rightarrow> py_exn option \<times> 'w"
  gh_below :: "directory \<Rightarrow> 'w \<Rightarrow> directory list"
  gh_catalog :: "directory \<Rightarrow> string \<Rightarrow> 'w \<Rightarrow> catalog_path"

definition path_text :: "directory \<Rightarrow> string" where
  "path_text p = CHR ''/'' # py_join ''/'' p"

text \<open>The two exceptions of this module, told apart by their label.\<close>

definition git_label :: string where
  "git_label = ''GitRepositorySyncError: ''"

definition git_error :: "string \<Rightarrow> py_exn" where
  "git_error m = OtherException (git_label @ m)"

definition is_git_error :: "py_exn \<Rightarrow> bool" where
  "is_git_error e = (case e of OtherException m \<Rightarrow> starts_with git_label m | _ \<Rightarrow> False)"

section \<open>Commands\<close>

definition resolve_git_safe_directory :: "'w git_host \<Rightarrow> directory \<Rightarrow> 'w \<Rightarrow> directory" where
  "resolve_git_safe_directory gh cwd w =
     (case filter (\<lambda>d. gh_exists gh (d @ [''.git'']) w) (map (\<lambda>n. take n cwd) (rev [0..<Suc (length cwd)])) of
        [] \<Rightarrow> cwd | d # _ \<Rightarrow> d)"

definition build_git_command :: "'w git_host \<Rightarrow> string list \<Rightarrow> directory option \<Rightarrow> 'w \<Rightarrow> string list" where
  "build_git_command gh command cwd w =
     (case cwd of
        None \<Rightarrow> ''git'' # command
      | Some d \<Rightarrow> [''git'', ''-c'', ''safe.directory='' @ path_text (resolve_git_safe_directory gh d w)] @ command)"

definition run_git_command :: "'w git_host \<Rightarrow> string list \<Rightarrow> directory option \<Rightarrow> ('w, string) stmt" where
  "run_git_command gh command cwd w =
     (let full_command = build_git_command gh command cwd w in
      case gh_run gh full_command cwd w of
        (GitOk stdout, w') \<Rightarrow> (Inr (py_strip stdout), w')
      | (GitFailed stderr, w') \<Rightarrow>
          (Inl (git_error (''Git command failed ('' @ py_join '' '' full_command @ ''): '' @
             (if py_strip stderr = [] then ''no stderr output'' else py_strip stderr))), w')
      | (GitRaises e, w') \<Rightarrow> (Inl e, w'))"

section \<open>The address of the repository\<close>

definition normalize_repository_path :: "string \<Rightarrow> string" where
  "normalize_repository_path repository_path =
     (let slash = (\<lambda>c. c = CHR ''/'');
          normalized_path = rev (dropWhile slash (rev (dropWhile slash (py_strip repository_path))))
      in if ends_with ''.git'' normalized_path then take (length normalized_path - 4) normalized_path else normalized_path)"

text \<open>\<^verbatim>\<open>urlparse\<close> of the standard library: whether there is a scheme, the authority, and the path.\<close>

definition param_schemes :: "string list" where
  "param_schemes = [''ftp'', ''hdl'', ''prospero'', ''http'', ''https'', ''shttp'', ''rtsp'', ''rtspu'', ''sip'', ''sips'',
     ''mms'', ''sftp'', ''tel'']"

definition strip_params :: "string \<Rightarrow> string" where
  "strip_params p =
     (let tail = after_last CHR ''/'' p in take (length p - length tail) p @ before_first CHR '';'' tail)"

definition urlparse :: "string \<Rightarrow> string \<times> string \<times> string" where
  "urlparse url =
     (let u = urlsplit_clean url;
          scheme = before_first CHR '':'' u;
          has_scheme = (CHR '':'' \<in> set u \<and> scheme \<noteq> [] \<and> url_letter (hd u) \<and> list_all url_scheme_char scheme);
          rest = (if has_scheme then after_first CHR '':'' u else u);
          netloc = (if starts_with ''//'' rest then takeWhile (\<lambda>c. c \<notin> set ''/?#'') (drop 2 rest) else []);
          path = takeWhile (\<lambda>c. c \<notin> set ''?#'') (if starts_with ''//'' rest then drop (2 + length netloc) rest else rest)
      in (if has_scheme then py_lower scheme else [], netloc,
          if \<not> has_scheme \<or> py_lower scheme \<in> set param_schemes then strip_params path else path))"

definition normalize_repository_url :: "(string \<Rightarrow> bool) \<Rightarrow> string \<Rightarrow> py_exn + string" where
  "normalize_repository_url netloc_ok repository_url =
     (let normalized_url = py_strip repository_url in
      if starts_with ''git@'' normalized_url
      then let host_and_path = drop 4 normalized_url in
           if CHR '':'' \<in> set host_and_path
           then Inr (py_lower (before_first CHR '':'' host_and_path) @ ''/'' @
                     normalize_repository_path (after_first CHR '':'' host_and_path))
           else Inr (normalize_repository_path host_and_path)
      else case urlparse normalized_url of
        (scheme, netloc, path) \<Rightarrow>
          if (CHR ''['' \<in> set netloc) \<noteq> (CHR '']'' \<in> set netloc) \<or> \<not> netloc_ok netloc then Inl (ValueError ''netloc'')
          else if scheme \<noteq> [] \<and> netloc \<noteq> []
          then Inr (py_lower netloc @ ''/'' @ normalize_repository_path path)
          else Inr (normalize_repository_path normalized_url))"

definition validate_repository_remote ::
  "(string \<Rightarrow> bool) \<Rightarrow> 'w git_host \<Rightarrow> directory \<Rightarrow> string \<Rightarrow> ('w, unit) stmt" where
  "validate_repository_remote netloc_ok gh repository_path expected_repository_url =
     sql_bind (run_git_command gh [''config'', ''--get'', ''remote.origin.url''] (Some repository_path)) (\<lambda>current_remote_url.
     sql_bind (sql_lift (normalize_repository_url netloc_ok current_remote_url)) (\<lambda>current.
     sql_bind (sql_lift (normalize_repository_url netloc_ok expected_repository_url)) (\<lambda>expected.
       if current \<noteq> expected
       then sql_raise (git_error (''Repository remote mismatch for '' @ path_text repository_path @ ''. Expected '' @
              expected_repository_url @ '', got '' @ current_remote_url @ ''.''))
       else if current_remote_url \<noteq> expected_repository_url
       then sql_bind (run_git_command gh [''remote'', ''set-url'', ''origin'', expected_repository_url] (Some repository_path))
              (\<lambda>_. sql_return ())
       else sql_return ())))"

section \<open>Pulling\<close>

datatype repository_action = Cloned | UpToDate | Update

record pull_result =
  pr_action :: repository_action
  pr_previous :: "string option"
  pr_current :: "string option"

definition is_empty_directory :: "'w git_host \<Rightarrow> directory \<Rightarrow> 'w \<Rightarrow> bool" where
  "is_empty_directory gh path w = (gh_exists gh path w \<and> gh_is_dir gh path w \<and> gh_entries gh path w = [])"

definition make_parent :: "'w git_host \<Rightarrow> directory \<Rightarrow> ('w, unit) stmt" where
  "make_parent gh path w =
     (case gh_mkdir gh (butlast path) w of (None, w') \<Rightarrow> (Inr (), w') | (Some e, w') \<Rightarrow> (Inl e, w'))"

definition clone_repository :: "'w git_host \<Rightarrow> string \<Rightarrow> directory \<Rightarrow> string \<Rightarrow> ('w, pull_result) stmt" where
  "clone_repository gh repository_url repository_path branch =
     sql_bind (make_parent gh repository_path) (\<lambda>_.
     sql_bind (run_git_command gh [''clone'', ''--branch'', branch, repository_url, path_text repository_path] None) (\<lambda>_.
     sql_bind (run_git_command gh [''rev-parse'', ''HEAD''] (Some repository_path)) (\<lambda>current_revision.
       sql_return \<lparr>pr_action = Cloned, pr_previous = None, pr_current = Some current_revision\<rparr>)))"

definition update_repository ::
  "(string \<Rightarrow> bool) \<Rightarrow> 'w git_host \<Rightarrow> string \<Rightarrow> directory \<Rightarrow> string \<Rightarrow> ('w, pull_result) stmt" where
  "update_repository netloc_ok gh repository_url repository_path branch =
     sql_bind (validate_repository_remote netloc_ok gh repository_path repository_url) (\<lambda>_.
     sql_bind (run_git_command gh [''fetch'', ''origin'', branch] (Some repository_path)) (\<lambda>_.
     sql_bind (run_git_command gh [''rev-parse'', ''HEAD''] (Some repository_path)) (\<lambda>previous_revision.
     sql_bind (run_git_command gh [''rev-parse'', ''origin/'' @ branch] (Some repository_path)) (\<lambda>remote_revision.
       if previous_revision = remote_revision
       then sql_return \<lparr>pr_action = UpToDate, pr_previous = Some previous_revision, pr_current = Some remote_revision\<rparr>
       else
         sql_bind (run_git_command gh [''checkout'', branch] (Some repository_path)) (\<lambda>_.
         sql_bind (run_git_command gh [''pull'', ''--ff-only'', ''origin'', branch] (Some repository_path)) (\<lambda>_.
         sql_bind (run_git_command gh [''rev-parse'', ''HEAD''] (Some repository_path)) (\<lambda>current_revision.
           sql_return \<lparr>pr_action = Update, pr_previous = Some previous_revision, pr_current = Some current_revision\<rparr>)))))))"

definition pull_or_clone ::
  "(string \<Rightarrow> bool) \<Rightarrow> 'w git_host \<Rightarrow> string \<Rightarrow> directory \<Rightarrow> string \<Rightarrow> ('w, pull_result) stmt" where
  "pull_or_clone netloc_ok gh repository_url repository_path branch w =
     (if \<not> gh_exists gh repository_path w \<or> is_empty_directory gh repository_path w
      then clone_repository gh repository_url repository_path branch w
      else if \<not> gh_exists gh (repository_path @ [''.git'']) w
      then (Inl (git_error (''Path exists but is not a git repository: '' @ path_text repository_path)), w)
      else update_repository netloc_ok gh repository_url repository_path branch w)"

section \<open>Changed files\<close>

text \<open>\<^verbatim>\<open>str.splitlines\<close>.\<close>

definition is_line_end :: "char \<Rightarrow> bool" where
  "is_line_end c = (code_point c \<in> {10, 11, 12, 13, 28, 29, 30, 133})"

fun splitlines :: "string \<Rightarrow> string list" where
  "splitlines [] = []"
| "splitlines (c # cs) =
     (if is_line_end c
      then [] # splitlines (if code_point c = 13 \<and> cs \<noteq> [] \<and> code_point (hd cs) = 10 then tl cs else cs)
      else case splitlines cs of [] \<Rightarrow> [[c]] | l # ls \<Rightarrow> (c # l) # ls)"

definition list_changed_files :: "'w git_host \<Rightarrow> directory \<Rightarrow> string \<Rightarrow> string \<Rightarrow> string \<Rightarrow> ('w, string list) stmt" where
  "list_changed_files gh repository_path old_revision new_revision file_extension =
     sql_bind (sql_lift (normalize_file_extension file_extension)) (\<lambda>normalized_extension.
     sql_bind (run_git_command gh [''diff'', ''--name-only'', old_revision, new_revision] (Some repository_path)) (\<lambda>output.
       sql_return (sort (remdups (filter (ends_with normalized_extension) (map py_strip (splitlines output)))))))"

text \<open>Every file below the directory with the extension, in the order the file system gives them.\<close>

definition list_files_on_dir_with_ext :: "'w git_host \<Rightarrow> directory \<Rightarrow> string \<Rightarrow> ('w, string list) stmt" where
  "list_files_on_dir_with_ext gh repository_path file_extension =
     sql_bind (sql_lift (normalize_file_extension file_extension)) (\<lambda>normalized_extension w.
       (Inr (map (py_join ''/'') (filter (\<lambda>p. p \<noteq> [] \<and> ends_with normalized_extension (last p) \<and> ''.git'' \<notin> set (repository_path @ p))
          (gh_below gh repository_path w))), w))"

section \<open>The catalog directory\<close>

text \<open>\<^verbatim>\<open>PurePosixPath(path).as_posix()\<close>.\<close>

definition posix_path :: "string \<Rightarrow> string" where
  "posix_path p =
     (let root = (if starts_with ''//'' p \<and> \<not> starts_with ''///'' p then ''//'' else if starts_with ''/'' p then ''/'' else []);
          parts = path_parts p
      in if root = [] \<and> parts = [] then ''.'' else root @ py_join ''/'' parts)"

fun drop_dot_slash :: "string \<Rightarrow> string" where
  "drop_dot_slash (a # b # s) = (if [a, b] = ''./'' then drop_dot_slash s else a # b # s)"
| "drop_dot_slash s = s"

definition to_repository_relative_catalog_path :: "string \<Rightarrow> string" where
  "to_repository_relative_catalog_path path =
     (let normalized_path = posix_path path in
      if normalized_path \<in> set [[], ''.'', ''json''] then ''json''
      else
        let normalized_path = drop_dot_slash normalized_path in
        if starts_with ''json/'' normalized_path then normalized_path else ''json/'' @ normalized_path)"

record repository_sync =
  rs_action :: repository_action
  rs_repository_path :: directory
  rs_changed_files :: "string list"

definition sync_rss_feeds_repository ::
  "(string \<Rightarrow> bool) \<Rightarrow> 'w git_host \<Rightarrow> string \<Rightarrow> directory \<Rightarrow> string \<Rightarrow> bool \<Rightarrow> ('w, repository_sync) stmt" where
  "sync_rss_feeds_repository netloc_ok gh repository_url repository_path branch force =
     sql_bind (pull_or_clone netloc_ok gh repository_url repository_path branch) (\<lambda>repository_sync.
     sql_bind
       (if force \<or> pr_action repository_sync = Cloned
        then list_files_on_dir_with_ext gh (repository_path @ [''json'']) ''.json''
        else if pr_action repository_sync = Update
        then (case (pr_previous repository_sync, pr_current repository_sync) of
                (Some old, Some new) \<Rightarrow> list_changed_files gh (repository_path @ [''json'']) old new ''.json''
              | _ \<Rightarrow> sql_raise (OtherException ''RssRepositorySyncError''))
        else sql_return []) (\<lambda>changed_files.
       sql_return \<lparr>rs_action = pr_action repository_sync, rs_repository_path = repository_path,
         rs_changed_files = map to_repository_relative_catalog_path changed_files\<rparr>))"

section \<open>The synchronisation\<close>

record repository_env =
  env_RSS_FEEDS_REPOSITORY_URL :: "string option"
  env_RSS_FEEDS_REPOSITORY_BRANCH :: "string option"
  env_RSS_FEEDS_REPOSITORY_PATH :: "directory option"

definition get_rss_feeds_repository_url :: "repository_env \<Rightarrow> string" where
  "get_rss_feeds_repository_url env =
     (case env_RSS_FEEDS_REPOSITORY_URL env of None \<Rightarrow> ''https://github.com/Dorn-15/rss_feeds'' | Some u \<Rightarrow> u)"

definition get_rss_feeds_repository_branch :: "repository_env \<Rightarrow> string" where
  "get_rss_feeds_repository_branch env = (case env_RSS_FEEDS_REPOSITORY_BRANCH env of None \<Rightarrow> ''main'' | Some b \<Rightarrow> b)"

definition get_rss_feeds_repository_path :: "repository_env \<Rightarrow> directory" where
  "get_rss_feeds_repository_path env =
     (case env_RSS_FEEDS_REPOSITORY_PATH env of None \<Rightarrow> [''tmp'', ''rss_feeds''] | Some p \<Rightarrow> p)"

text \<open>The files are read from the working copy as it is after the pull; the transaction does not change it.\<close>

definition sync_rss_catalog ::
  "(string \<Rightarrow> bool) \<Rightarrow> 'w git_host \<Rightarrow> repository_env \<Rightarrow> commit_outcome \<Rightarrow> bool
     \<Rightarrow> ('w \<times> session, repository_action) stmt" where
  "sync_rss_catalog netloc_ok gh env commit force = (\<lambda>(w, s).
     (let repository_path = get_rss_feeds_repository_path env in
      case sync_rss_feeds_repository netloc_ok gh (get_rss_feeds_repository_url env) repository_path
             (get_rss_feeds_repository_branch env) force w of
        (Inl e, w') \<Rightarrow> (Inl e, (w', s))
      | (Inr sync, w') \<Rightarrow>
          (case sync_changed_files netloc_ok (\<lambda>f. gh_catalog gh repository_path f w') commit (rs_changed_files sync) s of
             (Inl e, s') \<Rightarrow> (Inl e, (w', s'))
           | (Inr _, s') \<Rightarrow> (Inr (rs_action sync), (w', s')))))"

definition sync_rss_feeds ::
  "(string \<Rightarrow> bool) \<Rightarrow> 'w git_host \<Rightarrow> repository_env \<Rightarrow> bool \<Rightarrow> commit_outcome \<Rightarrow> bool
     \<Rightarrow> ('w \<times> session, repository_action) service" where
  "sync_rss_feeds netloc_ok gh env free commit force =
     with_job_lock free ''RSS sync already running'' (\<lambda>ws.
       case sync_rss_catalog netloc_ok gh env commit force ws of
         (Inl e, ws') \<Rightarrow>
           (Inl (if is_git_error e then Rss (RssRepositorySyncError ''RSS repository sync failed'')
                 else if e = catalog_parse_error then Rss (RssCatalogParseError ''Invalid catalog'')
                 else if e = OtherException ''RssRepositorySyncError'' then Rss (RssRepositorySyncError ''missing revision'')
                 else Unhandled e), ws')
       | (Inr action, ws') \<Rightarrow> (Inr action, ws'))"

end
