(* ===== verification/Catalog_Inserts.thy ===== *)
theory Catalog_Inserts
  imports Catalog_Steps
begin

text \<open>
  New companies, tags and feeds, which flush the session, and the deletion of the feeds of a company: what they do to
  the view of the catalog.
\<close>

section \<open>Tags\<close>

lemma insert_tag_Inr:
  assumes "insert_tag n s = (Inr (), s')" and "stripped n"
  shows "s' = s\<lparr>ss_tag_seq := ss_tag_seq s + 1, ss_db := (ss_db s)\<lparr>db_tags := db_tags (ss_db s)
      @ [\<lparr>tg_id = ss_tag_seq s, tg_name = n\<rparr>]\<rparr>\<rparr> \<and> n \<notin> keys_of tg_name (db_tags (ss_db s))"
proof -
  let ?r = "\<lparr>tg_id = ss_tag_seq s, tg_name = n\<rparr>"
  have "in_session (insert_row tg_name db_tags db_tags_update (\<lambda>_. tag_values) ?r)
      (s\<lparr>ss_tag_seq := ss_tag_seq s + 1\<rparr>) = (Inr (), s')"
    using assms(1) by (auto simp: insert_tag_def sql_bind_Inr next_tag_id_def next_serial_Inr)
  then obtain db where "insert_row tg_name db_tags db_tags_update (\<lambda>_. tag_values) ?r (ss_db s) = (Inr (), db)"
    "s' = s\<lparr>ss_tag_seq := ss_tag_seq s + 1, ss_db := db\<rparr>"
    by (auto simp: in_session_def split: prod.splits)
  then obtain r' where r': "tag_values ?r = Inr r'" "tg_name r' \<notin> keys_of tg_name (db_tags (ss_db s))"
    "s' = s\<lparr>ss_tag_seq := ss_tag_seq s + 1, ss_db := (ss_db s)\<lparr>db_tags := db_tags (ss_db s) @ [r']\<rparr>\<rparr>"
    by (auto simp: tags.insert_row_Inr)
  moreover have "r' = ?r" using r'(1) assms(2) by (auto simp: tag_values_def dest: varchar_stripped)
  ultimately show ?thesis by simp
qed

lemma insert_tags_Inr:
  assumes "sql_for insert_tag names s = (Inr (), s')" and "\<forall>n\<in>set names. stripped n" and "session_ok s"
  shows "session_ok s' \<and> (\<exists>new k. s' = s\<lparr>ss_tag_seq := ss_tag_seq s + k,
      ss_db := (ss_db s)\<lparr>db_tags := db_tags (ss_db s) @ new\<rparr>\<rparr> \<and> 0 \<le> k \<and>
      map tg_name new = names \<and> (\<forall>r\<in>set new. ss_tag_seq s \<le> tg_id r))"
  using assms
proof (induction names arbitrary: s)
  case Nil
  then show ?case by (intro conjI exI [of _ "[]"] exI [of _ 0]) simp_all
next
  case (Cons n names)
  obtain s1 where s1: "insert_tag n s = (Inr (), s1)" "sql_for insert_tag names s1 = (Inr (), s')"
    using Cons.prems(1) by (auto split: prod.splits sum.splits)
  have n: "stripped n" using Cons.prems(2) by simp
  note one = insert_tag_Inr [OF s1(1) n]
  let ?r = "\<lparr>tg_id = ss_tag_seq s, tg_name = n\<rparr>"
  have "session_ok s1"
    using Cons.prems(3) one unfolding session_ok_def
    by (fastforce simp: tags_ok_def unique_key_def keys_of_def)
  then obtain new k where IH: "session_ok s'" "s' = s1\<lparr>ss_tag_seq := ss_tag_seq s1 + k,
      ss_db := (ss_db s1)\<lparr>db_tags := db_tags (ss_db s1) @ new\<rparr>\<rparr>" "0 \<le> k"
    "map tg_name new = names" "\<forall>r\<in>set new. ss_tag_seq s1 \<le> tg_id r"
    using Cons.IH [OF s1(2)] Cons.prems(2) by auto
  have "s' = s\<lparr>ss_tag_seq := ss_tag_seq s + (k + 1),
      ss_db := (ss_db s)\<lparr>db_tags := db_tags (ss_db s) @ (?r # new)\<rparr>\<rparr>"
    using IH(2) one by simp
  moreover have "\<forall>r\<in>set (?r # new). ss_tag_seq s \<le> tg_id r" using IH(5) one by auto
  ultimately show ?case using IH(1,3,4) by (intro conjI exI [of _ "?r # new"] exI [of _ "k + 1"]) simp_all
qed

lemma new_tags_view:
  assumes "session_ok s" and "s' = s\<lparr>ss_tag_seq := x, ss_db := (ss_db s)\<lparr>db_tags := db_tags (ss_db s) @ new\<rparr>\<rparr>"
    and "\<forall>r\<in>set new. ss_tag_seq s \<le> tg_id r"
  shows "catalog_view s' = catalog_view s"
proof -
  have "eff_feeds s' = eff_feeds s" "eff_scrapings s' = eff_scrapings s" "eff_tags s' = eff_tags s"
    using assms(2) by (simp_all add: eff_feeds_def eff_scrapings_def) (rule eff_tags_cong; simp)
  moreover have "tag_names (db_tags (ss_db s')) (eff_tags s f) = tag_names (db_tags (ss_db s)) (eff_tags s f)" for f
    using tag_names_append [OF _ assms(3)] eff_tags_bound [OF assms(1)] assms(2) by auto
  ultimately show ?thesis by (simp add: catalog_view_def fun_eq_iff)
qed

lemma tag_ids_named_names:
  assumes "unique_key tg_id tags" and "set names \<subseteq> keys_of tg_name tags"
  shows "tag_names tags (set (tag_ids_named names tags)) = set names"
    and "t \<in> set (tag_ids_named names tags) \<Longrightarrow> t \<in> keys_of tg_id tags"
proof -
  have ids: "set (tag_ids_named names tags) = {tg_id r | r n. n \<in> set names \<and> row_with tg_name n tags = Some r}"
    by (auto simp: tag_ids_named_def List.map_filter_def image_iff) (force split: option.splits)+
  show "t \<in> set (tag_ids_named names tags) \<Longrightarrow> t \<in> keys_of tg_id tags"
    unfolding ids by (auto simp: keys_of_def dest: row_with_SomeD)
  show "tag_names tags (set (tag_ids_named names tags)) = set names"
  proof (rule set_eqI)
    fix n
    show "n \<in> tag_names tags (set (tag_ids_named names tags)) \<longleftrightarrow> n \<in> set names"
    proof
      assume "n \<in> tag_names tags (set (tag_ids_named names tags))"
      then obtain t r m where t: "t \<in> set tags" "tg_name t = n" "tg_id t = tg_id r" "m \<in> set names"
        "row_with tg_name m tags = Some r"
        unfolding tag_names_def ids by auto
      then have "t = r" using unique_pair [OF assms(1)] row_with_SomeD [OF t(5)] by blast
      then show "n \<in> set names" using t row_with_SomeD [OF t(5)] by auto
    next
      assume n: "n \<in> set names"
      then obtain r where r: "row_with tg_name n tags = Some r"
        using assms(2) row_with_None [of tg_name n tags] by fastforce
      then show "n \<in> tag_names tags (set (tag_ids_named names tags))"
        unfolding tag_names_def ids using row_with_SomeD [OF r] n by blast
    qed
  qed
qed

lemma dedup_str_stripped: "n \<in> set (dedup_str names) \<Longrightarrow> stripped n \<and> n \<noteq> []"
  by (auto simp: dedup_str_def dedup.pure_set strip_or_none_Some)

lemma get_or_create_tags_view:
  assumes "session_ok s" and g: "get_or_create_tags names s = (Inr (ids, k), s')"
  shows "session_ok s' \<and> catalog_view s' = catalog_view s \<and> company_keys s' = company_keys s \<and>
    (\<forall>t\<in>set ids. t < ss_tag_seq s') \<and> tag_names (db_tags (ss_db s')) (set ids) = set (dedup_str names) \<and>
    set (ss_feeds s') \<subseteq> set (ss_feeds s) \<and> ss_feed_seq s' = ss_feed_seq s"
proof (cases "dedup_str names = []")
  case True
  then show ?thesis using assms by (auto simp: get_or_create_tags_def tag_names_def)
next
  case False
  define missing where "missing = filter (\<lambda>n. n \<notin> keys_of tg_name (db_tags (ss_db s))) (dedup_str names)"
  obtain s1 where s1: "(if missing = [] then sql_return () else sql_bind flush (\<lambda>_. sql_for insert_tag missing)) s
      = (Inr (), s1)"
    and res: "ids = tag_ids_named (dedup_str names) (db_tags (ss_db s1))" "s' = s1"
    unfolding missing_def using g False
    by (auto simp: get_or_create_tags_def Let_def sql_bind_Inr sql_bind_lift split: sum.splits)
  have "session_ok s1 \<and> catalog_view s1 = catalog_view s \<and> company_keys s1 = company_keys s \<and>
      set (ss_feeds s1) \<subseteq> set (ss_feeds s) \<and> ss_feed_seq s1 = ss_feed_seq s \<and>
      keys_of tg_name (db_tags (ss_db s1)) = keys_of tg_name (db_tags (ss_db s)) \<union> set missing"
  proof (cases "missing = []")
    case True
    then show ?thesis using s1 assms(1) by simp
  next
    case ne: False
    obtain s0 where s0: "flush s = (Inr (), s0)" "sql_for insert_tag missing s0 = (Inr (), s1)"
      using s1 ne by (auto simp: sql_bind_Inr)
    note ok0 = flush_ok [OF assms(1) s0(1)] and fl = flush_fields [OF assms(1) s0(1)]
    have "\<forall>n\<in>set missing. stripped n" using dedup_str_stripped by (auto simp: missing_def)
    then obtain new k where new: "session_ok s1" "s1 = s0\<lparr>ss_tag_seq := ss_tag_seq s0 + k,
        ss_db := (ss_db s0)\<lparr>db_tags := db_tags (ss_db s0) @ new\<rparr>\<rparr>" "map tg_name new = missing"
      "\<forall>r\<in>set new. ss_tag_seq s0 \<le> tg_id r"
      using insert_tags_Inr [OF s0(2) _ ok0] by blast
    have "catalog_view s1 = catalog_view s"
      using new_tags_view [OF ok0 new(2,4)] flush_view [OF assms(1) s0(1)] by simp
    moreover have "company_keys s1 = company_keys s"
      using flush_Inr(6) [OF assms(1) s0(1)] new(2) by (simp add: company_keys_def)
    moreover have "keys_of tg_name new = set missing" using new(3) unfolding keys_of_def by (metis set_map)
    then have "keys_of tg_name (db_tags (ss_db s1)) = keys_of tg_name (db_tags (ss_db s)) \<union> set missing"
      using new(2) fl(9) by simp
    moreover have "ss_feeds s1 = []" "ss_feed_seq s1 = ss_feed_seq s" using new(2) fl by simp_all
    ultimately show ?thesis using new(1) by simp
  qed
  moreover have "set (dedup_str names) \<subseteq> keys_of tg_name (db_tags (ss_db s)) \<union> set missing"
    by (auto simp: missing_def)
  moreover have "unique_key tg_id (db_tags (ss_db s1)) \<and> (\<forall>t\<in>keys_of tg_id (db_tags (ss_db s1)). t < ss_tag_seq s1)"
    if "session_ok s1" using that by (auto simp: session_ok_def tags_ok_def keys_of_def)
  ultimately show ?thesis
    using tag_ids_named_names [of "db_tags (ss_db s1)" "dedup_str names"] res by auto
qed

section \<open>A new feed\<close>

lemma in_session_Inr: "in_session m s = (Inr x, s') \<longleftrightarrow> (\<exists>db. m (ss_db s) = (Inr x, db) \<and> s' = s\<lparr>ss_db := db\<rparr>)"
  by (auto simp: in_session_def split: prod.splits)

definition new_feed_row :: "int \<Rightarrow> feed_upsert \<Rightarrow> feed_row" where
  "new_feed_row f p = \<lparr>fd_id = f, fd_url = up_url p, fd_section = up_section p, fd_enabled = up_enabled p,
     fd_trust_score = up_trust_score p, fd_company_id = None\<rparr>"

lemma insert_feed_Inr:
  assumes "session_ok s" and p: "valid_feed_upsert p" and ins: "insert_feed p ts s = (Inr f, s')"
  shows "\<exists>s1 links. flush s = (Inr (), s1) \<and> f = ss_feed_seq s \<and> up_url p \<notin> keys_of fd_url (db_feeds (ss_db s1)) \<and>
    s' = s1\<lparr>ss_feed_seq := f + 1, ss_db := (ss_db s1)\<lparr>db_feeds := db_feeds (ss_db s1) @ [new_feed_row f p],
      db_scrapings := db_scrapings (ss_db s1) @ [new_scraping f (normalize_fetchprotection (up_fetchprotection p))],
      db_feed_tags := links\<rparr>\<rparr> \<and>
    (\<forall>g. link_set links g = (if g = f then set ts else link_set (db_feed_tags (ss_db s1)) g)) \<and>
    (\<forall>l\<in>set links. l \<in> set (db_feed_tags (ss_db s1)) \<or> ft_feed_id l = f \<and> ft_tag_id l \<in> set ts)"
proof -
  obtain s1 where s1: "flush s = (Inr (), s1)" using ins by (auto simp: insert_feed_def sql_bind_Inr)
  let ?f = "ss_feed_seq s1"
  let ?r = "new_feed_row ?f p" and ?sc = "new_scraping ?f (normalize_fetchprotection (up_fetchprotection p))"
  obtain d1 d2 d3 where
    d1: "insert_row fd_url db_feeds db_feeds_update feed_values ?r (ss_db s1) = (Inr (), d1)" and
    d2: "insert_row sc_feed_id db_scrapings db_scrapings_update scraping_values ?sc d1 = (Inr (), d2)" and
    d3: "write_feed_tags (?f, ts) d2 = (Inr (), d3)" and
    res: "f = ?f" "s' = s1\<lparr>ss_feed_seq := ?f + 1, ss_db := d3\<rparr>"
    using ins
    by (simp add: insert_feed_def sql_bind_def s1 next_feed_id_def next_serial_def in_session_def split: if_splits
        flip: new_feed_row_def)
      (auto simp: sql_bind_Inr in_session_Inr split: prod.splits sum.splits)
  obtain r' where r': "feed_values (ss_db s1) ?r = Inr r'" "fd_url r' \<notin> keys_of fd_url (db_feeds (ss_db s1))"
    "d1 = (ss_db s1)\<lparr>db_feeds := db_feeds (ss_db s1) @ [r']\<rparr>"
    using d1 by (auto simp: feeds.insert_row_Inr)
  have "feed_fits ?r" using p by (simp add: feed_fits_def new_feed_row_def valid_feed_upsert_def)
  then have r: "r' = ?r" using r'(1) by (rule feed_values_fits)
  have d2': "d2 = d1\<lparr>db_scrapings := db_scrapings d1 @ [?sc]\<rparr>"
    using d2 scraping_values_same by (auto simp: scrapings.insert_row_Inr)
  have tabs: "db_feed_tags d2 = db_feed_tags (ss_db s1)" using d2' r'(3) by simp
  note tg = link_set_write [OF d3, unfolded tabs]
  have "d3 = (ss_db s1)\<lparr>db_feeds := db_feeds (ss_db s1) @ [?r], db_scrapings := db_scrapings (ss_db s1) @ [?sc],
      db_feed_tags := db_feed_tags d3\<rparr>"
  proof -
    obtain links where "d3 = d2\<lparr>db_feed_tags := links\<rparr>" using tg by blast
    then show ?thesis using d2' r'(3) r by simp
  qed
  then show ?thesis
    using s1 res r' r tg flush_fields(7) [OF assms(1) s1]
    by (intro exI [of _ s1] exI [of _ "db_feed_tags d3"]) (auto simp: new_feed_row_def)
qed

lemma insert_feed_view:
  assumes "session_ok s" and p: "valid_feed_upsert p" and ts: "\<forall>t\<in>set ts. t < ss_tag_seq s"
    and ins: "insert_feed p ts s = (Inr f, s')"
  shows "session_ok s'" and "f = ss_feed_seq s" and "ss_feeds s' = []" and "company_keys s' = company_keys s"
    and "catalog_view s' = (catalog_view s)(up_url p \<mapsto> (new_feed_row f p,
      Some (normalize_fetchprotection (up_fetchprotection p)), tag_names (db_tags (ss_db s)) (set ts)))"
    and "ss_tag_seq s' = ss_tag_seq s" and "db_tags (ss_db s') = db_tags (ss_db s)" and "ss_feed_seq s' = f + 1"
proof -
  obtain s1 links where s1: "flush s = (Inr (), s1)" "f = ss_feed_seq s" "up_url p \<notin> keys_of fd_url (db_feeds (ss_db s1))"
    and s': "s' = s1\<lparr>ss_feed_seq := f + 1, ss_db := (ss_db s1)\<lparr>db_feeds := db_feeds (ss_db s1) @ [new_feed_row f p],
      db_scrapings := db_scrapings (ss_db s1) @ [new_scraping f (normalize_fetchprotection (up_fetchprotection p))],
      db_feed_tags := links\<rparr>\<rparr>"
    and links: "\<And>g. link_set links g = (if g = f then set ts else link_set (db_feed_tags (ss_db s1)) g)"
      "\<forall>l\<in>set links. l \<in> set (db_feed_tags (ss_db s1)) \<or> ft_feed_id l = f \<and> ft_tag_id l \<in> set ts"
    using insert_feed_Inr [OF assms(1) p ins] by blast
  note fields = flush_fields [OF assms(1) s1(1)] and ok1 = flush_ok [OF assms(1) s1(1)]
  note ok = ok1 [unfolded session_ok_def fields]
  show "f = ss_feed_seq s" by (rule s1(2))
  show "ss_feeds s' = []" "ss_tag_seq s' = ss_tag_seq s" "ss_feed_seq s' = f + 1"
    "db_tags (ss_db s') = db_tags (ss_db s)" using s' fields by simp_all
  show "company_keys s' = company_keys s"
    using flush_Inr(6) [OF assms(1) s1(1)] s' by (simp add: company_keys_def)
  have okf: "feeds_ok f [] (db_feeds (ss_db s1))" using ok s1(2) by blast
  have okS: "scrapings_ok f (db_feeds (ss_db s1)) [] [] (db_scrapings (ss_db s1))" using ok s1(2) by blast
  have newk: "f \<notin> keys_of sc_feed_id (db_scrapings (ss_db s1))" using okS by (auto simp: scrapings_ok_def)
  have "feeds_ok (f + 1) [] (db_feeds (ss_db s1) @ [new_feed_row f p])"
    using okf s1(3) p by (fastforce simp: feeds_ok_def unique_key_def keys_of_def new_feed_row_def feed_fits_def
        valid_feed_upsert_def)
  moreover have "scrapings_ok (f + 1) (db_feeds (ss_db s1) @ [new_feed_row f p]) [] []
      (db_scrapings (ss_db s1) @ [new_scraping f (normalize_fetchprotection (up_fetchprotection p))])"
    using okS newk by (fastforce simp: scrapings_ok_def unique_key_def keys_of_def new_scraping_def)
  moreover have "tags_ok (ss_tag_seq s) (f + 1) (db_tags (ss_db s)) [] links"
    using ok ts links(2) s1(2) by (fastforce simp: tags_ok_def)
  ultimately show "session_ok s'" using ok unfolding session_ok_def s' by (simp add: fields)
  have none: "row_with fd_url (up_url p) (db_feeds (ss_db s1)) = None" using s1(3) by (simp add: row_with_None)
  have id: "fd_id r \<noteq> f" if "row_with fd_url u (db_feeds (ss_db s1)) = Some r" for u r
    using okf row_with_SomeD [OF that] by (auto simp: feeds_ok_def)
  have eff: "eff_feeds s' = db_feeds (ss_db s1) @ [new_feed_row f p]" "eff_feeds s1 = db_feeds (ss_db s1)"
    "eff_scrapings s' = eff_scrapings s1 @ [new_scraping f (normalize_fetchprotection (up_fetchprotection p))]"
    "eff_tags s' g = (if g = f then set ts else eff_tags s1 g)" for g
    using s' fields links(1) by (simp_all add: eff_feeds_def eff_scrapings_def eff_tags_def)
  have prot: "protection (eff_scrapings s') g = (if g = f then Some (normalize_fetchprotection (up_fetchprotection p))
      else protection (eff_scrapings s1) g)" for g
  proof -
    have "protection (eff_scrapings s1) f = None"
      using newk fields by (simp add: protection_None eff_scrapings_def)
    then show ?thesis
      unfolding eff(3) protection_append
      by (auto simp: protection_def row_with_def new_scraping_def split: option.splits)
  qed
  have view1: "catalog_view s1 = catalog_view s" by (rule flush_view [OF assms(1) s1(1)])
  show "catalog_view s' = (catalog_view s)(up_url p \<mapsto> (new_feed_row f p,
      Some (normalize_fetchprotection (up_fetchprotection p)), tag_names (db_tags (ss_db s)) (set ts)))"
  proof
    fix u
    have tg: "db_tags (ss_db s') = db_tags (ss_db s1)" using s' by simp
    show "catalog_view s' u = ((catalog_view s)(up_url p \<mapsto> (new_feed_row f p,
      Some (normalize_fetchprotection (up_fetchprotection p)), tag_names (db_tags (ss_db s)) (set ts)))) u"
    proof (cases "row_with fd_url u (db_feeds (ss_db s1))")
      case None
      then show ?thesis
        using view1 fields(9) by (auto simp: catalog_view_def eff(1,2,4) prot tg row_with_append new_feed_row_def
            simp flip: view1)
    next
      case (Some r)
      then have "u \<noteq> up_url p" "fd_id r \<noteq> f" using none id by auto
      then show ?thesis using Some by (simp add: catalog_view_def eff(1,2,4) prot tg row_with_append flip: view1)
    qed
  qed
qed

section \<open>Deleting the feeds of a company\<close>

lemma row_with_filter:
  "unique_key key rows \<Longrightarrow> row_with key k (filter P rows) =
    (case row_with key k rows of None \<Rightarrow> None | Some r \<Rightarrow> if P r then Some r else None)"
proof (induction rows)
  case (Cons r rows)
  then have u: "unique_key key rows" "key r \<notin> keys_of key rows" by (auto simp: unique_key_def keys_of_def)
  have "row_with key k (filter P rows) = None" if "key r = k"
    using u(2) that by (auto simp: row_with_None keys_of_def)
  then show ?case using Cons.IH [OF u(1)] by (auto simp: row_with_def split: option.splits)
qed (simp add: row_with_def)

lemma row_with_filter_key: "P k \<Longrightarrow> row_with key k (filter (\<lambda>r. P (key r)) rows) = row_with key k rows"
  by (induction rows) (auto simp: row_with_def)

lemma overlay_drop:
  "overlay key (filter (\<lambda>r. P (key r)) changed) (filter (\<lambda>r. P (key r)) rows) =
    filter (\<lambda>r. P (key r)) (overlay key changed rows)"
proof (induction rows)
  case (Cons r rows)
  show ?case
    using Cons overlay_key [of key r changed]
    by (simp add: overlay_def row_with_filter_key)
qed simp

lemma keys_of_filter: "keys_of key (filter (\<lambda>r. P (key r)) rows) = {k \<in> keys_of key rows. P k}"
  by (auto simp: keys_of_def)

lemma unique_key_filter: "unique_key key rows \<Longrightarrow> unique_key key (filter P rows)"
  unfolding unique_key_def by (rule distinct_map_filter)

definition stale_ids :: "int \<Rightarrow> string set \<Rightarrow> database \<Rightarrow> int set" where
  "stale_ids c E db = fd_id ` {r \<in> set (db_feeds db). fd_company_id r = Some c \<and> fd_url r \<notin> E}"

definition drop_feeds :: "int set \<Rightarrow> session \<Rightarrow> session" where
  "drop_feeds ids s = s\<lparr>ss_db := delete_feeds ids (ss_db s), ss_feeds := filter (\<lambda>r. fd_id r \<notin> ids) (ss_feeds s),
     ss_feed_tags := filter (\<lambda>r. fst r \<notin> ids) (ss_feed_tags s)\<rparr>"

lemma delete_feeds_none:
  "delete_feeds {} db = db"
  by (simp add: delete_feeds_def)

lemma delete_company_feeds_eq:
  "\<exists>n. delete_company_feeds_not_in_urls c E s = (Inr n, drop_feeds (stale_ids c E (ss_db s)) s)"
proof -
  let ?rows = "filter (\<lambda>r. fd_company_id r = Some c \<and> fd_url r \<notin> E) (db_feeds (ss_db s))"
  have "set (map fd_id ?rows) = stale_ids c E (ss_db s)" by (simp add: stale_ids_def)
  moreover have "drop_feeds {} s = s" by (simp add: drop_feeds_def delete_feeds_none)
  ultimately show ?thesis
    by (cases "map fd_id ?rows = []") (auto simp: delete_company_feeds_not_in_urls_def Let_def drop_feeds_def)
qed

lemma drop_feeds_ok:
  assumes "session_ok s"
  shows "session_ok (drop_feeds ids s)"
proof -
  note ok = assms [unfolded session_ok_def]
  let ?F = "filter (\<lambda>r. fd_id r \<notin> ids)"
  have "feeds_ok (ss_feed_seq s) (?F (ss_feeds s)) (?F (db_feeds (ss_db s)))"
    using ok unfolding feeds_ok_def by (fastforce intro: unique_key_filter)
  moreover have "scrapings_ok (ss_feed_seq s) (?F (db_feeds (ss_db s))) (ss_scrapings s) (ss_new_scrapings s)
      (filter (\<lambda>r. sc_feed_id r \<notin> ids) (db_scrapings (ss_db s)))"
  proof -
    have okS: "scrapings_ok (ss_feed_seq s) (db_feeds (ss_db s)) (ss_scrapings s) (ss_new_scrapings s)
        (db_scrapings (ss_db s))" using ok by blast
    then have "unique_key sc_feed_id (filter (\<lambda>r. sc_feed_id r \<notin> ids) (db_scrapings (ss_db s)) @ ss_new_scrapings s)"
      by (auto simp: scrapings_ok_def unique_key_def distinct_map_filter)
    then show ?thesis
      using okS unfolding scrapings_ok_def
      by (simp add: keys_of_filter [of fd_id "\<lambda>k. k \<notin> ids"] keys_of_filter [of sc_feed_id "\<lambda>k. k \<notin> ids"]) blast
  qed
  moreover have "tags_ok (ss_tag_seq s) (ss_feed_seq s) (db_tags (ss_db s)) (filter (\<lambda>r. fst r \<notin> ids) (ss_feed_tags s))
      (filter (\<lambda>r. ft_feed_id r \<notin> ids) (db_feed_tags (ss_db s)))"
    using ok unfolding tags_ok_def by (auto intro: unique_key_filter)
  ultimately show ?thesis
    using ok unfolding session_ok_def by (simp add: drop_feeds_def delete_feeds_def)
qed

lemma map_of_filter_key: "P k \<Longrightarrow> map_of (filter (\<lambda>r. P (fst r)) xs) k = map_of xs k"
  by (induction xs) auto

lemma drop_feeds_view:
  assumes "session_ok s"
  shows "catalog_view (drop_feeds ids s) u =
    (case catalog_view s u of None \<Rightarrow> None | Some v \<Rightarrow> if fd_id (fst v) \<in> ids then None else Some v)"
proof -
  have eff: "eff_feeds (drop_feeds ids s) = filter (\<lambda>r. fd_id r \<notin> ids) (eff_feeds s)"
    using overlay_drop [of fd_id "\<lambda>k. k \<notin> ids" "ss_feeds s" "db_feeds (ss_db s)"]
    by (simp add: eff_feeds_def drop_feeds_def delete_feeds_def)
  have prot: "protection (eff_scrapings (drop_feeds ids s)) f = protection (eff_scrapings s) f" if "f \<notin> ids" for f
  proof -
    have "overlay sc_feed_id (ss_scrapings s) (filter (\<lambda>r. sc_feed_id r \<notin> ids) (db_scrapings (ss_db s))) =
        filter (\<lambda>r. sc_feed_id r \<notin> ids) (overlay sc_feed_id (ss_scrapings s) (db_scrapings (ss_db s)))"
      by (rule overlay_filter) simp
    moreover have "row_with sc_feed_id f (filter (\<lambda>r. sc_feed_id r \<notin> ids) rows) = row_with sc_feed_id f rows"
      for rows :: "scraping_row list" using that by (rule row_with_filter_key)
    ultimately show ?thesis
      by (simp add: eff_scrapings_def drop_feeds_def delete_feeds_def protection_def row_with_append_list cong: option.case_cong)
  qed
  have tgs: "eff_tags (drop_feeds ids s) f = eff_tags s f" if "f \<notin> ids" for f
  proof -
    have "link_set (filter (\<lambda>r. ft_feed_id r \<notin> ids) links) f = link_set links f" for links :: "feed_tag_row list"
      using that by (auto simp: link_set_def)
    then show ?thesis
      using that map_of_filter_key [of "\<lambda>k. k \<notin> ids" f "ss_feed_tags s"]
      by (simp add: eff_tags_def drop_feeds_def delete_feeds_def cong: option.case_cong)
  qed
  have tg: "db_tags (ss_db (drop_feeds ids s)) = db_tags (ss_db s)"
    by (simp add: drop_feeds_def delete_feeds_def)
  show ?thesis
    unfolding catalog_view_def eff tg row_with_filter [OF eff_feeds_ok(2) [OF assms]]
    by (auto simp: prot tgs split: option.splits)
qed

section \<open>Companies\<close>

lemma get_company_by_name_Inr:
  "get_company_by_name n s = (Inr found, s') \<Longrightarrow> s' = s \<and> found =
    (case row_with co_name n (db_companies (ss_db s)) of None \<Rightarrow> None
     | Some r \<Rightarrow> object_with co_id (co_id r) (ss_companies s) (db_companies (ss_db s)))"
  by (cases "sql_texts [Some n]") (auto simp: get_company_by_name_def read_text_def)

lemma company_name_row:
  assumes "session_ok s" and "get_company_by_name n s = (Inr (Some co), s')"
  shows "s' = s \<and> co_name co = n \<and> company_key co \<in> set (company_keys s)"
proof -
  have okc: "companies_ok (ss_company_seq s) (ss_companies s) (db_companies (ss_db s))"
    using assms(1) unfolding session_ok_def by blast
  obtain r where r: "row_with co_name n (db_companies (ss_db s)) = Some r"
    "object_with co_id (co_id r) (ss_companies s) (db_companies (ss_db s)) = Some co" "s' = s"
    using get_company_by_name_Inr [OF assms(2)]
    by (cases "row_with co_name n (db_companies (ss_db s))") auto
  note rr = row_with_SomeD [OF r(1)]
  have "company_key co = company_key r"
  proof (cases "row_with co_id (co_id r) (ss_companies s)")
    case (Some x)
    then have "co = x" "x \<in> set (ss_companies s)" "co_id x = co_id r"
      using r(2) row_with_SomeD [OF Some] by (simp_all add: object_with_def)
    then show ?thesis using changed_company_key [OF okc _ conjunct1 [OF rr]] by simp
  next
    case None
    then have "row_with co_id (co_id r) (db_companies (ss_db s)) = Some co" using r(2) by (simp add: object_with_def)
    moreover have "unique_key co_id (db_companies (ss_db s))" using okc unfolding companies_ok_def by blast
    ultimately show ?thesis using unique_key_row [OF _ conjunct1 [OF rr], of co_id] by simp
  qed
  then show ?thesis using r(3) rr unfolding company_keys_def company_key_def by auto
qed

lemma put_company_ok:
  assumes "session_ok s" and "company_key co \<in> set (company_keys s)"
    and s': "s' = s\<lparr>ss_companies := put_row co_id co (ss_companies s)\<rparr>"
  shows "session_ok s'" and "catalog_view s' = catalog_view s" and "company_keys s' = company_keys s"
proof -
  have "companies_ok (ss_company_seq s) (put_row co_id co (ss_companies s)) (db_companies (ss_db s))"
    using assms(1,2) in_put_row [of _ co_id co "ss_companies s"] unfolding session_ok_def companies_ok_def company_keys_def
    by (auto intro: unique_key_put)
  then show "session_ok s'" using assms(1) unfolding session_ok_def s' by simp
  have "eff_tags s' = eff_tags s" by (rule eff_tags_cong) (simp_all add: s')
  then show "catalog_view s' = catalog_view s"
    by (simp add: fun_eq_iff catalog_view_def) (simp add: s' eff_feeds_def eff_scrapings_def)
  show "company_keys s' = company_keys s" by (simp add: s' company_keys_def)
qed

lemma insert_company_view:
  assumes "session_ok s" and name: "stripped (co_name co0)" and ins: "insert_company co0 s = (Inr co, s')"
  shows "session_ok s' \<and> catalog_view s' = catalog_view s \<and> ss_feeds s' = [] \<and> ss_feed_seq s' = ss_feed_seq s \<and>
    co = co0\<lparr>co_id := ss_company_seq s\<rparr> \<and> company_keys s' = company_keys s @ [company_key co]"
proof -
  obtain s1 db where s1: "flush s = (Inr (), s1)" and co: "co = co0\<lparr>co_id := ss_company_seq s1\<rparr>"
    and db: "insert_row co_name db_companies db_companies_update (\<lambda>_. company_values) co (ss_db s1) = (Inr (), db)"
    "s' = s1\<lparr>ss_company_seq := ss_company_seq s1 + 1, ss_db := db\<rparr>"
    using ins by (auto simp: insert_company_def sql_bind_Inr next_company_id_def next_serial_Inr in_session_Inr)
  note ok1 = flush_ok [OF assms(1) s1] and fl = flush_fields [OF assms(1) s1]
  obtain r' where r': "company_values co = Inr r'" "co_name r' \<notin> keys_of co_name (db_companies (ss_db s1))"
    "db = (ss_db s1)\<lparr>db_companies := db_companies (ss_db s1) @ [r']\<rparr>"
    using db(1) by (auto simp: companies.insert_row_Inr)
  have "\<exists>t. varchar 50 (co_name co) = Inr t \<and> co_name r' = t \<and> co_id r' = co_id co"
    using r'(1) by (auto simp: company_values_def split: if_splits)
  moreover have "stripped (co_name co)" using name co by simp
  ultimately have "co_name r' = co_name co \<and> co_id r' = co_id co \<and> length (co_name r') \<le> 50"
    using varchar_stripped varchar_length by metis
  then have key: "company_key r' = company_key co" and len: "length (co_name r') \<le> 50" "co_id r' = ss_company_seq s1"
    using co by (auto simp: company_key_def)
  have s': "s' = s1\<lparr>ss_company_seq := ss_company_seq s1 + 1,
      ss_db := (ss_db s1)\<lparr>db_companies := db_companies (ss_db s1) @ [r']\<rparr>\<rparr>"
    using db(2) r'(3) by simp
  have okc: "companies_ok (ss_company_seq s1) [] (db_companies (ss_db s1))"
    using ok1 fl unfolding session_ok_def by simp
  have "co_id r' \<notin> keys_of co_id (db_companies (ss_db s1))"
    using okc len(2) by (auto simp: companies_ok_def keys_of_def)
  then have "companies_ok (ss_company_seq s1 + 1) [] (db_companies (ss_db s1) @ [r'])"
    using okc r'(2) len by (auto simp: companies_ok_def intro: unique_key_insert)
  then have "session_ok s'" using ok1 fl unfolding session_ok_def s' by simp
  moreover have "catalog_view s' = catalog_view s1"
  proof -
    have "eff_tags s' = eff_tags s1" by (rule eff_tags_cong) (simp_all add: s')
    then show ?thesis by (simp add: fun_eq_iff catalog_view_def) (simp add: s' eff_feeds_def eff_scrapings_def)
  qed
  moreover have "company_keys s' = company_keys s1 @ [company_key co]" using key by (simp add: s' company_keys_def)
  ultimately show ?thesis
    using flush_view [OF assms(1) s1] flush_Inr(6) [OF assms(1) s1] fl s' co by simp
qed

lemma get_or_create_company_view:
  assumes "session_ok s" and "stripped n"
    and g: "get_or_create_company netloc_ok n host icon country language fp s = (Inr (co, created), s')"
  shows "session_ok s' \<and> catalog_view s' = catalog_view s \<and> set (ss_feeds s') \<subseteq> set (ss_feeds s) \<and>
    ss_feed_seq s' = ss_feed_seq s \<and> co_name co = n \<and> company_key co \<in> set (company_keys s') \<and> set (company_keys s) \<subseteq> set (company_keys s') \<and>
    co_fetchprotection co = max 0 (min 2 fp)"
proof -
  obtain found s1 where found: "get_company_by_name n s = (Inr found, s1)"
    using g by (auto simp: get_or_create_company_def sql_bind_Inr)
  show ?thesis
  proof (cases found)
    case (Some co0)
    note nm = company_name_row [OF assms(1) found [unfolded Some]]
    have g1: "update_company_metadata netloc_ok host icon country language fp co0 = Inr co \<and>
        s' = s\<lparr>ss_companies := put_row co_id co (ss_companies s)\<rparr>"
      using g nm by (auto simp: get_or_create_company_def sql_bind_def found Some split: sum.splits)
    have co: "company_key co = company_key co0" "co_name co = n" "co_fetchprotection co = max 0 (min 2 fp)"
      using g1 nm by (auto simp: update_company_metadata_def company_key_def)
    note put = put_company_ok [OF assms(1) _ conjunct2 [OF g1]]
    have mem: "company_key co \<in> set (company_keys s)" using nm co by simp
    show ?thesis using put [OF mem] g1 co mem by simp
  next
    case None
    obtain h where ins: "insert_company
        \<lparr>co_id = 0, co_name = n, co_host = h, co_icon_url = icon,
         co_country = normalize_country country, co_language = normalize_country language,
         co_fetchprotection = max 0 (min 2 fp), co_enabled = True\<rparr> s1 = (Inr co, s')"
      using g by (auto simp: get_or_create_company_def sql_bind_def found None split: sum.splits prod.splits)
    have "s1 = s" using get_company_by_name_Inr [OF found] by simp
    then show ?thesis using insert_company_view [OF assms(1) _ ins [unfolded \<open>s1 = s\<close>]] assms(2) by auto
  qed
qed

end
