(* ===== verification/Catalog_Correct.thy ===== *)
theory Catalog_Correct
  imports Catalog_Inserts
begin

text \<open>
  The correctness of the synchronisation of one catalog file, and of the transaction over the changed files.
\<close>

section \<open>What every synchronisation keeps\<close>

definition start_level :: "int option \<Rightarrow> int" where
  "start_level l = normalize_fetchprotection (Some (case l of None \<Rightarrow> 1 | Some q \<Rightarrow> q))"

definition level_kept :: "int option \<Rightarrow> int option \<Rightarrow> bool" where
  "level_kept old new \<longleftrightarrow> new = old \<or> (\<exists>q. new = Some q \<and> start_level old \<le> q \<and> q \<le> 2)"

text \<open>A feed of the new view is new, or it is the old feed of its address, whose protection did not fall.\<close>

definition view_kept :: "int \<Rightarrow> (string \<Rightarrow> feed_view option) \<Rightarrow> (string \<Rightarrow> feed_view option) \<Rightarrow> bool" where
  "view_kept seq old new \<longleftrightarrow>
     (\<forall>u r l t. new u = Some (r, l, t) \<longrightarrow> fd_url r = u \<and> (seq \<le> fd_id r \<or>
       (\<exists>r0 l0 t0. old u = Some (r0, l0, t0) \<and> fd_id r0 = fd_id r \<and> level_kept l0 l)))"

definition session_kept :: "session \<Rightarrow> session \<Rightarrow> bool" where
  "session_kept s s' \<longleftrightarrow> session_ok s' \<and> ss_feed_seq s \<le> ss_feed_seq s' \<and>
     set (company_keys s) \<subseteq> set (company_keys s') \<and>
     view_kept (ss_feed_seq s) (catalog_view s) (catalog_view s')"

lemma start_level_range: "0 \<le> start_level l \<and> start_level l \<le> 2"
  by (auto simp: start_level_def normalize_fetchprotection_def)

lemma level_kept_trans:
  assumes "level_kept a b" and "level_kept b c"
  shows "level_kept a c"
proof (cases "c = b")
  case False
  then obtain q where q: "c = Some q" "start_level b \<le> q" "q \<le> 2" using assms(2) unfolding level_kept_def by blast
  show ?thesis
  proof (cases "b = a")
    case False
    then obtain p where p: "b = Some p" "start_level a \<le> p" "p \<le> 2" using assms(1) unfolding level_kept_def by blast
    then have "start_level b = p"
      using start_level_range [of a] by (simp add: start_level_def normalize_fetchprotection_def)
    then show ?thesis unfolding level_kept_def using p(2) q by auto
  qed (use assms(2) in simp)
qed (use assms(1) in simp)

lemma view_kept_refl: "view_kept seq (catalog_view s) (catalog_view s)"
  unfolding view_kept_def level_kept_def by (auto dest: view_row)

lemma view_kept_trans:
  assumes "view_kept seq a b" and "view_kept seq' b c" and "seq \<le> seq'"
  shows "view_kept seq a c"
  unfolding view_kept_def
proof (intro allI impI conjI)
  fix u r l t assume c: "c u = Some (r, l, t)"
  show "fd_url r = u" using assms(2) c unfolding view_kept_def by blast
  show "seq \<le> fd_id r \<or> (\<exists>r0 l0 t0. a u = Some (r0, l0, t0) \<and> fd_id r0 = fd_id r \<and> level_kept l0 l)"
  proof (cases "seq' \<le> fd_id r")
    case False
    then obtain r1 l1 t1 where b: "b u = Some (r1, l1, t1)" "fd_id r1 = fd_id r" "level_kept l1 l"
      using assms(2) c unfolding view_kept_def by blast
    have "seq \<le> fd_id r1 \<or> (\<exists>r0 l0 t0. a u = Some (r0, l0, t0) \<and> fd_id r0 = fd_id r1 \<and> level_kept l0 l1)"
      using assms(1) b(1) unfolding view_kept_def by blast
    then show ?thesis using b(2) level_kept_trans [OF _ b(3)] by auto
  qed (use assms(3) in simp)
qed

lemma session_kept_refl: "session_ok s \<Longrightarrow> session_kept s s"
  by (simp add: session_kept_def view_kept_refl)

lemma session_kept_trans: "session_kept s s1 \<Longrightarrow> session_kept s1 s' \<Longrightarrow> session_kept s s'"
  unfolding session_kept_def by (blast intro: view_kept_trans order_trans)

lemma session_kept_same_view:
  "session_ok s' \<Longrightarrow> catalog_view s' = catalog_view s \<Longrightarrow> ss_feed_seq s \<le> ss_feed_seq s' \<Longrightarrow>
    set (company_keys s) \<subseteq> set (company_keys s') \<Longrightarrow> session_kept s s'"
  unfolding session_kept_def using view_kept_refl [of _ s] by simp

lemma session_kept_flush:
  assumes "session_ok s" and "flush s = (Inr (), s')"
  shows "session_kept s s'"
  using session_kept_same_view [OF flush_ok [OF assms] flush_view [OF assms]] flush_fields(7) [OF assms]
    flush_Inr(6) [OF assms] by simp

lemma session_kept_drop:
  assumes "session_ok s"
  shows "session_kept s (drop_feeds ids s)"
proof -
  have "view_kept (ss_feed_seq s) (catalog_view s) (catalog_view (drop_feeds ids s))"
    unfolding view_kept_def drop_feeds_view [OF assms] level_kept_def
    by (auto dest: view_row split: option.splits if_splits)
  then show ?thesis
    using drop_feeds_ok [OF assms] by (simp add: session_kept_def drop_feeds_def delete_feeds_def company_keys_def)
qed

section \<open>One entry\<close>

definition entry_level :: "feed_upsert \<Rightarrow> int" where
  "entry_level p = normalize_fetchprotection (up_fetchprotection p)"

lemma normalize_fetchprotection_idem [simp]:
  "normalize_fetchprotection (Some (normalize_fetchprotection x)) = normalize_fetchprotection x"
  by (auto simp: normalize_fetchprotection_def split: option.splits)

lemma max_level [simp]:
  "normalize_fetchprotection (Some (max (normalize_fetchprotection x) (normalize_fetchprotection y))) =
    max (normalize_fetchprotection x) (normalize_fetchprotection y)"
  by (auto simp: normalize_fetchprotection_def split: option.splits)

lemma raised_Some: "up_fetchprotection p \<noteq> None \<Longrightarrow> raised l (up_fetchprotection p) = max (start_level l) (entry_level p)"
  by (auto simp: raised_def start_level_def entry_level_def Let_def)

text \<open>What the feed of an address is after its entries, the last of which counts.\<close>

definition entries_synced :: "int \<Rightarrow> feed_upsert list \<Rightarrow> feed_view option \<Rightarrow> feed_view \<Rightarrow> bool" where
  "entries_synced c entries old v \<longleftrightarrow>
     (case v of (r, lvl, tgs) \<Rightarrow>
        entries \<noteq> [] \<and>
        fd_url r = up_url (last entries) \<and> fd_section r = up_section (last entries) \<and>
        fd_enabled r = up_enabled (last entries) \<and> fd_trust_score r = up_trust_score (last entries) \<and>
        fd_company_id r = Some c \<and> tgs = set (dedup_str (up_tags (last entries))) \<and>
        (\<exists>q. lvl = Some q \<and> (\<forall>e\<in>set entries. entry_level e \<le> q) \<and>
          (case old of
             None \<Rightarrow> q \<in> entry_level ` set entries
           | Some (r0, l0, _) \<Rightarrow> fd_id r = fd_id r0 \<and> start_level l0 \<le> q \<and>
               (q = start_level l0 \<or> q \<in> entry_level ` set entries))))"

lemma entries_synced_Cons:
  assumes "entries_synced c [p] old v1" and "entries_synced c ps (Some v1) v"
  shows "entries_synced c (p # ps) old v"
proof -
  obtain r1 l1 t1 r lvl tgs where v: "v1 = (r1, l1, t1)" "v = (r, lvl, tgs)" by (cases v1, cases v)
  obtain q1 where q1: "l1 = Some q1" "entry_level p \<le> q1"
    "case old of None \<Rightarrow> q1 = entry_level p
       | Some (r0, l0, _) \<Rightarrow> fd_id r1 = fd_id r0 \<and> start_level l0 \<le> q1 \<and> (q1 = start_level l0 \<or> q1 = entry_level p)"
  proof -
    have "\<exists>q. l1 = Some q \<and> entry_level p \<le> q \<and>
      (case old of None \<Rightarrow> q = entry_level p
       | Some (r0, l0, _) \<Rightarrow> fd_id r1 = fd_id r0 \<and> start_level l0 \<le> q \<and> (q = start_level l0 \<or> q = entry_level p))"
      using assms(1) v(1) by (simp add: entries_synced_def cong: option.case_cong)
    then show ?thesis using that by blast
  qed
  have "start_level l1 = q1"
  proof (cases old)
    case None
    then show ?thesis using q1(1,3) by (simp add: start_level_def entry_level_def)
  next
    case (Some x)
    obtain r0 l0 t0 where "x = (r0, l0, t0)" by (cases x)
    then have "q1 = start_level l0 \<or> q1 = entry_level p" using q1(3) Some by simp
    then show ?thesis using q1(1) by (auto simp: start_level_def entry_level_def)
  qed
  then show ?thesis
    using assms(2) q1 v by (cases old) (auto simp: entries_synced_def)
qed

lemma upsert_new:
  assumes "session_ok s" and none: "catalog_view s (up_url p) = None"
    and up: "upsert_feed p ts None s = (Inr (f, created), s')"
  shows "insert_feed p ts s = (Inr f, s')"
proof -
  have "up_url p \<notin> keys_of fd_url (eff_feeds s)" using none by (simp add: catalog_view_def row_with_None)
  then have "row_with fd_url (up_url p) (db_feeds (ss_db s)) = None"
    using eff_feeds_ok(3) [OF assms(1)] unfolding row_with_None keys_of_def by (metis set_map)
  then show ?thesis
    using up by (auto simp: upsert_feed_def sql_bind_def read_text_def split: prod.splits sum.splits)
qed

lemma sync_entry:
  assumes "session_ok s" and p: "valid_feed_upsert p" "up_fetchprotection p \<noteq> None"
    and ex: "existing = map_option (\<lambda>v. fd_id (fst v)) (catalog_view s (up_url p))"
    and tg: "get_or_create_tags (up_tags p) s = (Inr (ts, k), s1)"
    and up: "upsert_feed p ts existing s1 = (Inr (f, created), s2)"
    and link: "link_company_to_feed c f s2 = (Inr b, s')"
  shows "session_ok s' \<and> company_keys s' = company_keys s \<and> ss_feed_seq s \<le> ss_feed_seq s' \<and>
    fd_url ` set (ss_feeds s') \<subseteq> insert (up_url p) (fd_url ` set (ss_feeds s)) \<and>
    (catalog_view s (up_url p) = None \<longrightarrow> f = ss_feed_seq s) \<and>
    (\<exists>v. catalog_view s' = (catalog_view s)(up_url p \<mapsto> v) \<and> fd_id (fst v) = f \<and>
      entries_synced c [p] (catalog_view s (up_url p)) v)"
proof -
  note t = get_or_create_tags_view [OF assms(1) tg]
  have ok1: "session_ok s1" and ts: "\<forall>x\<in>set ts. x < ss_tag_seq s1" and v1: "catalog_view s1 = catalog_view s"
    using t by blast+
  have names: "tag_names (db_tags (ss_db s1)) (set ts) = set (dedup_str (up_tags p))" using t by blast
  have old: "fd_url ` set (ss_feeds s1) \<subseteq> fd_url ` set (ss_feeds s)" using t by blast
  show ?thesis
  proof (cases "catalog_view s (up_url p)")
    case None
    then have "insert_feed p ts s1 = (Inr f, s2)"
      using upsert_new [OF ok1] v1 up ex by simp
    note ins = insert_feed_view [OF ok1 p(1) ts this]
    have v2: "catalog_view s2 (up_url p) = Some (new_feed_row f p, Some (entry_level p), set (dedup_str (up_tags p)))"
      using ins(5) names by (simp add: entry_level_def)
    have link': "link_company_to_feed c (fd_id (new_feed_row f p)) s2 = (Inr b, s')"
      using link by (simp add: new_feed_row_def)
    note l = link_view [OF ins(1) v2 link']
    have "catalog_view s' = (catalog_view s)(up_url p \<mapsto>
        ((new_feed_row f p)\<lparr>fd_company_id := Some c\<rparr>, Some (entry_level p), set (dedup_str (up_tags p))))"
      using l(2) ins(5) v1 by simp
    moreover have "company_keys s' = company_keys s" using l(3) ins(4) t by (simp add: company_keys_def)
    ultimately show ?thesis
      using l(1,4,5) ins(2,3,8) t None by (auto simp: entries_synced_def new_feed_row_def)
  next
    case (Some v0)
    obtain r0 l0 t0 where v0: "v0 = (r0, l0, t0)" by (cases v0)
    have v1': "catalog_view s1 (up_url p) = Some (r0, l0, t0)" using v1 Some v0 by simp
    have up': "upsert_feed p ts (Some (fd_id r0)) s1 = (Inr (f, created), s2)" using up ex Some v0 by simp
    note u = upsert_existing_view [OF ok1 v1' ts p(1) up']
    have v2: "catalog_view s2 (up_url p) = Some (feed_of_payload p r0, Some (max (start_level l0) (entry_level p)),
        set (dedup_str (up_tags p)))"
      using u(3) names raised_Some [OF p(2)] by simp
    have link': "link_company_to_feed c (fd_id (feed_of_payload p r0)) s2 = (Inr b, s')"
      using link u(2) by (simp add: feed_of_payload_def)
    note l = link_view [OF u(1) v2 link']
    have url: "fd_url (feed_of_payload p r0) = up_url p"
      using view_row [OF v1'] by (simp add: feed_of_payload_def)
    have "catalog_view s' = (catalog_view s)(up_url p \<mapsto> ((feed_of_payload p r0)\<lparr>fd_company_id := Some c\<rparr>,
        Some (max (start_level l0) (entry_level p)), set (dedup_str (up_tags p))))"
      using l(2) u(3) v1 by simp
    moreover have "fd_url ` set (ss_feeds s2) \<subseteq> insert (up_url p) (fd_url ` set (ss_feeds s))"
      using u(5) old url by (auto dest!: in_put_row)
    moreover have "company_keys s' = company_keys s" using l(3) u(4) t by (simp add: company_keys_def)
    moreover have "entries_synced c [p] (Some v0) ((feed_of_payload p r0)\<lparr>fd_company_id := Some c\<rparr>,
        Some (max (start_level l0) (entry_level p)), set (dedup_str (up_tags p)))"
      using url v0 by (auto simp: entries_synced_def feed_of_payload_def max_def)
    moreover have "fd_url ` set (ss_feeds s') \<subseteq> insert (up_url p) (fd_url ` set (ss_feeds s))"
      using l(4) calculation(2) by blast
    moreover have "fd_id (fst ((feed_of_payload p r0)\<lparr>fd_company_id := Some c\<rparr>, Some (max (start_level l0) (entry_level p)),
        set (dedup_str (up_tags p)))) = f" using u(2) by (simp add: feed_of_payload_def)
    moreover have "ss_feed_seq s \<le> ss_feed_seq s'" using l(5) u(6) t by simp
    ultimately show ?thesis using l(1) unfolding Some by blast
  qed
qed

lemma sync_entry_kept:
  assumes ok: "session_ok s'" "company_keys s' = company_keys s" "ss_feed_seq s \<le> ss_feed_seq s'"
    and f: "catalog_view s u = None \<longrightarrow> f = ss_feed_seq s" "fd_id (fst v) = f" "u = up_url p"
    and v: "catalog_view s' = (catalog_view s)(u \<mapsto> v)" "entries_synced c [p] (catalog_view s u) v"
  shows "session_kept s s'"
proof -
  have "view_kept (ss_feed_seq s) (catalog_view s) (catalog_view s')"
    unfolding view_kept_def
  proof (intro allI impI)
    fix w r l t assume w: "catalog_view s' w = Some (r, l, t)"
    show "fd_url r = w \<and> (ss_feed_seq s \<le> fd_id r \<or>
       (\<exists>r0 l0 t0. catalog_view s w = Some (r0, l0, t0) \<and> fd_id r0 = fd_id r \<and> level_kept l0 l))"
    proof (cases "w = u")
      case True
      then have vv: "v = (r, l, t)" using w v(1) by simp
      show ?thesis
      proof (cases "catalog_view s u")
        case None
        then show ?thesis using f vv True v(2) by (simp add: entries_synced_def)
      next
        case (Some old)
        obtain r0 l0 t0 where old: "old = (r0, l0, t0)" by (cases old)
        have "entries_synced c [p] (Some (r0, l0, t0)) (r, l, t)" using v(2) unfolding vv Some old .
        then have "\<exists>q. l = Some q \<and> start_level l0 \<le> q \<and> (q = start_level l0 \<or> q = entry_level p)"
          "fd_url r = w" "fd_id r = fd_id r0"
          unfolding f(3) True by (auto simp: entries_synced_def)
        moreover have "entry_level p \<le> 2" by (auto simp: entry_level_def normalize_fetchprotection_def split: option.splits)
        ultimately show ?thesis
          using Some old True start_level_range [of l0] unfolding level_kept_def by auto
      qed
    next
      case False
      then have "catalog_view s w = Some (r, l, t)" using w v(1) by simp
      then show ?thesis using view_kept_refl [of "ss_feed_seq s" s] unfolding view_kept_def by blast
    qed
  qed
  then show ?thesis using ok by (simp add: session_kept_def)
qed

section \<open>The loop over the entries\<close>

lemma sync_feeds_view:
  assumes "session_ok s" and "\<And>p. p \<in> set ps \<Longrightarrow> valid_feed_upsert p \<and> up_fetchprotection p \<noteq> None"
    and "\<And>u. u \<in> up_url ` set ps \<Longrightarrow> existing u = map_option (\<lambda>v. fd_id (fst v)) (catalog_view s u)"
    and "sync_feeds c existing ps s = (Inr (), s')"
  shows "session_kept s s' \<and> company_keys s' = company_keys s \<and>
    fd_url ` set (ss_feeds s') \<subseteq> up_url ` set ps \<union> fd_url ` set (ss_feeds s) \<and>
    (\<forall>u. u \<notin> up_url ` set ps \<longrightarrow> catalog_view s' u = catalog_view s u) \<and>
    (\<forall>u\<in>up_url ` set ps. \<exists>v. catalog_view s' u = Some v \<and>
      entries_synced c (filter (\<lambda>p. up_url p = u) ps) (catalog_view s u) v)"
  using assms
proof (induction ps arbitrary: s existing)
  case Nil
  then show ?case by (simp add: session_kept_refl)
next
  case (Cons p ps)
  obtain ts k s1 f created s2 b s3 where
    tg: "get_or_create_tags (up_tags p) s = (Inr (ts, k), s1)" and
    up: "upsert_feed p ts (existing (up_url p)) s1 = (Inr (f, created), s2)" and
    link: "link_company_to_feed c f s2 = (Inr b, s3)" and
    rest: "sync_feeds c (existing(up_url p \<mapsto> f)) ps s3 = (Inr (), s')"
    using Cons.prems(4) by (auto simp: sql_bind_Inr)
  have p: "valid_feed_upsert p" "up_fetchprotection p \<noteq> None" using Cons.prems(2) [of p] by auto
  have ex: "existing (up_url p) = map_option (\<lambda>v. fd_id (fst v)) (catalog_view s (up_url p))"
    by (rule Cons.prems(3)) simp
  obtain v where step: "session_ok s3" "company_keys s3 = company_keys s"
    "fd_url ` set (ss_feeds s3) \<subseteq> insert (up_url p) (fd_url ` set (ss_feeds s))"
    "catalog_view s3 = (catalog_view s)(up_url p \<mapsto> v)" "fd_id (fst v) = f"
    "entries_synced c [p] (catalog_view s (up_url p)) v"
    "ss_feed_seq s \<le> ss_feed_seq s3" "catalog_view s (up_url p) = None \<longrightarrow> f = ss_feed_seq s"
    using sync_entry [OF Cons.prems(1) p ex tg up link] by (elim conjE exE) (rule that)
  have kept: "session_kept s s3"
    by (rule sync_entry_kept [OF step(1,2,7,8,5) refl step(4,6)])
  have "(existing(up_url p \<mapsto> f)) u = map_option (\<lambda>v. fd_id (fst v)) (catalog_view s3 u)" if "u \<in> up_url ` set ps" for u
    using Cons.prems(3) [of u] that step(4,5) by auto
  then have IH: "session_kept s3 s' \<and> company_keys s' = company_keys s3 \<and>
    fd_url ` set (ss_feeds s') \<subseteq> up_url ` set ps \<union> fd_url ` set (ss_feeds s3) \<and>
    (\<forall>u. u \<notin> up_url ` set ps \<longrightarrow> catalog_view s' u = catalog_view s3 u) \<and>
    (\<forall>u\<in>up_url ` set ps. \<exists>v. catalog_view s' u = Some v \<and>
      entries_synced c (filter (\<lambda>p. up_url p = u) ps) (catalog_view s3 u) v)"
    using Cons.prems(2) by (intro Cons.IH [OF step(1) _ _ rest]) auto
  have "\<exists>w. catalog_view s' u = Some w \<and> entries_synced c (filter (\<lambda>p. up_url p = u) (p # ps)) (catalog_view s u) w"
    if u: "u \<in> up_url ` set (p # ps)" for u
  proof (cases "u \<in> up_url ` set ps")
    case True
    then obtain w where w: "catalog_view s' u = Some w"
      "entries_synced c (filter (\<lambda>p. up_url p = u) ps) (catalog_view s3 u) w" using IH by blast
    then show ?thesis
      using step(4,6) entries_synced_Cons by (cases "u = up_url p") auto
  next
    case False
    then have "u = up_url p" using u by simp
    moreover have "filter (\<lambda>p. up_url p = u) ps = []" using False by (auto simp: filter_empty_conv image_iff)
    ultimately have "u = up_url p" "filter (\<lambda>p. up_url p = u) ps = []" by simp_all
    then show ?thesis using IH step(4,6) False by simp
  qed
  moreover have "fd_url ` set (ss_feeds s') \<subseteq> up_url ` set (p # ps) \<union> fd_url ` set (ss_feeds s)"
    using IH step(3) unfolding list.set image_insert by blast
  moreover have "session_kept s s'" using session_kept_trans [OF kept] IH by blast
  ultimately show ?case using IH step(2,4) by simp
qed

section \<open>A catalog\<close>

lemma view_id:
  assumes "session_ok s"
  shows "map_option (\<lambda>v. fd_id (fst v)) (catalog_view s u) = map_option fd_id (row_with fd_url u (db_feeds (ss_db s)))"
proof (cases "row_with fd_url u (eff_feeds s)")
  case None
  then have "row_with fd_url u (db_feeds (ss_db s)) = None"
    using eff_feeds_ok(3) [OF assms] unfolding row_with_None keys_of_def by (metis set_map)
  then show ?thesis using None by (simp add: catalog_view_def)
next
  case (Some r)
  note r = row_with_SomeD [OF Some]
  obtain r0 where r0: "r0 \<in> set (db_feeds (ss_db s))" "fd_id r0 = fd_id r" "fd_url r0 = fd_url r"
    using eff_feed_row [OF conjunct1 [OF r] assms] by blast
  have "unique_key fd_url (db_feeds (ss_db s))" using assms unfolding session_ok_def feeds_ok_def by blast
  then have "row_with fd_url u (db_feeds (ss_db s)) = Some r0" using unique_key_row [OF _ r0(1)] r r0(3) by metis
  then show ?thesis using Some r0(2) by (simp add: catalog_view_def)
qed

text \<open>A feed that the session did not change is stale as its row says.\<close>

lemma stale_view:
  assumes "session_ok s" and "fd_url ` set (ss_feeds s) \<subseteq> E" and v: "catalog_view s u = Some v"
  shows "fd_id (fst v) \<in> stale_ids c E (ss_db s) \<longleftrightarrow> u \<notin> E \<and> fd_company_id (fst v) = Some c"
proof -
  obtain r l t where vr: "v = (r, l, t)" by (cases v)
  note r = view_row [OF v [unfolded vr]]
  obtain r0 where r0: "r0 \<in> set (db_feeds (ss_db s))" "fd_id r0 = fd_id r" "fd_url r0 = fd_url r"
    using eff_feed_row [OF conjunct1 [OF r] assms(1)] by blast
  have ids: "unique_key fd_id (db_feeds (ss_db s))" using assms(1) unfolding session_ok_def feeds_ok_def by blast
  have same: "r = r0" if "u \<notin> E"
  proof -
    obtain r1 where r1: "r1 \<in> set (db_feeds (ss_db s))"
      "r = (case row_with fd_id (fd_id r1) (ss_feeds s) of Some r' \<Rightarrow> r' | None \<Rightarrow> r1)"
      using conjunct1 [OF r] by (auto simp: eff_feeds_def overlay_def)
    have "r \<notin> set (ss_feeds s)" using that assms(2) r by blast
    then have "r = r1" using r1(2) by (auto split: option.splits dest: row_with_SomeD)
    then show ?thesis using unique_pair [OF ids r0(1) r1(1)] r0(2) by simp
  qed
  have "fd_id r \<in> stale_ids c E (ss_db s) \<longleftrightarrow> fd_company_id r0 = Some c \<and> fd_url r0 \<notin> E"
  proof
    assume "fd_id r \<in> stale_ids c E (ss_db s)"
    then obtain r1 where r1: "r1 \<in> set (db_feeds (ss_db s))" "fd_company_id r1 = Some c" "fd_url r1 \<notin> E"
      "fd_id r1 = fd_id r" unfolding stale_ids_def by auto
    then have "r1 = r0" using unique_pair [OF ids r1(1) r0(1)] r0(2) by simp
    then show "fd_company_id r0 = Some c \<and> fd_url r0 \<notin> E" using r1 by simp
  next
    assume "fd_company_id r0 = Some c \<and> fd_url r0 \<notin> E"
    then have "r0 \<in> {r \<in> set (db_feeds (ss_db s)). fd_company_id r = Some c \<and> fd_url r \<notin> E}" using r0(1) by simp
    then show "fd_id r \<in> stale_ids c E (ss_db s)" unfolding stale_ids_def r0(2) [symmetric] by (rule imageI)
  qed
  then show ?thesis using vr same r r0(3) by auto
qed

lemma normalized_payload:
  "map_ok (\<lambda>f. normalize_source_feed_entry f d) fs = Inr ps \<Longrightarrow> p \<in> set ps \<Longrightarrow>
    valid_feed_upsert p \<and> up_fetchprotection p \<noteq> None"
  by (auto simp: normalize_source_feed_entry_def make_feed_upsert_def dest!: map_ok_set split: if_splits)

text \<open>What the view is after a catalog, from what it was.\<close>

definition catalog_synced :: "int \<Rightarrow> feed_upsert list \<Rightarrow> (string \<Rightarrow> feed_view option) \<Rightarrow> (string \<Rightarrow> feed_view option) \<Rightarrow> bool" where
  "catalog_synced c ps old new \<longleftrightarrow>
     (\<forall>u. if u \<in> up_url ` set ps
          then (\<exists>v. new u = Some v \<and> entries_synced c (filter (\<lambda>p. up_url p = u) ps) (old u) v)
          else new u = (case old u of None \<Rightarrow> None
                        | Some v \<Rightarrow> if fd_company_id (fst v) = Some c then None else Some v))"

lemma sync_catalog_stages:
  assumes "sync_catalog netloc_ok fallback cat s = (Inr (), s')"
  obtains img co created s1 ps s2 where
    "ca_img cat = Some img"
    "get_or_create_company netloc_ok (if py_strip (ca_company cat) = [] then fallback else py_strip (ca_company cat))
       (ca_host cat) (Some (py_strip img)) (normalize_country (ca_country cat)) (normalize_country (ca_language cat))
       (max 0 (min 2 (ca_fetchprotection cat))) s = (Inr (co, created), s1)"
    "map_ok (\<lambda>f. normalize_source_feed_entry f (co_fetchprotection co)) (ca_feeds cat) = Inr ps"
    "sync_feeds (co_id co) (\<lambda>u. if u \<in> set (map up_url ps)
        then map_option fd_id (row_with fd_url u (db_feeds (ss_db s1))) else None) ps s1 = (Inr (), s2)"
    "s' = drop_feeds (stale_ids (co_id co) (set (map up_url ps)) (ss_db s2)) s2"
proof -
  obtain img where img: "ca_img cat = Some img"
    using assms by (cases "ca_img cat") (simp_all add: sync_catalog_def sql_bind_def)
  obtain co created s1 where co: "get_or_create_company netloc_ok
       (if py_strip (ca_company cat) = [] then fallback else py_strip (ca_company cat))
       (ca_host cat) (Some (py_strip img)) (normalize_country (ca_country cat)) (normalize_country (ca_language cat))
       (max 0 (min 2 (ca_fetchprotection cat))) s = (Inr (co, created), s1)"
    and rest: "sync_company_feeds co (ca_feeds cat) s1 = (Inr (), s')"
    using assms img by (auto simp: sync_catalog_def sql_bind_Inr)
  obtain ps where ps: "map_ok (\<lambda>f. normalize_source_feed_entry f (co_fetchprotection co)) (ca_feeds cat) = Inr ps"
    using rest by (cases "map_ok (\<lambda>f. normalize_source_feed_entry f (co_fetchprotection co)) (ca_feeds cat)")
      (simp_all add: sync_company_feeds_def)
  define existing where "existing = (\<lambda>u. if u \<in> set (map up_url ps)
        then map_option fd_id (row_with fd_url u (db_feeds (ss_db s1))) else None)"
  obtain e se s2 n where e: "list_rss_feeds_by_urls (map up_url ps) s1 = (Inr e, se)"
    and loop: "sync_feeds (co_id co) e ps se = (Inr (), s2)"
    and del: "delete_company_feeds_not_in_urls (co_id co) (set (map up_url ps)) s2 = (Inr n, s')"
    using rest ps by (auto simp: sync_company_feeds_def sql_bind_Inr)
  have "e = existing \<and> se = s1"
    using e unfolding existing_def
    by (cases "sql_texts (map Some (map up_url ps))") (auto simp: list_rss_feeds_by_urls_def)
  then show thesis
    using that [OF img co ps] loop del delete_company_feeds_eq [of "co_id co" "set (map up_url ps)" s2]
    unfolding existing_def by auto
qed

lemma sync_catalog_view:
  assumes "session_ok s" and "stripped fallback" and clean: "ss_feeds s = []"
    and cat: "0 \<le> ca_fetchprotection cat" "ca_fetchprotection cat \<le> 2"
    and sync: "sync_catalog netloc_ok fallback cat s = (Inr (), s')"
  shows "session_ok s' \<and> (\<exists>c ps.
    map_ok (\<lambda>f. normalize_source_feed_entry f (ca_fetchprotection cat)) (ca_feeds cat) = Inr ps \<and>
    (c, if py_strip (ca_company cat) = [] then fallback else py_strip (ca_company cat)) \<in> set (company_keys s') \<and>
    set (company_keys s) \<subseteq> set (company_keys s') \<and> catalog_synced c ps (catalog_view s) (catalog_view s'))"
proof -
  let ?name = "if py_strip (ca_company cat) = [] then fallback else py_strip (ca_company cat)"
  from sync show ?thesis
  proof (rule sync_catalog_stages)
    fix img co created s1 ps s2
    assume co: "get_or_create_company netloc_ok ?name
       (ca_host cat) (Some (py_strip img)) (normalize_country (ca_country cat)) (normalize_country (ca_language cat))
       (max 0 (min 2 (ca_fetchprotection cat))) s = (Inr (co, created), s1)"
      and ps: "map_ok (\<lambda>f. normalize_source_feed_entry f (co_fetchprotection co)) (ca_feeds cat) = Inr ps"
      and loop: "sync_feeds (co_id co) (\<lambda>u. if u \<in> set (map up_url ps)
        then map_option fd_id (row_with fd_url u (db_feeds (ss_db s1))) else None) ps s1 = (Inr (), s2)"
      and s': "s' = drop_feeds (stale_ids (co_id co) (set (map up_url ps)) (ss_db s2)) s2"
    let ?E = "set (map up_url ps)"
    have name: "stripped ?name" using assms(2) by simp
    note c = get_or_create_company_view [OF assms(1) name co]
    have fp: "co_fetchprotection co = ca_fetchprotection cat" using c cat by simp
    have s1: "session_ok s1" "ss_feeds s1 = []" "catalog_view s1 = catalog_view s" using c clean by auto
    have "session_kept s1 s2 \<and> company_keys s2 = company_keys s1 \<and>
      fd_url ` set (ss_feeds s2) \<subseteq> up_url ` set ps \<union> fd_url ` set (ss_feeds s1) \<and>
      (\<forall>u. u \<notin> up_url ` set ps \<longrightarrow> catalog_view s2 u = catalog_view s1 u) \<and>
      (\<forall>u\<in>up_url ` set ps. \<exists>v. catalog_view s2 u = Some v \<and>
        entries_synced (co_id co) (filter (\<lambda>p. up_url p = u) ps) (catalog_view s1 u) v)"
      by (rule sync_feeds_view [OF s1(1) _ _ loop]) (use normalized_payload [OF ps] view_id [OF s1(1)] in simp_all)
    then have s2: "session_kept s1 s2" "company_keys s2 = company_keys s1" "fd_url ` set (ss_feeds s2) \<subseteq> ?E"
      "\<And>u. u \<notin> up_url ` set ps \<Longrightarrow> catalog_view s2 u = catalog_view s u"
      "\<And>u. u \<in> up_url ` set ps \<Longrightarrow> \<exists>v. catalog_view s2 u = Some v \<and>
        entries_synced (co_id co) (filter (\<lambda>p. up_url p = u) ps) (catalog_view s u) v"
      using s1(2,3) by (simp, simp, simp, simp, metis)
    have ok2: "session_ok s2" using s2(1) by (simp add: session_kept_def)
    have view: "catalog_view s' u = (case catalog_view s2 u of None \<Rightarrow> None
        | Some v \<Rightarrow> if u \<notin> ?E \<and> fd_company_id (fst v) = Some (co_id co) then None else Some v)" for u
      unfolding s' drop_feeds_view [OF ok2]
      using stale_view [OF ok2 s2(3)] by (cases "catalog_view s2 u") simp_all
    have "catalog_synced (co_id co) ps (catalog_view s) (catalog_view s')"
      unfolding catalog_synced_def
    proof
      fix u
      show "if u \<in> up_url ` set ps
          then (\<exists>v. catalog_view s' u = Some v \<and>
            entries_synced (co_id co) (filter (\<lambda>p. up_url p = u) ps) (catalog_view s u) v)
          else catalog_view s' u = (case catalog_view s u of None \<Rightarrow> None
                        | Some v \<Rightarrow> if fd_company_id (fst v) = Some (co_id co) then None else Some v)"
        using s2(4,5) [of u] view [of u] by (cases "u \<in> up_url ` set ps") (auto cong: option.case_cong)
    qed
    moreover have "session_ok s'" unfolding s' by (rule drop_feeds_ok [OF ok2])
    moreover have "company_keys s' = company_keys s1"
      using s2(2) by (simp add: s' drop_feeds_def delete_feeds_def company_keys_def)
    moreover have "(co_id co, ?name) \<in> set (company_keys s1)" using c unfolding company_key_def by metis
    ultimately show ?thesis using ps fp c by auto
  qed
qed

section \<open>The transaction\<close>

text \<open>The view of a database.\<close>

definition db_view :: "database \<Rightarrow> string \<Rightarrow> feed_view option" where
  "db_view db u = map_option
     (\<lambda>r. (r, protection (db_scrapings db) (fd_id r), tag_names (db_tags db) (link_set (db_feed_tags db) (fd_id r))))
     (row_with fd_url u (db_feeds db))"

definition clean_session :: "session \<Rightarrow> bool" where
  "clean_session s \<longleftrightarrow> session_ok s \<and> clear_changes s = s"

lemma clean_fields:
  assumes "clear_changes s = s"
  shows "ss_companies s = []" "ss_feeds s = []" "ss_feed_tags s = []" "ss_scrapings s = []" "ss_new_scrapings s = []"
  using clear_changes_simps [of s] unfolding assms by simp_all

lemma clean_view: "clear_changes s = s \<Longrightarrow> catalog_view s = db_view (ss_db s)"
  by (simp add: fun_eq_iff catalog_view_def db_view_def eff_feeds_def eff_scrapings_def eff_tags_def clean_fields)

lemma flush_clean:
  assumes "session_ok s" and "flush s = (Inr (), s')"
  shows "clean_session s'"
proof -
  obtain d where "s' = clear_changes (s\<lparr>ss_db := d\<rparr>)" using flush_Inr(1) [OF assms] by blast
  then show ?thesis using flush_ok [OF assms] by (simp add: clean_session_def clear_changes_def)
qed

lemma extract_stripped: "extract_company_name f = Inr n \<Longrightarrow> stripped n"
  by (auto simp: extract_company_name_def normalize_name_from_filename_def Let_def split: sum.splits py_exn.splits if_splits)

lemma load_Inr:
  assumes "load_source_feeds_from_json path = Inr cat"
  shows "\<exists>raw. path = Payload raw \<and> make_catalog raw = Inr cat \<and> 0 \<le> ca_fetchprotection cat \<and> ca_fetchprotection cat \<le> 2"
  using assms
  by (auto simp: load_source_feeds_from_json_def make_catalog_def split: catalog_path.splits sum.splits if_splits)

lemma sync_catalog_file_cases:
  assumes "sync_catalog_file netloc_ok files f s = (Inr (), s')"
  obtains (missing) n where "files f = NoPath" "extract_company_name f = Inr n" "sync_missing_file n s = (Inr (), s')"
  | (present) n raw cat where "files f = Payload raw" "extract_company_name f = Inr n" "make_catalog raw = Inr cat"
      "0 \<le> ca_fetchprotection cat" "ca_fetchprotection cat \<le> 2" "sync_catalog netloc_ok n cat s = (Inr (), s')"
proof (cases "extract_company_name f")
  case (Inl e)
  then show ?thesis using assms by (simp add: sync_catalog_file_def)
next
  case n: (Inr n)
  show ?thesis
  proof (cases "files f = NoPath")
    case True
    then show ?thesis using missing [OF True n] assms n by (simp add: sync_catalog_file_def)
  next
    case False
    then obtain cat where cat: "load_source_feeds_from_json (files f) = Inr cat" "sync_catalog netloc_ok n cat s = (Inr (), s')"
      using assms n by (cases "load_source_feeds_from_json (files f)") (simp_all add: sync_catalog_file_def)
    then show ?thesis using load_Inr [OF cat(1)] present [OF _ n _ _ _ cat(2)] by blast
  qed
qed

end
