(* ===== verification/Catalog_Properties.thy ===== *)
theory Catalog_Properties
  imports Catalog_Correct
begin

text \<open>
  The transaction over the changed catalog files: what one file establishes, what every synchronisation keeps,
  whatever fails, and what the order of the files can lose.
\<close>

section \<open>Sequences grow\<close>

definition seqs_grow :: "(session, 'a) stmt \<Rightarrow> bool" where
  "seqs_grow m \<longleftrightarrow> (\<forall>s r s'. m s = (r, s') \<longrightarrow>
     ss_company_seq s \<le> ss_company_seq s' \<and> ss_feed_seq s \<le> ss_feed_seq s' \<and> ss_tag_seq s \<le> ss_tag_seq s')"

named_theorems grows \<open>operations that never take a sequence back\<close>

lemma seqs_grow_return [grows]:
  "seqs_grow (sql_return x)" "seqs_grow (sql_raise e)" "seqs_grow (sql_lift r)" "seqs_grow (\<lambda>s. (f s, s))"
  by (simp_all add: seqs_grow_def)

lemma seqs_grow_bind [grows]: "seqs_grow m \<Longrightarrow> (\<And>x. seqs_grow (f x)) \<Longrightarrow> seqs_grow (sql_bind m f)"
  unfolding seqs_grow_def sql_bind_def by (fastforce split: prod.splits sum.splits)

lemma seqs_grow_for [grows]: "(\<And>x. seqs_grow (f x)) \<Longrightarrow> seqs_grow (sql_for f xs)"
proof (induction xs)
  case (Cons x xs)
  have "sql_for f (x # xs) = sql_bind (f x) (\<lambda>_. sql_for f xs)"
    by (rule ext) (auto simp: sql_bind_def split: prod.splits sum.splits)
  then show ?case using Cons seqs_grow_bind by metis
qed (simp add: seqs_grow_def)

lemma seqs_grow_here: "(\<And>s. seqs_grow (m s)) \<Longrightarrow> seqs_grow (\<lambda>s. m s s)"
  by (auto simp: seqs_grow_def)

lemma seqs_grow_in_session [grows]: "seqs_grow (in_session m)"
  by (auto simp: seqs_grow_def in_session_def split: prod.splits)

lemma seqs_grow_flush [grows]: "seqs_grow flush"
  by (auto simp: seqs_grow_def flush_def in_session_def split: prod.splits sum.splits)

lemma seqs_grow_next [grows]: "seqs_grow next_company_id" "seqs_grow next_tag_id" "seqs_grow next_feed_id"
  by (auto simp: seqs_grow_def next_company_id_def next_tag_id_def next_feed_id_def next_serial_def)

lemma seqs_grow_company [grows]: "seqs_grow (get_or_create_company netloc_ok n h i c l fp)"
proof -
  have "seqs_grow (get_company_by_name n)"
    unfolding get_company_by_name_def read_text_def by (intro grows)
  moreover have "seqs_grow (\<lambda>s. (Inr (co, False), s\<lparr>ss_companies := put_row co_id co (ss_companies s)\<rparr>))" for co
    by (simp add: seqs_grow_def)
  moreover have "seqs_grow (insert_company co)" for co unfolding insert_company_def by (intro grows)
  ultimately show ?thesis
    unfolding get_or_create_company_def by (intro grows) (auto split: option.splits intro!: grows)
qed

lemma seqs_grow_tags [grows]: "seqs_grow (get_or_create_tags names)"
proof -
  have "seqs_grow (insert_tag n)" for n unfolding insert_tag_def by (intro grows)
  then have part: "seqs_grow (sql_bind (if missing = [] then sql_return () else sql_bind flush (\<lambda>_. sql_for insert_tag missing))
      (\<lambda>_ s'. (f s', s')))" for missing and f :: "session \<Rightarrow> py_exn + int list \<times> nat"
    by (cases "missing = []") (auto intro!: grows)
  show ?thesis
  proof (cases "dedup_str names = []")
    case True
    then show ?thesis by (simp add: get_or_create_tags_def seqs_grow_return)
  next
    case False
    then show ?thesis
      unfolding get_or_create_tags_def Let_def
      by (simp only: if_False) (rule seqs_grow_bind [OF seqs_grow_return(3)], rule seqs_grow_here, rule part)
  qed
qed

lemma seqs_grow_feed [grows]: "seqs_grow (upsert_feed p ts ex)" "seqs_grow (link_company_to_feed c f)"
  "seqs_grow (delete_company_feeds_not_in_urls c E)" "seqs_grow (list_rss_feeds_by_urls urls)"
proof -
  have ins: "seqs_grow (insert_feed p ts)" unfolding insert_feed_def by (intro grows)
  have "seqs_grow (\<lambda>s. (case feed_object f s of
               None \<Rightarrow> (Inl (OtherException ''ObjectDeletedError''), s)
             | Some feed \<Rightarrow> (Inr (f, False), set_feed_tags f ts (raise_protection f (up_fetchprotection p)
                    (s\<lparr>ss_feeds := put_row fd_id (g feed) (ss_feeds s)\<rparr>)))))" for f g
    by (auto simp: seqs_grow_def split: option.splits)
  then show "seqs_grow (upsert_feed p ts ex)"
    unfolding upsert_feed_def read_text_def using ins
    by (intro grows) (auto split: option.splits intro!: grows)
  show "seqs_grow (link_company_to_feed c f)"
    by (auto simp: seqs_grow_def link_company_to_feed_def split: option.splits if_splits)
  show "seqs_grow (delete_company_feeds_not_in_urls c E)"
    by (auto simp: seqs_grow_def delete_company_feeds_not_in_urls_def Let_def split: if_splits)
  show "seqs_grow (list_rss_feeds_by_urls urls)" unfolding list_rss_feeds_by_urls_def by (intro grows)
qed

lemma seqs_grow_feeds [grows]: "seqs_grow (sync_feeds c existing ps)"
proof (induction ps arbitrary: existing)
  case Nil
  then show ?case by (simp add: seqs_grow_def)
next
  case (Cons p ps)
  have "sync_feeds c existing (p # ps) =
     sql_bind (get_or_create_tags (up_tags p)) (\<lambda>(tags, _).
     sql_bind (upsert_feed p tags (existing (up_url p))) (\<lambda>(feed_id, _).
     sql_bind (link_company_to_feed c feed_id) (\<lambda>_.
       sync_feeds c (existing(up_url p \<mapsto> feed_id)) ps)))" by (rule ext) simp
  then show ?case using Cons by (auto intro!: grows split: prod.splits)
qed

lemma seqs_grow_file [grows]: "seqs_grow (sync_catalog_file netloc_ok files f)"
proof -
  have "seqs_grow (sync_company_feeds co fs)" for co fs
    unfolding sync_company_feeds_def by (intro grows)
  then have "seqs_grow (sync_catalog netloc_ok n cat)" for n cat
    unfolding sync_catalog_def by (cases "ca_img cat") (auto intro!: grows split: prod.splits)
  moreover have "seqs_grow (get_company_by_name n)" for n
    unfolding get_company_by_name_def read_text_def by (intro grows)
  then have "seqs_grow (sync_missing_file n)" for n
    unfolding sync_missing_file_def by (intro grows) (auto split: option.splits intro!: grows)
  ultimately show ?thesis
    unfolding sync_catalog_file_def by (cases "files f = NoPath") (auto intro!: grows)
qed

section \<open>One file\<close>

text \<open>
  C28: a successful synchronisation of one catalog file makes the database what the file says.  The company of the file's name
  exists; the feed of every address of the file is stored with the section, state, score and tags of its last
  entry, belongs to the company, keeps its identifier if it was there, and its protection is the greatest of the entries and what it
  was; the other feeds of the company are gone; and every other feed is as before.
\<close>

theorem one_file_sync_establishes_catalog:
  assumes "clean_session s" and "files f = Payload raw"
    and "sync_changed_files netloc_ok files CommitOk [f] s = (Inr (), s')"
  shows "clean_session s' \<and> (\<exists>n c cat ps.
    extract_company_name f = Inr n \<and> make_catalog raw = Inr cat \<and>
    map_ok (\<lambda>e. normalize_source_feed_entry e (ca_fetchprotection cat)) (ca_feeds cat) = Inr ps \<and>
    (c, if py_strip (ca_company cat) = [] then n else py_strip (ca_company cat)) \<in>
      (\<lambda>r. (co_id r, co_name r)) ` set (db_companies (ss_db s')) \<and>
    catalog_synced c ps (db_view (ss_db s)) (db_view (ss_db s')))"
proof -
  have s: "session_ok s" "clear_changes s = s" using assms(1) by (simp_all add: clean_session_def)
  obtain s1 where s1: "sync_catalog_file netloc_ok files f s = (Inr (), s1)" and fl: "flush s1 = (Inr (), s')"
    using assms(3) by (auto simp: sync_changed_files_def sql_bind_def split: prod.splits sum.splits)
  from s1 show ?thesis
  proof (cases rule: sync_catalog_file_cases)
    case (missing n)
    then show ?thesis using assms(2) by simp
  next
    case (present n raw' cat)
    have n: "stripped n" using present(2) by (rule extract_stripped)
    obtain c ps where v: "session_ok s1"
      "map_ok (\<lambda>e. normalize_source_feed_entry e (ca_fetchprotection cat)) (ca_feeds cat) = Inr ps"
      "(c, if py_strip (ca_company cat) = [] then n else py_strip (ca_company cat)) \<in> set (company_keys s1)"
      "catalog_synced c ps (catalog_view s) (catalog_view s1)"
      using sync_catalog_view [OF s(1) n clean_fields(2) [OF s(2)] present(4-6)] by blast
    have cl: "clean_session s'" by (rule flush_clean [OF v(1) fl])
    then have "catalog_view s' = db_view (ss_db s')" by (simp add: clean_session_def clean_view)
    then have "catalog_synced c ps (db_view (ss_db s)) (db_view (ss_db s'))"
      using v(4) flush_view [OF v(1) fl] clean_view [OF s(2)] by simp
    moreover have "(\<lambda>r. (co_id r, co_name r)) ` set (db_companies (ss_db s')) = set (company_keys s1)"
    proof -
      have e: "(\<lambda>r. (co_id r, co_name r)) = company_key" by (simp add: fun_eq_iff company_key_def)
      show ?thesis unfolding e using arg_cong [OF flush_Inr(6) [OF v(1) fl], of set] by (simp add: company_keys_def)
    qed
    ultimately show ?thesis using cl v(2,3) present(1-3) assms(2) by auto
  qed
qed

section \<open>All files\<close>

lemma session_kept_catalog:
  assumes "session_ok s" and "stripped fallback" and "sync_catalog netloc_ok fallback cat s = (Inr (), s')"
  shows "session_kept s s'"
  using assms(3)
proof (rule sync_catalog_stages)
  let ?name = "if py_strip (ca_company cat) = [] then fallback else py_strip (ca_company cat)"
  fix img co created s1 ps s2
  assume co: "get_or_create_company netloc_ok ?name
       (ca_host cat) (Some (py_strip img)) (normalize_country (ca_country cat)) (normalize_country (ca_language cat))
       (max 0 (min 2 (ca_fetchprotection cat))) s = (Inr (co, created), s1)"
    and ps: "map_ok (\<lambda>f. normalize_source_feed_entry f (co_fetchprotection co)) (ca_feeds cat) = Inr ps"
    and loop: "sync_feeds (co_id co) (\<lambda>u. if u \<in> set (map up_url ps)
        then map_option fd_id (row_with fd_url u (db_feeds (ss_db s1))) else None) ps s1 = (Inr (), s2)"
    and s': "s' = drop_feeds (stale_ids (co_id co) (set (map up_url ps)) (ss_db s2)) s2"
  have name: "stripped ?name" using assms(2) by simp
  note c = get_or_create_company_view [OF assms(1) name co]
  have ok1: "session_ok s1" and k1: "session_kept s s1" using c session_kept_same_view [of s1 s] by simp_all
  have "session_kept s1 s2 \<and> company_keys s2 = company_keys s1 \<and>
      fd_url ` set (ss_feeds s2) \<subseteq> up_url ` set ps \<union> fd_url ` set (ss_feeds s1) \<and>
      (\<forall>u. u \<notin> up_url ` set ps \<longrightarrow> catalog_view s2 u = catalog_view s1 u) \<and>
      (\<forall>u\<in>up_url ` set ps. \<exists>v. catalog_view s2 u = Some v \<and>
        entries_synced (co_id co) (filter (\<lambda>p. up_url p = u) ps) (catalog_view s1 u) v)"
    by (rule sync_feeds_view [OF ok1 _ _ loop]) (use normalized_payload [OF ps] view_id [OF ok1] in simp_all)
  then have k2: "session_kept s1 s2" by (rule conjunct1)
  then have "session_ok s2" by (simp add: session_kept_def)
  then have "session_kept s2 s'" unfolding s' by (rule session_kept_drop)
  then show "session_kept s s'" using k1 k2 by (blast intro: session_kept_trans)
qed

lemma session_kept_file:
  assumes "session_ok s" and "sync_catalog_file netloc_ok files f s = (Inr (), s')"
  shows "session_kept s s'"
  using assms(2)
proof (cases rule: sync_catalog_file_cases)
  case (missing n)
  obtain found s1 where found: "get_company_by_name n s = (Inr found, s1)"
    using missing(3) by (auto simp: sync_missing_file_def sql_bind_Inr)
  then have "s1 = s" using get_company_by_name_Inr by blast
  show ?thesis
  proof (cases found)
    case None
    then show ?thesis
      using missing(3) found \<open>s1 = s\<close> session_kept_refl [OF assms(1)] by (simp add: sync_missing_file_def sql_bind_def)
  next
    case (Some co)
    obtain k where "delete_company_feeds_not_in_urls (co_id co) {} s
        = (Inr k, drop_feeds (stale_ids (co_id co) {} (ss_db s)) s)"
      using delete_company_feeds_eq by blast
    then have "s' = drop_feeds (stale_ids (co_id co) {} (ss_db s)) s"
      using missing(3) found \<open>s1 = s\<close> Some by (simp add: sync_missing_file_def sql_bind_def)
    then show ?thesis using session_kept_drop [OF assms(1)] by simp
  qed
next
  case (present n raw cat)
  then show ?thesis using session_kept_catalog [OF assms(1) extract_stripped] by blast
qed

lemma session_kept_files:
  assumes "session_ok s" and "sql_for (sync_catalog_file netloc_ok files) fs s = (Inr (), s')"
  shows "session_kept s s'"
  using assms
proof (induction fs arbitrary: s)
  case Nil
  then show ?case by (simp add: session_kept_refl)
next
  case (Cons f fs)
  obtain s1 where s1: "sync_catalog_file netloc_ok files f s = (Inr (), s1)"
    "sql_for (sync_catalog_file netloc_ok files) fs s1 = (Inr (), s')"
    using Cons.prems(2) by (auto split: prod.splits sum.splits)
  note k = session_kept_file [OF Cons.prems(1) s1(1)]
  then have "session_ok s1" by (simp add: session_kept_def)
  then show ?case using Cons.IH [OF _ s1(2)] session_kept_trans [OF k] by blast
qed

lemma rolled_back_kept:
  assumes "clean_session s" and "ss_company_seq s \<le> ss_company_seq s1" "ss_feed_seq s \<le> ss_feed_seq s1"
    "ss_tag_seq s \<le> ss_tag_seq s1"
  shows "clean_session (rolled_back s s1)"
proof -
  have s: "session_ok s" "clear_changes s = s" using assms(1) by (simp_all add: clean_session_def)
  note ok = s(1) [unfolded session_ok_def clean_fields [OF s(2)]]
  have "feeds_ok (ss_feed_seq s1) [] (db_feeds (ss_db s))" using ok assms(3) by (auto simp: feeds_ok_def)
  moreover have "scrapings_ok (ss_feed_seq s1) (db_feeds (ss_db s)) [] [] (db_scrapings (ss_db s))"
    using ok assms(3) by (auto simp: scrapings_ok_def)
  moreover have "tags_ok (ss_tag_seq s1) (ss_feed_seq s1) (db_tags (ss_db s)) [] (db_feed_tags (ss_db s))"
    using ok assms(3,4) by (auto simp: tags_ok_def)
  moreover have "companies_ok (ss_company_seq s1) [] (db_companies (ss_db s))"
    using ok assms(2) by (auto simp: companies_ok_def)
  ultimately show ?thesis
    by (simp add: clean_session_def session_ok_def rolled_back_def clear_changes_def)
qed

text \<open>
  What every synchronisation keeps, however many files it processes and wherever it fails: the session is clean
  afterwards and the schema holds; a feed that is still there has the identifier of its address and a protection that did
  not fall; and a failure before the commit leaves the database as it was.
\<close>

lemma sync_changed_files_keeps:
  assumes "clean_session s" and "sync_changed_files netloc_ok files commit fs s = (r, s')"
  shows "clean_session s' \<and> view_kept (ss_feed_seq s) (db_view (ss_db s)) (db_view (ss_db s')) \<and>
    (r \<noteq> Inr () \<and> (\<forall>m. commit \<noteq> CommitRaises True m) \<longrightarrow> ss_db s' = ss_db s)"
proof -
  have s: "session_ok s" "clear_changes s = s" using assms(1) by (simp_all add: clean_session_def)
  define m where "m = sql_bind (sql_for (sync_catalog_file netloc_ok files) fs) (\<lambda>_. flush)"
  obtain r1 s1 where m: "m s = (r1, s1)" by (cases "m s")
  have "seqs_grow m" unfolding m_def by (intro grows)
  then have undone: "clean_session (rolled_back s s1)" "ss_db (rolled_back s s1) = ss_db s"
    using m rolled_back_kept [OF assms(1), of s1] unfolding seqs_grow_def by (auto simp: rolled_back_def)
  have same: "view_kept (ss_feed_seq s) (db_view (ss_db s)) (db_view (ss_db s))"
    using view_kept_refl [of "ss_feed_seq s" s] clean_view [OF s(2)] by simp
  show ?thesis
  proof (cases "fs = []")
    case True
    then show ?thesis using assms same by (simp add: sync_changed_files_def)
  next
    case ne: False
    show ?thesis
    proof (cases r1)
      case (Inl e)
      then show ?thesis using assms(2) m ne undone same by (auto simp: sync_changed_files_def m_def [symmetric])
    next
      case (Inr x)
      obtain s0 where s0: "sql_for (sync_catalog_file netloc_ok files) fs s = (Inr (), s0)" "flush s0 = (Inr (), s1)"
        using m Inr by (auto simp: m_def sql_bind_Inr)
      have k0: "session_kept s s0" by (rule session_kept_files [OF s(1) s0(1)])
      then have ok0: "session_ok s0" by (simp add: session_kept_def)
      have cl: "clean_session s1" by (rule flush_clean [OF ok0 s0(2)])
      have "session_kept s s1" using session_kept_trans [OF k0 session_kept_flush [OF ok0 s0(2)]] .
      then have v: "view_kept (ss_feed_seq s) (db_view (ss_db s)) (db_view (ss_db s1))"
        using clean_view [OF s(2)] clean_view [of s1] cl by (simp add: session_kept_def clean_session_def)
      have "s' = s1 \<or> s' = rolled_back s s1 \<and> (\<exists>m. commit = CommitRaises False m)"
        "r \<noteq> Inr () \<Longrightarrow> (\<exists>m. commit = CommitRaises True m) \<or> s' = rolled_back s s1"
        using assms(2) m ne Inr
        by (auto simp: sync_changed_files_def m_def [symmetric] split: commit_outcome.splits if_splits)
      then show ?thesis using cl v undone same by auto
    qed
  qed
qed

section \<open>Samples\<close>

definition blank_db :: database where
  "blank_db = \<lparr>db_companies = [], db_feeds = [], db_tags = [], db_feed_tags = [], db_scrapings = [], db_jobs = [],
     db_job_feeds = [], db_results = [], db_sources = [], db_source_links = [], source_seq = 1\<rparr>"

definition blank_session :: session where
  "blank_session = \<lparr>ss_db = blank_db, ss_companies = [], ss_feeds = [], ss_feed_tags = [], ss_scrapings = [],
     ss_new_scrapings = [], ss_company_seq = 1, ss_feed_seq = 1, ss_tag_seq = 1\<rparr>"

definition sample_catalog :: "string \<Rightarrow> catalog" where
  "sample_catalog company = \<lparr>ca_company = company, ca_host = Some ''a.example'', ca_img = Some [], ca_country = Some ''fr'',
     ca_language = Some ''fr'', ca_fetchprotection = 1,
     ca_feeds = [\<lparr>cf_url = ''u1'', cf_title = ''News'', cf_tags = [''x''], cf_enabled = True, cf_trust_score = 1 / 2,
                  cf_fetchprotection = None\<rparr>]\<rparr>"

lemma sample_clean: "clean_session blank_session"
  by (simp add: clean_session_def session_ok_def blank_session_def blank_db_def clear_changes_def feeds_ok_def
      scrapings_ok_def tags_ok_def companies_ok_def unique_key_def)

lemma sample_sync:
  "\<exists>s'. sync_changed_files (\<lambda>_. True) (\<lambda>_. Payload (sample_catalog ''a'')) CommitOk [''json/a.json''] blank_session
    = (Inr (), s')"
proof -
  have "fst (sync_changed_files (\<lambda>_. True) (\<lambda>_. Payload (sample_catalog ''a'')) CommitOk [''json/a.json''] blank_session)
      = Inr ()" by code_simp
  then show ?thesis by (metis prod.collapse)
qed

theorem one_file_sync_establishes_catalog_witness:
  "\<exists>s' n c cat ps. sync_changed_files (\<lambda>_. True) (\<lambda>_. Payload (sample_catalog ''a'')) CommitOk [''json/a.json''] blank_session
    = (Inr (), s') \<and> make_catalog (sample_catalog ''a'') = Inr cat \<and>
    catalog_synced c ps (db_view (ss_db blank_session)) (db_view (ss_db s')) \<and>
    extract_company_name ''json/a.json'' = Inr n"
proof -
  obtain s' where s': "sync_changed_files (\<lambda>_. True) (\<lambda>_. Payload (sample_catalog ''a'')) CommitOk [''json/a.json'']
      blank_session = (Inr (), s')" using sample_sync by blast
  then show ?thesis
    using one_file_sync_establishes_catalog [OF sample_clean refl s'] by blast
qed

section \<open>A feed that changes its company\<close>

definition company_named :: "int \<Rightarrow> string \<Rightarrow> company_row" where
  "company_named i n = \<lparr>co_id = i, co_name = n, co_host = None, co_icon_url = None, co_country = None, co_language = None,
     co_fetchprotection = 1, co_enabled = True\<rparr>"

text \<open>Two companies; the feed belongs to the second, and has articles.\<close>

definition two_companies :: session where
  "two_companies = blank_session\<lparr>ss_company_seq := 3, ss_feed_seq := 2, ss_tag_seq := 2, ss_db := blank_db\<lparr>
     db_companies := [company_named 1 ''a'', company_named 2 ''b''], db_tags := [\<lparr>tg_id = 1, tg_name = ''x''\<rparr>],
     db_feeds := [\<lparr>fd_id = 1, fd_url = ''u1'', fd_section = None, fd_enabled = True, fd_trust_score = 1 / 2,
                    fd_company_id = Some 2\<rparr>],
     db_scrapings := [new_scraping 1 1],
     db_source_links := [\<lparr>sl_source_id = 7, sl_feed_id = 1, sl_published_at = 0\<rparr>]\<rparr>\<rparr>"

text \<open>The catalog now lists it under the first.\<close>

definition moved_files :: "int \<Rightarrow> string \<Rightarrow> catalog_path" where
  "moved_files level f =
     (if f = ''json/a.json'' then Payload ((sample_catalog ''a'')\<lparr>ca_fetchprotection := level\<rparr>)
      else if f = ''json/b.json'' then Payload ((sample_catalog ''b'')\<lparr>ca_feeds := []\<rparr>) else NoPath)"

text \<open>
  The changes of a file wait in the session while the next file reads and deletes in the database.  An example: one
  feed moves from the catalog of one company to that of another.  If the file of its new company comes first, the feed is
  deleted although the catalog lists it, and with it the links of its articles; if the file of its old company comes first,
  it is stored anew, without its history; and if the move raises its protection, the synchronisation of the two
  files fails on the scraping state of the deleted feed.
\<close>

lemma moved_feed_depends_on_order:
  "(case sync_changed_files (\<lambda>_. True) (moved_files 1) CommitOk [''json/a.json'', ''json/b.json''] two_companies of
      (r, s') \<Rightarrow> r = Inr () \<and> db_feeds (ss_db s') = [] \<and> db_source_links (ss_db s') = []) \<and>
   (case sync_changed_files (\<lambda>_. True) (moved_files 1) CommitOk [''json/b.json'', ''json/a.json''] two_companies of
      (r, s') \<Rightarrow> r = Inr () \<and> map (\<lambda>f. (fd_id f, fd_url f, fd_company_id f)) (db_feeds (ss_db s')) = [(2, ''u1'', Some 1)] \<and>
        db_source_links (ss_db s') = []) \<and>
   (case sync_changed_files (\<lambda>_. True) (moved_files 2) CommitOk [''json/a.json'', ''json/b.json''] two_companies of
      (r, s') \<Rightarrow> r = Inl (OtherException ''StaleDataError'') \<and> ss_db s' = ss_db two_companies)"
  by (intro conjI; code_simp)

end
