(* ===== verification/Git_Properties.thy ===== *)
theory Git_Properties
  imports Catalog_Git Catalog_Properties
begin

text \<open>
  The synchronisation around its transaction: whatever git does, the session stays sound and a failure leaves the database
  alone; which paths are processed; how two addresses of one repository compare; and what the design can lose.
\<close>

section \<open>The whole synchronisation\<close>

lemma up_to_date_files:
  assumes "sync_rss_feeds_repository netloc_ok gh url path branch False w = (Inr sync, w')" and "rs_action sync = UpToDate"
  shows "rs_changed_files sync = []"
proof -
  obtain res w1 where res: "pull_or_clone netloc_ok gh url path branch w = (Inr res, w1)"
    using assms(1) unfolding sync_rss_feeds_repository_def sql_bind_Inr by blast
  have "rs_action sync = pr_action res"
    using assms(1) res by (auto simp: sync_rss_feeds_repository_def sql_bind_Inr)
  then have "pr_action res = UpToDate" using assms(2) by simp
  then show ?thesis using assms(1) res by (auto simp: sync_rss_feeds_repository_def sql_bind_Inr)
qed

text \<open>
  C31: whatever git answers and whatever the files hold, a synchronisation that runs on a sound session leaves a sound one: an
  error, be it of git, of a catalog or of the database, leaves the database as it was unless the server applied the commit it
  failed to confirm; feeds that stay keep their identifier and never lose protection; and an
  unforced run that finds the repository up to date changes nothing at all.
\<close>

theorem sync_is_safe_around_git:
  assumes "clean_session s" and "sync_rss_catalog netloc_ok gh env commit force (w, s) = (r, (w', s'))"
  shows "clean_session s' \<and> view_kept (ss_feed_seq s) (db_view (ss_db s)) (db_view (ss_db s')) \<and>
    ((\<exists>e. r = Inl e) \<and> (\<forall>m. commit \<noteq> CommitRaises True m) \<longrightarrow> ss_db s' = ss_db s) \<and>
    (r = Inr UpToDate \<and> \<not> force \<longrightarrow> s' = s)"
proof -
  obtain r1 w1 where g: "sync_rss_feeds_repository netloc_ok gh (get_rss_feeds_repository_url env)
      (get_rss_feeds_repository_path env) (get_rss_feeds_repository_branch env) force w = (r1, w1)" by (metis prod.collapse)
  show ?thesis
  proof (cases r1)
    case (Inl e)
    then have "s' = s" "r = Inl e" using assms(2) g by (simp_all add: sync_rss_catalog_def Let_def)
    moreover have "view_kept (ss_feed_seq s) (db_view (ss_db s)) (db_view (ss_db s))"
      using sync_changed_files_keeps [OF assms(1), of netloc_ok "\<lambda>_. NoPath" CommitOk "[]"] by (simp add: sync_changed_files_def)
    ultimately show ?thesis using assms(1) by simp
  next
    case (Inr sync)
    let ?files = "\<lambda>f. gh_catalog gh (get_rss_feeds_repository_path env) f w1"
    obtain r2 s2 where t: "sync_changed_files netloc_ok ?files commit (rs_changed_files sync) s = (r2, s2)"
      by (metis prod.collapse)
    have s': "s' = s2" and r: "r = (case r2 of Inl e \<Rightarrow> Inl e | Inr _ \<Rightarrow> Inr (rs_action sync))"
      using assms(2) g Inr t by (auto simp: sync_rss_catalog_def Let_def split: sum.splits)
    have "s' = s" if "r = Inr UpToDate" "\<not> force"
    proof -
      have "rs_action sync = UpToDate" using that(1) r by (auto split: sum.splits)
      moreover have "sync_rss_feeds_repository netloc_ok gh (get_rss_feeds_repository_url env)
          (get_rss_feeds_repository_path env) (get_rss_feeds_repository_branch env) False w = (Inr sync, w1)"
        using g Inr that(2) by simp
      ultimately have "rs_changed_files sync = []" by (intro up_to_date_files)
      then show ?thesis using t s' by (simp add: sync_changed_files_def)
    qed
    moreover have "r2 \<noteq> Inr ()" if "\<exists>e. r = Inl e" using that r by (auto split: sum.splits)
    ultimately show ?thesis using sync_changed_files_keeps [OF assms(1) t] s' by blast
  qed
qed

section \<open>Paths\<close>

lemma drop_dot_slash_id: "\<not> starts_with ''./'' s \<Longrightarrow> drop_dot_slash s = s"
  by (induction s rule: drop_dot_slash.induct) (auto simp: starts_with_def)

text \<open>Every processed path lies in the catalog directory, whether the changed file did or not.\<close>

lemma processed_paths_in_catalog:
  "to_repository_relative_catalog_path p = ''json'' \<or> starts_with ''json/'' (to_repository_relative_catalog_path p)"
  by (simp add: to_repository_relative_catalog_path_def Let_def starts_with_def)

section \<open>Addresses\<close>

definition plain_char :: "char \<Rightarrow> bool" where
  "plain_char c \<longleftrightarrow> 32 < code_point c \<and> \<not> py_isspace c \<and> c \<notin> set ''?#;:[]@''"

lemma plain_charD: "plain_char c \<Longrightarrow> \<not> py_isspace c" "plain_char c \<Longrightarrow> 32 < code_point c"
  by (simp_all add: plain_char_def)

lemma no_space_strip: "\<forall>c\<in>set s. \<not> py_isspace c \<Longrightarrow> py_strip s = s"
  by (rule stripped_strip_id) (auto simp: stripped_def)

lemma no_slash_front: "p \<noteq> [] \<Longrightarrow> hd p \<noteq> CHR ''/'' \<Longrightarrow> dropWhile (\<lambda>c. c = CHR ''/'') (p @ q) = p @ q"
  by (cases p) auto

lemma slashes_front: "list_all (\<lambda>c. c = CHR ''/'') a \<Longrightarrow> dropWhile (\<lambda>c. c = CHR ''/'') (a @ q) = dropWhile (\<lambda>c. c = CHR ''/'') q"
  by (induction a) auto

lemma normalize_path_trims:
  assumes "p \<noteq> []" "hd p \<noteq> CHR ''/''" "last p \<noteq> CHR ''/''" "\<forall>c\<in>set p. plain_char c"
    and "list_all (\<lambda>c. c = CHR ''/'') a" and "list_all (\<lambda>c. c = CHR ''/'') b"
  shows "normalize_repository_path (a @ p @ b) = (if ends_with ''.git'' p then take (length p - 4) p else p)"
proof -
  have slash: "\<not> py_isspace CHR ''/''" by code_simp
  have "\<not> py_isspace c" if "c \<in> set (a @ p @ b)" for c
  proof (cases "c \<in> set p")
    case True
    then show ?thesis using assms(4) plain_charD(1) by blast
  next
    case False
    then have "c = CHR ''/''" using that assms(5,6) unfolding list_all_iff by fastforce
    then show ?thesis using slash by simp
  qed
  then have "\<forall>c\<in>set (a @ p @ b). \<not> py_isspace c" by blast
  then have st: "py_strip (a @ p @ b) = a @ p @ b" by (rule no_space_strip)
  have "dropWhile (\<lambda>c. c = CHR ''/'') (a @ p @ b) = p @ b"
    using slashes_front [OF assms(5)] no_slash_front [OF assms(1,2)] by simp
  moreover have "dropWhile (\<lambda>c. c = CHR ''/'') (rev (p @ b)) = rev p"
  proof -
    have "list_all (\<lambda>c. c = CHR ''/'') (rev b)" using assms(6) by (simp add: list_all_iff)
    then have "dropWhile (\<lambda>c. c = CHR ''/'') (rev b @ rev p) = dropWhile (\<lambda>c. c = CHR ''/'') (rev p)" by (rule slashes_front)
    also have "\<dots> = rev p" using no_slash_front [of "rev p" "[]"] assms(1,3) by (simp add: hd_rev)
    finally show ?thesis by simp
  qed
  ultimately show ?thesis unfolding normalize_repository_path_def Let_def st by simp
qed

lemma urlparse_https:
  assumes "\<forall>c\<in>set h. plain_char c \<and> c \<noteq> CHR ''/''" and "\<forall>c\<in>set q. plain_char c"
  shows "urlparse (''https://'' @ h @ CHR ''/'' # q) = (''https'', h, CHR ''/'' # q)"
proof -
  let ?u = "''https://'' @ h @ CHR ''/'' # q"
  have pl: "\<forall>c\<in>set (h @ CHR ''/'' # q). 32 < code_point c \<and> c \<notin> set ''?#;''"
  proof -
    have "32 < code_point CHR ''/'' \<and> CHR ''/'' \<notin> set ''?#;''" by code_simp
    then show ?thesis using assms unfolding plain_char_def by auto
  qed
  have clean: "urlsplit_clean ?u = ?u"
  proof -
    have "list_all (\<lambda>c. 32 < code_point c) ''https://''" by code_simp
    then have all: "\<forall>c\<in>set ?u. 32 < code_point c" using pl by (simp add: list_all_iff)
    have "hd ?u = CHR ''h''" by simp
    moreover have "\<not> code_point CHR ''h'' \<le> 32" by code_simp
    ultimately have "dropWhile (\<lambda>c. code_point c \<le> 32) ?u = ?u" by simp
    moreover have "filter (\<lambda>c. code_point c \<notin> {9, 10, 13}) ?u = ?u"
    proof (intro filter_True ballI)
      fix c assume "c \<in> set ?u"
      then have "32 < code_point c" using all by blast
      then show "code_point c \<notin> {9, 10, 13}" by auto
    qed
    ultimately show ?thesis by (simp only: urlsplit_clean_def)
  qed
  have scheme: "before_first CHR '':'' ?u = ''https''" "after_first CHR '':'' ?u = ''//'' @ h @ CHR ''/'' # q"
    using before_after_first [of "CHR '':''" "''https''" "''//'' @ h @ CHR ''/'' # q"] by simp_all
  have net: "takeWhile (\<lambda>c. c \<notin> set ''/?#'') (h @ CHR ''/'' # q) = h"
  proof -
    have "\<forall>c\<in>set h. c \<notin> set ''/?#''" using assms(1) by (auto simp: plain_char_def)
    then show ?thesis by (simp add: takeWhile_append2)
  qed
  have path: "takeWhile (\<lambda>c. c \<notin> set ''?#'') (CHR ''/'' # q) = CHR ''/'' # q"
    using pl by (auto simp: takeWhile_eq_all_conv)
  have par: "strip_params (CHR ''/'' # q) = CHR ''/'' # q"
  proof -
    let ?t = "after_last CHR ''/'' (CHR ''/'' # q)"
    have "CHR '';'' \<notin> set ?t" using set_after_last [of _ "CHR ''/''" "CHR ''/'' # q"] pl by fastforce
    then have "before_first CHR '';'' ?t = ?t" by (auto simp: before_first_def takeWhile_eq_all_conv)
    moreover have "take (length (CHR ''/'' # q) - length ?t) (CHR ''/'' # q) @ ?t = CHR ''/'' # q"
    proof -
      obtain z where "rev (CHR ''/'' # q) = takeWhile (\<lambda>d. d \<noteq> CHR ''/'') (rev (CHR ''/'' # q)) @ z"
        by (metis takeWhile_dropWhile_id)
      then have e: "CHR ''/'' # q = rev z @ ?t" unfolding after_last_def by (metis rev_append rev_rev_ident)
      show ?thesis by (subst (1 2 4) e) (simp del: rev.simps)
    qed
    ultimately show ?thesis by (simp add: strip_params_def Let_def)
  qed
  show ?thesis
    unfolding urlparse_def Let_def clean scheme using net path par
    by (simp add: takeWhile_eq_all_conv [THEN iffD2] url_letter_def url_scheme_char_def starts_with_def param_schemes_def code_point_def py_lower_def py_lower_char_def)
qed

text \<open>
  The addresses of the repository \<open>p\<close> of the host \<open>h\<close>: by ssh or by https, with the suffix or without,
  and with any number of final slashes.
\<close>

definition plain_repository :: "string \<Rightarrow> string \<Rightarrow> bool" where
  "plain_repository h p \<longleftrightarrow> h \<noteq> [] \<and> list_all (\<lambda>c. plain_char c \<and> c \<noteq> CHR ''/'') h \<and>
     p \<noteq> [] \<and> hd p \<noteq> CHR ''/'' \<and> last p \<noteq> CHR ''/'' \<and> list_all plain_char p \<and> \<not> ends_with ''.git'' p"

definition repository_address :: "bool \<Rightarrow> string \<Rightarrow> string \<Rightarrow> bool \<Rightarrow> nat \<Rightarrow> string" where
  "repository_address ssh h p suffix slashes =
     (if ssh then ''git@'' @ h @ '':'' else ''https://'' @ h @ ''/'') @
     p @ (if suffix then ''.git'' else []) @ replicate slashes CHR ''/''"

lemma ends_with_append: "ends_with b (a @ b)"
  by (auto simp: ends_with_iff)

lemma normalize_ssh_address:
  assumes "\<forall>c\<in>set h. plain_char c" and "\<forall>c\<in>set q. plain_char c"
  shows "normalize_repository_url netloc_ok (''git@'' @ h @ '':'' @ q) =
    Inr (py_lower h @ ''/'' @ normalize_repository_path q)"
proof -
  have "list_all (\<lambda>c. \<not> py_isspace c) ''git@:''" by code_simp
  then have "\<forall>c\<in>set (''git@'' @ h @ '':'' @ q). \<not> py_isspace c"
    using assms plain_charD(1) by (auto simp: list_all_iff)
  then have st: "py_strip (''git@'' @ h @ '':'' @ q) = ''git@'' @ h @ '':'' @ q" by (rule no_space_strip)
  have "CHR '':'' \<notin> set h" using assms(1) by (auto simp: plain_char_def)
  then show ?thesis
    unfolding normalize_repository_url_def Let_def st using before_after_first [of "CHR '':''" h q]
    by (simp add: starts_with_def)
qed

lemma normalize_https_address:
  assumes "h \<noteq> []" "netloc_ok h" and "\<forall>c\<in>set h. plain_char c \<and> c \<noteq> CHR ''/''" and "\<forall>c\<in>set q. plain_char c"
  shows "normalize_repository_url netloc_ok (''https://'' @ h @ ''/'' @ q) =
    Inr (py_lower h @ ''/'' @ normalize_repository_path (''/'' @ q))"
proof -
  have "list_all (\<lambda>c. \<not> py_isspace c) ''https:/''" by code_simp
  then have "\<forall>c\<in>set (''https://'' @ h @ ''/'' @ q). \<not> py_isspace c"
    using assms(3,4) plain_charD(1) by (auto simp: list_all_iff)
  then have st: "py_strip (''https://'' @ h @ ''/'' @ q) = ''https://'' @ h @ ''/'' @ q" by (rule no_space_strip)
  have br: "CHR ''['' \<notin> set h" "CHR '']'' \<notin> set h" using assms(3) by (auto simp: plain_char_def)
  show ?thesis
    unfolding normalize_repository_url_def Let_def st using urlparse_https [OF assms(3,4)] br assms(1,2)
    by (simp add: starts_with_def)
qed

lemma normalize_address:
  assumes plain: "plain_repository h p" and ok: "netloc_ok h"
  shows "normalize_repository_url netloc_ok (repository_address ssh h p suffix slashes) = Inr (py_lower h @ ''/'' @ p)"
proof -
  let ?g = "p @ (if suffix then ''.git'' else [])" and ?s = "replicate slashes CHR ''/''"
  have p: "p \<noteq> []" "hd p \<noteq> CHR ''/''" "last p \<noteq> CHR ''/''" "\<forall>c\<in>set p. plain_char c" "\<not> ends_with ''.git'' p"
    and h: "h \<noteq> []" "\<forall>c\<in>set h. plain_char c \<and> c \<noteq> CHR ''/''"
    using plain by (simp_all add: plain_repository_def list_all_iff)
  have chars: "list_all plain_char ''.git''" "plain_char CHR ''/''" by code_simp+
  have g: "?g \<noteq> []" "hd ?g \<noteq> CHR ''/''" "last ?g \<noteq> CHR ''/''" "\<forall>c\<in>set ?g. plain_char c"
    using p chars(1) by (auto simp: list_all_iff)
  have q: "\<forall>c\<in>set (?g @ ?s). plain_char c" using g(4) chars(2) by auto
  have cut: "(if ends_with ''.git'' ?g then take (length ?g - 4) ?g else ?g) = p"
    using p(5) ends_with_append [of "''.git''" p] by simp
  have slash: "list_all (\<lambda>c. c = CHR ''/'') ?s" by (simp add: list_all_iff)
  have "normalize_repository_path (?g @ ?s) = p" "normalize_repository_path (''/'' @ ?g @ ?s) = p"
    using normalize_path_trims [OF g, of "[]" ?s] normalize_path_trims [OF g, of "''/''" ?s] slash cut by simp_all
  then show ?thesis
    using normalize_ssh_address [OF _ q, of h netloc_ok] normalize_https_address [of h netloc_ok, OF h(1) ok h(2) q] h(2)
    by (simp add: repository_address_def)
qed

lemma same_repository_iff:
  assumes "CHR ''/'' \<notin> set h" and "CHR ''/'' \<notin> set k"
  shows "h @ ''/'' @ p = k @ ''/'' @ q \<longleftrightarrow> h = k \<and> p = q"
  using before_after_first [OF assms(1), of p] before_after_first [OF assms(2), of q] by auto

lemma lower_no_slash:
  assumes "\<forall>c\<in>set h. c \<noteq> CHR ''/''"
  shows "CHR ''/'' \<notin> set (py_lower h)"
proof
  assume "CHR ''/'' \<in> set (py_lower h)"
  then have "CHR ''/'' \<in> py_lower_char ` set h" by (simp only: py_lower_def set_map)
  then obtain c where c: "CHR ''/'' = py_lower_char c" "c \<in> set h" by (rule imageE)
  have "code_point CHR ''/'' < 97" by code_simp
  then have "c = CHR ''/''" by (rule lower_char_eq [OF c(1) [symmetric]])
  then show False using assms c(2) by blast
qed

text \<open>
  C32: a working copy and the configured address.  Take two addresses, each \<^verbatim>\<open>git@host:path\<close> or
  \<^verbatim>\<open>https://host/path\<close>, with the suffix \<^verbatim>\<open>.git\<close> or without and with any number of final slashes, of plain
  characters (no white space, none of \<^verbatim>\<open>: ? # ; [ ] @\<close>, and no slash in the host).  When git answers the first as the
  address of the working copy, the check against the second accepts it exactly when the paths are equal and the
  hosts are equal in lower case; then it sets the address of the working copy if and only if the two texts differ, and
  otherwise it raises the mismatch without another command.
\<close>

theorem repository_addresses_agree:
  assumes "plain_repository h p" "netloc_ok h" and "plain_repository k q" "netloc_ok k"
    and current: "current = repository_address ssh h p suffix slashes"
    and expected: "expected = repository_address ssh' k q suffix' slashes'"
    and git: "run_git_command gh [''config'', ''--get'', ''remote.origin.url''] (Some path) w = (Inr current, w')"
  shows "validate_repository_remote netloc_ok gh path expected w =
    (if py_lower h = py_lower k \<and> p = q
     then if current = expected then (Inr (), w')
          else case run_git_command gh [''remote'', ''set-url'', ''origin'', expected] (Some path) w' of
            (Inl e, w'') \<Rightarrow> (Inl e, w'') | (Inr _, w'') \<Rightarrow> (Inr (), w'')
     else (Inl (git_error (''Repository remote mismatch for '' @ path_text path @ ''. Expected '' @ expected @
            '', got '' @ current @ ''.'')), w'))"
proof -
  have "CHR ''/'' \<notin> set (py_lower h)" "CHR ''/'' \<notin> set (py_lower k)"
    using assms(1,3) by (auto simp: plain_repository_def list_all_iff intro!: lower_no_slash)
  then have same: "py_lower h @ ''/'' @ p = py_lower k @ ''/'' @ q \<longleftrightarrow> py_lower h = py_lower k \<and> p = q"
    by (rule same_repository_iff)
  have "normalize_repository_url netloc_ok current = Inr (py_lower h @ ''/'' @ p)"
    "normalize_repository_url netloc_ok expected = Inr (py_lower k @ ''/'' @ q)"
    unfolding current expected using normalize_address assms(1-4) by blast+
  then show ?thesis
    unfolding validate_repository_remote_def sql_bind_def sql_lift_def sql_raise_def sql_return_def git
    using same by (simp split: prod.splits sum.splits)
qed

text \<open>A working copy that has nothing but the address of its remote.\<close>

definition remote_git :: "string git_host" where
  "remote_git =
     \<lparr>gh_run = (\<lambda>cmd cwd current.
        if cmd ! 3 = ''config'' then (GitOk current, current) else (GitOk [], last cmd)),
      gh_exists = (\<lambda>_ _. True), gh_is_dir = (\<lambda>_ _. True), gh_entries = (\<lambda>_ _. [''.git'']),
      gh_mkdir = (\<lambda>_ w. (None, w)), gh_below = (\<lambda>_ _. []), gh_catalog = (\<lambda>_ _ _. NoPath)\<rparr>"

theorem repository_addresses_agree_witness:
  "validate_repository_remote (\<lambda>_. True) remote_git [''d''] ''https://github.com/Dorn-15/rss_feeds/''
     ''git@GitHub.com:Dorn-15/rss_feeds.git'' = (Inr (), ''https://github.com/Dorn-15/rss_feeds/'')"
proof -
  let ?u = "''git@GitHub.com:Dorn-15/rss_feeds.git''" and ?v = "''https://github.com/Dorn-15/rss_feeds/''"
  have git: "run_git_command remote_git [''config'', ''--get'', ''remote.origin.url''] (Some [''d'']) ?u = (Inr ?u, ?u)"
    "run_git_command remote_git [''remote'', ''set-url'', ''origin'', ?v] (Some [''d'']) ?u = (Inr [], ?v)"
    by code_simp+
  have plain: "plain_repository ''GitHub.com'' ''Dorn-15/rss_feeds''" "plain_repository ''github.com'' ''Dorn-15/rss_feeds''"
    by code_simp+
  have forms: "?u = repository_address True ''GitHub.com'' ''Dorn-15/rss_feeds'' True 0"
    "?v = repository_address False ''github.com'' ''Dorn-15/rss_feeds'' False 1" by code_simp+
  have host: "py_lower ''GitHub.com'' = py_lower ''github.com''" by code_simp
  have "validate_repository_remote (\<lambda>_. True) remote_git [''d''] ?v ?u =
      (case run_git_command remote_git [''remote'', ''set-url'', ''origin'', ?v] (Some [''d'']) ?u of
         (Inl e, w'') \<Rightarrow> (Inl e, w'') | (Inr _, w'') \<Rightarrow> (Inr (), w''))"
    by (rule trans [OF repository_addresses_agree [OF plain(1) TrueI plain(2) TrueI forms git(1)]]) (simp add: host)
  then show ?thesis unfolding git(2) by simp
qed

text \<open>
  The other form of ssh is not recognised: its user stays in the normal form, so a working copy cloned by it is refused
  when the same repository is configured by \<^verbatim>\<open>git@host:path\<close>.
\<close>

lemma ssh_scheme_is_not_recognised:
  "normalize_repository_url (\<lambda>_. True) ''ssh://git@github.com/Dorn-15/rss_feeds'' = Inr ''git@github.com/Dorn-15/rss_feeds''"
  "normalize_repository_url (\<lambda>_. True) ''git@github.com:Dorn-15/rss_feeds'' = Inr ''github.com/Dorn-15/rss_feeds''"
  by code_simp+

section \<open>What is lost\<close>

text \<open>A working copy with its revision and the one of its remote; every change is the given list of paths.\<close>

definition sample_git :: "string \<Rightarrow> (string \<Rightarrow> catalog_path) \<Rightarrow> (string \<times> string) git_host" where
  "sample_git changes contents =
     \<lparr>gh_run = (\<lambda>cmd cwd (local, remote).
        let c = drop 3 cmd in
        if hd c = ''config'' then (GitOk ''https://github.com/Dorn-15/rss_feeds'', (local, remote))
        else if c = [''rev-parse'', ''HEAD''] then (GitOk local, (local, remote))
        else if hd c = ''rev-parse'' then (GitOk remote, (local, remote))
        else if hd c = ''pull'' then (GitOk [], (remote, remote))
        else if hd c = ''diff'' then (GitOk changes, (local, remote))
        else (GitOk [], (local, remote))),
      gh_exists = (\<lambda>_ _. True), gh_is_dir = (\<lambda>_ _. True), gh_entries = (\<lambda>_ _. [''.git'']),
      gh_mkdir = (\<lambda>_ w. (None, w)), gh_below = (\<lambda>_ _. []), gh_catalog = (\<lambda>_ f _. contents f)\<rparr>"

definition no_env :: repository_env where
  "no_env = \<lparr>env_RSS_FEEDS_REPOSITORY_URL = None, env_RSS_FEEDS_REPOSITORY_BRANCH = None, env_RSS_FEEDS_REPOSITORY_PATH = None\<rparr>"

theorem sync_is_safe_around_git_witness:
  "clean_session (snd (snd (sync_rss_catalog (\<lambda>_. True) (sample_git ''json/a.json'' (\<lambda>_. Payload (sample_catalog ''a'')))
    no_env CommitOk False ((''old'', ''new''), blank_session))))"
proof -
  obtain r w' s' where "sync_rss_catalog (\<lambda>_. True) (sample_git ''json/a.json'' (\<lambda>_. Payload (sample_catalog ''a'')))
      no_env CommitOk False ((''old'', ''new''), blank_session) = (r, (w', s'))" by (metis prod.collapse)
  from sync_is_safe_around_git [OF sample_clean this] this show ?thesis by simp
qed

text \<open>
  The pull is not undone when the transaction fails, and git lists changed paths of the whole repository.  So after a
  synchronisation that failed on one broken catalog, the next one finds the repository up to date and applies nothing of
  what was pulled; and a changed file outside the catalog directory is taken for a missing catalog of the company of its
  name, which loses all its feeds.
\<close>

theorem pulled_changes_can_be_lost:
  "(let gh = sample_git ''json/a.json'' (\<lambda>_. InvalidJson);
        (r1, w1, s1) = sync_rss_catalog (\<lambda>_. True) gh no_env CommitOk False ((''old'', ''new''), two_companies);
        (r2, w2, s2) = sync_rss_catalog (\<lambda>_. True) gh no_env CommitOk False (w1, s1)
    in r1 = Inl catalog_parse_error \<and> r2 = Inr UpToDate \<and> ss_db s2 = ss_db two_companies) \<and>
   (let gh = sample_git ''drafts/b.json'' (\<lambda>_. NoPath);
        (r, w, s) = sync_rss_catalog (\<lambda>_. True) gh no_env CommitOk False ((''old'', ''new''), two_companies)
    in r = Inr Update \<and> map fd_company_id (db_feeds (ss_db two_companies)) = [Some 2] \<and> db_feeds (ss_db s) = [])"
  by (intro conjI; code_simp)

end
