(* ===== verification/Py_Calendar.thy ===== *)
theory Py_Calendar
  imports Py_Datetime Py_Text
begin

text \<open>
  The civil date of a day count and its text \<^verbatim>\<open>strftime("%Y%m%d")\<close>, from which the names of the weekly
  partitions are made: distinct days of the years 1000 to 9999 have distinct texts.
\<close>

section \<open>The civil date\<close>

definition ordinal_year :: "int \<Rightarrow> int" where
  "ordinal_year n =
     (let n400 = (n - 1) div 146097; r400 = (n - 1) mod 146097;
          n100 = min 3 (r400 div 36524); r100 = r400 - n100 * 36524;
          n4 = r100 div 1461; r4 = r100 mod 1461;
          n1 = min 3 (r4 div 365)
      in 400 * n400 + 100 * n100 + 4 * n4 + n1 + 1)"

definition month_of_day :: "int \<Rightarrow> int \<Rightarrow> nat" where
  "month_of_day y day = last (filter (\<lambda>m. days_before_month y m \<le> day) [1..<13])"

definition civil_date :: "int \<Rightarrow> int \<times> nat \<times> int" where
  "civil_date n =
     (let y = ordinal_year n;
          day = n - 1 - days_before_year y;
          m = month_of_day y day
      in (y, m, day - days_before_month y m + 1))"

fun padded :: "nat \<Rightarrow> nat \<Rightarrow> string" where
  "padded 0 n = []"
| "padded (Suc k) n = padded k (n div 10) @ [digit_char (n mod 10)]"

text \<open>The days are counted as \<^verbatim>\<open>date.toordinal\<close> does; 719163 is the first of January 1970.\<close>

definition date_text :: "py_datetime \<Rightarrow> string" where
  "date_text d =
     (case civil_date (wall_us d div us_per_day + 719163) of
        (y, m, day) \<Rightarrow> padded 4 (nat y) @ padded 2 m @ padded 2 (nat day))"

section \<open>A date determines its day\<close>

lemma civil_date_ordinal: "civil_date n = (y, m, d) \<Longrightarrow> ymd_ordinal y m d = n"
  by (auto simp: civil_date_def ymd_ordinal_def Let_def)

lemma days_before_year_split:
  fixes a b c d :: int
  assumes "0 \<le> b" "b \<le> 3" "0 \<le> c" "c \<le> 24" "0 \<le> d" "d \<le> 3"
  shows "days_before_year (400 * a + 100 * b + 4 * c + d + 1) = 146097 * a + 36524 * b + 1461 * c + 365 * d"
proof -
  have "(400 * a + 100 * b + 4 * c + d) div 4 = 100 * a + 25 * b + c"
    "(400 * a + 100 * b + 4 * c + d) div 100 = 4 * a + b"
    "(400 * a + 100 * b + 4 * c + d) div 400 = a"
    using assms by simp_all
  then show ?thesis by (simp add: days_before_year_def Let_def)
qed

lemma min_div_rest:
  fixes q r :: int
  assumes "0 \<le> r" "0 < q" "r \<le> 4 * q"
  shows "0 \<le> r - min 3 (r div q) * q" "r - min 3 (r div q) * q \<le> q" "0 \<le> min 3 (r div q)"
proof -
  have d: "r = q * (r div q) + r mod q" "0 \<le> r mod q" "r mod q < q" "0 \<le> r div q"
    using assms(1,2) by (simp_all add: pos_imp_zdiv_nonneg_iff)
  then show "0 \<le> min 3 (r div q)" by simp
  have "0 \<le> r - min 3 (r div q) * q \<and> r - min 3 (r div q) * q \<le> q"
  proof (cases "r div q \<le> 3")
    case True
    then have "r - min 3 (r div q) * q = r mod q" using d(1) by (simp add: min_def algebra_simps)
    then show ?thesis using d by simp
  next
    case False
    then have "q * 4 \<le> q * (r div q)" using assms(2) by (intro mult_left_mono) simp_all
    then have "4 * q \<le> r" using d(1,2) by linarith
    then show ?thesis using False assms by (simp add: min_def)
  qed
  then show "0 \<le> r - min 3 (r div q) * q" "r - min 3 (r div q) * q \<le> q" by simp_all
qed

lemma ordinal_year_day:
  "0 \<le> n - 1 - days_before_year (ordinal_year n)" "n - 1 - days_before_year (ordinal_year n) \<le> 365"
  "1 \<le> n \<Longrightarrow> 1 \<le> ordinal_year n"
proof -
  define a r where "a = (n - 1) div 146097" and "r = (n - 1) mod 146097"
  define b r2 where "b = min 3 (r div 36524)" and "r2 = r - b * 36524"
  define c r3 where "c = r2 div 1461" and "r3 = r2 mod 1461"
  define d where "d = min 3 (r3 div 365)"
  have n: "n - 1 = 146097 * a + r" "0 \<le> r" "r < 146097" by (simp_all add: a_def r_def)
  have b: "0 \<le> b" "b \<le> 3" and r2: "0 \<le> r2" "r2 \<le> 36524"
    using min_div_rest [of r 36524] n(2,3) by (simp_all add: b_def r2_def)
  have r3: "r2 = 1461 * c + r3" "0 \<le> r3" "r3 < 1461" by (simp_all add: c_def r3_def)
  have c: "0 \<le> c" "c \<le> 24" using r2 r3 by linarith+
  have d: "0 \<le> d" "d \<le> 3" and r4: "0 \<le> r3 - d * 365" "r3 - d * 365 \<le> 365"
    using min_div_rest [of r3 365] r3(2,3) by (simp_all add: d_def)
  have y: "ordinal_year n = 400 * a + 100 * b + 4 * c + d + 1"
    by (simp add: ordinal_year_def Let_def a_def b_def c_def d_def r_def r2_def r3_def)
  have day: "n - 1 - days_before_year (ordinal_year n) = r3 - d * 365"
    using days_before_year_split [OF b c d, of a] y n(1) r2_def r3(1) by simp
  show "0 \<le> n - 1 - days_before_year (ordinal_year n)" "n - 1 - days_before_year (ordinal_year n) \<le> 365"
    unfolding day using r4 by simp_all
  assume "1 \<le> n"
  then have "0 \<le> a" using n(1,3) by linarith
  then show "1 \<le> ordinal_year n" using y b c d by linarith
qed

lemma days_before_year_mono: "y \<le> z \<Longrightarrow> days_before_year y \<le> days_before_year z"
proof -
  assume le: "y \<le> z"
  have "(z - 1) div 100 \<le> (y - 1) div 100 + (z - y)"
    using le div_mult_mod_eq [of "y - 1" 100] div_mult_mod_eq [of "z - 1" 100]
      pos_mod_bound [of 100 "y - 1"] pos_mod_sign [of 100 "z - 1"] by linarith
  moreover have "(y - 1) div 4 \<le> (z - 1) div 4" "(y - 1) div 400 \<le> (z - 1) div 400"
    using le by (simp_all add: zdiv_mono1)
  ultimately show ?thesis using le by (simp add: days_before_year_def Let_def)
qed

lemma ordinal_year_bound:
  assumes "n \<le> 3652059"
  shows "ordinal_year n \<le> 9999"
proof (rule ccontr)
  assume "\<not> ordinal_year n \<le> 9999"
  then have "days_before_year 10000 \<le> days_before_year (ordinal_year n)" by (intro days_before_year_mono) simp
  moreover have "days_before_year 10000 = 3652059" by (simp add: days_before_year_def)
  ultimately show False using ordinal_year_day(1) [of n] assms by simp
qed

section \<open>The text of a day is unique\<close>

lemma digits_value_padded: "digits_value (padded k n) = n mod 10 ^ k"
proof (induction k arbitrary: n)
  case 0
  then show ?case by (simp add: digits_value_def)
next
  case (Suc k)
  then show ?case by (simp add: mod_mult2_eq algebra_simps)
qed

lemma length_padded [simp]: "length (padded k n) = k"
  by (induction k arbitrary: n) auto

lemma padded_inject: "padded k m = padded k n \<Longrightarrow> m < 10 ^ k \<Longrightarrow> n < 10 ^ k \<Longrightarrow> m = n"
  using digits_value_padded [of k] by (metis mod_less)

lemma month_lengths:
  "1 \<le> m \<Longrightarrow> m < 12 \<Longrightarrow> days_before_month y (Suc m) - days_before_month y m \<le> 31"
  "334 \<le> days_before_month y 12" "days_before_month y 1 = 0"
proof -
  assume "1 \<le> m" "m < 12"
  then have "m \<in> {1, 2, 3, 4, 5, 6, 7, 8, 9, 10, 11}" unfolding insert_iff empty_iff by presburger
  then show "days_before_month y (Suc m) - days_before_month y m \<le> 31"
    by (auto simp: days_before_month_def)
qed (simp_all add: days_before_month_def)

lemma month_of_day_bounds:
  assumes "0 \<le> day" and "day \<le> 365"
  shows "month_of_day y day < 13" "0 \<le> day - days_before_month y (month_of_day y day)"
    "day - days_before_month y (month_of_day y day) \<le> 31"
proof -
  let ?ms = "filter (\<lambda>m. days_before_month y m \<le> day) [1..<13]" and ?m = "month_of_day y day"
  have "1 \<in> set ?ms" using assms month_lengths(3) [of y] by simp
  then have "?ms \<noteq> []" by (metis empty_iff empty_set)
  then have m: "?m \<in> set ?ms" unfolding month_of_day_def by (rule last_in_set)
  then show "?m < 13" "0 \<le> day - days_before_month y ?m" by simp_all
  have top: "k \<le> ?m" if "k \<in> set ?ms" for k
  proof -
    have "sorted ?ms" by (simp add: sorted_wrt_filter del: upt_Suc)
    moreover obtain xs where "?ms = xs @ [?m]"
      using \<open>?ms \<noteq> []\<close> unfolding month_of_day_def by (metis append_butlast_last_id)
    ultimately show ?thesis using that by (metis UnE empty_iff insert_iff list.set(1,2) order_refl set_append sorted_append)
  qed
  show "day - days_before_month y ?m \<le> 31"
  proof (cases "?m = 12")
    case True
    then show ?thesis using month_lengths(2) [of y] assms(2) by simp
  next
    case False
    then have m': "1 \<le> ?m" "?m < 12" using m by auto
    then have "Suc ?m \<notin> set ?ms" using top [of "Suc ?m"] by auto
    then have "day < days_before_month y (Suc ?m)" using m' by auto
    then show ?thesis using month_lengths(1) [OF m', of y] by simp
  qed
qed

lemma civil_date_bounds:
  assumes "1 \<le> n" and "n \<le> 3652059" and "civil_date n = (y, m, d)"
  shows "1 \<le> y" "y \<le> 9999" "m < 13" "1 \<le> d" "d \<le> 32"
proof -
  define day where "day = n - 1 - days_before_year (ordinal_year n)"
  have e: "y = ordinal_year n" "m = month_of_day y day" "d = day - days_before_month y m + 1"
    using assms(3) by (auto simp: civil_date_def Let_def day_def)
  have "0 \<le> day" "day \<le> 365" using ordinal_year_day [of n] by (simp_all add: day_def)
  note b = month_of_day_bounds [OF this, of y]
  show "1 \<le> y" "y \<le> 9999" using ordinal_year_day(3) [OF assms(1)] ordinal_year_bound [OF assms(2)] e(1) by simp_all
  show "m < 13" "1 \<le> d" "d \<le> 32" using b e(2,3) by simp_all
qed

lemma wall_day_range:
  assumes "wall_in_range w"
  shows "1 \<le> w div us_per_day + 719163" "w div us_per_day + 719163 \<le> 3652059"
  using assms unfolding wall_in_range_def datetime_min_us_def datetime_max_us_def us_per_day_def by linarith+

lemma date_text_inject:
  assumes "date_text a = date_text b" and "wall_in_range (wall_us a)" and "wall_in_range (wall_us b)"
  shows "wall_us a div us_per_day = wall_us b div us_per_day"
proof -
  obtain y m d where a: "civil_date (wall_us a div us_per_day + 719163) = (y, m, d)" by (metis prod.collapse)
  obtain y' m' d' where b: "civil_date (wall_us b div us_per_day + 719163) = (y', m', d')" by (metis prod.collapse)
  note ba = civil_date_bounds [OF wall_day_range [OF assms(2)] a]
    and bb = civil_date_bounds [OF wall_day_range [OF assms(3)] b]
  have t: "padded 4 (nat y) = padded 4 (nat y')" "padded 2 m = padded 2 m'" "padded 2 (nat d) = padded 2 (nat d')"
    using assms(1) by (simp_all add: date_text_def a b)
  have "nat y = nat y'" by (rule padded_inject [OF t(1)]) (use ba(2) bb(2) in simp_all)
  moreover have "m = m'" by (rule padded_inject [OF t(2)]) (use ba(3) bb(3) in simp_all)
  moreover have "nat d = nat d'" by (rule padded_inject [OF t(3)]) (use ba(5) bb(5) in simp_all)
  ultimately have "(y, m, d) = (y', m', d')" using ba bb by (simp add: eq_nat_nat_iff)
  then show ?thesis using civil_date_ordinal [OF a] civil_date_ordinal [OF b] by simp
qed

lemma sample_date_text: "date_text (utc_date 2026 1 5) = ''20260105''"
  by code_simp

end
