(* ===== verification/Source_Partitions.thy ===== *)
theory Source_Partitions
  imports Result_Store Py_Calendar "HOL-Library.Multiset"
begin

text \<open>
  The partitioned tables of the articles and \<^verbatim>\<open>backend/app/clients/database/sources/manage_source_partitions_db_cli.py\<close>, which moves
  the rows of the default partitions to weekly ones.  \<^verbatim>\<open>Database\<close> has these tables as lists of rows; here is how the server
  keeps them.
\<close>

section \<open>Partitioned tables\<close>

text \<open>A table partitioned by a range of the publication date: the default partition and the others.\<close>

record 'r partition =
  part_name :: string
  part_from :: int
  part_to :: int
  part_rows :: "'r list"

record 'r ptable =
  default_rows :: "'r list"
  partitions :: "'r partition list"

definition in_range :: "'r partition \<Rightarrow> int \<Rightarrow> bool" where
  "in_range p d = (part_from p \<le> d \<and> d < part_to p)"

definition all_rows :: "'r ptable \<Rightarrow> 'r list" where
  "all_rows t = default_rows t @ concat (map part_rows (partitions t))"

text \<open>The server stores a row in the partition its date falls into, else in the default one.\<close>

fun add_to_partition :: "int \<Rightarrow> 'r \<Rightarrow> 'r partition list \<Rightarrow> 'r partition list option" where
  "add_to_partition d r [] = None"
| "add_to_partition d r (p # ps) =
     (if in_range p d then Some (p\<lparr>part_rows := part_rows p @ [r]\<rparr> # ps)
      else map_option (\<lambda>ps. p # ps) (add_to_partition d r ps))"

definition insert_routed :: "('r \<Rightarrow> int) \<Rightarrow> 'r \<Rightarrow> 'r ptable \<Rightarrow> 'r ptable" where
  "insert_routed date r t =
     (case add_to_partition (date r) r (partitions t) of
        Some ps \<Rightarrow> t\<lparr>partitions := ps\<rparr>
      | None \<Rightarrow> t\<lparr>default_rows := default_rows t @ [r]\<rparr>)"

definition remove_rows :: "('r \<Rightarrow> bool) \<Rightarrow> 'r ptable \<Rightarrow> 'r ptable" where
  "remove_rows P t =
     \<lparr>default_rows = filter (\<lambda>r. \<not> P r) (default_rows t),
      partitions = map (\<lambda>p. p\<lparr>part_rows := filter (\<lambda>r. \<not> P r) (part_rows p)\<rparr>) (partitions t)\<rparr>"

section \<open>The store\<close>

text \<open>
  \<open>st_relations\<close> are the names of the other relations of the schema, \<open>st_feeds\<close> the identifiers of the feeds,
  and the buffers the temporary tables of the transaction.
\<close>

record source_store =
  st_sources :: "source_row ptable"
  st_links :: "source_link ptable"
  st_seq :: int
  st_feeds :: "int list"
  st_relations :: "string list"
  st_source_buffer :: "source_row list option"
  st_link_buffer :: "source_link list option"

definition source_ref :: "source_row \<Rightarrow> int \<times> int" where
  "source_ref r = (so_id r, so_published_at r)"

definition link_source_ref :: "source_link \<Rightarrow> int \<times> int" where
  "link_source_ref l = (sl_source_id l, sl_published_at l)"

section \<open>Buffers\<close>

text \<open>The dates are never NULL, so \<^verbatim>\<open>COALESCE\<close> keeps them.\<close>

definition prepare_default_partition_buffers :: "(source_store, unit) stmt" where
  "prepare_default_partition_buffers s =
     (Inr (), s\<lparr>st_source_buffer := Some (default_rows (st_sources s)),
                st_link_buffer := Some (default_rows (st_links s))\<rparr>)"

definition missing_table :: py_exn where
  "missing_table = OtherException ''UndefinedTable''"

definition source_buffer :: "(source_store, source_row list) stmt" where
  "source_buffer s = (case st_source_buffer s of None \<Rightarrow> (Inl missing_table, s) | Some rows \<Rightarrow> (Inr rows, s))"

definition link_buffer :: "(source_store, source_link list) stmt" where
  "link_buffer s = (case st_link_buffer s of None \<Rightarrow> (Inl missing_table, s) | Some rows \<Rightarrow> (Inr rows, s))"

text \<open>The deletion of an article removes its links wherever they are.\<close>

definition clear_default_partitions :: "(source_store, unit) stmt" where
  "clear_default_partitions s =
     (let gone = source_ref ` set (default_rows (st_sources s))
      in (Inr (), s\<lparr>st_sources := (st_sources s)\<lparr>default_rows := []\<rparr>,
                    st_links := remove_rows (\<lambda>l. link_source_ref l \<in> gone) ((st_links s)\<lparr>default_rows := []\<rparr>)\<rparr>))"

section \<open>Weeks\<close>

definition week_us :: int where
  "week_us = 7 * us_per_day"

text \<open>\<^verbatim>\<open>date_trunc('week', _)\<close>: the Monday before; the first of January 1970 is a Thursday.\<close>

definition week_start_of :: "int \<Rightarrow> int" where
  "week_start_of d = d - (d + 3 * us_per_day) mod week_us"

text \<open>The fallback date is 0.\<close>

definition list_week_starts_for_all_sources :: "(source_store, py_datetime list) stmt" where
  "list_week_starts_for_all_sources =
     sql_bind source_buffer (\<lambda>buffer s.
       (let dates = filter (\<lambda>d. 0 < d) (map so_published_at (all_rows (st_sources s) @ buffer))
        in sql_lift (map_ok (\<lambda>w. to_utc \<lparr>wall_us = w, utc_offset = Some 0\<rparr>)
             (sort (remdups (map week_start_of dates)))) s))"

section \<open>Partitions\<close>

definition table_exists :: "string \<Rightarrow> source_store \<Rightarrow> bool" where
  "table_exists name s \<longleftrightarrow>
     name \<in> set (st_relations s) \<union> part_name ` set (partitions (st_sources s)) \<union> part_name ` set (partitions (st_links s))"

text \<open>
  The server refuses a range that overlaps another, and one that the default partition has rows of.
\<close>

definition add_partition :: "('r \<Rightarrow> int) \<Rightarrow> string \<Rightarrow> int \<Rightarrow> int \<Rightarrow> 'r ptable \<Rightarrow> py_exn + 'r ptable" where
  "add_partition date name lo hi t =
     (let new = \<lparr>part_name = name, part_from = lo, part_to = hi, part_rows = []\<rparr> in
      if \<exists>p\<in>set (partitions t). part_from p < hi \<and> lo < part_to p
      then Inl (OtherException ''InvalidObjectDefinition'')
      else if \<exists>r\<in>set (default_rows t). in_range new (date r) then Inl (OtherException ''CheckViolation'')
      else Inr (t\<lparr>partitions := partitions t @ [new]\<rparr>))"

definition create_partition_if_missing ::
  "('r \<Rightarrow> int) \<Rightarrow> (source_store \<Rightarrow> 'r ptable) \<Rightarrow> (('r ptable \<Rightarrow> 'r ptable) \<Rightarrow> source_store \<Rightarrow> source_store)
     \<Rightarrow> string \<Rightarrow> py_datetime \<Rightarrow> py_datetime \<Rightarrow> (source_store, bool) stmt" where
  "create_partition_if_missing date tab upd table_name week_start week_end s =
     (if table_exists table_name s then (Inr False, s)
      else case add_partition date table_name (instant week_start) (instant week_end) (tab s) of
        Inl e \<Rightarrow> (Inl e, s)
      | Inr t \<Rightarrow> (Inr True, upd (\<lambda>_. t) s))"

definition week_end_of :: "py_datetime \<Rightarrow> py_exn + py_datetime" where
  "week_end_of week_start =
     (if wall_in_range (wall_us week_start + week_us) then Inr (week_start\<lparr>wall_us := wall_us week_start + week_us\<rparr>)
      else Inl (OverflowError ''date value out of range''))"

definition source_partition_name :: "py_datetime \<Rightarrow> string" where
  "source_partition_name week_start = ''rss_sources_w_'' @ date_text week_start"

definition link_partition_name :: "py_datetime \<Rightarrow> string" where
  "link_partition_name week_start = ''rss_source_feeds_w_'' @ date_text week_start"

definition create_weekly_partition_pair :: "py_datetime \<Rightarrow> (source_store, bool \<times> bool) stmt" where
  "create_weekly_partition_pair week_start =
     sql_bind (sql_lift (to_utc week_start)) (\<lambda>week_start.
     sql_bind (sql_lift (week_end_of week_start)) (\<lambda>week_end.
     sql_bind (create_partition_if_missing so_published_at st_sources st_sources_update
         (source_partition_name week_start) week_start week_end) (\<lambda>source_created.
     sql_bind (create_partition_if_missing sl_published_at st_links st_links_update
         (link_partition_name week_start) week_start week_end) (\<lambda>link_created.
       sql_return (source_created, link_created)))))"

fun create_weekly_partitions :: "py_datetime list \<Rightarrow> nat \<Rightarrow> nat \<Rightarrow> (source_store, nat \<times> nat) stmt" where
  "create_weekly_partitions [] n k s = (Inr (n, k), s)"
| "create_weekly_partitions (w # ws) n k s =
     (case create_weekly_partition_pair w s of
        (Inl e, s') \<Rightarrow> (Inl e, s')
      | (Inr (a, b), s') \<Rightarrow> create_weekly_partitions ws (n + of_bool a) (k + of_bool b) s')"

section \<open>Restoring the rows\<close>

text \<open>A row whose primary key is taken is skipped; a second row of an address and date is an error.\<close>

definition restore_source :: "source_row \<Rightarrow> (source_store, unit) stmt" where
  "restore_source r s =
     (if source_ref r \<in> keys_of source_ref (all_rows (st_sources s)) then (Inr (), s)
      else if source_key r \<in> keys_of source_key (all_rows (st_sources s))
      then (Inl (OtherException ''UniqueViolation''), s)
      else (Inr (), s\<lparr>st_sources := insert_routed so_published_at r (st_sources s)\<rparr>))"

definition restore_sources_from_buffer :: "(source_store, unit) stmt" where
  "restore_sources_from_buffer = sql_bind source_buffer (\<lambda>rows. sql_for restore_source (sort_key so_id rows))"

definition restore_link :: "source_link \<Rightarrow> (source_store, unit) stmt" where
  "restore_link l s =
     (if link_key l \<in> keys_of link_key (all_rows (st_links s)) then (Inr (), s)
      else if link_source_ref l \<notin> keys_of source_ref (all_rows (st_sources s)) \<or> sl_feed_id l \<notin> set (st_feeds s)
      then (Inl (OtherException ''ForeignKeyViolation''), s)
      else (Inr (), s\<lparr>st_links := insert_routed sl_published_at l (st_links s)\<rparr>))"

definition restore_source_feeds_from_buffer :: "(source_store, unit) stmt" where
  "restore_source_feeds_from_buffer =
     sql_bind link_buffer (\<lambda>rows. sql_for restore_link (sort_key sl_source_id (sort_key sl_feed_id rows)))"

text \<open>The next value is one more than the greatest identifier, or 1.\<close>

definition sync_sources_sequence :: "(source_store, unit) stmt" where
  "sync_sources_sequence s =
     (let ids = map so_id (all_rows (st_sources s))
      in (Inr (), s\<lparr>st_seq := (if ids = [] then 1 else Max (set ids) + 1)\<rparr>))"

section \<open>The operation\<close>

record maintenance_result =
  source_default_rows_repartitioned :: nat
  source_feed_default_rows_repartitioned :: nat
  source_weekly_partitions_created :: nat
  source_feed_weekly_partitions_created :: nat
  weeks_covered :: nat

definition repartition_default_sources_by_published_at :: "(source_store, maintenance_result) stmt" where
  "repartition_default_sources_by_published_at =
     sql_bind prepare_default_partition_buffers (\<lambda>_.
     sql_bind source_buffer (\<lambda>source_rows.
     sql_bind link_buffer (\<lambda>link_rows.
     sql_bind clear_default_partitions (\<lambda>_.
     sql_bind list_week_starts_for_all_sources (\<lambda>week_starts.
     sql_bind (create_weekly_partitions week_starts 0 0) (\<lambda>(sources_created, links_created).
     sql_bind restore_sources_from_buffer (\<lambda>_.
     sql_bind restore_source_feeds_from_buffer (\<lambda>_.
     sql_bind sync_sources_sequence (\<lambda>_.
       sql_return \<lparr>source_default_rows_repartitioned = length source_rows,
         source_feed_default_rows_repartitioned = length link_rows,
         source_weekly_partitions_created = sources_created,
         source_feed_weekly_partitions_created = links_created,
         weeks_covered = length week_starts\<rparr>)))))))))"

text \<open>The service: the temporary tables end with the transaction, and the sequence is not rolled back.\<close>

definition end_transaction :: "source_store \<Rightarrow> source_store" where
  "end_transaction s = s\<lparr>st_source_buffer := None, st_link_buffer := None\<rparr>"

definition repartition_rss_source_partitions :: "commit_outcome \<Rightarrow> (source_store, maintenance_result) stmt" where
  "repartition_rss_source_partitions commit s =
     (case repartition_default_sources_by_published_at s of
        (Inl e, s') \<Rightarrow> (Inl e, end_transaction (s\<lparr>st_seq := st_seq s'\<rparr>))
      | (Inr r, s') \<Rightarrow>
          (case commit of
             CommitOk \<Rightarrow> (Inr r, end_transaction s')
           | CommitRaises applied msg \<Rightarrow>
               (Inl (OtherException msg),
                end_transaction (if applied then s' else s\<lparr>st_seq := st_seq s'\<rparr>))))"

end
