(* ===== verification/Partition_Facts.thy ===== *)
theory Partition_Facts
  imports Source_Partitions Result_Facts
begin

text \<open>
  What a table with weekly partitions promises, as a locale that both tables of the articles interpret: routing keeps the rows
  and the layout, a week has at most one partition, and its name says whether it is there.
\<close>

section \<open>Weeks\<close>

definition utc_of :: "int \<Rightarrow> py_datetime" where
  "utc_of w = \<lparr>wall_us = w, utc_offset = Some 0\<rparr>"

lemma utc_of_simps [simp]: "wall_us (utc_of w) = w" "utc_offset (utc_of w) = Some 0" "instant (utc_of w) = w"
  by (simp_all add: utc_of_def instant_def)

definition is_week :: "int \<Rightarrow> bool" where
  "is_week w \<longleftrightarrow> week_start_of w = w \<and> wall_in_range w"

lemma week_us_pos: "0 < week_us"
  by (simp add: week_us_def us_per_day_def)

lemma week_start_bounds: "week_start_of d \<le> d" "d < week_start_of d + week_us"
  using pos_mod_sign [OF week_us_pos, of "d + 3 * us_per_day"] pos_mod_bound [OF week_us_pos, of "d + 3 * us_per_day"]
  by (simp_all add: week_start_of_def)

lemma week_start_iff: "week_start_of w = w \<longleftrightarrow> week_us dvd w + 3 * us_per_day"
  by (auto simp: week_start_of_def)

lemma week_start_unique:
  assumes "week_start_of w = w" and "w \<le> d" and "d < w + week_us"
  shows "week_start_of d = w"
proof -
  obtain k where k: "w + 3 * us_per_day = week_us * k" using assms(1) by (auto simp: week_start_iff)
  then have "d + 3 * us_per_day = (d - w) + week_us * k" by simp
  then have "(d + 3 * us_per_day) mod week_us = (d - w) mod week_us" by (simp only: mod_mult_self2)
  then show ?thesis using assms(2,3) by (simp add: week_start_of_def)
qed

lemma week_start_idem [simp]: "week_start_of (week_start_of d) = week_start_of d"
proof -
  have "week_start_of d + 3 * us_per_day = week_us * ((d + 3 * us_per_day) div week_us)"
    by (simp add: week_start_of_def minus_mod_eq_mult_div [symmetric])
  then show ?thesis by (simp add: week_start_iff)
qed

lemma week_day_dvd: "week_start_of w = w \<Longrightarrow> us_per_day dvd w"
proof -
  assume "week_start_of w = w"
  then have "us_per_day dvd w + 3 * us_per_day"
    unfolding week_start_iff week_us_def by (rule dvd_trans [OF dvd_triv_right])
  then show ?thesis by (simp add: dvd_add_left_iff)
qed

lemma date_text_weeks:
  assumes "is_week v" and "is_week w" and "date_text (utc_of v) = date_text (utc_of w)"
  shows "v = w"
proof -
  have "v div us_per_day = w div us_per_day"
    using date_text_inject [OF assms(3)] assms(1,2) by (simp add: is_week_def)
  moreover have "us_per_day dvd v" "us_per_day dvd w" using assms(1,2) by (simp_all add: is_week_def week_day_dvd)
  ultimately show ?thesis by (metis dvd_mult_div_cancel)
qed

section \<open>Routing\<close>

definition weeks_of :: "'r ptable \<Rightarrow> int set" where
  "weeks_of t = part_from ` set (partitions t)"

lemma mset_all_rows:
  "mset (all_rows t) = mset (default_rows t) + sum_list (map (\<lambda>p. mset (part_rows p)) (partitions t))"
  by (simp add: all_rows_def mset_concat comp_def)

lemma add_to_partition_None: "add_to_partition d r ps = None \<longleftrightarrow> (\<forall>p\<in>set ps. \<not> in_range p d)"
  by (induction ps) auto

lemma add_to_partition_Some:
  assumes "add_to_partition d r ps = Some qs"
  shows "\<exists>as p bs. ps = as @ p # bs \<and> in_range p d \<and> qs = as @ p\<lparr>part_rows := part_rows p @ [r]\<rparr> # bs"
  using assms
proof (induction ps arbitrary: qs)
  case (Cons p ps)
  show ?case
  proof (cases "in_range p d")
    case True
    then show ?thesis using Cons.prems by (intro exI [of _ "[]"]) auto
  next
    case False
    then obtain rs where rs: "add_to_partition d r ps = Some rs" "qs = p # rs" using Cons.prems by auto
    from Cons.IH [OF rs(1)] obtain as q bs where
      "ps = as @ q # bs" "in_range q d" "rs = as @ q\<lparr>part_rows := part_rows q @ [r]\<rparr> # bs" by blast
    then show ?thesis using rs(2) by (intro exI [of _ "p # as"]) auto
  qed
qed simp

text \<open>The two cases of an insertion.\<close>

lemma insert_routedE:
  obtains (default_part) "\<forall>p\<in>set (partitions t). \<not> in_range p (date r)"
      "insert_routed date r t = t\<lparr>default_rows := default_rows t @ [r]\<rparr>"
  | (weekly_part) as p bs where "partitions t = as @ p # bs" "in_range p (date r)"
      "insert_routed date r t = t\<lparr>partitions := as @ p\<lparr>part_rows := part_rows p @ [r]\<rparr> # bs\<rparr>"
proof (cases "add_to_partition (date r) r (partitions t)")
  case None
  then have "\<forall>p\<in>set (partitions t). \<not> in_range p (date r)" by (simp only: add_to_partition_None)
  moreover have "insert_routed date r t = t\<lparr>default_rows := default_rows t @ [r]\<rparr>"
    using None by (simp add: insert_routed_def)
  ultimately show ?thesis by (rule default_part)
next
  case (Some qs)
  obtain as p bs where "partitions t = as @ p # bs" "in_range p (date r)"
    "qs = as @ p\<lparr>part_rows := part_rows p @ [r]\<rparr> # bs"
    using add_to_partition_Some [OF Some] by blast
  moreover have "insert_routed date r t = t\<lparr>partitions := qs\<rparr>" using Some by (simp add: insert_routed_def)
  ultimately show ?thesis using weekly_part by simp
qed

lemma mset_insert_routed: "mset (all_rows (insert_routed date r t)) = mset (all_rows t) + {#r#}"
  by (cases date r t rule: insert_routedE) (simp_all add: mset_all_rows)

section \<open>Weekly tables\<close>

locale weekly_table =
  fixes date :: "'r \<Rightarrow> int" and week_name :: "py_datetime \<Rightarrow> string"
  assumes week_name_inject: "is_week v \<Longrightarrow> is_week w \<Longrightarrow> week_name (utc_of v) = week_name (utc_of w) \<Longrightarrow> v = w"
begin

definition weekly :: "'r partition \<Rightarrow> bool" where
  "weekly p \<longleftrightarrow> is_week (part_from p) \<and> part_to p = part_from p + week_us \<and> part_name p = week_name (utc_of (part_from p))
     \<and> (\<forall>r\<in>set (part_rows p). in_range p (date r))"

definition weekly_ok :: "'r ptable \<Rightarrow> bool" where
  "weekly_ok t \<longleftrightarrow> (\<forall>p\<in>set (partitions t). weekly p) \<and> distinct (map part_from (partitions t)) \<and>
     (\<forall>r\<in>set (default_rows t). week_start_of (date r) \<notin> weeks_of t)"

lemma weekly_range: "weekly p \<Longrightarrow> in_range p d \<longleftrightarrow> part_from p = week_start_of d"
  using week_start_unique [of "part_from p" d] week_start_bounds [of d]
  by (auto simp: weekly_def is_week_def in_range_def)

lemma name_taken:
  assumes "weekly_ok t" and "is_week w"
  shows "week_name (utc_of w) \<in> part_name ` set (partitions t) \<longleftrightarrow> w \<in> weeks_of t"
  using assms week_name_inject by (force simp: weekly_ok_def weekly_def weeks_of_def)

lemma insert_ok:
  assumes "weekly_ok t"
  shows "weekly_ok (insert_routed date r t)" "weeks_of (insert_routed date r t) = weeks_of t"
    "set (default_rows (insert_routed date r t)) =
      set (default_rows t) \<union> (if week_start_of (date r) \<in> weeks_of t then {} else {r})"
proof -
  have "weekly_ok (insert_routed date r t) \<and> weeks_of (insert_routed date r t) = weeks_of t \<and>
    set (default_rows (insert_routed date r t)) =
      set (default_rows t) \<union> (if week_start_of (date r) \<in> weeks_of t then {} else {r})"
  proof (cases date r t rule: insert_routedE)
    case default_part
    then have "week_start_of (date r) \<notin> weeks_of t"
      using assms weekly_range by (auto simp: weekly_ok_def weeks_of_def)
    then show ?thesis using assms default_part(2) by (auto simp: weekly_ok_def weeks_of_def)
  next
    case (weekly_part as p bs)
    have p: "weekly p" using assms weekly_part(1) by (simp add: weekly_ok_def)
    then have w: "part_from p = week_start_of (date r)" using weekly_range weekly_part(2) by blast
    have "weekly (p\<lparr>part_rows := part_rows p @ [r]\<rparr>)"
      using p weekly_part(2) by (auto simp: weekly_def in_range_def)
    moreover have "weeks_of (insert_routed date r t) = weeks_of t" using weekly_part by (simp add: weeks_of_def)
    ultimately show ?thesis
      using assms weekly_part w by (auto simp: weekly_ok_def weeks_of_def)
  qed
  then show "weekly_ok (insert_routed date r t)" "weeks_of (insert_routed date r t) = weeks_of t"
    "set (default_rows (insert_routed date r t)) =
      set (default_rows t) \<union> (if week_start_of (date r) \<in> weeks_of t then {} else {r})" by blast+
qed

text \<open>Several rows.\<close>

lemma insert_all_ok:
  assumes "weekly_ok t"
  shows "weekly_ok (fold (insert_routed date) rows t) \<and> weeks_of (fold (insert_routed date) rows t) = weeks_of t \<and>
    mset (all_rows (fold (insert_routed date) rows t)) = mset (all_rows t) + mset rows \<and>
    set (default_rows (fold (insert_routed date) rows t)) =
      set (default_rows t) \<union> {r \<in> set rows. week_start_of (date r) \<notin> weeks_of t}"
  using assms
proof (induction rows arbitrary: t)
  case (Cons r rows)
  show ?case using Cons.IH [OF insert_ok(1) [OF Cons.prems, of r]] insert_ok(2,3) [OF Cons.prems, of r]
    by (auto simp: mset_insert_routed)
qed simp

text \<open>The partition of a new week.\<close>

lemma add_ok:
  assumes "weekly_ok t" and "default_rows t = []" and "is_week w" and "w \<notin> weeks_of t"
  obtains t' where "add_partition date (week_name (utc_of w)) w (w + week_us) t = Inr t'" "weekly_ok t'"
    "weeks_of t' = insert w (weeks_of t)" "all_rows t' = all_rows t" "default_rows t' = []"
proof -
  have "\<not> (part_from p < w + week_us \<and> w < part_to p)" if p: "p \<in> set (partitions t)" for p
  proof
    assume o: "part_from p < w + week_us \<and> w < part_to p"
    have k: "week_start_of w = w" "week_start_of (part_from p) = part_from p" "part_to p = part_from p + week_us"
      using assms(1,3) p by (simp_all add: weekly_ok_def weekly_def is_week_def)
    then have "w = part_from p"
      using o week_start_unique [of w "part_from p"] week_start_unique [of "part_from p" w] by linarith
    then show False using assms(4) p by (auto simp: weeks_of_def)
  qed
  then have "add_partition date (week_name (utc_of w)) w (w + week_us) t =
      Inr (t\<lparr>partitions := partitions t
        @ [\<lparr>part_name = week_name (utc_of w), part_from = w, part_to = w + week_us, part_rows = []\<rparr>]\<rparr>)"
    using assms(2) by (simp add: add_partition_def Let_def)
  then show thesis
    by (rule that) (use assms in \<open>auto simp: weekly_ok_def weekly_def weeks_of_def all_rows_def\<close>)
qed

lemma clear_default_ok:
  "weekly_ok t \<Longrightarrow> weekly_ok (t\<lparr>default_rows := []\<rparr>) \<and> weeks_of (t\<lparr>default_rows := []\<rparr>) = weeks_of t"
  by (simp add: weekly_ok_def weeks_of_def)

end

interpretation sources: weekly_table so_published_at source_partition_name
  by unfold_locales (simp add: source_partition_name_def date_text_weeks)

interpretation links: weekly_table sl_published_at link_partition_name
  by unfold_locales (simp add: link_partition_name_def date_text_weeks)

lemma partition_names_differ: "source_partition_name v \<noteq> link_partition_name w"
  by (simp add: source_partition_name_def link_partition_name_def)

end
