(* ===== verification/Partition_Steps.thy ===== *)
theory Partition_Steps
  imports Partition_Facts
begin

text \<open>
  The maintenance of the partitions statement by statement: the layout it relies on, the loop over the weeks, the restoring of
  the rows, and why no link is lost when the default partitions are emptied.
\<close>

section \<open>Layout\<close>

definition layout_ok :: "source_store \<Rightarrow> bool" where
  "layout_ok s \<longleftrightarrow> sources.weekly_ok (st_sources s) \<and> links.weekly_ok (st_links s) \<and>
     weeks_of (st_links s) = weeks_of (st_sources s) \<and>
     (\<forall>w. is_week w \<longrightarrow> source_partition_name (utc_of w) \<notin> set (st_relations s) \<and>
       link_partition_name (utc_of w) \<notin> set (st_relations s))"

definition emptied :: "source_store \<Rightarrow> bool" where
  "emptied s \<longleftrightarrow> default_rows (st_sources s) = [] \<and> default_rows (st_links s) = []"

text \<open>The partitions may have changed, the rows not.\<close>

definition same_rows :: "source_store \<Rightarrow> source_store \<Rightarrow> bool" where
  "same_rows s s' \<longleftrightarrow> all_rows (st_sources s') = all_rows (st_sources s) \<and> all_rows (st_links s') = all_rows (st_links s) \<and>
     st_seq s' = st_seq s \<and> st_feeds s' = st_feeds s \<and>
     st_source_buffer s' = st_source_buffer s \<and> st_link_buffer s' = st_link_buffer s"

definition last_week :: int where
  "last_week = week_start_of datetime_max_us"

lemma last_week_eq: "last_week = datetime_max_us + 1 - 5 * us_per_day"
  by (simp add: last_week_def week_start_of_def week_us_def us_per_day_def datetime_max_us_def)

lemma week_end_utc:
  assumes "is_week w"
  shows "week_end_of (utc_of w) =
    (if w < last_week then Inr (utc_of (w + week_us)) else Inl (OverflowError ''date value out of range''))"
proof -
  have "wall_in_range (w + week_us) \<longleftrightarrow> w < last_week"
  proof
    assume "wall_in_range (w + week_us)"
    then show "w < last_week" using last_week_eq week_us_pos
      by (simp add: wall_in_range_def week_us_def us_per_day_def)
  next
    assume w: "w < last_week"
    have "w + week_us \<le> last_week"
    proof (rule ccontr)
      assume "\<not> w + week_us \<le> last_week"
      then have "week_start_of last_week = w" 
        using assms w week_start_unique [of w last_week] by (simp add: is_week_def)
      then show False using w by (simp add: last_week_def)
    qed
    then show "wall_in_range (w + week_us)"
      using assms week_us_pos last_week_eq unfolding is_week_def wall_in_range_def us_per_day_def by linarith
  qed
  then show ?thesis by (simp add: week_end_of_def utc_of_def)
qed

lemma to_utc_week: "is_week w \<Longrightarrow> to_utc (utc_of w) = Inr (utc_of w)"
  by (simp add: to_utc_def py_astimezone_utc_def is_week_def utc_of_def)

lemma create_pair:
  assumes "layout_ok s" and "emptied s" and "is_week w" and "w < last_week"
  obtains s' where "create_weekly_partition_pair (utc_of w) s =
      (Inr (w \<notin> weeks_of (st_sources s), w \<notin> weeks_of (st_sources s)), s')"
    "layout_ok s'" "emptied s'" "same_rows s s'" "weeks_of (st_sources s') = insert w (weeks_of (st_sources s))"
proof -
  have src: "sources.weekly_ok (st_sources s)" and lnk: "links.weekly_ok (st_links s)"
    and weeks: "weeks_of (st_links s) = weeks_of (st_sources s)"
    and fresh: "source_partition_name (utc_of w) \<notin> set (st_relations s)" "link_partition_name (utc_of w) \<notin> set (st_relations s)"
    using assms(1,3) unfolding layout_ok_def by blast+
  have named: "source_partition_name (utc_of w) \<in> part_name ` set (partitions (st_sources s)) \<longleftrightarrow> w \<in> weeks_of (st_sources s)"
    "link_partition_name (utc_of w) \<in> part_name ` set (partitions (st_links s)) \<longleftrightarrow> w \<in> weeks_of (st_sources s)"
    unfolding weeks [symmetric] using sources.name_taken [OF src assms(3)] links.name_taken [OF lnk assms(3)] weeks by blast+
  have cross: "link_partition_name (utc_of w) \<notin> part_name ` set (partitions (st_sources s))"
    "source_partition_name (utc_of w) \<notin> part_name ` set (partitions (st_links s))"
    using src lnk partition_names_differ partition_names_differ [symmetric]
    unfolding sources.weekly_ok_def links.weekly_ok_def sources.weekly_def links.weekly_def by fastforce+
  have there: "table_exists (source_partition_name (utc_of w)) s \<longleftrightarrow> w \<in> weeks_of (st_sources s)"
    "table_exists (link_partition_name (utc_of w)) s \<longleftrightarrow> w \<in> weeks_of (st_sources s)"
    unfolding table_exists_def using named fresh cross by blast+
  have step: "create_weekly_partition_pair (utc_of w) s =
     sql_bind (create_partition_if_missing so_published_at st_sources st_sources_update
         (source_partition_name (utc_of w)) (utc_of w) (utc_of (w + week_us))) (\<lambda>a.
     sql_bind (create_partition_if_missing sl_published_at st_links st_links_update
         (link_partition_name (utc_of w)) (utc_of w) (utc_of (w + week_us))) (\<lambda>b. sql_return (a, b))) s"
    using assms(3,4) by (simp add: create_weekly_partition_pair_def to_utc_week week_end_utc)
  show thesis
  proof (cases "w \<in> weeks_of (st_sources s)")
    case True
    then have "create_weekly_partition_pair (utc_of w) s = (Inr (False, False), s)"
      unfolding step using there by (simp add: create_partition_if_missing_def sql_bind_def)
    then show thesis
      using that [of s] assms(1,2) True by (simp add: same_rows_def insert_absorb)
  next
    case False
    obtain t where t: "add_partition so_published_at (source_partition_name (utc_of w)) w (w + week_us) (st_sources s) = Inr t"
      "sources.weekly_ok t" "weeks_of t = insert w (weeks_of (st_sources s))" "all_rows t = all_rows (st_sources s)"
      "default_rows t = []"
      using sources.add_ok [OF src _ assms(3) False] assms(2) by (auto simp: emptied_def)
    obtain u where u: "add_partition sl_published_at (link_partition_name (utc_of w)) w (w + week_us) (st_links s) = Inr u"
      "links.weekly_ok u" "weeks_of u = insert w (weeks_of (st_sources s))" "all_rows u = all_rows (st_links s)"
      "default_rows u = []"
      using links.add_ok [OF lnk _ assms(3)] False weeks assms(2) by (auto simp: emptied_def)
    have parts: "part_name ` set (partitions t) = insert (source_partition_name (utc_of w)) (part_name ` set (partitions (st_sources s)))"
      using t(1) by (auto simp: add_partition_def Let_def split: if_splits)
    let ?s1 = "s\<lparr>st_sources := t\<rparr>"
    have "create_partition_if_missing so_published_at st_sources st_sources_update
        (source_partition_name (utc_of w)) (utc_of w) (utc_of (w + week_us)) s = (Inr True, ?s1)"
      using there(1) False t(1) by (simp add: create_partition_if_missing_def)
    moreover have "\<not> table_exists (link_partition_name (utc_of w)) ?s1"
      using there(2) False parts partition_names_differ [symmetric] by (simp add: table_exists_def)
    then have "create_partition_if_missing sl_published_at st_links st_links_update
        (link_partition_name (utc_of w)) (utc_of w) (utc_of (w + week_us)) ?s1 = (Inr True, ?s1\<lparr>st_links := u\<rparr>)"
      using u(1) by (simp add: create_partition_if_missing_def)
    ultimately have "create_weekly_partition_pair (utc_of w) s = (Inr (True, True), ?s1\<lparr>st_links := u\<rparr>)"
      unfolding step by (simp add: sql_bind_def)
    then show thesis
      using that [of "?s1\<lparr>st_links := u\<rparr>"] assms(1) t u False
      by (simp add: layout_ok_def emptied_def same_rows_def)
  qed
qed

text \<open>The loop over the weeks.\<close>

lemma same_rows_trans: "same_rows s s1 \<Longrightarrow> same_rows s1 s2 \<Longrightarrow> same_rows s s2"
  by (simp add: same_rows_def)

lemma create_all:
  assumes "layout_ok s" and "emptied s" and "\<forall>w\<in>set ws. is_week w \<and> w < last_week" and "distinct ws"
  obtains s' where "create_weekly_partitions (map utc_of ws) n k s =
      (Inr (n + card (set ws - weeks_of (st_sources s)), k + card (set ws - weeks_of (st_sources s))), s')"
    "layout_ok s'" "emptied s'" "same_rows s s'" "weeks_of (st_sources s') = set ws \<union> weeks_of (st_sources s)"
  using assms
proof (induction ws arbitrary: s n k thesis)
  case Nil
  then show ?case by (simp add: same_rows_def)
next
  case (Cons w ws)
  let ?new = "w \<notin> weeks_of (st_sources s)"
  obtain s1 where s1: "create_weekly_partition_pair (utc_of w) s = (Inr (?new, ?new), s1)"
    "layout_ok s1" "emptied s1" "same_rows s s1" "weeks_of (st_sources s1) = insert w (weeks_of (st_sources s))"
    using create_pair [OF Cons.prems(2,3)] Cons.prems(4) by auto
  let ?n = "n + of_bool ?new" and ?k = "k + of_bool ?new"
  obtain s2 where s2: "create_weekly_partitions (map utc_of ws) ?n ?k s1 =
      (Inr (?n + card (set ws - weeks_of (st_sources s1)), ?k + card (set ws - weeks_of (st_sources s1))), s2)"
    "layout_ok s2" "emptied s2" "same_rows s1 s2" "weeks_of (st_sources s2) = set ws \<union> weeks_of (st_sources s1)"
    using Cons.IH [OF _ s1(2,3)] Cons.prems(4,5) by auto
  have "set (w # ws) - weeks_of (st_sources s) =
      (if ?new then insert w (set ws - weeks_of (st_sources s1)) else set ws - weeks_of (st_sources s1))"
    using s1(5) Cons.prems(5) by auto
  moreover have "w \<notin> set ws - weeks_of (st_sources s1)" using Cons.prems(5) by simp
  ultimately have "card (set (w # ws) - weeks_of (st_sources s)) = of_bool ?new + card (set ws - weeks_of (st_sources s1))"
    by simp
  then have "create_weekly_partitions (map utc_of (w # ws)) n k s =
      (Inr (n + card (set (w # ws) - weeks_of (st_sources s)), k + card (set (w # ws) - weeks_of (st_sources s))), s2)"
    using s1(1) s2(1) by simp
  then show ?case
    using Cons.prems(1) s2(2,3,5) same_rows_trans [OF s1(4) s2(4)] s1(5) by simp
qed

text \<open>The last week of the calendar has no end.\<close>

lemma create_late:
  assumes "layout_ok s" and "emptied s" and "\<forall>w\<in>set ws. is_week w" and "distinct ws" and "\<exists>w\<in>set ws. last_week \<le> w"
  obtains s' where "create_weekly_partitions (map utc_of ws) n k s = (Inl (OverflowError ''date value out of range''), s')"
    "st_seq s' = st_seq s"
  using assms
proof (induction ws arbitrary: s n k thesis)
  case Nil
  then show ?case by simp
next
  case (Cons w ws)
  show ?case
  proof (cases "last_week \<le> w")
    case True
    then have "create_weekly_partition_pair (utc_of w) s = (Inl (OverflowError ''date value out of range''), s)"
      using Cons.prems(4) by (simp add: create_weekly_partition_pair_def to_utc_week week_end_utc)
    then show ?thesis using Cons.prems(1) [of s] by simp
  next
    case False
    let ?new = "w \<notin> weeks_of (st_sources s)"
    have w: "is_week w" "w < last_week" using Cons.prems(4) False by simp_all
    obtain s1 where s1: "create_weekly_partition_pair (utc_of w) s = (Inr (?new, ?new), s1)"
      "layout_ok s1" "emptied s1" "same_rows s s1"
      by (rule create_pair [OF Cons.prems(2,3) w])
    obtain s2 where "create_weekly_partitions (map utc_of ws) (n + of_bool ?new) (k + of_bool ?new) s1
        = (Inl (OverflowError ''date value out of range''), s2)" "st_seq s2 = st_seq s1"
      using Cons.IH [OF _ s1(2,3)] Cons.prems(4-6) False by auto
    then show ?thesis using Cons.prems(1) [of s2] s1(1,4) by (simp add: same_rows_def)
  qed
qed

section \<open>Restoring the rows\<close>

lemma unique_key_mset: "mset xs = mset ys \<Longrightarrow> unique_key key xs = unique_key key ys"
  unfolding unique_key_def by (metis mset_eq_imp_distinct_iff mset_map)

lemma keys_of_mset: "mset xs = mset ys \<Longrightarrow> keys_of key xs = keys_of key ys"
  unfolding keys_of_def by (metis set_mset_mset)

lemma unique_key_fresh: "unique_key key (xs @ r # ys) \<Longrightarrow> key r \<notin> keys_of key xs"
  by (auto simp: unique_key_def keys_of_def)

lemma restore_sources_loop:
  assumes "unique_key source_ref (all_rows (st_sources s) @ rows)" "unique_key source_key (all_rows (st_sources s) @ rows)"
  shows "sql_for restore_source rows s = (Inr (), s\<lparr>st_sources := fold (insert_routed so_published_at) rows (st_sources s)\<rparr>)"
  using assms
proof (induction rows arbitrary: s)
  case (Cons r rows)
  let ?s1 = "s\<lparr>st_sources := insert_routed so_published_at r (st_sources s)\<rparr>"
  have m: "mset (all_rows (st_sources ?s1) @ rows) = mset (all_rows (st_sources s) @ r # rows)"
    by (simp add: mset_insert_routed)
  have "restore_source r s = (Inr (), ?s1)"
    using unique_key_fresh [OF Cons.prems(1)] unique_key_fresh [OF Cons.prems(2)] by (simp add: restore_source_def)
  then show ?case
    using Cons.IH [of ?s1] Cons.prems unique_key_mset [OF m, of source_ref] unique_key_mset [OF m, of source_key] by simp
qed simp

lemma restore_links_loop:
  assumes "unique_key link_key (all_rows (st_links s) @ rows)"
    and "\<forall>l\<in>set rows. link_source_ref l \<in> keys_of source_ref (all_rows (st_sources s)) \<and> sl_feed_id l \<in> set (st_feeds s)"
  shows "sql_for restore_link rows s = (Inr (), s\<lparr>st_links := fold (insert_routed sl_published_at) rows (st_links s)\<rparr>)"
  using assms
proof (induction rows arbitrary: s)
  case (Cons l rows)
  let ?s1 = "s\<lparr>st_links := insert_routed sl_published_at l (st_links s)\<rparr>"
  have m: "mset (all_rows (st_links ?s1) @ rows) = mset (all_rows (st_links s) @ l # rows)"
    by (simp add: mset_insert_routed)
  have "restore_link l s = (Inr (), ?s1)"
    using unique_key_fresh [OF Cons.prems(1)] Cons.prems(2) by (simp add: restore_link_def)
  then show ?case
    using Cons.IH [of ?s1] Cons.prems unique_key_mset [OF m, of link_key] by simp
qed simp

section \<open>The store and the database\<close>

text \<open>The rows of a store are those of the database, wherever the server keeps them.\<close>

definition stores :: "source_store \<Rightarrow> database \<Rightarrow> bool" where
  "stores s db \<longleftrightarrow> mset (all_rows (st_sources s)) = mset (db_sources db) \<and> mset (all_rows (st_links s)) = mset (db_source_links db) \<and>
     st_seq s = source_seq db \<and> st_feeds s = map fd_id (db_feeds db)"

lemma stores_keys:
  assumes "stores s db" and "db_ok db"
  shows "unique_key source_ref (all_rows (st_sources s))" "unique_key source_key (all_rows (st_sources s))"
    "unique_key link_key (all_rows (st_links s))"
    "l \<in> set (all_rows (st_links s)) \<Longrightarrow>
      link_source_ref l \<in> keys_of source_ref (all_rows (st_sources s)) \<and> sl_feed_id l \<in> set (st_feeds s)"
proof -
  have m: "mset (all_rows (st_sources s)) = mset (db_sources db)" "mset (all_rows (st_links s)) = mset (db_source_links db)"
    "st_feeds s = map fd_id (db_feeds db)" using assms(1) by (simp_all add: stores_def)
  have "unique_key source_ref (db_sources db)"
    using assms(2) by (auto simp: schema_defs unique_key_def source_ref_def distinct_map inj_on_def)
  then show "unique_key source_ref (all_rows (st_sources s))" using unique_key_mset [OF m(1)] by blast
  show "unique_key source_key (all_rows (st_sources s))" "unique_key link_key (all_rows (st_links s))"
    using assms(2) unique_key_mset [OF m(1)] unique_key_mset [OF m(2)] by (auto simp: schema_defs)
  assume "l \<in> set (all_rows (st_links s))"
  then have "l \<in> set (db_source_links db)" using m(2) by (metis set_mset_mset)
  then have "link_source_ref l \<in> keys_of source_ref (db_sources db) \<and> sl_feed_id l \<in> keys_of fd_id (db_feeds db)"
    using assms(2) by (auto simp: schema_defs list_all_iff link_source_ref_def source_ref_def [abs_def])
  then show "link_source_ref l \<in> keys_of source_ref (all_rows (st_sources s)) \<and> sl_feed_id l \<in> set (st_feeds s)"
    using keys_of_mset [OF m(1), of source_ref] m(3) by (simp add: keys_of_def)
qed

text \<open>A link is in the default partition exactly if its article is: emptying both loses no link of a week.\<close>

lemma no_weekly_link_lost:
  assumes "layout_ok s"
  shows "remove_rows (\<lambda>l. link_source_ref l \<in> source_ref ` set (default_rows (st_sources s))) ((st_links s)\<lparr>default_rows := []\<rparr>)
    = (st_links s)\<lparr>default_rows := []\<rparr>"
proof -
  have "filter (\<lambda>l. link_source_ref l \<notin> source_ref ` set (default_rows (st_sources s))) (part_rows p) = part_rows p"
    if p: "p \<in> set (partitions (st_links s))" for p
  proof (rule filter_True, rule ballI, rule notI)
    fix l assume l: "l \<in> set (part_rows p)" "link_source_ref l \<in> source_ref ` set (default_rows (st_sources s))"
    then obtain r where r: "r \<in> set (default_rows (st_sources s))" "so_published_at r = sl_published_at l"
      by (auto simp: link_source_ref_def source_ref_def)
    have "links.weekly p" using assms p by (simp add: layout_ok_def links.weekly_ok_def)
    then have "part_from p = week_start_of (sl_published_at l)"
      using l(1) links.weekly_range [of p] by (simp add: links.weekly_def)
    then have "week_start_of (sl_published_at l) \<in> weeks_of (st_sources s)"
      using assms p unfolding layout_ok_def weeks_of_def by (metis imageI)
    then show False using assms r by (auto simp: layout_ok_def sources.weekly_ok_def)
  qed
  then show ?thesis by (cases "st_links s") (simp add: remove_rows_def map_idI)
qed

section \<open>The run\<close>

lemma map_ok_pure: "(\<And>x. x \<in> set xs \<Longrightarrow> f x = Inr (g x)) \<Longrightarrow> map_ok f xs = Inr (map g xs)"
  by (induction xs) auto

text \<open>The weeks of a store's articles.\<close>

definition article_weeks :: "source_store \<Rightarrow> int list" where
  "article_weeks s = sort (remdups (map week_start_of (filter (\<lambda>d. 0 < d) (map so_published_at (all_rows (st_sources s))))))"

lemma article_weeks_facts:
  assumes "\<forall>r\<in>set (all_rows (st_sources s)). so_published_at r \<le> datetime_max_us"
  shows "distinct (article_weeks s)" "\<forall>w\<in>set (article_weeks s). is_week w"
    "set (article_weeks s) = {week_start_of (so_published_at r) |r. r \<in> set (all_rows (st_sources s)) \<and> 0 < so_published_at r}"
proof -
  have "is_week (week_start_of d)" if "0 < d" "d \<le> datetime_max_us" for d
  proof -
    have "datetime_min_us \<le> week_start_of d"
      using that week_start_bounds [of d] by (simp add: datetime_min_us_def week_us_def us_per_day_def)
    then show ?thesis using that week_start_bounds(1) [of d] by (simp add: is_week_def wall_in_range_def)
  qed
  then show "\<forall>w\<in>set (article_weeks s). is_week w" using assms by (auto simp: article_weeks_def)
qed (auto simp: article_weeks_def)

text \<open>The state in which the partitions are created.\<close>

definition cleared :: "source_store \<Rightarrow> source_store" where
  "cleared s = s\<lparr>st_source_buffer := Some (default_rows (st_sources s)), st_link_buffer := Some (default_rows (st_links s)),
     st_sources := (st_sources s)\<lparr>default_rows := []\<rparr>, st_links := (st_links s)\<lparr>default_rows := []\<rparr>\<rparr>"

lemma cleared_layout: "layout_ok s \<Longrightarrow> layout_ok (cleared s)" "emptied (cleared s)"
  using sources.clear_default_ok [of "st_sources s"] links.clear_default_ok [of "st_links s"]
  by (simp_all add: cleared_def layout_ok_def emptied_def)

lemma repartition_prefix:
  assumes "layout_ok s" and "\<forall>r\<in>set (all_rows (st_sources s)). so_published_at r \<le> datetime_max_us"
  shows "repartition_default_sources_by_published_at s =
     sql_bind (create_weekly_partitions (map utc_of (article_weeks s)) 0 0) (\<lambda>(sources_created, links_created).
     sql_bind restore_sources_from_buffer (\<lambda>_.
     sql_bind restore_source_feeds_from_buffer (\<lambda>_.
     sql_bind sync_sources_sequence (\<lambda>_.
       sql_return \<lparr>source_default_rows_repartitioned = length (default_rows (st_sources s)),
         source_feed_default_rows_repartitioned = length (default_rows (st_links s)),
         source_weekly_partitions_created = sources_created,
         source_feed_weekly_partitions_created = links_created,
         weeks_covered = length (article_weeks s)\<rparr>)))) (cleared s)"
proof -
  let ?s1 = "s\<lparr>st_source_buffer := Some (default_rows (st_sources s)), st_link_buffer := Some (default_rows (st_links s))\<rparr>"
  have clear: "clear_default_partitions ?s1 = (Inr (), cleared s)"
    using no_weekly_link_lost [OF assms(1)] by (simp add: clear_default_partitions_def cleared_def Let_def)
  let ?ds = "filter (\<lambda>d. 0 < d) (map so_published_at (all_rows (st_sources (cleared s)) @ default_rows (st_sources s)))"
  have "set (map week_start_of ?ds) = set (article_weeks s)"
    by (auto simp: article_weeks_def cleared_def all_rows_def)
  then have ws: "sort (remdups (map week_start_of ?ds)) = article_weeks s"
    unfolding article_weeks_def by (intro sorted_distinct_set_unique) auto
  have "to_utc \<lparr>wall_us = w, utc_offset = Some 0\<rparr> = Inr (utc_of w)" if "w \<in> set (article_weeks s)" for w
    using to_utc_week article_weeks_facts(2) [OF assms(2)] that unfolding utc_of_def by blast
  then have "map_ok (\<lambda>w. to_utc \<lparr>wall_us = w, utc_offset = Some 0\<rparr>) (article_weeks s) = Inr (map utc_of (article_weeks s))"
    by (intro map_ok_pure) auto
  moreover have "st_source_buffer (cleared s) = Some (default_rows (st_sources s))" by (simp add: cleared_def)
  ultimately have "list_week_starts_for_all_sources (cleared s) = (Inr (map utc_of (article_weeks s)), cleared s)"
    using ws by (simp add: list_week_starts_for_all_sources_def sql_bind_def source_buffer_def Let_def)
  then show ?thesis
    using clear by (simp add: repartition_default_sources_by_published_at_def sql_bind_def [of prepare_default_partition_buffers]
        sql_bind_def [of source_buffer] sql_bind_def [of link_buffer] sql_bind_def [of clear_default_partitions]
        sql_bind_def [of list_week_starts_for_all_sources]
        prepare_default_partition_buffers_def source_buffer_def link_buffer_def)
qed

text \<open>What a run without a late article does to the tables.\<close>

lemma repartition_success:
  assumes "layout_ok s" and "stores s db" and "db_ok db" and "\<forall>r\<in>set (db_sources db). so_published_at r < last_week"
  defines "new \<equiv> card (set (article_weeks s) - weeks_of (st_sources s))"
  obtains s' where "repartition_default_sources_by_published_at s =
      (Inr \<lparr>source_default_rows_repartitioned = length (default_rows (st_sources s)),
         source_feed_default_rows_repartitioned = length (default_rows (st_links s)),
         source_weekly_partitions_created = new, source_feed_weekly_partitions_created = new,
         weeks_covered = length (article_weeks s)\<rparr>, s')"
    "layout_ok s'" "weeks_of (st_sources s') = set (article_weeks s) \<union> weeks_of (st_sources s)"
    "mset (all_rows (st_sources s')) = mset (all_rows (st_sources s))"
    "mset (all_rows (st_links s')) = mset (all_rows (st_links s))" "st_feeds s' = st_feeds s"
    "st_seq s' = (if db_sources db = [] then 1 else Max (so_id ` set (db_sources db)) + 1)"
    "set (default_rows (st_sources s')) \<subseteq> {r \<in> set (default_rows (st_sources s)). week_start_of (so_published_at r) \<notin> weeks_of (st_sources s')}"
    "set (default_rows (st_links s')) \<subseteq> {l \<in> set (default_rows (st_links s)). week_start_of (sl_published_at l) \<notin> weeks_of (st_sources s')}"
proof -
  have rows: "set (all_rows (st_sources s)) = set (db_sources db)" using assms(2) unfolding stores_def by (metis set_mset_mset)
  have "last_week \<le> datetime_max_us" unfolding last_week_def by (rule week_start_bounds)
  then have late: "\<forall>r\<in>set (all_rows (st_sources s)). so_published_at r \<le> datetime_max_us"
    using assms(4) rows by force
  note weeks = article_weeks_facts [OF late]
  have "\<forall>w\<in>set (article_weeks s). is_week w \<and> w < last_week"
    using weeks(2,3) assms(4) rows week_start_bounds(1) by (fastforce intro: le_less_trans)
  then obtain s2 where s2: "create_weekly_partitions (map utc_of (article_weeks s)) 0 0 (cleared s) =
      (Inr (0 + card (set (article_weeks s) - weeks_of (st_sources (cleared s))),
            0 + card (set (article_weeks s) - weeks_of (st_sources (cleared s)))), s2)"
    "layout_ok s2" "emptied s2" "same_rows (cleared s) s2"
    "weeks_of (st_sources s2) = set (article_weeks s) \<union> weeks_of (st_sources (cleared s))"
    using create_all [OF cleared_layout(1) [OF assms(1)] cleared_layout(2) _ weeks(1)] by blast
  have same: "weeks_of (st_sources (cleared s)) = weeks_of (st_sources s)" by (simp add: cleared_def weeks_of_def)
  let ?D = "sort_key so_id (default_rows (st_sources s))"
    and ?L = "sort_key sl_source_id (sort_key sl_feed_id (default_rows (st_links s)))"
  have b: "st_source_buffer s2 = Some (default_rows (st_sources s))" "st_link_buffer s2 = Some (default_rows (st_links s))"
    "st_feeds s2 = st_feeds s"
    using s2(4) by (simp_all add: same_rows_def cleared_def)
  have m: "mset (all_rows (st_sources s2) @ ?D) = mset (all_rows (st_sources s))"
    "mset (all_rows (st_links s2) @ ?L) = mset (all_rows (st_links s))"
    using s2(4) by (simp_all add: same_rows_def cleared_def mset_all_rows)
  have lay2: "sources.weekly_ok (st_sources s2)" "links.weekly_ok (st_links s2)" "weeks_of (st_links s2) = weeks_of (st_sources s2)"
    using s2(2) by (simp_all add: layout_ok_def)
  let ?S = "fold (insert_routed so_published_at) ?D (st_sources s2)" and ?K = "fold (insert_routed sl_published_at) ?L (st_links s2)"
  note S = sources.insert_all_ok [OF lay2(1), of ?D] and K = links.insert_all_ok [OF lay2(2), of ?L]
  have allS: "mset (all_rows ?S) = mset (all_rows (st_sources s))" and allK: "mset (all_rows ?K) = mset (all_rows (st_links s))"
    using S K m by simp_all
  note keys = stores_keys [OF assms(2,3)]
  have "unique_key source_ref (all_rows (st_sources s2) @ ?D)" "unique_key source_key (all_rows (st_sources s2) @ ?D)"
    using keys(1,2) unique_key_mset [OF m(1), of source_ref] unique_key_mset [OF m(1), of source_key] by simp_all
  then have r1: "restore_sources_from_buffer s2 = (Inr (), s2\<lparr>st_sources := ?S\<rparr>)"
    using restore_sources_loop b(1) by (simp add: restore_sources_from_buffer_def sql_bind_def source_buffer_def)
  have ref: "link_source_ref l \<in> keys_of source_ref (all_rows ?S) \<and> sl_feed_id l \<in> set (st_feeds s)"
    if "l \<in> set ?L" for l
    using that keys(4) [of l] keys_of_mset [OF allS, of source_ref] by (simp add: all_rows_def)
  have "unique_key link_key (all_rows (st_links s2) @ ?L)"
    using keys(3) unique_key_mset [OF m(2), of link_key] by simp
  then have "sql_for restore_link ?L (s2\<lparr>st_sources := ?S\<rparr>) = (Inr (), s2\<lparr>st_sources := ?S, st_links := ?K\<rparr>)"
    using restore_links_loop [of "s2\<lparr>st_sources := ?S\<rparr>" ?L] ref b(3) by simp
  then have r2: "restore_source_feeds_from_buffer (s2\<lparr>st_sources := ?S\<rparr>) = (Inr (), s2\<lparr>st_sources := ?S, st_links := ?K\<rparr>)"
    using b(2) by (simp add: restore_source_feeds_from_buffer_def sql_bind_def link_buffer_def)
  let ?next = "if db_sources db = [] then 1 else Max (so_id ` set (db_sources db)) + 1"
  let ?s' = "s2\<lparr>st_sources := ?S, st_links := ?K, st_seq := ?next\<rparr>"
  have setS: "set (all_rows ?S) = set (db_sources db)" using allS rows by (metis set_mset_mset)
  then have "all_rows ?S = [] \<longleftrightarrow> db_sources db = []" by (metis set_empty)
  then have r3: "sync_sources_sequence (s2\<lparr>st_sources := ?S, st_links := ?K\<rparr>) = (Inr (), ?s')"
    using setS by (simp add: sync_sources_sequence_def Let_def)
  show thesis
  proof (rule that [of ?s'])
    show "repartition_default_sources_by_published_at s =
      (Inr \<lparr>source_default_rows_repartitioned = length (default_rows (st_sources s)),
         source_feed_default_rows_repartitioned = length (default_rows (st_links s)),
         source_weekly_partitions_created = new, source_feed_weekly_partitions_created = new,
         weeks_covered = length (article_weeks s)\<rparr>, ?s')"
      using repartition_prefix [OF assms(1) late] s2(1) r1 r2 r3 same by (simp add: sql_bind_def new_def)
    show "layout_ok ?s'" using s2(2) S K lay2(3) by (simp add: layout_ok_def)
    show "weeks_of (st_sources ?s') = set (article_weeks s) \<union> weeks_of (st_sources s)" using S s2(5) same by simp
    show "set (default_rows (st_sources ?s')) \<subseteq> {r \<in> set (default_rows (st_sources s)). week_start_of (so_published_at r) \<notin> weeks_of (st_sources ?s')}"
      using S s2(3) by (auto simp: emptied_def)
    show "set (default_rows (st_links ?s')) \<subseteq> {l \<in> set (default_rows (st_links s)). week_start_of (sl_published_at l) \<notin> weeks_of (st_sources ?s')}"
      using S K s2(3) lay2(3) by (auto simp: emptied_def)
  qed (use allS allK b(3) in simp_all)
qed

lemma repartition_failure:
  assumes "layout_ok s" and "\<forall>r\<in>set (all_rows (st_sources s)). so_published_at r \<le> datetime_max_us"
    and "\<exists>r\<in>set (all_rows (st_sources s)). last_week \<le> so_published_at r"
  obtains s' where "repartition_default_sources_by_published_at s = (Inl (OverflowError ''date value out of range''), s')"
    "st_seq s' = st_seq s"
proof -
  note weeks = article_weeks_facts [OF assms(2)]
  have pos: "0 < last_week" by (simp add: last_week_eq datetime_max_us_def us_per_day_def)
  obtain r where r: "r \<in> set (all_rows (st_sources s))" "last_week \<le> so_published_at r" using assms(3) by blast
  have "last_week \<le> week_start_of (so_published_at r)"
  proof (rule ccontr)
    assume "\<not> last_week \<le> week_start_of (so_published_at r)"
    then have "week_start_of last_week = week_start_of (so_published_at r)"
      using r(2) week_start_bounds(2) [of "so_published_at r"]
        week_start_unique [of "week_start_of (so_published_at r)" last_week] by simp
    then show False using \<open>\<not> last_week \<le> week_start_of (so_published_at r)\<close> by (simp add: last_week_def)
  qed
  moreover have "week_start_of (so_published_at r) \<in> set (article_weeks s)" using weeks(3) r pos by auto
  ultimately have "\<exists>w\<in>set (article_weeks s). last_week \<le> w" by blast
  then obtain s' where "create_weekly_partitions (map utc_of (article_weeks s)) 0 0 (cleared s)
      = (Inl (OverflowError ''date value out of range''), s')" "st_seq s' = st_seq (cleared s)"
    using create_late [OF cleared_layout(1) [OF assms(1)] cleared_layout(2) weeks(2) weeks(1)] by blast
  then show thesis
    using that repartition_prefix [OF assms(1,2)] by (simp add: sql_bind_def cleared_def)
qed

end
