(* ===== verification/Partition_Properties.thy ===== *)
theory Partition_Properties
  imports Partition_Steps
begin

text \<open>
  The maintenance of the partitions as a whole: it refines the identity on the rows of the database, and one article
  dated in the last week of the calendar makes it impossible.
\<close>

definition renumbered :: "database \<Rightarrow> database" where
  "renumbered db =
     db\<lparr>source_seq := (if db_sources db = [] then 1 else Max (so_id ` set (db_sources db)) + 1)\<rparr>"

lemma renumbered_ok:
  assumes "db_ok db"
  shows "db_ok (renumbered db)"
proof -
  have "so_id r < source_seq (renumbered db)" if "r \<in> set (db_sources db)" for r
  proof -
    have "so_id r \<le> Max (so_id ` set (db_sources db))" using that by (intro Max_ge) simp_all
    then show ?thesis using that by (auto simp: renumbered_def)
  qed
  then show ?thesis using assms by (auto simp: schema_defs renumbered_def list_all_iff)
qed

text \<open>
  C30: the maintenance succeeds whenever every article is dated before the last week of the calendar, and then only moves
  rows: the store still holds exactly the articles and links of the database, no link is lost by the cascade from the emptied
  partition, the constraints hold, and the next identifier is one above the greatest.  Afterwards the default partitions
  only have dates up to the fallback date, every other week has its pair of partitions, and a second run creates none.
\<close>

theorem repartition_refines_database:
  assumes "db_ok db" and "stores s db" and "layout_ok s" and "\<forall>r\<in>set (db_sources db). so_published_at r < last_week"
  shows "\<exists>res s' res2 s2. repartition_rss_source_partitions CommitOk s = (Inr res, s') \<and>
    stores s' (renumbered db) \<and> db_ok (renumbered db) \<and> layout_ok s' \<and>
    (\<forall>r\<in>set (default_rows (st_sources s')). so_published_at r \<le> 0) \<and>
    (\<forall>l\<in>set (default_rows (st_links s')). sl_published_at l \<le> 0) \<and>
    weeks_of (st_sources s') = weeks_of (st_sources s) \<union>
      {week_start_of (so_published_at r) |r. r \<in> set (db_sources db) \<and> 0 < so_published_at r} \<and>
    source_weekly_partitions_created res = card (weeks_of (st_sources s') - weeks_of (st_sources s)) \<and>
    source_default_rows_repartitioned res = length (default_rows (st_sources s)) \<and>
    repartition_rss_source_partitions CommitOk s' = (Inr res2, s2) \<and> source_weekly_partitions_created res2 = 0"
proof -
  obtain s1 where s1: "repartition_default_sources_by_published_at s =
      (Inr \<lparr>source_default_rows_repartitioned = length (default_rows (st_sources s)),
         source_feed_default_rows_repartitioned = length (default_rows (st_links s)),
         source_weekly_partitions_created = card (set (article_weeks s) - weeks_of (st_sources s)),
         source_feed_weekly_partitions_created = card (set (article_weeks s) - weeks_of (st_sources s)),
         weeks_covered = length (article_weeks s)\<rparr>, s1)"
    "layout_ok s1" "weeks_of (st_sources s1) = set (article_weeks s) \<union> weeks_of (st_sources s)"
    "mset (all_rows (st_sources s1)) = mset (all_rows (st_sources s))"
    "mset (all_rows (st_links s1)) = mset (all_rows (st_links s))" "st_feeds s1 = st_feeds s"
    "st_seq s1 = (if db_sources db = [] then 1 else Max (so_id ` set (db_sources db)) + 1)"
    "set (default_rows (st_sources s1)) \<subseteq> {r \<in> set (default_rows (st_sources s)). week_start_of (so_published_at r) \<notin> weeks_of (st_sources s1)}"
    "set (default_rows (st_links s1)) \<subseteq> {l \<in> set (default_rows (st_links s)). week_start_of (sl_published_at l) \<notin> weeks_of (st_sources s1)}"
    by (rule repartition_success [OF assms(3,2,1,4)])
  let ?s' = "end_transaction s1"
  have rows: "set (all_rows (st_sources s)) = set (db_sources db)" using assms(2) unfolding stores_def by (metis set_mset_mset)
  have "last_week \<le> datetime_max_us" unfolding last_week_def by (rule week_start_bounds)
  then have weeks: "set (article_weeks s) = {week_start_of (so_published_at r) |r. r \<in> set (db_sources db) \<and> 0 < so_published_at r}"
    using article_weeks_facts(3) [of s] assms(4) rows by force
  have st: "stores ?s' (renumbered db)"
    using assms(2) s1(4-7) by (simp add: stores_def renumbered_def end_transaction_def)
  have lay: "layout_ok ?s'" using s1(2) by (simp add: layout_ok_def end_transaction_def)
  have "set (article_weeks ?s') = set (article_weeks s)"
    using s1(4) mset_eq_setD [OF s1(4)] by (simp add: article_weeks_def end_transaction_def)
  then have again: "set (article_weeks ?s') - weeks_of (st_sources ?s') = {}"
    using s1(3) by (simp add: end_transaction_def)
  have late: "\<forall>r\<in>set (db_sources (renumbered db)). so_published_at r < last_week" using assms(4) by (simp add: renumbered_def)
  obtain s2 where s2: "repartition_default_sources_by_published_at ?s' =
      (Inr \<lparr>source_default_rows_repartitioned = length (default_rows (st_sources ?s')),
         source_feed_default_rows_repartitioned = length (default_rows (st_links ?s')),
         source_weekly_partitions_created = card (set (article_weeks ?s') - weeks_of (st_sources ?s')),
         source_feed_weekly_partitions_created = card (set (article_weeks ?s') - weeks_of (st_sources ?s')),
         weeks_covered = length (article_weeks ?s')\<rparr>, s2)"
    by (rule repartition_success [OF lay st renumbered_ok [OF assms(1)] late])
  have def_sources: "so_published_at r \<le> 0" if "r \<in> set (default_rows (st_sources s1))" for r
  proof (rule ccontr)
    assume "\<not> so_published_at r \<le> 0"
    moreover have "r \<in> set (db_sources db)" using that s1(8) rows by (auto simp: all_rows_def)
    ultimately have "week_start_of (so_published_at r) \<in> weeks_of (st_sources s1)" using s1(3) weeks by auto
    then show False using that s1(8) by blast
  qed
  have def_links: "sl_published_at l \<le> 0" if "l \<in> set (default_rows (st_links s1))" for l
  proof (rule ccontr)
    assume "\<not> sl_published_at l \<le> 0"
    moreover have "l \<in> set (all_rows (st_links s))" using that s1(9) by (auto simp: all_rows_def)
    then obtain r where "r \<in> set (db_sources db)" "so_published_at r = sl_published_at l"
      using stores_keys(4) [OF assms(2,1), of l] rows by (auto simp: keys_of_def link_source_ref_def source_ref_def)
    ultimately have "week_start_of (sl_published_at l) \<in> weeks_of (st_sources s1)" using s1(3) weeks by force
    then show False using that s1(9) by blast
  qed
  have first: "repartition_rss_source_partitions CommitOk s =
      (Inr \<lparr>source_default_rows_repartitioned = length (default_rows (st_sources s)),
         source_feed_default_rows_repartitioned = length (default_rows (st_links s)),
         source_weekly_partitions_created = card (set (article_weeks s) - weeks_of (st_sources s)),
         source_feed_weekly_partitions_created = card (set (article_weeks s) - weeks_of (st_sources s)),
         weeks_covered = length (article_weeks s)\<rparr>, ?s')"
    using s1(1) by (simp add: repartition_rss_source_partitions_def)
  have "weeks_of (st_sources s1) - weeks_of (st_sources s) = set (article_weeks s) - weeks_of (st_sources s)"
    using s1(3) by blast
  moreover have "st_sources ?s' = st_sources s1" "st_links ?s' = st_links s1" by (simp_all add: end_transaction_def)
  moreover have "repartition_rss_source_partitions CommitOk ?s' =
      (Inr \<lparr>source_default_rows_repartitioned = length (default_rows (st_sources ?s')),
         source_feed_default_rows_repartitioned = length (default_rows (st_links ?s')),
         source_weekly_partitions_created = 0, source_feed_weekly_partitions_created = 0,
         weeks_covered = length (article_weeks ?s')\<rparr>, end_transaction s2)"
    using s2 again by (simp add: repartition_rss_source_partitions_def)
  ultimately show ?thesis
    using first st lay renumbered_ok [OF assms(1)] def_sources def_links s1(3) weeks
    by (intro exI [of _ "end_transaction s2"] exI) (auto simp: Un_commute)
qed

text \<open>
  An article dated in the last week of the year 9999 blocks the maintenance for good: the end of its week is no date of
  Python, so every run raises \<^verbatim>\<open>OverflowError\<close> and is rolled back.
\<close>

theorem late_article_blocks_repartition:
  assumes "layout_ok s" and "stores s db" and "\<forall>r\<in>set (db_sources db). so_published_at r \<le> datetime_max_us"
    and "r \<in> set (db_sources db)" and "last_week \<le> so_published_at r"
  shows "repartition_rss_source_partitions commit s = (Inl (OverflowError ''date value out of range''), end_transaction s)"
proof -
  have rows: "set (all_rows (st_sources s)) = set (db_sources db)" using assms(2) unfolding stores_def by (metis set_mset_mset)
  obtain s' where "repartition_default_sources_by_published_at s = (Inl (OverflowError ''date value out of range''), s')"
    "st_seq s' = st_seq s"
    using repartition_failure [OF assms(1)] assms(3-5) unfolding rows by blast
  then show ?thesis by (simp add: repartition_rss_source_partitions_def)
qed

section \<open>Samples\<close>

definition sample_article :: "int \<Rightarrow> string \<Rightarrow> int \<Rightarrow> source_row" where
  "sample_article i u d = \<lparr>so_id = i, so_title = ''t'', so_summary = None, so_author = None, so_url = u,
     so_published_at = d, so_image_url = None\<rparr>"

definition sample_articles_db :: "source_row list \<Rightarrow> database" where
  "sample_articles_db rows = \<lparr>db_companies = [],
     db_feeds = [\<lparr>fd_id = 1, fd_url = ''u'', fd_section = None, fd_enabled = True, fd_trust_score = 1, fd_company_id = None\<rparr>],
     db_tags = [], db_feed_tags = [], db_scrapings = [], db_jobs = [], db_job_feeds = [], db_results = [], db_sources = rows,
     db_source_links = map (\<lambda>r. \<lparr>sl_source_id = so_id r, sl_feed_id = 1, sl_published_at = so_published_at r\<rparr>) rows,
     source_seq = 9\<rparr>"

definition sample_store :: "source_row list \<Rightarrow> source_store" where
  "sample_store rows = \<lparr>st_sources = \<lparr>default_rows = rows, partitions = []\<rparr>,
     st_links = \<lparr>default_rows = db_source_links (sample_articles_db rows), partitions = []\<rparr>, st_seq = 9, st_feeds = [1],
     st_relations = [''rss_feeds''], st_source_buffer = None, st_link_buffer = None\<rparr>"

lemma sample_layout: "layout_ok (sample_store rows)" "stores (sample_store rows) (sample_articles_db rows)"
  by (simp_all add: layout_ok_def stores_def sample_store_def sample_articles_db_def weeks_of_def all_rows_def
      sources.weekly_ok_def links.weekly_ok_def source_partition_name_def link_partition_name_def)

definition two_articles :: "source_row list" where
  "two_articles = [sample_article 1 ''a'' 0, sample_article 5 ''b'' 1767787200000000]"

theorem repartition_refines_database_witness:
  "\<exists>res s'. repartition_rss_source_partitions CommitOk (sample_store two_articles) = (Inr res, s') \<and>
    stores s' (renumbered (sample_articles_db two_articles)) \<and> source_default_rows_repartitioned res = 2"
proof -
  have "db_ok (sample_articles_db two_articles)"
    by (simp add: schema_defs sample_articles_db_def two_articles_def sample_article_def unique_key_def source_key_def link_key_def
        keys_of_def)
  moreover have "\<forall>r\<in>set (db_sources (sample_articles_db two_articles)). so_published_at r < last_week"
    by (simp add: sample_articles_db_def two_articles_def sample_article_def last_week_eq datetime_max_us_def us_per_day_def)
  moreover have "length (default_rows (st_sources (sample_store two_articles))) = 2"
    by (simp add: sample_store_def two_articles_def)
  ultimately show ?thesis
    using repartition_refines_database [OF _ sample_layout(2) sample_layout(1)] by metis
qed

theorem late_article_blocks_repartition_witness:
  "fst (repartition_rss_source_partitions CommitOk (sample_store [sample_article 1 ''a'' datetime_max_us])) =
    Inl (OverflowError ''date value out of range'')"
  by (subst late_article_blocks_repartition [OF sample_layout, where r = "sample_article 1 ''a'' datetime_max_us"])
    (simp_all add: sample_articles_db_def sample_article_def last_week_eq us_per_day_def)

end
