(* ===== verification/Admin_Properties.thy ===== *)
theory Admin_Properties
  imports Feed_Admin
begin

text \<open>
  What the administration of feeds promises: the answers of the toggles on every branch, which of them reach the scraping,
  and that an icon is never read outside the repository.
\<close>

lemma update_and_commit_ok:
  "update_and_commit CommitOk update not_found res db =
    (case update db of (Inl e, _) \<Rightarrow> (Inl (Unhandled e), db) | (Inr b, db') \<Rightarrow> if b then (Inr res, db') else (Inl (Rss not_found), db))"
  by (auto simp: update_and_commit_def split: prod.splits sum.splits bool.splits)

lemma row_with_key: "row_with key k rows = Some r \<Longrightarrow> k \<in> keys_of key rows"
  using row_with_None by force

lemma selected_enabled:
  "feed_id \<in> fd_id ` set (selected_feeds None True db) \<longleftrightarrow> (\<exists>f\<in>set (db_feeds db). fd_id f = feed_id \<and> fd_enabled f)"
  by (auto simp: selected_feeds_def requested_ids_def)

section \<open>Feeds\<close>

text \<open>The feed's company is disabled.\<close>

definition company_disabled :: "database \<Rightarrow> feed_row \<Rightarrow> bool" where
  "company_disabled db feed = (case feed_company db feed of None \<Rightarrow> False | Some c \<Rightarrow> \<not> co_enabled c)"

lemma toggle_feed_cases:
  assumes "get_rss_feed_by_id feed_id db = Some feed"
  shows "fd_enabled feed = enabled \<Longrightarrow> toggle_rss_feed_enabled CommitOk feed_id enabled db = (Inr (feed_id, enabled), db)"
    "fd_enabled feed \<noteq> enabled \<Longrightarrow> company_disabled db feed \<Longrightarrow>
      \<exists>m. toggle_rss_feed_enabled CommitOk feed_id enabled db = (Inl (Rss (RssFeedToggleForbiddenError m)), db)"
    "fd_enabled feed \<noteq> enabled \<Longrightarrow> \<not> company_disabled db feed \<Longrightarrow>
      toggle_rss_feed_enabled CommitOk feed_id enabled db =
        (Inr (feed_id, enabled), snd (set_rss_feed_enabled feed_id enabled db))"
  using assms row_with_SomeD [of fd_id feed_id "db_feeds db" feed] row_with_key [of fd_id feed_id "db_feeds db" feed]
  by (auto simp: toggle_rss_feed_enabled_def company_disabled_def get_rss_feed_by_id_def update_and_commit_ok
      set_rss_feed_enabled_def split: option.splits)

text \<open>
  The answer to a request that toggles a feed, on every branch: 409 while another toggle runs, 404 for an unknown feed, 200
  without any change if the feed already is in that state, 409 if its company is disabled, else 200 and exactly the flag of
  this feed changes.  After a 200 the feed takes part in an ingestion of all feeds if and only if it was enabled; after
  anything else the database is as before.
\<close>

theorem feed_toggle_answers:
  assumes "unique_key fd_id (db_feeds db)" and "update_rss_feed_enabled free CommitOk feed_id enabled db = (r, db')"
  shows "(case row_with fd_id feed_id (db_feeds db) of
      None \<Rightarrow> api_status r = (if free then 404 else 409) \<and> db' = db
    | Some feed \<Rightarrow>
        if \<not> free \<or> (fd_enabled feed \<noteq> enabled \<and> company_disabled db feed) then api_status r = 409 \<and> db' = db
        else r = Inr (feed_id, enabled) \<and>
          db' = db\<lparr>db_feeds := update_row fd_id feed_id (\<lambda>f. f\<lparr>fd_enabled := enabled\<rparr>) (db_feeds db)\<rparr> \<and>
          (feed_id \<in> fd_id ` set (selected_feeds None True db') \<longleftrightarrow> enabled))"
proof (cases "row_with fd_id feed_id (db_feeds db)")
  case None
  then show ?thesis using assms(2)
    by (auto simp: update_rss_feed_enabled_def with_job_lock_def toggle_rss_feed_enabled_def get_rss_feed_by_id_def
        feed_not_found_def split: if_splits)
next
  case (Some feed)
  then have g: "get_rss_feed_by_id feed_id db = Some feed" by (simp add: get_rss_feed_by_id_def)
  note fd = row_with_SomeD [OF Some]
  let ?db = "db\<lparr>db_feeds := update_row fd_id feed_id (\<lambda>f. f\<lparr>fd_enabled := enabled\<rparr>) (db_feeds db)\<rparr>"
  have only: "f = feed" if "f \<in> set (db_feeds db)" "fd_id f = feed_id" for f
    using row_with_unique [OF assms(1), of feed_id f] that Some by simp
  have same: "?db = db" if "fd_enabled feed = enabled"
  proof -
    have "update_row fd_id feed_id (\<lambda>f. f\<lparr>fd_enabled := enabled\<rparr>) (db_feeds db) = db_feeds db"
      unfolding update_row_def using only that by (intro map_idI) auto
    then show ?thesis by simp
  qed
  have sel: "feed_id \<in> fd_id ` set (selected_feeds None True ?db) \<longleftrightarrow> enabled"
  proof -
    have rows: "db_feeds ?db = update_row fd_id feed_id (\<lambda>f. f\<lparr>fd_enabled := enabled\<rparr>) (db_feeds db)" by simp
    have "feed\<lparr>fd_enabled := enabled\<rparr> \<in> set (update_row fd_id feed_id (\<lambda>f. f\<lparr>fd_enabled := enabled\<rparr>) (db_feeds db))"
      unfolding update_row_def set_map by (rule image_eqI [of _ _ feed]) (use fd in simp_all)
    then have "feed\<lparr>fd_enabled := enabled\<rparr> \<in> set (db_feeds ?db)" by simp
    then have "\<exists>f\<in>set (db_feeds ?db). fd_id f = feed_id \<and> fd_enabled f" if enabled
      using that fd by (rule_tac bexI) simp_all
    moreover have "fd_enabled f = enabled" if f: "f \<in> set (db_feeds ?db)" "fd_id f = feed_id" for f
    proof -
      obtain f0 where "f = (if fd_id f0 = feed_id then f0\<lparr>fd_enabled := enabled\<rparr> else f0)"
        using f(1) in_update_row unfolding rows by metis
      then show ?thesis using f(2) by (cases "fd_id f0 = feed_id") simp_all
    qed
    ultimately show ?thesis unfolding selected_enabled by blast
  qed
  show ?thesis
  proof (cases "\<not> free \<or> (fd_enabled feed \<noteq> enabled \<and> company_disabled db feed)")
    case True
    then have "api_status r = 409 \<and> db' = db"
      using assms(2) toggle_feed_cases(2) [OF g, of enabled]
      by (cases free) (auto simp: update_rss_feed_enabled_def with_job_lock_def)
    then show ?thesis using True Some by simp
  next
    case False
    then have "toggle_rss_feed_enabled CommitOk feed_id enabled db = (Inr (feed_id, enabled), ?db)"
      using toggle_feed_cases(1,3) [OF g, of enabled] same
      by (cases "fd_enabled feed = enabled") (simp_all add: set_rss_feed_enabled_def)
    then have "r = Inr (feed_id, enabled)" "db' = ?db"
      using assms(2) False by (simp_all add: update_rss_feed_enabled_def with_job_lock_def)
    then show ?thesis using False Some sel by simp
  qed
qed

section \<open>Companies\<close>

lemma toggle_company_db:
  "\<exists>companies. snd (toggle_rss_company_enabled commit company_id enabled db) = db\<lparr>db_companies := companies\<rparr> \<and>
    (companies = db_companies db \<or>
     companies = update_row co_id company_id (\<lambda>c. c\<lparr>co_enabled := enabled\<rparr>) (db_companies db))"
proof -
  have "snd (toggle_rss_company_enabled commit company_id enabled db) = db \<or>
    snd (toggle_rss_company_enabled commit company_id enabled db) =
      db\<lparr>db_companies := update_row co_id company_id (\<lambda>c. c\<lparr>co_enabled := enabled\<rparr>) (db_companies db)\<rparr>"
    by (simp add: toggle_rss_company_enabled_def update_and_commit_def set_rss_company_enabled_def
        split: option.splits prod.splits sum.splits bool.splits commit_outcome.splits)
  then show ?thesis
  proof
    assume "snd (toggle_rss_company_enabled commit company_id enabled db) = db"
    then show ?thesis by (intro exI [of _ "db_companies db"]) simp
  qed blast
qed

text \<open>The scraping only reads the host and the protection of a company.\<close>

lemma payloads_ignore_enabled:
  assumes "companies = update_row co_id company_id (\<lambda>c. c\<lparr>co_enabled := enabled\<rparr>) (db_companies db)"
  shows "list_rss_feed_scrape_payloads netloc_ok ids b (db\<lparr>db_companies := companies\<rparr>)
    = list_rss_feed_scrape_payloads netloc_ok ids b db"
proof -
  have c: "feed_company (db\<lparr>db_companies := companies\<rparr>) f =
      (if fd_company_id f = Some company_id then map_option (\<lambda>c. c\<lparr>co_enabled := enabled\<rparr>) (feed_company db f)
       else feed_company db f)" for f
    using assms by (cases "fd_company_id f") (simp_all add: feed_company_def row_with_update)
  have res: "resolve_feed_fetchprotection s (map_option (\<lambda>c. c\<lparr>co_enabled := enabled\<rparr>) co) = resolve_feed_fetchprotection s co"
    for s co by (cases co) (simp_all add: resolve_feed_fetchprotection_def split: option.splits)
  have "feed_payload netloc_ok (db\<lparr>db_companies := companies\<rparr>) f = feed_payload netloc_ok db f" for f
  proof -
    have "(case feed_company (db\<lparr>db_companies := companies\<rparr>) f of None \<Rightarrow> None | Some c \<Rightarrow> co_host c) =
        (case feed_company db f of None \<Rightarrow> None | Some c \<Rightarrow> co_host c)"
      unfolding c by (cases "feed_company db f") simp_all
    moreover have "resolve_feed_fetchprotection s (feed_company (db\<lparr>db_companies := companies\<rparr>) f) =
        resolve_feed_fetchprotection s (feed_company db f)" for s
      unfolding c by (simp add: res)
    moreover have "feed_scraping (db\<lparr>db_companies := companies\<rparr>) f = feed_scraping db f"
      "latest_article (db\<lparr>db_companies := companies\<rparr>) i = latest_article db i" for i
      by (simp_all add: feed_scraping_def latest_article_def)
    ultimately show ?thesis by (simp add: feed_payload_def Let_def)
  qed
  then have "feed_payload netloc_ok (db\<lparr>db_companies := companies\<rparr>) = feed_payload netloc_ok db" by blast
  moreover have "selected_feeds ids b (db\<lparr>db_companies := companies\<rparr>) = selected_feeds ids b db"
    by (simp add: selected_feeds_def)
  ultimately show ?thesis by (simp add: list_rss_feed_scrape_payloads_def)
qed

text \<open>
  Disabling a company never reaches the scraping: whatever the request that toggles a company does to the database, the feeds
  that a job of any kind collects are the same as before, so the feeds of a disabled company are still checked and ingested.
\<close>

theorem company_toggle_does_not_reach_scraping:
  "list_rss_feed_scrape_payloads netloc_ok ids enabled_only
      (snd (update_rss_company_enabled free commit company_id enabled db))
    = list_rss_feed_scrape_payloads netloc_ok ids enabled_only db"
proof (cases free)
  case True
  obtain companies where "snd (toggle_rss_company_enabled commit company_id enabled db) = db\<lparr>db_companies := companies\<rparr>"
    "companies = db_companies db \<or> companies = update_row co_id company_id (\<lambda>c. c\<lparr>co_enabled := enabled\<rparr>) (db_companies db)"
    using toggle_company_db by blast
  then show ?thesis
    using True payloads_ignore_enabled by (auto simp: update_rss_company_enabled_def with_job_lock_def)
qed (simp add: update_rss_company_enabled_def with_job_lock_def)

text \<open>Disabling a company and enabling it again restores the database.\<close>

lemma company_toggle_roundtrip:
  assumes "unique_key co_id (db_companies db)" and "row_with co_id i (db_companies db) = Some c"
  shows "snd (toggle_rss_company_enabled CommitOk i (co_enabled c)
      (snd (toggle_rss_company_enabled CommitOk i (\<not> co_enabled c) db))) = db"
proof -
  note key = row_with_key [OF assms(2)]
  let ?db = "db\<lparr>db_companies := update_row co_id i (\<lambda>c'. c'\<lparr>co_enabled := \<not> co_enabled c\<rparr>) (db_companies db)\<rparr>"
  have one: "snd (toggle_rss_company_enabled CommitOk i (\<not> co_enabled c) db) = ?db"
    using assms(2) key by (simp add: toggle_rss_company_enabled_def update_and_commit_ok set_rss_company_enabled_def)
  have "row_with co_id i (db_companies ?db) = Some (c\<lparr>co_enabled := \<not> co_enabled c\<rparr>)"
    using assms(2) by (simp add: row_with_update)
  then have two: "snd (toggle_rss_company_enabled CommitOk i (co_enabled c) ?db) =
      db\<lparr>db_companies := update_row co_id i (\<lambda>c'. c'\<lparr>co_enabled := co_enabled c\<rparr>) (db_companies ?db)\<rparr>"
    using key by (simp add: toggle_rss_company_enabled_def update_and_commit_ok set_rss_company_enabled_def)
  have "c' = c" if "c' \<in> set (db_companies db)" "co_id c' = i" for c'
    using row_with_unique [OF assms(1), of i c'] that assms(2) by simp
  then have "update_row co_id i (\<lambda>c'. c'\<lparr>co_enabled := co_enabled c\<rparr>) (db_companies ?db) = db_companies db"
    by (simp add: update_row_def comp_def) (intro map_idI, auto)
  then show ?thesis unfolding one two by simp
qed

section \<open>Icons\<close>

text \<open>
  C33: an icon is only ever read inside the repository: whatever address is asked for and wherever links lead, the file that is
  sent lies under the resolved repository, is a file whose name ends in .svg, and was reached from the \<^verbatim>\<open>img\<close> directory
  by a path without \<^verbatim>\<open>..\<close>.
\<close>

theorem icon_stays_in_repository:
  assumes "get_rss_icon_file_path fs repository_path icon_url = Inr (path, media_type, filename)"
  shows "\<exists>root rest below. fs_resolve fs repository_path = Inr root \<and> path = root @ rest \<and> fs_is_file fs path \<and>
    ends_with ''.svg'' (py_lower filename) \<and> filename = last path \<and>
    fs_resolve fs (root @ ''img'' # below) = Inr path \<and> ''..'' \<notin> set below"
proof -
  obtain root where r: "fs_resolve fs repository_path = Inr root"
    using assms by (auto simp: get_rss_icon_file_path_def resolve_rss_icon_file_path_def icon_error_def resolved_def Let_def
        and_then_eq_Inr split: if_splits sum.splits)
  define parts where "parts = path_parts (dropWhile (\<lambda>c. c = CHR ''/'') (py_strip icon_url))"
  define icon where "icon = (if take 1 parts = [''img''] then parts else ''img'' # parts)"
  have ok: "''..'' \<notin> set parts" "fs_resolve fs (root @ icon) = Inr path" "take (length root) path = root"
    "py_lower (name_suffix (last path)) = ''.svg''" "fs_is_file fs path" "filename = last path"
    using assms r by (auto simp: get_rss_icon_file_path_def resolve_rss_icon_file_path_def icon_error_def resolved_def Let_def
        and_then_eq_Inr parts_def icon_def split: if_splits sum.splits)
  have "\<exists>below. icon = ''img'' # below \<and> ''..'' \<notin> set below"
    using ok(1) by (cases parts) (auto simp: icon_def)
  then obtain below where below: "icon = ''img'' # below" "''..'' \<notin> set below" by blast
  have "name_suffix (last path) \<noteq> []" using ok(4) py_lower_Nil_iff by (metis list.distinct(1))
  then have "\<exists>t. last path = t @ name_suffix (last path)"
  proof -
    assume "name_suffix (last path) \<noteq> []"
    then have dot: "CHR ''.'' \<in> set (last path)" "name_suffix (last path) = CHR ''.'' # after_last CHR ''.'' (last path)"
      by (auto simp: name_suffix_def Let_def split: if_splits)
    let ?r = "rev (last path)"
    have "dropWhile (\<lambda>d. d \<noteq> CHR ''.'') ?r \<noteq> []" using dot(1) by (simp add: dropWhile_eq_Nil_conv)
    then obtain ds where "dropWhile (\<lambda>d. d \<noteq> CHR ''.'') ?r = CHR ''.'' # ds"
      using hd_dropWhile [of "\<lambda>d. d \<noteq> CHR ''.''" ?r] by (cases "dropWhile (\<lambda>d. d \<noteq> CHR ''.'') ?r") auto
    then have "?r = takeWhile (\<lambda>d. d \<noteq> CHR ''.'') ?r @ CHR ''.'' # ds" by (metis takeWhile_dropWhile_id)
    then have "last path = rev ds @ CHR ''.'' # rev (takeWhile (\<lambda>d. d \<noteq> CHR ''.'') ?r)"
      by (metis append.assoc append_Cons append_Nil rev.simps(2) rev_append rev_rev_ident)
    then show ?thesis using dot(2) by (auto simp: after_last_def)
  qed
  then obtain t where "last path = t @ name_suffix (last path)" by blast
  then have "ends_with ''.svg'' (py_lower filename)"
    using ok(4,6) unfolding ends_with_iff by (metis py_lower_append)
  moreover have "path = root @ drop (length root) path" using ok(3) by (metis append_take_drop_id)
  ultimately show ?thesis using r ok(2,5,6) below by blast
qed

section \<open>Samples\<close>

definition admin_db :: database where
  "admin_db = \<lparr>db_companies = [\<lparr>co_id = 1, co_name = ''a'', co_host = None, co_icon_url = None, co_country = None,
       co_language = None, co_fetchprotection = 1, co_enabled = True\<rparr>],
     db_feeds = [\<lparr>fd_id = 1, fd_url = ''u'', fd_section = None, fd_enabled = True, fd_trust_score = 1, fd_company_id = Some 1\<rparr>],
     db_tags = [], db_feed_tags = [], db_scrapings = [], db_jobs = [], db_job_feeds = [], db_results = [], db_sources = [],
     db_source_links = [], source_seq = 1\<rparr>"

theorem feed_toggle_answers_witness:
  "\<exists>db'. update_rss_feed_enabled True CommitOk 1 False admin_db = (Inr (1, False), db') \<and>
    1 \<notin> fd_id ` set (selected_feeds None True db')"
proof -
  obtain r db' where e: "update_rss_feed_enabled True CommitOk 1 False admin_db = (r, db')" by (metis prod.collapse)
  have "unique_key fd_id (db_feeds admin_db)" by (simp add: admin_db_def unique_key_def)
  from feed_toggle_answers [OF this e] show ?thesis
    using e by (auto simp: admin_db_def row_with_def company_disabled_def feed_company_def)
qed

definition plain_files :: file_system where
  "plain_files = \<lparr>fs_resolve = Inr, fs_is_file = (\<lambda>_. True)\<rparr>"

theorem icon_stays_in_repository_witness:
  "\<exists>root rest. get_rss_icon_file_path plain_files [''tmp'', ''rss_feeds''] ''/a/b.SVG'' =
      Inr (root @ rest, ''image/svg+xml'', ''b.SVG'') \<and> fs_resolve plain_files [''tmp'', ''rss_feeds''] = Inr root"
proof -
  have "get_rss_icon_file_path plain_files [''tmp'', ''rss_feeds''] ''/a/b.SVG'' =
      Inr ([''tmp'', ''rss_feeds'', ''img'', ''a'', ''b.SVG''], ''image/svg+xml'', ''b.SVG'')" by code_simp
  from icon_stays_in_repository [OF this] this show ?thesis by auto
qed

end
