(* ===== verification/Source_Reads.thy ===== *)
theory Source_Reads
  imports Feed_Admin "HOL-Library.List_Lexorder" "HOL-Library.Char_ord"
begin

text \<open>
  Reading articles in the backend: the queries of \<^verbatim>\<open>clients/database/sources/get_sources_db_cli.py\<close>, the services of
  \<^verbatim>\<open>services/sources/source_service.py\<close> and the routes of \<^verbatim>\<open>routers/sources_router.py\<close>.  The pages are equal to those
  of a reference listing.
\<close>

section \<open>Answers\<close>

record source_read =
  sr_id :: int
  sr_title :: string
  sr_summary :: "string option"
  sr_author :: "string option"
  sr_url :: string
  sr_published_at :: "py_datetime option"
  sr_image_url :: "string option"
  sr_company_names :: "string list"

record source_page =
  pg_items :: "source_read list"
  pg_total :: nat
  pg_limit :: int
  pg_offset :: int

record source_detail =
  sd_source :: source_read
  sd_feed_sections :: "string list"

text \<open>The fallback date is shown as no date.\<close>

definition to_public_published_at :: "py_datetime option \<Rightarrow> py_exn + py_datetime option" where
  "to_public_published_at published_at =
     (case published_at of
        None \<Rightarrow> Inr None
      | Some d \<Rightarrow> and_then (to_utc d) (\<lambda>u. Inr (if u = SOURCE_PUBLISHED_AT_FALLBACK then None else Some u)))"

section \<open>Queries\<close>

definition links_of :: "database \<Rightarrow> source_row \<Rightarrow> source_link list" where
  "links_of db s = filter (\<lambda>l. sl_source_id l = so_id s \<and> sl_published_at l = so_published_at s) (db_source_links db)"

text \<open>The joined rows of a source: its links, their feeds, the filters.\<close>

definition joined_feeds :: "database \<Rightarrow> int option \<Rightarrow> int option \<Rightarrow> source_row \<Rightarrow> feed_row list" where
  "joined_feeds db feed_id company_id s =
     concat (map (\<lambda>l. filter (\<lambda>f. fd_id f = sl_feed_id l \<and>
         (case company_id of None \<Rightarrow> True | Some c \<Rightarrow> fd_company_id f = Some c) \<and>
         (case feed_id of None \<Rightarrow> True | Some i \<Rightarrow> sl_feed_id l = i)) (db_feeds db)) (links_of db s))"

text \<open>Grouped by the identifier, with the latest date.\<close>

definition build_source_ids_query :: "database \<Rightarrow> int option \<Rightarrow> int option \<Rightarrow> (int \<times> int) list" where
  "build_source_ids_query db feed_id company_id =
     (let rows = concat (map (\<lambda>s. map (\<lambda>_. (so_id s, so_published_at s)) (joined_feeds db feed_id company_id s)) (db_sources db))
      in map (\<lambda>i. (i, Max (set (map snd (filter (\<lambda>r. fst r = i) rows))))) (remdups (map fst rows)))"

text \<open>\<^verbatim>\<open>ORDER BY date DESC, id DESC\<close>, by two stable sorts.\<close>

definition newest_first :: "('a \<Rightarrow> int) \<Rightarrow> ('a \<Rightarrow> int) \<Rightarrow> 'a list \<Rightarrow> 'a list" where
  "newest_first date ident xs = sort_key (\<lambda>x. - date x) (sort_key (\<lambda>x. - ident x) xs)"

definition load_sources_by_ids :: "database \<Rightarrow> int list \<Rightarrow> int \<rightharpoonup> source_row" where
  "load_sources_by_ids db source_ids =
     (\<lambda>i. if i \<in> set source_ids then row_with so_id i (rev (db_sources db)) else None)"

definition linked_feeds :: "database \<Rightarrow> source_row \<Rightarrow> feed_row list" where
  "linked_feeds db s = List.map_filter (\<lambda>l. row_with fd_id (sl_feed_id l) (db_feeds db)) (links_of db s)"

definition collect_company_names :: "database \<Rightarrow> source_row \<Rightarrow> string list" where
  "collect_company_names db s =
     sort (remdups (filter (\<lambda>n. n \<noteq> []) (map co_name (List.map_filter (feed_company db) (linked_feeds db s)))))"

definition source_read_of :: "database \<Rightarrow> source_row \<Rightarrow> py_exn + source_read" where
  "source_read_of db s =
     and_then (to_public_published_at (Some (db_datetime (so_published_at s)))) (\<lambda>published_at.
       Inr \<lparr>sr_id = so_id s, sr_title = so_title s, sr_summary = so_summary s, sr_author = so_author s, sr_url = so_url s,
            sr_published_at = published_at, sr_image_url = so_image_url s,
            sr_company_names = collect_company_names db s\<rparr>)"

text \<open>One page and the number of all matching articles.\<close>

definition list_rss_sources_read ::
  "nat \<Rightarrow> nat \<Rightarrow> int option \<Rightarrow> int option \<Rightarrow> database \<Rightarrow> py_exn + source_read list \<times> nat" where
  "list_rss_sources_read limit offset feed_id company_id db =
     (let source_ids = build_source_ids_query db feed_id company_id; total = length source_ids in
      if total = 0 then Inr ([], 0)
      else
        let paged_source_ids = map fst (take limit (drop offset (newest_first snd fst source_ids))) in
        if paged_source_ids = [] then Inr ([], total)
        else
          let sources_by_id = load_sources_by_ids db paged_source_ids in
          and_then (map_ok (source_read_of db) (List.map_filter sources_by_id paged_source_ids)) (\<lambda>source_reads.
            Inr (source_reads, total)))"

text \<open>The latest article of each address.\<close>

definition list_rss_sources_by_urls :: "string list \<Rightarrow> database \<Rightarrow> string \<rightharpoonup> source_row" where
  "list_rss_sources_by_urls urls db =
     (\<lambda>url. if url \<in> set urls
            then row_with so_url url (newest_first so_published_at so_id (filter (\<lambda>s. so_url s \<in> set urls) (db_sources db)))
            else None)"

definition get_rss_source_detail_read_by_id :: "int \<Rightarrow> database \<Rightarrow> py_exn + source_detail option" where
  "get_rss_source_detail_read_by_id source_id db =
     (case row_with so_id source_id (db_sources db) of
        None \<Rightarrow> Inr None
      | Some s \<Rightarrow>
          let feed_sections = List.map_filter (\<lambda>f. case fd_section f of None \<Rightarrow> None | Some t \<Rightarrow> if t = [] then None else Some t)
                (linked_feeds db s)
          in and_then (source_read_of db s) (\<lambda>r.
               Inr (Some \<lparr>sd_source = r, sd_feed_sections = sort (remdups feed_sections)\<rparr>)))"

section \<open>Services and routes\<close>

definition get_rss_sources ::
  "int \<Rightarrow> int \<Rightarrow> int option \<Rightarrow> int option \<Rightarrow> database \<Rightarrow> py_exn + source_page" where
  "get_rss_sources limit offset feed_id company_id db =
     and_then (list_rss_sources_read (nat limit) (nat offset) feed_id company_id db) (\<lambda>(items, total).
       if 1 \<le> limit \<and> 0 \<le> offset
       then Inr \<lparr>pg_items = items, pg_total = total, pg_limit = limit, pg_offset = offset\<rparr>
       else Inl (ValidationError ''RssSourcePageRead''))"

definition get_rss_source_by_id :: "int \<Rightarrow> database \<Rightarrow> api_error + source_detail" where
  "get_rss_source_by_id source_id db =
     (case get_rss_source_detail_read_by_id source_id db of
        Inl e \<Rightarrow> Inl (Unhandled e)
      | Inr None \<Rightarrow> Inl (HttpError 404 (''RSS source '' @ str_int source_id @ '' not found''))
      | Inr (Some d) \<Rightarrow> Inr d)"

text \<open>A parameter out of its declared bounds is refused before the route runs.\<close>

definition checked :: "bool \<Rightarrow> api_error + 'a \<Rightarrow> api_error + 'a" where
  "checked ok r = (if ok then r else Inl (HttpError 422 ''request validation''))"

definition unhandled :: "py_exn + 'a \<Rightarrow> api_error + 'a" where
  "unhandled r = (case r of Inl e \<Rightarrow> Inl (Unhandled e) | Inr x \<Rightarrow> Inr x)"

definition read_sources :: "int \<Rightarrow> int \<Rightarrow> database \<Rightarrow> api_error + source_page" where
  "read_sources limit offset db =
     checked (1 \<le> limit \<and> limit \<le> 100 \<and> 0 \<le> offset) (unhandled (get_rss_sources limit offset None None db))"

definition read_sources_by_feed :: "int \<Rightarrow> int \<Rightarrow> int \<Rightarrow> database \<Rightarrow> api_error + source_page" where
  "read_sources_by_feed feed_id limit offset db =
     checked (1 \<le> feed_id \<and> 1 \<le> limit \<and> limit \<le> 100 \<and> 0 \<le> offset)
       (unhandled (get_rss_sources limit offset (Some feed_id) None db))"

definition read_sources_by_company :: "int \<Rightarrow> int \<Rightarrow> int \<Rightarrow> database \<Rightarrow> api_error + source_page" where
  "read_sources_by_company company_id limit offset db =
     checked (1 \<le> company_id \<and> 1 \<le> limit \<and> limit \<le> 100 \<and> 0 \<le> offset)
       (unhandled (get_rss_sources limit offset None (Some company_id) db))"

definition read_source_by_id :: "int \<Rightarrow> database \<Rightarrow> api_error + source_detail" where
  "read_source_by_id source_id db = checked (1 \<le> source_id) (get_rss_source_by_id source_id db)"

end
