(* ===== verification/Source_Read_Properties.thy ===== *)
theory Source_Read_Properties
  imports Source_Reads
begin

text \<open>
  The pages of articles are the pages of one reference listing, newest first, without repetition, and an article is shown by
  its own route exactly as in the pages.
\<close>

section \<open>Sorting and grouping\<close>

lemma insort_key_map: "insort_key k (h x) (map h xs) = map h (insort_key (\<lambda>x. k (h x)) x xs)"
  by (induction xs) auto

lemma sort_key_map: "sort_key k (map h xs) = map h (sort_key (\<lambda>x. k (h x)) xs)"
proof (induction xs)
  case (Cons x xs)
  have "sort_key k (map h (x # xs)) = insort_key k (h x) (sort_key k (map h xs))" by simp
  also have "\<dots> = insort_key k (h x) (map h (sort_key (\<lambda>x. k (h x)) xs))" using Cons by simp
  also have "\<dots> = map h (insort_key (\<lambda>x. k (h x)) x (sort_key (\<lambda>x. k (h x)) xs))" by (rule insort_key_map)
  finally show ?case by simp
qed simp

lemma newest_first_map: "newest_first date ident (map h xs) = map h (newest_first (\<lambda>x. date (h x)) (\<lambda>x. ident (h x)) xs)"
  by (simp add: newest_first_def sort_key_map)

lemma remdups_block: "x \<notin> set ys \<Longrightarrow> remdups (map (\<lambda>_. x) zs @ ys) = (if zs = [] then [] else [x]) @ remdups ys"
  by (induction zs) (auto simp: image_constant_conv)

lemma remdups_blocks:
  assumes "distinct (map g xs)"
  shows "remdups (concat (map (\<lambda>x. map (\<lambda>_. g x) (h x)) xs)) = map g (filter (\<lambda>x. h x \<noteq> []) xs)"
  using assms
proof (induction xs)
  case (Cons x xs)
  have "g x \<notin> set (concat (map (\<lambda>x. map (\<lambda>_. g x) (h x)) xs))" using Cons.prems by auto
  then show ?case using Cons by (simp add: remdups_block)
qed simp

lemma concat_pages: "concat (map (\<lambda>i. take n (drop (i * n) xs)) [0..<m]) = take (m * n) xs"
proof (induction m)
  case (Suc m)
  have "take (m * n + n) xs = take (m * n) xs @ take n (drop (m * n) xs)" by (rule take_add)
  then show ?case using Suc by (simp add: add.commute)
qed simp

section \<open>The reference listing\<close>

text \<open>An article matches if one of its links leads to a feed that passes the filters.\<close>

definition matches :: "database \<Rightarrow> int option \<Rightarrow> int option \<Rightarrow> source_row \<Rightarrow> bool" where
  "matches db feed_id company_id s \<longleftrightarrow>
     (\<exists>l\<in>set (db_source_links db). sl_source_id l = so_id s \<and> sl_published_at l = so_published_at s \<and>
        (feed_id = None \<or> feed_id = Some (sl_feed_id l)) \<and>
        (\<exists>f\<in>set (db_feeds db). fd_id f = sl_feed_id l \<and> (company_id = None \<or> fd_company_id f = company_id)))"

definition article_listing :: "database \<Rightarrow> int option \<Rightarrow> int option \<Rightarrow> source_row list" where
  "article_listing db feed_id company_id =
     newest_first so_published_at so_id (filter (matches db feed_id company_id) (db_sources db))"

definition shown_article :: "database \<Rightarrow> source_row \<Rightarrow> source_read" where
  "shown_article db s =
     \<lparr>sr_id = so_id s, sr_title = so_title s, sr_summary = so_summary s, sr_author = so_author s, sr_url = so_url s,
      sr_published_at = (if so_published_at s = 0 then None else Some (db_datetime (so_published_at s))),
      sr_image_url = so_image_url s, sr_company_names = collect_company_names db s\<rparr>"

lemma joined_feeds_matches: "joined_feeds db feed_id company_id s \<noteq> [] \<longleftrightarrow> matches db feed_id company_id s"
proof -
  have "(case company_id of None \<Rightarrow> True | Some c \<Rightarrow> fd_company_id f = Some c) \<longleftrightarrow> company_id = None \<or> fd_company_id f = company_id"
    "(case feed_id of None \<Rightarrow> True | Some i \<Rightarrow> sl_feed_id l = i) \<longleftrightarrow> feed_id = None \<or> feed_id = Some (sl_feed_id l)"
    for f :: feed_row and l by (auto split: option.splits)
  then show ?thesis unfolding joined_feeds_def links_of_def matches_def by (auto simp: filter_empty_conv)
qed

lemma source_read_shown: "wall_in_range (so_published_at s) \<Longrightarrow> source_read_of db s = Inr (shown_article db s)"
  by (auto simp: source_read_of_def shown_article_def to_public_published_at_def to_utc_def db_datetime_def
      py_astimezone_utc_def SOURCE_PUBLISHED_AT_FALLBACK_def utc_date_def ymd_ordinal_def days_before_year_def
      days_before_month_def)

lemma source_ids_of:
  assumes "unique_key so_id (db_sources db)"
  shows "build_source_ids_query db feed_id company_id =
    map (\<lambda>s. (so_id s, so_published_at s)) (filter (matches db feed_id company_id) (db_sources db))"
proof -
  let ?h = "joined_feeds db feed_id company_id"
  let ?rows = "concat (map (\<lambda>s. map (\<lambda>_. (so_id s, so_published_at s)) (?h s)) (db_sources db))"
  have "map fst ?rows = concat (map (\<lambda>s. map (\<lambda>_. so_id s) (?h s)) (db_sources db))"
    by (simp add: map_concat comp_def)
  then have ids: "remdups (map fst ?rows) = map so_id (filter (matches db feed_id company_id) (db_sources db))"
    using remdups_blocks [of so_id "db_sources db" ?h] assms by (simp add: unique_key_def joined_feeds_matches)
  have "Max (set (map snd (filter (\<lambda>r. fst r = so_id s) ?rows))) = so_published_at s"
    if s: "s \<in> set (filter (matches db feed_id company_id) (db_sources db))" for s
  proof -
    have "?h s \<noteq> []" using s joined_feeds_matches by auto
    then obtain f where "f \<in> set (?h s)" by (cases "?h s") auto
    moreover have "t = s" if "t \<in> set (db_sources db)" "so_id t = so_id s" for t
      using assms s that by (auto simp: unique_key_def distinct_map inj_on_def)
    ultimately have "set (map snd (filter (\<lambda>r. fst r = so_id s) ?rows)) = {so_published_at s}" using s by force
    then show ?thesis by simp
  qed
  then show ?thesis
    unfolding build_source_ids_query_def Let_def ids by (simp add: map_eq_conv)
qed

lemma map_ok_all: "(\<And>x. x \<in> set xs \<Longrightarrow> f x = Inr (g x)) \<Longrightarrow> map_ok f xs = Inr (map g xs)"
  by (induction xs) auto

lemma load_listed:
  assumes "unique_key so_id (db_sources db)" and "set xs \<subseteq> set (db_sources db)"
  shows "List.map_filter (load_sources_by_ids db (map so_id xs)) (map so_id xs) = xs"
proof -
  have u: "unique_key so_id (rev (db_sources db))" using assms(1) by (simp add: unique_key_def rev_map [symmetric])
  have "load_sources_by_ids db (map so_id xs) (so_id s) = Some s" if "s \<in> set xs" for s
    using that assms(2) row_with_unique [OF u, of "so_id s" s] by (auto simp: load_sources_by_ids_def)
  then have "List.map_filter (load_sources_by_ids db (map so_id xs)) (map so_id ys) = ys" if "set ys \<subseteq> set xs" for ys
    using that by (induction ys) (auto simp: List.map_filter_simps)
  then show ?thesis by simp
qed

text \<open>
  C34: a page of articles, whatever the filter, is that part of the reference listing: the articles with a link to a feed
  that passes the filters, newest first and by falling identifier, each once, with the fallback date shown as no date; and the total is
  the length of the listing.  So consecutive pages tile it: none repeats or skips an article.
\<close>

theorem pages_of_reference_listing:
  assumes "db_ok db" and "\<forall>s\<in>set (db_sources db). wall_in_range (so_published_at s)"
  shows "list_rss_sources_read limit offset feed_id company_id db =
      Inr (map (shown_article db) (take limit (drop offset (article_listing db feed_id company_id))),
           length (article_listing db feed_id company_id)) \<and>
    concat (map (\<lambda>i. fst (projr (list_rss_sources_read limit (i * limit) feed_id company_id db))) [0..<pages]) =
      map (shown_article db) (take (pages * limit) (article_listing db feed_id company_id)) \<and>
    distinct (article_listing db feed_id company_id) \<and>
    set (article_listing db feed_id company_id) = {s \<in> set (db_sources db). matches db feed_id company_id s}"
proof -
  have u: "unique_key so_id (db_sources db)" using assms(1) by (simp add: schema_defs)
  let ?L = "article_listing db feed_id company_id"
  have set: "set ?L = {s \<in> set (db_sources db). matches db feed_id company_id s}"
    by (auto simp: article_listing_def newest_first_def)
  have ids: "build_source_ids_query db feed_id company_id =
      map (\<lambda>s. (so_id s, so_published_at s)) (filter (matches db feed_id company_id) (db_sources db))"
    using source_ids_of [OF u] .
  have total: "length (build_source_ids_query db feed_id company_id) = length ?L"
    unfolding ids by (simp add: article_listing_def newest_first_def)
  have order: "newest_first snd fst (build_source_ids_query db feed_id company_id) = map (\<lambda>s. (so_id s, so_published_at s)) ?L"
    unfolding ids by (simp add: newest_first_map article_listing_def)
  have page: "list_rss_sources_read limit offset feed_id company_id db =
      Inr (map (shown_article db) (take limit (drop offset ?L)), length ?L)" for limit offset
  proof -
    let ?p = "take limit (drop offset ?L)"
    have sub: "set ?p \<subseteq> set (db_sources db)" using set set_take_subset set_drop_subset by fastforce
    have p: "map fst (take limit (drop offset (map (\<lambda>s. (so_id s, so_published_at s)) ?L))) = map so_id ?p"
      by (simp add: take_map drop_map comp_def)
    have "map_ok (source_read_of db) ?p = Inr (map (shown_article db) ?p)"
      using sub assms(2) source_read_shown by (intro map_ok_all) blast
    then show ?thesis
      unfolding list_rss_sources_read_def Let_def total order p load_listed [OF u sub] by auto
  qed
  have tiles: "concat (map (\<lambda>i. fst (projr (list_rss_sources_read limit (i * limit) feed_id company_id db))) [0..<pages]) =
      map (shown_article db) (take (pages * limit) ?L)"
    unfolding page using arg_cong [OF concat_pages [of limit ?L pages], of "map (shown_article db)"]
    by (simp add: map_concat comp_def)
  have "distinct (db_sources db)" using u by (auto simp: unique_key_def distinct_map)
  then have "distinct ?L" by (simp add: article_listing_def newest_first_def)
  then show ?thesis using page tiles set by blast
qed

section \<open>Samples\<close>

definition listed_db :: database where
  "listed_db = \<lparr>db_companies = [],
     db_feeds = [\<lparr>fd_id = 1, fd_url = ''u'', fd_section = None, fd_enabled = True, fd_trust_score = 1, fd_company_id = None\<rparr>],
     db_tags = [], db_feed_tags = [], db_scrapings = [], db_jobs = [], db_job_feeds = [], db_results = [],
     db_sources = [\<lparr>so_id = 1, so_title = ''t'', so_summary = None, so_author = None, so_url = ''a'', so_published_at = 0,
         so_image_url = None\<rparr>,
       \<lparr>so_id = 2, so_title = ''t'', so_summary = None, so_author = None, so_url = ''b'', so_published_at = 5,
         so_image_url = None\<rparr>],
     db_source_links = [\<lparr>sl_source_id = 1, sl_feed_id = 1, sl_published_at = 0\<rparr>, \<lparr>sl_source_id = 2, sl_feed_id = 1, sl_published_at = 5\<rparr>],
     source_seq = 3\<rparr>"

theorem pages_of_reference_listing_witness:
  "\<exists>items. list_rss_sources_read 1 0 (Some 1) None listed_db = Inr (items, 2) \<and> map sr_id items = [2]"
proof -
  have "db_ok listed_db" "\<forall>s\<in>set (db_sources listed_db). wall_in_range (so_published_at s)"
    by (simp_all add: schema_defs listed_db_def unique_key_def source_key_def link_key_def keys_of_def wall_in_range_def
        datetime_min_us_def datetime_max_us_def)
  moreover have "map so_id (article_listing listed_db (Some 1) None) = [2, 1]"
    by (simp add: article_listing_def newest_first_def matches_def listed_db_def)
  then obtain s t where "article_listing listed_db (Some 1) None = [s, t]" "so_id s = 2"
    by (auto simp: map_eq_Cons_conv)
  ultimately show ?thesis
    using pages_of_reference_listing [of listed_db 1 0 "Some 1" None 0] by (simp add: shown_article_def)
qed

end
