(* ===== verification/Migrations.thy ===== *)
theory Migrations
  imports Result_Facts Contracts
begin

text \<open>
  The migrations of the db-manager that move data, \<^verbatim>\<open>db-manager/alembic/versions\<close> 0001 to 0006, as functions between
  the tables of consecutive revisions, and \<^verbatim>\<open>app/services/migration_service.py\<close>, which runs them with retries.
\<close>

definition unique_violation :: py_exn where
  "unique_violation = OtherException ''UniqueViolation''"

definition check_violation :: py_exn where
  "check_violation = OtherException ''CheckViolation''"

definition in_levels :: "int \<Rightarrow> int \<Rightarrow> bool" where
  "in_levels hi p = (0 \<le> p \<and> p \<le> hi)"

section \<open>Feeds: 0001 to 0003\<close>

text \<open>Until 0003 a feed carries its scraping state.\<close>

record initial_feed = feed_row +
  if_fetchprotection :: int
  if_last_update :: "int option"

record etag_feed = initial_feed +
  ef_etag :: "string option"

definition initial_feeds_ok :: "company_row list \<Rightarrow> 'a initial_feed_scheme list \<Rightarrow> bool" where
  "initial_feeds_ok companies feeds \<longleftrightarrow>
     unique_key fd_id feeds \<and> unique_key fd_url feeds \<and>
     list_all (\<lambda>f. in_levels 3 (if_fetchprotection f) \<and> 0 \<le> fd_trust_score f \<and> fd_trust_score f \<le> 1 \<and>
       (case fd_company_id f of None \<Rightarrow> True | Some c \<Rightarrow> c \<in> keys_of co_id companies)) feeds"

definition upgrade_0002 :: "initial_feed list \<Rightarrow> etag_feed list" where
  "upgrade_0002 feeds = map (\<lambda>f.
     \<lparr>fd_id = fd_id f, fd_url = fd_url f, fd_section = fd_section f, fd_enabled = fd_enabled f,
      fd_trust_score = fd_trust_score f, fd_company_id = fd_company_id f,
      if_fetchprotection = if_fetchprotection f, if_last_update = if_last_update f, ef_etag = None\<rparr>) feeds"

definition downgrade_0002 :: "etag_feed list \<Rightarrow> initial_feed list" where
  "downgrade_0002 feeds = map (\<lambda>f.
     \<lparr>fd_id = fd_id f, fd_url = fd_url f, fd_section = fd_section f, fd_enabled = fd_enabled f,
      fd_trust_score = fd_trust_score f, fd_company_id = fd_company_id f,
      if_fetchprotection = if_fetchprotection f, if_last_update = if_last_update f\<rparr>) feeds"

definition bare_feed :: "etag_feed \<Rightarrow> feed_row" where
  "bare_feed f =
     \<lparr>fd_id = fd_id f, fd_url = fd_url f, fd_section = fd_section f, fd_enabled = fd_enabled f,
      fd_trust_score = fd_trust_score f, fd_company_id = fd_company_id f\<rparr>"

definition upgrade_0003 :: "etag_feed list \<Rightarrow> py_exn + feed_row list \<times> scraping_row list" where
  "upgrade_0003 feeds =
     (let rows = map (\<lambda>f. \<lparr>sc_feed_id = fd_id f, sc_fetchprotection = if_fetchprotection f,
            sc_last_update = if_last_update f, sc_etag = ef_etag f, sc_error_nbr = 0, sc_error_msg = None\<rparr>) feeds
      in if \<not> list_all (\<lambda>r. in_levels 3 (sc_fetchprotection r)) rows then Inl check_violation
         else if \<not> unique_key sc_feed_id rows then Inl unique_violation
         else Inr (map bare_feed feeds, rows))"

text \<open>A feed without a scraping state keeps the defaults of the new columns.\<close>

definition downgrade_0003 :: "feed_row list \<times> scraping_row list \<Rightarrow> py_exn + etag_feed list" where
  "downgrade_0003 tables = (case tables of (feeds, scrapings) \<Rightarrow>
     let rows = map (\<lambda>f.
            (case row_with sc_feed_id (fd_id f) scrapings of
               None \<Rightarrow> \<lparr>fd_id = fd_id f, fd_url = fd_url f, fd_section = fd_section f, fd_enabled = fd_enabled f,
                        fd_trust_score = fd_trust_score f, fd_company_id = fd_company_id f,
                        if_fetchprotection = 1, if_last_update = None, ef_etag = None\<rparr>
             | Some s \<Rightarrow> \<lparr>fd_id = fd_id f, fd_url = fd_url f, fd_section = fd_section f, fd_enabled = fd_enabled f,
                        fd_trust_score = fd_trust_score f, fd_company_id = fd_company_id f,
                        if_fetchprotection = sc_fetchprotection s, if_last_update = sc_last_update s,
                        ef_etag = sc_etag s\<rparr>)) feeds
     in if list_all (\<lambda>f. in_levels 3 (if_fetchprotection f)) rows then Inr rows else Inl check_violation)"

section \<open>Articles: 0004 and 0005\<close>

text \<open>The tables of 0001 and 0005, whose dates are part of the keys, and those of 0004, whose dates may be missing.\<close>

record dated_tables =
  dt_sources :: "source_row list"
  dt_links :: "source_link list"
  dt_seq :: int

record flat_source =
  fs_id :: int
  fs_title :: string
  fs_summary :: "string option"
  fs_author :: "string option"
  fs_url :: string
  fs_published_at :: "int option"
  fs_image_url :: "string option"

record flat_tables =
  fl_sources :: "flat_source list"
  fl_links :: "(int \<times> int) list"
  fl_seq :: int

definition dated_key :: "source_row \<Rightarrow> int \<times> int" where
  "dated_key r = (so_id r, so_published_at r)"

definition dated_ok :: "int list \<Rightarrow> dated_tables \<Rightarrow> bool" where
  "dated_ok feed_ids t \<longleftrightarrow>
     unique_key dated_key (dt_sources t) \<and> unique_key source_key (dt_sources t) \<and> unique_key link_key (dt_links t) \<and>
     list_all (\<lambda>l. (sl_source_id l, sl_published_at l) \<in> keys_of dated_key (dt_sources t) \<and> sl_feed_id l \<in> set feed_ids)
       (dt_links t)"

text \<open>A UNIQUE constraint takes two missing dates for different.\<close>

definition flat_key :: "flat_source \<Rightarrow> string \<times> int option" where
  "flat_key r = (fs_url r, fs_published_at r)"

definition flat_rows_ok :: "flat_source list \<Rightarrow> bool" where
  "flat_rows_ok rows \<longleftrightarrow> unique_key fs_id rows \<and> unique_key flat_key (filter (\<lambda>r. fs_published_at r \<noteq> None) rows)"

definition flat_ok :: "int list \<Rightarrow> flat_tables \<Rightarrow> bool" where
  "flat_ok feed_ids t \<longleftrightarrow> flat_rows_ok (fl_sources t) \<and> distinct (fl_links t) \<and>
     list_all (\<lambda>l. fst l \<in> keys_of fs_id (fl_sources t) \<and> snd l \<in> set feed_ids) (fl_links t)"

text \<open>\<^verbatim>\<open>setval\<close> to the greatest identifier.\<close>

definition next_id :: "int list \<Rightarrow> int" where
  "next_id ids = (if ids = [] then 1 else Max (set ids) + 1)"

definition with_date :: "flat_source \<Rightarrow> int \<Rightarrow> source_row" where
  "with_date r d =
     \<lparr>so_id = fs_id r, so_title = fs_title r, so_summary = fs_summary r, so_author = fs_author r, so_url = fs_url r,
      so_published_at = d, so_image_url = fs_image_url r\<rparr>"

definition without_date :: "source_row \<Rightarrow> int option \<Rightarrow> flat_source" where
  "without_date r d =
     \<lparr>fs_id = so_id r, fs_title = so_title r, fs_summary = so_summary r, fs_author = so_author r, fs_url = so_url r,
      fs_published_at = d, fs_image_url = so_image_url r\<rparr>"

text \<open>From dated to flat tables; \<open>f\<close> is what becomes of a date.\<close>

definition flatten :: "(int \<Rightarrow> int option) \<Rightarrow> dated_tables \<Rightarrow> py_exn + flat_tables" where
  "flatten f t =
     (let rows = map (\<lambda>r. without_date r (f (so_published_at r))) (dt_sources t);
          links = remdups (map (\<lambda>l. (sl_source_id l, sl_feed_id l)) (dt_links t))
      in if \<not> flat_rows_ok rows then Inl unique_violation
         else if \<not> list_all (\<lambda>l. fst l \<in> keys_of fs_id rows) links then Inl (OtherException ''ForeignKeyViolation'')
         else Inr \<lparr>fl_sources = rows, fl_links = links, fl_seq = next_id (map fs_id rows)\<rparr>)"

text \<open>
  From flat to dated tables; \<open>missing\<close> replaces a missing date.  The links take the date of their article by a join.
\<close>

definition unflatten :: "int \<Rightarrow> flat_tables \<Rightarrow> py_exn + dated_tables" where
  "unflatten missing t =
     (let rows = map (\<lambda>r. with_date r (case fs_published_at r of None \<Rightarrow> missing | Some d \<Rightarrow> d)) (fl_sources t);
          links = remdups (concat (map (\<lambda>(s, f). map (\<lambda>r. \<lparr>sl_source_id = s, sl_feed_id = f, sl_published_at = so_published_at r\<rparr>)
                    (filter (\<lambda>r. so_id r = s) rows)) (fl_links t)))
      in if \<not> (unique_key dated_key rows \<and> unique_key source_key rows) then Inl unique_violation
         else Inr \<lparr>dt_sources = rows, dt_links = links, dt_seq = next_id (map so_id rows)\<rparr>)"

definition upgrade_0004 :: "dated_tables \<Rightarrow> py_exn + flat_tables" where
  "upgrade_0004 = flatten Some"

definition downgrade_0004 :: "int \<Rightarrow> flat_tables \<Rightarrow> py_exn + dated_tables" where
  "downgrade_0004 now = unflatten now"

text \<open>The epoch stands for a missing date.\<close>

definition upgrade_0005 :: "flat_tables \<Rightarrow> py_exn + dated_tables" where
  "upgrade_0005 = unflatten 0"

definition downgrade_0005 :: "dated_tables \<Rightarrow> py_exn + flat_tables" where
  "downgrade_0005 = flatten (\<lambda>d. if d = 0 then None else Some d)"

section \<open>Levels: 0006\<close>

definition upgrade_0006 :: "company_row list \<times> scraping_row list \<Rightarrow> py_exn + company_row list \<times> scraping_row list" where
  "upgrade_0006 tables = (case tables of (companies, scrapings) \<Rightarrow>
     let companies' = map (\<lambda>c. if 2 < co_fetchprotection c then c\<lparr>co_fetchprotection := 2\<rparr> else c) companies;
         scrapings' = map (\<lambda>s. if 2 < sc_fetchprotection s then s\<lparr>sc_fetchprotection := 2\<rparr> else s) scrapings
     in if list_all (\<lambda>c. in_levels 2 (co_fetchprotection c)) companies' \<and>
           list_all (\<lambda>s. in_levels 2 (sc_fetchprotection s)) scrapings'
        then Inr (companies', scrapings') else Inl check_violation)"

section \<open>Running the migrations\<close>

definition db_manager_error :: "string \<Rightarrow> py_exn" where
  "db_manager_error m = OtherException m"

text \<open>Where the project is, whether its files are there, and what each attempt of \<^verbatim>\<open>command.upgrade(config, "head")\<close> ends with.\<close>

record migration_env =
  me_project_root :: string
  me_ini_exists :: bool
  me_scripts_exist :: bool
  me_upgrade :: "nat \<Rightarrow> py_exn option"

definition DEFAULT_MIGRATION_MAX_ATTEMPTS :: nat where
  "DEFAULT_MIGRATION_MAX_ATTEMPTS = 5"

definition build_alembic_config :: "migration_env \<Rightarrow> py_exn + unit" where
  "build_alembic_config env =
     (if \<not> me_ini_exists env then Inl (db_manager_error (''Alembic config file not found: '' @ me_project_root env @ ''/alembic.ini''))
      else if \<not> me_scripts_exist env then Inl (db_manager_error (''Alembic script location not found: '' @ me_project_root env @ ''/alembic''))
      else Inr ())"

definition migrations_failed :: "nat \<Rightarrow> py_exn \<Rightarrow> py_exn" where
  "migrations_failed max_attempts e =
     db_manager_error (''Unable to run database migrations after '' @ str_nat max_attempts @ '' attempts: '' @ exn_text e)"

text \<open>The loop from its \<open>i\<close>-th attempt on, and the attempts made; it sleeps between two of them.\<close>

function migration_loop :: "migration_env \<Rightarrow> nat \<Rightarrow> nat \<Rightarrow> (py_exn + unit) \<times> nat list" where
  "migration_loop env max_attempts i =
     (case me_upgrade env i of
        None \<Rightarrow> (Inr (), [i])
      | Some e \<Rightarrow>
          if max_attempts \<le> i then (Inl (migrations_failed max_attempts e), [i])
          else (case migration_loop env max_attempts (Suc i) of (r, is) \<Rightarrow> (r, i # is)))"
  by pat_completeness auto
termination by (relation "measure (\<lambda>(env, n, i). Suc n - i)") auto

declare migration_loop.simps [simp del]

definition run_db_migrations :: "migration_env \<Rightarrow> int \<Rightarrow> (py_exn + unit) \<times> nat list" where
  "run_db_migrations env max_attempts =
     (if max_attempts \<le> 0 then (Inl (db_manager_error ''max_attempts must be greater than zero''), [])
      else case build_alembic_config env of
        Inl e \<Rightarrow> (Inl e, [])
      | Inr _ \<Rightarrow> migration_loop env (nat max_attempts) 1)"

definition upgrade_attempt :: "migration_env \<Rightarrow> nat \<Rightarrow> (unit, py_exn) attempt" where
  "upgrade_attempt env i = (case me_upgrade env i of None \<Rightarrow> Done () | Some e \<Rightarrow> Retryable e)"

interpretation migration_retry: bounded_retry n "upgrade_attempt env" "migrations_failed n" id "migration_loop env n"
  for env n
proof
  fix i a assume "i \<le> n" "upgrade_attempt env i = Done a"
  then show "migration_loop env n i = (Inr a, [i])"
    by (subst migration_loop.simps) (simp add: upgrade_attempt_def split: option.splits)
next
  fix i e assume "i \<le> n" "upgrade_attempt env i = Fatal e"
  then show "migration_loop env n i = (Inl (id e), [i])"
    by (simp add: upgrade_attempt_def split: option.splits)
next
  fix i e assume "i < n" "upgrade_attempt env i = Retryable e"
  then show "migration_loop env n i = (fst (migration_loop env n (Suc i)), i # snd (migration_loop env n (Suc i)))"
    by (subst migration_loop.simps) (simp add: upgrade_attempt_def split: option.splits prod.splits)
next
  fix e assume "upgrade_attempt env n = Retryable e"
  then show "migration_loop env n n = (Inl (migrations_failed n e), [n])"
    by (subst migration_loop.simps) (simp add: upgrade_attempt_def split: option.splits)
qed

end
