(* ===== verification/Migration_Properties.thy ===== *)
theory Migration_Properties
  imports Migrations
begin

text \<open>
  The properties of the migrations: the revisions 0003 to 0006 keep the rows they move, 0005 is blocked by undated
  duplicates, and the runner makes a bounded number of attempts.
\<close>

section \<open>Moving the scraping state\<close>

lemma upgrade_0003_rows:
  assumes "initial_feeds_ok companies feeds"
  shows "upgrade_0003 feeds = Inr (map bare_feed feeds,
    map (\<lambda>f. \<lparr>sc_feed_id = fd_id f, sc_fetchprotection = if_fetchprotection f, sc_last_update = if_last_update f,
      sc_etag = ef_etag f, sc_error_nbr = 0, sc_error_msg = None\<rparr>) feeds)"
  using assms by (simp add: upgrade_0003_def initial_feeds_ok_def unique_key_def list_all_iff comp_def)

lemma downgrade_0003_upgrade:
  assumes ok: "initial_feeds_ok companies feeds"
  shows "upgrade_0003 feeds = Inr (feeds', rows) \<Longrightarrow> downgrade_0003 (feeds', rows) = Inr feeds"
proof -
  let ?row = "\<lambda>f. \<lparr>sc_feed_id = fd_id f, sc_fetchprotection = if_fetchprotection f, sc_last_update = if_last_update f,
      sc_etag = ef_etag f, sc_error_nbr = 0, sc_error_msg = None\<rparr>"
  assume "upgrade_0003 feeds = Inr (feeds', rows)"
  then have eq: "feeds' = map bare_feed feeds" "rows = map ?row feeds" using upgrade_0003_rows [OF ok] by simp_all
  have "unique_key sc_feed_id (map ?row feeds)" using ok by (simp add: initial_feeds_ok_def unique_key_def comp_def)
  then have find: "row_with sc_feed_id (fd_id f) (map ?row feeds) = Some (?row f)" if "f \<in> set feeds" for f
    using row_with_unique that by fastforce
  have "map (\<lambda>f. case row_with sc_feed_id (fd_id f) (map ?row feeds) of
        None \<Rightarrow> \<lparr>fd_id = fd_id f, fd_url = fd_url f, fd_section = fd_section f, fd_enabled = fd_enabled f,
          fd_trust_score = fd_trust_score f, fd_company_id = fd_company_id f,
          if_fetchprotection = 1, if_last_update = None, ef_etag = None\<rparr>
      | Some s \<Rightarrow> \<lparr>fd_id = fd_id f, fd_url = fd_url f, fd_section = fd_section f, fd_enabled = fd_enabled f,
          fd_trust_score = fd_trust_score f, fd_company_id = fd_company_id f,
          if_fetchprotection = sc_fetchprotection s, if_last_update = sc_last_update s,
          ef_etag = sc_etag s\<rparr>) (map bare_feed feeds) = map (\<lambda>f. f) feeds"
    unfolding map_map by (rule map_cong [OF refl]) (simp add: bare_feed_def find)
  moreover have "list_all (\<lambda>f. in_levels 3 (if_fetchprotection f)) feeds"
    using ok by (simp add: initial_feeds_ok_def list_all_iff)
  ultimately show ?thesis by (simp add: eq downgrade_0003_def Let_def)
qed

text \<open>
  C29: the scraping state survives its moves.  From feeds that meet the constraints of 0001, the upgrades 0002, 0003 and
  0006 all succeed (when the company levels meet theirs): each feed keeps its row, and gets a scraping state with its
  last update, no etag, no errors, and its level, level 3 becoming 2; company levels change in the same way and
  everything else of a company stays.  Downgrading 0003 right after it gives back the same feeds, and 0002 likewise.
\<close>

theorem scraping_state_survives_migrations:
  assumes "initial_feeds_ok companies feeds" and "\<And>c. c \<in> set companies \<Longrightarrow> in_levels 3 (co_fetchprotection c)"
  shows "\<exists>split_feeds states. upgrade_0003 (upgrade_0002 feeds) = Inr (split_feeds, states) \<and>
    downgrade_0003 (split_feeds, states) = Inr (upgrade_0002 feeds) \<and> downgrade_0002 (upgrade_0002 feeds) = feeds \<and>
    map (\<lambda>f. (fd_id f, fd_url f, fd_section f, fd_enabled f, fd_trust_score f, fd_company_id f)) split_feeds =
      map (\<lambda>f. (fd_id f, fd_url f, fd_section f, fd_enabled f, fd_trust_score f, fd_company_id f)) feeds \<and>
    upgrade_0006 (companies, states) =
      Inr (map (\<lambda>c. c\<lparr>co_fetchprotection := min 2 (co_fetchprotection c)\<rparr>) companies,
           map (\<lambda>f. \<lparr>sc_feed_id = fd_id f, sc_fetchprotection = min 2 (if_fetchprotection f),
             sc_last_update = if_last_update f, sc_etag = None, sc_error_nbr = 0, sc_error_msg = None\<rparr>) feeds)"
proof -
  have ok: "initial_feeds_ok companies (upgrade_0002 feeds)"
    using assms(1) by (simp add: initial_feeds_ok_def upgrade_0002_def unique_key_def list_all_iff comp_def)
  have same: "(if 2 < co_fetchprotection c then c\<lparr>co_fetchprotection := 2\<rparr> else c) =
      c\<lparr>co_fetchprotection := min 2 (co_fetchprotection c)\<rparr>" for c :: company_row
    by (simp add: min_def)
  have levels: "in_levels 2 (min 2 (co_fetchprotection c))" if "c \<in> set companies" for c
    using assms(2) [OF that] by (simp add: in_levels_def)
  have feed_levels: "in_levels 2 (min 2 (if_fetchprotection f))" if "f \<in> set feeds" for f
    using assms(1) that by (simp add: initial_feeds_ok_def list_all_iff in_levels_def)
  let ?rows = "map (\<lambda>f. \<lparr>sc_feed_id = fd_id f, sc_fetchprotection = if_fetchprotection f, sc_last_update = if_last_update f,
      sc_etag = ef_etag f, sc_error_nbr = 0, sc_error_msg = None\<rparr>) (upgrade_0002 feeds)"
  note up = upgrade_0003_rows [OF ok]
  have "downgrade_0002 (upgrade_0002 feeds) = feeds"
    unfolding upgrade_0002_def downgrade_0002_def map_map
    by (rule map_idI, rule initial_feed.equality) simp_all
  moreover have "upgrade_0006 (companies, ?rows) = Inr (map (\<lambda>c. c\<lparr>co_fetchprotection := min 2 (co_fetchprotection c)\<rparr>) companies,
       map (\<lambda>f. \<lparr>sc_feed_id = fd_id f, sc_fetchprotection = min 2 (if_fetchprotection f),
         sc_last_update = if_last_update f, sc_etag = None, sc_error_nbr = 0, sc_error_msg = None\<rparr>) feeds)"
  proof -
    have "map (\<lambda>s. if 2 < sc_fetchprotection s then s\<lparr>sc_fetchprotection := 2\<rparr> else s) ?rows =
       map (\<lambda>f. \<lparr>sc_feed_id = fd_id f, sc_fetchprotection = min 2 (if_fetchprotection f),
         sc_last_update = if_last_update f, sc_etag = None, sc_error_nbr = 0, sc_error_msg = None\<rparr>) feeds"
      by (simp add: upgrade_0002_def min_def)
    then show ?thesis
      unfolding upgrade_0006_def prod.case Let_def same using levels feed_levels by (simp add: list_all_iff)
  qed
  ultimately show ?thesis
    using up downgrade_0003_upgrade [OF ok up] by (auto simp: upgrade_0002_def bare_feed_def comp_def)
qed

definition initial_example :: "initial_feed list" where
  "initial_example = [\<lparr>fd_id = 7, fd_url = ''u'', fd_section = None, fd_enabled = True, fd_trust_score = 1,
     fd_company_id = Some 2, if_fetchprotection = 3, if_last_update = Some 50\<rparr>]"

definition initial_companies :: "company_row list" where
  "initial_companies = [\<lparr>co_id = 2, co_name = ''c'', co_host = None, co_icon_url = None, co_country = None,
     co_language = None, co_fetchprotection = 3, co_enabled = True\<rparr>]"

lemma scraping_state_survives_migrations_witness:
  "\<exists>split_feeds states. upgrade_0003 (upgrade_0002 initial_example) = Inr (split_feeds, states) \<and>
    downgrade_0003 (split_feeds, states) = Inr (upgrade_0002 initial_example) \<and>
    (\<exists>companies'. upgrade_0006 (initial_companies, states) = Inr (companies',
      [\<lparr>sc_feed_id = 7, sc_fetchprotection = 2, sc_last_update = Some 50, sc_etag = None, sc_error_nbr = 0, sc_error_msg = None\<rparr>]))"
proof -
  have "initial_feeds_ok initial_companies initial_example"
    by (simp add: initial_feeds_ok_def initial_example_def initial_companies_def unique_key_def keys_of_def in_levels_def)
  from scraping_state_survives_migrations [OF this] show ?thesis
    by (auto simp: initial_companies_def in_levels_def initial_example_def)
qed

section \<open>Moving the articles\<close>

lemma without_with_date [simp]:
  "fs_id (without_date r d) = so_id r" "fs_url (without_date r d) = so_url r"
  "fs_published_at (without_date r d) = d" "with_date (without_date r d) (so_published_at r) = r"
  "so_id (with_date q e) = fs_id q" "so_url (with_date q e) = fs_url q" "so_published_at (with_date q e) = e"
  by (simp_all add: without_date_def with_date_def)

lemma flat_of_dated_rows_ok:
  assumes "unique_key so_id rows" and "unique_key source_key rows"
    and "\<And>d e. f d = Some e \<Longrightarrow> e = d"
  shows "flat_rows_ok (map (\<lambda>r. without_date r (f (so_published_at r))) rows)"
proof -
  have inj: "inj_on (\<lambda>r. (so_url r, so_published_at r)) (set rows)" and d: "distinct rows"
    using assms(2) by (auto simp: unique_key_def source_key_def [abs_def] distinct_map)
  have same: "r = q" if "r \<in> set rows" "q \<in> set rows" "so_url r = so_url q"
      "f (so_published_at r) \<noteq> None" "f (so_published_at r) = f (so_published_at q)" for r q
  proof -
    note hyps = that
    obtain e where "f (so_published_at r) = Some e" using hyps(4) by blast
    then have "so_published_at r = so_published_at q" using hyps(5) assms(3) by metis
    then show ?thesis using inj hyps(1-3) by (auto dest: inj_onD)
  qed
  have "distinct (map (\<lambda>r. (so_url r, f (so_published_at r))) (filter (\<lambda>r. f (so_published_at r) \<noteq> None) rows))"
    using d same by (auto simp: distinct_map inj_on_def)
  moreover have "distinct (map so_id rows)" using assms(1) by (simp add: unique_key_def)
  ultimately show ?thesis
    by (simp add: flat_rows_ok_def unique_key_def filter_map comp_def flat_key_def [abs_def])
qed

text \<open>The links of tables whose articles have different identifiers.\<close>

lemma link_date:
  assumes "dated_ok feeds t" and "unique_key so_id (dt_sources t)" and "l \<in> set (dt_links t)"
  shows "filter (\<lambda>r. so_id r = sl_source_id l) (dt_sources t) =
      [the (row_with so_id (sl_source_id l) (dt_sources t))] \<and>
    so_published_at (the (row_with so_id (sl_source_id l) (dt_sources t))) = sl_published_at l"
proof -
  obtain r where r: "r \<in> set (dt_sources t)" "so_id r = sl_source_id l" "so_published_at r = sl_published_at l"
    using assms(1,3) by (force simp: dated_ok_def list_all_iff keys_of_def dated_key_def)
  have row: "row_with so_id (sl_source_id l) (dt_sources t) = Some r"
    using row_with_unique [OF assms(2)] r by blast
  have inj: "inj_on so_id (set (dt_sources t))" and d: "distinct (dt_sources t)"
    using assms(2) by (auto simp: unique_key_def distinct_map)
  have "filter (\<lambda>q. so_id q = sl_source_id l) (dt_sources t) = filter (\<lambda>q. q = r) (dt_sources t)"
    by (rule filter_cong [OF refl]) (use inj r in \<open>force simp: inj_on_def\<close>)
  also have "\<dots> = [r]" by (rule filter_unique [OF d r(1)])
  finally show ?thesis using row r(3) by simp
qed

lemma unflatten_flatten:
  assumes ok: "dated_ok feeds t" and ids: "unique_key so_id (dt_sources t)"
    and f: "\<And>d e. f d = Some e \<Longrightarrow> e = d" "\<And>d. f d = None \<Longrightarrow> d = missing"
  shows "\<exists>u. flatten f t = Inr u \<and> unflatten missing u = Inr (t\<lparr>dt_seq := next_id (map so_id (dt_sources t))\<rparr>)"
proof -
  let ?flat = "map (\<lambda>r. without_date r (f (so_published_at r))) (dt_sources t)"
  let ?pairs = "map (\<lambda>l. (sl_source_id l, sl_feed_id l)) (dt_links t)"
  let ?u = "\<lparr>fl_sources = ?flat, fl_links = ?pairs, fl_seq = next_id (map so_id (dt_sources t))\<rparr>"
  have srcs: "unique_key dated_key (dt_sources t)" "unique_key source_key (dt_sources t)" "unique_key link_key (dt_links t)"
    using ok by (auto simp: dated_ok_def)
  have date: "(case f d of None \<Rightarrow> missing | Some e \<Rightarrow> e) = d" for d
    using f by (auto split: option.splits)
  have restored: "map (\<lambda>r. with_date r (case fs_published_at r of None \<Rightarrow> missing | Some d \<Rightarrow> d)) ?flat = dt_sources t"
    by (simp add: comp_def date)
  have links: "distinct (dt_links t)" "inj_on link_key (set (dt_links t))"
    using srcs(3) by (auto simp: unique_key_def distinct_map)
  have "inj_on (\<lambda>l. (sl_source_id l, sl_feed_id l)) (set (dt_links t))"
  proof (rule inj_onI)
    fix k l assume kl: "k \<in> set (dt_links t)" "l \<in> set (dt_links t)"
      and eq: "(sl_source_id k, sl_feed_id k) = (sl_source_id l, sl_feed_id l)"
    have "sl_published_at k = sl_published_at l"
      using link_date [OF ok ids kl(1)] link_date [OF ok ids kl(2)] eq by simp
    then show "k = l" using links(2) kl eq by (auto simp: link_key_def inj_on_def)
  qed
  then have pairs: "distinct ?pairs" using links(1) by (simp add: distinct_map)
  have "map fs_id ?flat = map so_id (dt_sources t)" by simp
  moreover have "list_all (\<lambda>p. fst p \<in> keys_of fs_id ?flat) ?pairs"
    using ok by (force simp: dated_ok_def list_all_iff keys_of_def dated_key_def)
  moreover have "flat_rows_ok ?flat" by (rule flat_of_dated_rows_ok [OF ids srcs(2) f(1)])
  ultimately have "flatten f t = Inr ?u"
    using pairs by (simp add: flatten_def Let_def distinct_remdups_id comp_def)
  moreover have "concat (map (\<lambda>(s, d). map (\<lambda>r. \<lparr>sl_source_id = s, sl_feed_id = d, sl_published_at = so_published_at r\<rparr>)
      (filter (\<lambda>r. so_id r = s) (dt_sources t))) ?pairs) = dt_links t"
  proof -
    have "concat (map (\<lambda>l. map (\<lambda>r. \<lparr>sl_source_id = sl_source_id l, sl_feed_id = sl_feed_id l, sl_published_at = so_published_at r\<rparr>)
      (filter (\<lambda>r. so_id r = sl_source_id l) (dt_sources t))) (dt_links t)) = concat (map (\<lambda>l. [l]) (dt_links t))"
      by (rule arg_cong [where f = concat], rule map_cong [OF refl]) (use link_date [OF ok ids] in simp)
    then show ?thesis by (simp add: comp_def)
  qed
  then have "unflatten missing ?u = Inr (t\<lparr>dt_seq := next_id (map so_id (dt_sources t))\<rparr>)"
    unfolding unflatten_def Let_def flat_tables.simps restored
    using srcs links(1) by (simp add: distinct_remdups_id)
  ultimately show ?thesis by blast
qed

lemma repeated_ids_block_flatten: "\<not> unique_key so_id (dt_sources t) \<Longrightarrow> flatten f t = Inl unique_violation"
  by (simp add: flatten_def flat_rows_ok_def unique_key_def comp_def)

text \<open>
  C36: revisions 0004 and 0005 move every article and every link unchanged.  When the articles of the dated tables have
  different identifiers, upgrading by 0004 and on by 0005 gives the same tables, with the sequence behind the greatest
  identifier; so does 0004 followed by its own downgrade, and the downgrade of 0005 followed by 0005 again, where the
  epoch and the missing date stand for each other.  The keys of the dated tables allow one identifier on two dates;
  then 0004 raises the violation of the new primary key.
\<close>
theorem migrations_keep_articles:
  assumes "dated_ok feeds t"
  shows "if unique_key so_id (dt_sources t)
    then (\<exists>u. upgrade_0004 t = Inr u \<and> upgrade_0005 u = Inr (t\<lparr>dt_seq := next_id (map so_id (dt_sources t))\<rparr>) \<and>
           downgrade_0004 now u = Inr (t\<lparr>dt_seq := next_id (map so_id (dt_sources t))\<rparr>)) \<and>
         (\<exists>u. downgrade_0005 t = Inr u \<and> upgrade_0005 u = Inr (t\<lparr>dt_seq := next_id (map so_id (dt_sources t))\<rparr>))
    else upgrade_0004 t = Inl unique_violation \<and> downgrade_0005 t = Inl unique_violation"
proof (cases "unique_key so_id (dt_sources t)")
  case True
  have some: "\<exists>u. upgrade_0004 t = Inr u \<and> unflatten m u = Inr (t\<lparr>dt_seq := next_id (map so_id (dt_sources t))\<rparr>)" for m
    unfolding upgrade_0004_def by (rule unflatten_flatten [OF assms True]) auto
  have "\<exists>u. downgrade_0005 t = Inr u \<and> unflatten 0 u = Inr (t\<lparr>dt_seq := next_id (map so_id (dt_sources t))\<rparr>)"
    unfolding downgrade_0005_def by (rule unflatten_flatten [OF assms True]) (auto split: if_splits)
  then show ?thesis
    using True some [of 0] some [of now] by (auto simp: upgrade_0005_def downgrade_0004_def)
next
  case False
  then show ?thesis by (simp add: upgrade_0004_def downgrade_0005_def repeated_ids_block_flatten)
qed

definition dated_example :: "int \<Rightarrow> dated_tables" where
  "dated_example second_id =
     \<lparr>dt_sources = [\<lparr>so_id = 4, so_title = ''a'', so_summary = None, so_author = None, so_url = ''u'', so_published_at = 0, so_image_url = None\<rparr>,
        \<lparr>so_id = second_id, so_title = ''b'', so_summary = None, so_author = None, so_url = ''u'', so_published_at = 9, so_image_url = None\<rparr>],
      dt_links = [\<lparr>sl_source_id = 4, sl_feed_id = 1, sl_published_at = 0\<rparr>], dt_seq = 70\<rparr>"

lemma dated_example_ok: "dated_ok [1] (dated_example 6)" "dated_ok [1] (dated_example 4)"
  by (simp_all add: dated_example_def dated_ok_def unique_key_def dated_key_def source_key_def link_key_def keys_of_def)

lemma migrations_keep_articles_witness:
  "(\<exists>u. upgrade_0004 (dated_example 6) = Inr u \<and> upgrade_0005 u = Inr ((dated_example 6)\<lparr>dt_seq := 7\<rparr>)) \<and>
    upgrade_0004 (dated_example 4) = Inl unique_violation"
proof -
  have "unique_key so_id (dt_sources (dated_example 6))" "next_id (map so_id (dt_sources (dated_example 6))) = 7"
    by (simp_all add: dated_example_def unique_key_def next_id_def)
  moreover have "\<not> unique_key so_id (dt_sources (dated_example 4))"
    by (simp add: dated_example_def unique_key_def)
  ultimately show ?thesis
    using migrations_keep_articles [OF dated_example_ok(1), of 0] migrations_keep_articles [OF dated_example_ok(2), of 0]
    by auto
qed

section \<open>Running them\<close>

text \<open>
  An upgrade of the database makes its attempts one after the other from the first on, at most \<open>max_attempts\<close> of
  them, and returns exactly when one of them, all earlier ones having failed, goes through.  It makes none when the
  bound is not positive or a file is missing.
\<close>
theorem migration_attempts_bounded:
  "(fst (run_db_migrations env max_attempts) = Inr () \<longleftrightarrow>
      build_alembic_config env = Inr () \<and> (\<exists>j. 1 \<le> j \<and> int j \<le> max_attempts \<and> me_upgrade env j = None)) \<and>
   (\<exists>j. snd (run_db_migrations env max_attempts) = [1..<Suc j] \<and> (j = 0 \<or> int j \<le> max_attempts))"
proof (cases "0 < max_attempts \<and> build_alembic_config env = Inr ()")
  case True
  let ?n = "nat max_attempts"
  have n: "1 \<le> ?n" "int ?n = max_attempts" using True by auto
  have run: "run_db_migrations env max_attempts = migration_loop env ?n 1"
    using True by (simp add: run_db_migrations_def)
  have "fst (migration_loop env ?n 1) = Inr () \<longleftrightarrow>
      (\<exists>j. 1 \<le> j \<and> j \<le> ?n \<and> upgrade_attempt env j = Done () \<and>
        (\<forall>m. 1 \<le> m \<and> m < j \<longrightarrow> (\<exists>e. upgrade_attempt env m = Retryable e)))"
    by (rule migration_retry.success_iff [OF n(1)])
  also have "\<dots> \<longleftrightarrow> (\<exists>j. 1 \<le> j \<and> j \<le> ?n \<and> me_upgrade env j = None)"
  proof
    assume "\<exists>j. 1 \<le> j \<and> j \<le> ?n \<and> me_upgrade env j = None"
    then obtain j where j: "1 \<le> j \<and> j \<le> ?n \<and> me_upgrade env j = None"
        "\<And>m. m < j \<Longrightarrow> \<not> (1 \<le> m \<and> m \<le> ?n \<and> me_upgrade env m = None)"
      using exists_least_iff [of "\<lambda>j. 1 \<le> j \<and> j \<le> ?n \<and> me_upgrade env j = None"] by blast
    then have "\<exists>e. upgrade_attempt env m = Retryable e" if "1 \<le> m" "m < j" for m
      using that by (force simp: upgrade_attempt_def split: option.splits)
    then show "\<exists>j. 1 \<le> j \<and> j \<le> ?n \<and> upgrade_attempt env j = Done () \<and>
        (\<forall>m. 1 \<le> m \<and> m < j \<longrightarrow> (\<exists>e. upgrade_attempt env m = Retryable e))"
      using j(1) by (auto simp: upgrade_attempt_def)
  qed (auto simp: upgrade_attempt_def split: option.splits)
  finally have "fst (migration_loop env ?n 1) = Inr () \<longleftrightarrow> (\<exists>j. 1 \<le> j \<and> int j \<le> max_attempts \<and> me_upgrade env j = None)"
    using n(2) by (metis of_nat_le_iff)
  moreover obtain j where "j \<le> ?n" "snd (migration_loop env ?n 1) = [1..<Suc j]"
    using migration_retry.attempts_consecutive [OF n(1)] by blast
  moreover have "int j \<le> max_attempts" using \<open>j \<le> ?n\<close> n(2) by linarith
  ultimately show ?thesis using True run by auto
next
  case False
  then have "snd (run_db_migrations env max_attempts) = [1..<Suc 0] \<and> fst (run_db_migrations env max_attempts) \<noteq> Inr ()"
    by (auto simp: run_db_migrations_def split: sum.splits)
  then show ?thesis using False by (metis One_nat_def le_less_trans of_nat_0_less_iff not_le zero_less_one less_le_trans)
qed

section \<open>Undated articles\<close>

definition date_or_epoch :: "flat_source \<Rightarrow> int" where
  "date_or_epoch r = (case fs_published_at r of None \<Rightarrow> 0 | Some d \<Rightarrow> d)"

text \<open>Two articles of one address, neither with a date of its own.\<close>

definition undated_twice :: "flat_source list \<Rightarrow> bool" where
  "undated_twice rows \<longleftrightarrow> (\<exists>r q. r \<in> set rows \<and> q \<in> set rows \<and> fs_id r \<noteq> fs_id q \<and> fs_url r = fs_url q \<and>
     date_or_epoch r = 0 \<and> date_or_epoch q = 0)"

lemma flat_collision:
  assumes ok: "flat_rows_ok rows"
  shows "distinct (map (\<lambda>r. (fs_url r, date_or_epoch r)) rows) \<longleftrightarrow> \<not> undated_twice rows"
proof -
  have ids: "distinct rows" "inj_on fs_id (set rows)"
    using ok by (auto simp: flat_rows_ok_def unique_key_def distinct_map)
  have keys: "inj_on flat_key {r \<in> set rows. fs_published_at r \<noteq> None}"
    using ok by (auto simp: flat_rows_ok_def unique_key_def distinct_map)
  have clash: "date_or_epoch r = 0"
    if "r \<in> set rows" "q \<in> set rows" "r \<noteq> q" "fs_url r = fs_url q" "date_or_epoch r = date_or_epoch q" for r q
  proof (rule ccontr)
    assume "date_or_epoch r \<noteq> 0"
    then have "fs_published_at r \<noteq> None" "fs_published_at q \<noteq> None" "fs_published_at r = fs_published_at q"
      using that(5) by (auto simp: date_or_epoch_def split: option.splits)
    then have "r = q" using keys that(1,2,4) by (auto simp: inj_on_def flat_key_def)
    then show False using that(3) by simp
  qed
  have "inj_on (\<lambda>r. (fs_url r, date_or_epoch r)) (set rows) \<longleftrightarrow> \<not> undated_twice rows"
  proof
    assume inj: "inj_on (\<lambda>r. (fs_url r, date_or_epoch r)) (set rows)"
    show "\<not> undated_twice rows"
      unfolding undated_twice_def using inj by (force simp: inj_on_def)
  next
    assume none: "\<not> undated_twice rows"
    show "inj_on (\<lambda>r. (fs_url r, date_or_epoch r)) (set rows)"
    proof (rule inj_onI, rule ccontr)
      fix r q assume rq: "r \<in> set rows" "q \<in> set rows" "(fs_url r, date_or_epoch r) = (fs_url q, date_or_epoch q)" "r \<noteq> q"
      then have "date_or_epoch r = 0" using clash by blast
      moreover have "fs_id r \<noteq> fs_id q" using ids(2) rq by (auto simp: inj_on_def)
      ultimately show False using none rq by (auto simp: undated_twice_def)
    qed
  qed
  then show ?thesis using ids(1) by (simp add: distinct_map)
qed

lemma upgrade_0005_fails_iff:
  assumes "flat_ok feeds t"
  shows "upgrade_0005 t = Inl unique_violation \<longleftrightarrow> undated_twice (fl_sources t)"
    and "\<not> undated_twice (fl_sources t) \<Longrightarrow> \<exists>u. upgrade_0005 t = Inr u"
proof -
  let ?rows = "map (\<lambda>r. with_date r (case fs_published_at r of None \<Rightarrow> 0 | Some d \<Rightarrow> d)) (fl_sources t)"
  have rows: "flat_rows_ok (fl_sources t)" using assms by (simp add: flat_ok_def)
  have "inj_on fs_id (set (fl_sources t))" "distinct (fl_sources t)"
    using rows by (auto simp: flat_rows_ok_def unique_key_def distinct_map)
  then have "unique_key dated_key ?rows"
    by (auto simp: unique_key_def dated_key_def distinct_map comp_def inj_on_def)
  moreover have "map source_key ?rows = map (\<lambda>r. (fs_url r, date_or_epoch r)) (fl_sources t)"
    by (simp add: source_key_def date_or_epoch_def)
  ultimately have key: "(unique_key dated_key ?rows \<and> unique_key source_key ?rows) = (\<not> undated_twice (fl_sources t))"
    using flat_collision [OF rows] by (simp add: unique_key_def del: map_map)
  show "upgrade_0005 t = Inl unique_violation \<longleftrightarrow> undated_twice (fl_sources t)"
    unfolding upgrade_0005_def unflatten_def Let_def key by simp
  show "\<exists>u. upgrade_0005 t = Inr u" if "\<not> undated_twice (fl_sources t)"
    using that unfolding upgrade_0005_def unflatten_def Let_def key by simp
qed

lemma failing_upgrade_repeats:
  assumes "me_ini_exists env" and "me_scripts_exist env" and "\<And>i. me_upgrade env i = Some e"
  shows "run_db_migrations env (int DEFAULT_MIGRATION_MAX_ATTEMPTS) = (Inl (migrations_failed 5 e), [1, 2, 3, 4, 5])"
proof -
  have "migration_loop env 5 5 = (Inl (migrations_failed 5 e), [5])"
    by (simp add: migration_loop.simps [of env 5 5] assms)
  then have "migration_loop env 5 4 = (Inl (migrations_failed 5 e), [4, 5])"
    by (simp add: migration_loop.simps [of env 5 4] assms)
  then have "migration_loop env 5 3 = (Inl (migrations_failed 5 e), [3, 4, 5])"
    by (simp add: migration_loop.simps [of env 5 3] assms)
  then have "migration_loop env 5 2 = (Inl (migrations_failed 5 e), [2, 3, 4, 5])"
    by (simp add: migration_loop.simps [of env 5 2] assms)
  then have "migration_loop env 5 1 = (Inl (migrations_failed 5 e), [1, 2, 3, 4, 5])"
    by (simp add: migration_loop.simps [of env 5 1] assms numeral_2_eq_2 [symmetric] del: One_nat_def)
  then show ?thesis
    by (simp add: run_db_migrations_def build_alembic_config_def DEFAULT_MIGRATION_MAX_ATTEMPTS_def assms)
qed

text \<open>
  C37: the tables that 0004 allows can block 0005.  Its UNIQUE constraint lets an address have any number of articles
  without a date, which all get the epoch in 0005, where the same constraint tells them apart no longer: the upgrade
  raises exactly when two articles of one address have no date (or the epoch for one), and since nothing changes between
  two attempts, the db-manager then makes its five attempts and ends with the violation; otherwise the first succeeds.
\<close>
theorem undated_articles_block_migration:
  assumes "flat_ok feeds t" and "me_ini_exists env" and "me_scripts_exist env"
    and "me_upgrade env = (\<lambda>_. case upgrade_0005 t of Inl e \<Rightarrow> Some e | Inr _ \<Rightarrow> None)"
  shows "run_db_migrations env (int DEFAULT_MIGRATION_MAX_ATTEMPTS) =
    (if undated_twice (fl_sources t) then (Inl (migrations_failed 5 unique_violation), [1, 2, 3, 4, 5]) else (Inr (), [1]))"
proof (cases "undated_twice (fl_sources t)")
  case True
  then have "upgrade_0005 t = Inl unique_violation" using upgrade_0005_fails_iff(1) [OF assms(1)] by simp
  then have "me_upgrade env i = Some unique_violation" for i using assms(4) by simp
  then show ?thesis using failing_upgrade_repeats [OF assms(2,3)] True by simp
next
  case False
  then obtain u where "upgrade_0005 t = Inr u" using upgrade_0005_fails_iff(2) [OF assms(1)] by blast
  then show ?thesis using False assms(2-4)
    by (simp add: run_db_migrations_def build_alembic_config_def DEFAULT_MIGRATION_MAX_ATTEMPTS_def
      migration_loop.simps [of env 5 "Suc 0"])
qed

definition flat_example :: flat_tables where
  "flat_example =
     \<lparr>fl_sources = [\<lparr>fs_id = 1, fs_title = ''a'', fs_summary = None, fs_author = None, fs_url = ''u'', fs_published_at = None, fs_image_url = None\<rparr>,
        \<lparr>fs_id = 2, fs_title = ''b'', fs_summary = None, fs_author = None, fs_url = ''u'', fs_published_at = None, fs_image_url = None\<rparr>],
      fl_links = [(1, 7), (2, 7)], fl_seq = 3\<rparr>"

definition flat_example_env :: migration_env where
  "flat_example_env = \<lparr>me_project_root = ''/app'', me_ini_exists = True, me_scripts_exist = True,
     me_upgrade = (\<lambda>_. case upgrade_0005 flat_example of Inl e \<Rightarrow> Some e | Inr _ \<Rightarrow> None)\<rparr>"

lemma undated_articles_block_migration_witness:
  "run_db_migrations flat_example_env 5 = (Inl (migrations_failed 5 unique_violation), [1, 2, 3, 4, 5])"
proof -
  have "flat_ok [7] flat_example"
    by (simp add: flat_example_def flat_ok_def flat_rows_ok_def unique_key_def keys_of_def)
  then have "run_db_migrations flat_example_env (int DEFAULT_MIGRATION_MAX_ATTEMPTS) =
      (if undated_twice (fl_sources flat_example) then (Inl (migrations_failed 5 unique_violation), [1, 2, 3, 4, 5]) else (Inr (), [1]))"
    by (rule undated_articles_block_migration) (simp_all add: flat_example_env_def)
  moreover have "undated_twice (fl_sources flat_example)"
    by (simp add: flat_example_def undated_twice_def date_or_epoch_def ex_disj_distrib conj_disj_distribR)
  ultimately show ?thesis by (simp add: DEFAULT_MIGRATION_MAX_ATTEMPTS_def)
qed

end
