(* ===== verification/Service_Loops.thy ===== *)
theory Service_Loops
  imports Result_Consumer Scrape_Worker Worker_Auth Migrations "HOL-Library.Sublist"
begin

text \<open>
  The endless loops of the two services that read streams: \<^verbatim>\<open>run_result_consumer\<close> of the db-manager with its
  \<^verbatim>\<open>main.py\<close>, and \<^verbatim>\<open>run_scrape_worker\<close> of the worker.  A finite run of a loop is a list of turns, one for each
  iteration; a turn holds what the outside world does in it.
\<close>

section \<open>The stream a group reads\<close>

text \<open>
  The entries that were not delivered to the group yet, in the order in which they are delivered.  A read delivers some
  of them, whether or not its reply arrives, and never delivers an entry again: the services only ask for new entries.
\<close>

type_synonym stream_entry = "string \<times> string \<times> (string \<rightharpoonup> string)"

definition entry_id :: "string \<times> string \<times> 'a \<Rightarrow> string \<times> string" where
  "entry_id e = (fst e, fst (snd e))"

fun with_reply :: "'a \<Rightarrow> unit redis_outcome \<Rightarrow> 'a redis_outcome" where
  "with_reply a (Replied _) = Replied a"
| "with_reply a (LostConnection done_there m) = LostConnection done_there m"
| "with_reply a (ResponseError m) = ResponseError m"
| "with_reply a (BrokeOtherwise m) = BrokeOtherwise m"

text \<open>
  What the two possible attempts of \<^verbatim>\<open>xreadgroup\<close> meet: how many entries the server would deliver, and the outcome.
\<close>

record read_turn =
  rt_deliver :: "nat \<Rightarrow> nat"
  rt_reply :: "nat \<Rightarrow> unit redis_outcome"

definition delivered_at :: "read_turn \<Rightarrow> nat \<Rightarrow> nat" where
  "delivered_at rt attempt = (if executed (rt_reply rt attempt) then rt_deliver rt attempt else 0)"

definition second_attempt :: "read_turn \<Rightarrow> bool" where
  "second_attempt rt = (case rt_reply rt 1 of LostConnection _ _ \<Rightarrow> True | _ \<Rightarrow> False)"

definition undelivered_before :: "read_turn \<Rightarrow> stream_entry list \<Rightarrow> nat \<Rightarrow> stream_entry list" where
  "undelivered_before rt es attempt = (if attempt \<le> 1 then es else drop (delivered_at rt 1) es)"

definition undelivered_after :: "read_turn \<Rightarrow> stream_entry list \<Rightarrow> stream_entry list" where
  "undelivered_after rt es =
     (let rest = drop (delivered_at rt 1) es in if second_attempt rt then drop (delivered_at rt 2) rest else rest)"

definition stream_records_of :: "stream_entry list \<Rightarrow> stream_records" where
  "stream_records_of es = map (\<lambda>(stream, message_id, entry). (stream, [(message_id, entry)])) es"

definition xreadgroup :: "read_turn \<Rightarrow> stream_entry list \<Rightarrow> nat \<Rightarrow> nat \<Rightarrow> stream_records redis_outcome" where
  "xreadgroup rt es attempt client =
     with_reply (stream_records_of (take (rt_deliver rt attempt) (undelivered_before rt es attempt))) (rt_reply rt attempt)"

section \<open>The db-manager\<close>

text \<open>The messages of a batch that reach \<^verbatim>\<open>_process_result_message\<close>: an exception drops the rest.\<close>

fun handled_messages :: "consumed_message list \<Rightarrow> consumer_state \<Rightarrow> (string \<times> string) list" where
  "handled_messages [] s = []"
| "handled_messages ((env, stream_name, message_id, payload_raw) # ms) s =
     (stream_name, message_id) #
     (case process_result_message env stream_name message_id payload_raw s of
        (Inl _, _) \<Rightarrow> [] | (Inr _, s') \<Rightarrow> handled_messages ms s')"

record consumer_turn = read_turn +
  ct_group :: "string \<Rightarrow> nat \<Rightarrow> nat \<Rightarrow> unit redis_outcome"
  ct_message :: "nat \<Rightarrow> message_env"

text \<open>\<open>cl_handled\<close> and \<open>cl_pauses\<close> record the messages handled and the pauses of a second; no operation reads them.\<close>

record consumer_loop =
  cl_stream :: "stream_entry list"
  cl_cache :: redis_cache
  cl_state :: consumer_state
  cl_handled :: "(string \<times> string) list"
  cl_pauses :: nat

definition turn_messages :: "consumer_turn \<Rightarrow> (string \<times> string \<times> scrape_result option) list \<Rightarrow> consumed_message list" where
  "turn_messages turn messages = map (\<lambda>(k, m). (ct_message turn k, m)) (enumerate 0 messages)"

definition consume_turn ::
  "(string \<Rightarrow> string + scrape_result option) \<Rightarrow> consumer_turn \<Rightarrow> consumer_loop \<Rightarrow> consumer_loop" where
  "consume_turn loads turn l =
     (let l1 = l\<lparr>cl_stream := undelivered_after (read_turn.truncate turn) (cl_stream l)\<rparr> in
      case read_worker_results loads (xreadgroup (read_turn.truncate turn) (cl_stream l)) (ct_group turn) (cl_cache l) of
        (Inl _, c) \<Rightarrow> l1\<lparr>cl_cache := c, cl_pauses := Suc (cl_pauses l)\<rparr>
      | (Inr messages, c) \<Rightarrow>
          (let batch = turn_messages turn messages;
               l2 = l1\<lparr>cl_cache := c, cl_handled := cl_handled l @ handled_messages batch (cl_state l)\<rparr>
           in case process_batch batch (cl_state l) of
                (Inl _, s) \<Rightarrow> l2\<lparr>cl_state := s, cl_pauses := Suc (cl_pauses l)\<rparr>
              | (Inr _, s) \<Rightarrow> l2\<lparr>cl_state := s\<rparr>))"

definition consume_turns ::
  "(string \<Rightarrow> string + scrape_result option) \<Rightarrow> consumer_turn list \<Rightarrow> consumer_loop \<Rightarrow> consumer_loop" where
  "consume_turns loads turns l = fold (consume_turn loads) turns l"

text \<open>The service: an exception of the group creation ends it, one in a turn does not.\<close>

definition run_result_consumer ::
  "(string \<Rightarrow> string + scrape_result option) \<Rightarrow> (string \<Rightarrow> nat \<Rightarrow> nat \<Rightarrow> unit redis_outcome) \<Rightarrow> consumer_turn list
     \<Rightarrow> consumer_loop \<Rightarrow> (redis_exn + unit) \<times> consumer_loop" where
  "run_result_consumer loads xgroup_create turns l =
     (case ensure_consumer_groups xgroup_create db_manager_streams (cl_cache l) of
        (Inl e, c) \<Rightarrow> (Inl e, l\<lparr>cl_cache := c\<rparr>)
      | (Inr _, c) \<Rightarrow> (Inr (), consume_turns loads turns (l\<lparr>cl_cache := c\<rparr>)))"

text \<open>\<^verbatim>\<open>main\<close>: the consumer only starts on a migrated database.\<close>

definition db_manager_main ::
  "migration_env \<Rightarrow> (string \<Rightarrow> string + scrape_result option) \<Rightarrow> (string \<Rightarrow> nat \<Rightarrow> nat \<Rightarrow> unit redis_outcome) \<Rightarrow> consumer_turn list
     \<Rightarrow> consumer_loop \<Rightarrow> ((py_exn + redis_exn) + unit) \<times> consumer_loop" where
  "db_manager_main env loads xgroup_create turns l =
     (case fst (run_db_migrations env (int DEFAULT_MIGRATION_MAX_ATTEMPTS)) of
        Inl e \<Rightarrow> (Inl (Inl e), l)
      | Inr _ \<Rightarrow> (case run_result_consumer loads xgroup_create turns l of
          (Inl e, l') \<Rightarrow> (Inl (Inr e), l') | (Inr u, l') \<Rightarrow> (Inr u, l')))"

section \<open>The worker\<close>

text \<open>
  An iteration of the worker up to the tasks it starts: the token, the read and the messages it passes to
  \<^verbatim>\<open>_process_job_message\<close>, which all run until they first wait.  \<open>acks\<close> says how often the server executes the
  acknowledgement of the k-th message, should it be invalid.
\<close>

record worker_turn =
  wt_now :: py_datetime
  wt_post :: "string \<Rightarrow> string \<Rightarrow> string \<Rightarrow> token_response"
  wt_read :: "nat \<Rightarrow> nat \<Rightarrow> stream_records redis_outcome"
  wt_group :: "nat \<Rightarrow> nat \<Rightarrow> unit redis_outcome"
  wt_acks :: "nat \<Rightarrow> nat"

record worker_loop =
  wl_token :: token_cache
  wl_cache :: redis_cache
  wl_state :: worker_state
  wl_pauses :: nat

definition start_messages :: "nat \<Rightarrow> (nat \<Rightarrow> nat) \<Rightarrow> (string \<times> job_request option) list \<Rightarrow> worker_state \<Rightarrow> worker_state" where
  "start_messages company_max_rps acks jobs s =
     fold (\<lambda>(k, message_id, payload). receive_message company_max_rps message_id payload (acks k)) (enumerate 0 jobs) s"

definition worker_iteration ::
  "py_stdlib \<Rightarrow> worker_env \<Rightarrow> (string \<Rightarrow> string + job_request option) \<Rightarrow> nat \<Rightarrow> worker_turn \<Rightarrow> worker_loop \<Rightarrow> worker_loop" where
  "worker_iteration lib env loads company_max_rps turn l =
     (case ensure_worker_authenticated lib (wt_post turn) env (wt_now turn) (wl_token l) of
        (Inl _, _, tokens) \<Rightarrow> l\<lparr>wl_token := tokens, wl_pauses := Suc (wl_pauses l)\<rparr>
      | (Inr _, _, tokens) \<Rightarrow>
          (case read_scrape_jobs loads (wt_read turn) (wt_group turn) (wl_cache l) of
             (Inl _, c) \<Rightarrow> l\<lparr>wl_token := tokens, wl_cache := c, wl_pauses := Suc (wl_pauses l)\<rparr>
           | (Inr jobs, c) \<Rightarrow> l\<lparr>wl_token := tokens, wl_cache := c,
                wl_state := start_messages company_max_rps (wt_acks turn) jobs (wl_state l)\<rparr>))"

text \<open>
  The service: the rate limit is read once, at the start.  Between two iterations the tasks take their steps; the loop
  really waits for the batch or for its first exception, after which the other tasks of the batch go on, so that the
  relation allows every run of the code.
\<close>

definition start_scrape_worker ::
  "string option \<Rightarrow> (nat \<Rightarrow> nat \<Rightarrow> unit redis_outcome) \<Rightarrow> redis_exn + (nat \<times> worker_loop)" where
  "start_scrape_worker max_rps_setting xgroup_create =
     (case ensure_worker_consumer_group xgroup_create empty_cache of
        (Inl e, _) \<Rightarrow> Inl e
      | (Inr _, c) \<Rightarrow> Inr (nat (resolve_company_max_requests_per_second max_rps_setting),
          \<lparr>wl_token = \<lparr>cached_token = None, cached_expires_at = None\<rparr>, wl_cache = c, wl_state = worker_init, wl_pauses = 0\<rparr>))"

inductive scrape_worker_run ::
  "py_stdlib \<Rightarrow> worker_env \<Rightarrow> (string \<Rightarrow> string + job_request option) \<Rightarrow> nat \<Rightarrow> worker_loop \<Rightarrow> worker_loop \<Rightarrow> bool"
  for lib env loads company_max_rps start where
  started: "scrape_worker_run lib env loads company_max_rps start start"
| iterated: "scrape_worker_run lib env loads company_max_rps start l \<Longrightarrow>
    scrape_worker_run lib env loads company_max_rps start (worker_iteration lib env loads company_max_rps turn l)"
| worked: "scrape_worker_run lib env loads company_max_rps start l \<Longrightarrow> worker_step company_max_rps (wl_state l) s \<Longrightarrow>
    scrape_worker_run lib env loads company_max_rps start (l\<lparr>wl_state := s\<rparr>)"

end
