(* ===== verification/Service_Properties.thy ===== *)
theory Service_Properties
  imports Service_Loops
begin

text \<open>
  What the loops of the services guarantee over any number of turns: they go on after every error of a turn, a message
  is handled at most once, and what a failed turn leaves unhandled is never handled.
\<close>

section \<open>Reading\<close>

lemma decoded_ids:
  "subseq (map entry_id (decoded loads (stream_records_of es))) (map entry_id es)"
proof (induction es)
  case Nil
  then show ?case by (simp add: decoded_def stream_records_of_def)
next
  case (Cons e es)
  obtain stream i entry where e: "e = (stream, i, entry)" by (cases e)
  have split: "decoded loads (stream_records_of (e # es)) =
      decoded loads [(stream, [(i, entry)])] @ decoded loads (stream_records_of es)"
    by (simp add: decoded_def stream_records_of_def e)
  have "subseq (map entry_id (decoded loads [(stream, [(i, entry)])])) [(stream, i)]"
    by (auto simp: decoded_def List.map_filter_simps entry_id_def split: option.splits sum.splits)
  then have "subseq (map entry_id (decoded loads [(stream, [(i, entry)])]) @
      map entry_id (decoded loads (stream_records_of es))) ([(stream, i)] @ map entry_id es)"
    using Cons.IH by (rule list_emb_append_mono)
  then show ?case unfolding split map_append by (simp add: e entry_id_def [of "(stream, i, entry)"])
qed

definition delivered_count :: "read_turn \<Rightarrow> nat" where
  "delivered_count rt = delivered_at rt 1 + (if second_attempt rt then delivered_at rt 2 else 0)"

lemma undelivered_after_drop: "undelivered_after rt es = drop (delivered_count rt) es"
  by (simp add: undelivered_after_def delivered_count_def Let_def add.commute)

lemma xreadgroup_records:
  assumes "run_redis_command name (xreadgroup rt es) c = (Inr records, attempts, c')"
  shows "\<exists>a b. records = stream_records_of (take a (drop b es)) \<and> a + b \<le> delivered_count rt"
  using assms
proof (cases rule: run_redis_commandE)
  case (first k c1)
  have "\<exists>u. rt_reply rt 1 = Replied u"
    using first(3,5) by (cases "rt_reply rt 1") (auto simp: xreadgroup_def)
  then obtain u where u: "rt_reply rt 1 = Replied u" ..
  then have "records = stream_records_of (take (rt_deliver rt 1) es)"
    using first(5) by (simp add: xreadgroup_def undelivered_before_def)
  then show ?thesis using u
    by (intro exI [of _ "rt_deliver rt 1"] exI [of _ 0]) (simp add: delivered_count_def delivered_at_def)
next
  case (second k c1 k' c2 b m)
  have "\<exists>u. rt_reply rt 2 = Replied u"
    using second(5) by (cases "rt_reply rt 2") (auto simp: xreadgroup_def)
  then obtain u where u: "rt_reply rt 2 = Replied u" ..
  then have "records = stream_records_of (take (rt_deliver rt 2) (drop (delivered_at rt 1) es))"
    using second(5) by (simp add: xreadgroup_def undelivered_before_def)
  moreover have "second_attempt rt"
    using second(2) by (cases "rt_reply rt 1") (simp_all add: xreadgroup_def second_attempt_def)
  ultimately show ?thesis using u
    by (intro exI [of _ "rt_deliver rt 2"] exI [of _ "delivered_at rt 1"]) (simp add: delivered_count_def delivered_at_def)
qed

lemma subseq_take_drop:
  assumes "a + b \<le> n"
  shows "subseq (take a (drop b xs)) (take n xs)"
proof -
  obtain d where n: "n = b + (a + d)" using assms by (metis add.assoc add.commute le_iff_add)
  have "take n xs = take b xs @ take a (drop b xs) @ take d (drop (b + a) xs)"
    unfolding n by (simp add: take_add add.commute)
  then show ?thesis by (metis list_emb_append2 list_emb_append_mono list_emb_Nil subseq_order.order_refl append_Nil2)
qed

lemma read_results_ids:
  assumes "read_worker_results loads (xreadgroup rt es) grp c = (Inr messages, c')"
  shows "subseq (map entry_id messages) (map entry_id (take (delivered_count rt) es))"
proof -
  obtain r attempts c1 where run: "run_redis_command ''xreadgroup'' (xreadgroup rt es) c = (r, attempts, c1)"
    by (metis prod_cases3)
  show ?thesis
  proof (cases r)
    case (Inl e)
    note res = assms [unfolded read_worker_results_def run Inl prod.case sum.case]
    have "messages = []"
    proof (cases e)
      case (RedisResponseError m)
      obtain x c2 where x: "ensure_consumer_groups grp db_manager_streams c1 = (x, c2)" by fastforce
      show ?thesis
        using res unfolding RedisResponseError redis_exn.case x prod.case
        by (cases x; cases "str_contains ''NOGROUP'' m") (simp_all split: unit.splits)
    qed (use res in simp_all)
    then show ?thesis by simp
  next
    case (Inr records)
    then have "decode_records loads ''Invalid result payload'' records = Inr messages"
      using assms run by (simp add: read_worker_results_def)
    then have messages: "messages = decoded loads records" by (simp add: decode_records_spec)
    have "run_redis_command ''xreadgroup'' (xreadgroup rt es) c = (Inr records, attempts, c1)" using run Inr by simp
    from xreadgroup_records [OF this] obtain a b where ab: "records = stream_records_of (take a (drop b es))"
      "a + b \<le> delivered_count rt" by (elim exE conjE) (rule that)
    show ?thesis
      unfolding messages ab(1)
      by (rule subseq_order.order_trans [OF decoded_ids subseq_map [OF subseq_take_drop [OF ab(2)]]])
  qed
qed

section \<open>One turn\<close>

lemma turn_message_ids: "map (\<lambda>(env, stream, i, p). (stream, i)) (turn_messages turn messages) = map entry_id messages"
proof -
  have "map (\<lambda>(env, stream, i, p). (stream, i)) (map (\<lambda>(k, m). (ct_message turn k, m)) (enumerate n messages)) =
      map entry_id messages" for n
    by (induction messages arbitrary: n) (auto simp: entry_id_def)
  then show ?thesis by (simp add: turn_messages_def)
qed

lemma handled_prefix: "prefix (handled_messages ms s) (map (\<lambda>(env, stream, i, p). (stream, i)) ms)"
  by (induction ms s rule: handled_messages.induct) (auto split: prod.splits sum.splits)

lemma message_acks:
  assumes "process_result_message env stream i raw s = (r, s')"
  shows "cs_acked s' = cs_acked s \<or> cs_acked s' = cs_acked s @ [(stream, i)]"
proof -
  have ack: "cs_acked (snd (acknowledge env stream i t)) = cs_acked t \<or>
      cs_acked (snd (acknowledge env stream i t)) = cs_acked t @ [(stream, i)]" for t
    by (auto simp: acknowledge_def min_def le_Suc_eq split: prod.splits)
  show ?thesis
  proof (cases "validate_result raw")
    case (Inl e)
    then show ?thesis using assms ack [of s] by (simp add: process_result_message_def)
  next
    case (Inr payload)
    obtain x db where c: "committed (me_commit env) (persist_worker_result (me_now env) payload
        (resolve_queue_kind stream ''rss_check_results'' ''rss_ingest_results'' ''error_feeds_parsing'')) (cs_db s) = (x, db)"
      by fastforce
    show ?thesis
      using assms Inr c ack [of "s\<lparr>cs_db := db\<rparr>"] by (cases x) (auto simp: process_result_message_def Let_def)
  qed
qed

lemma batch_acks: "\<exists>a. cs_acked (snd (process_batch ms s)) = cs_acked s @ a \<and> subseq a (handled_messages ms s)"
proof (induction ms s rule: handled_messages.induct)
  case (2 env stream i raw ms s)
  obtain r s' where p: "process_result_message env stream i raw s = (r, s')" by fastforce
  obtain a where a: "cs_acked s' = cs_acked s @ a" "subseq a [(stream, i)]" using message_acks [OF p] by auto
  show ?case
  proof (cases r)
    case (Inl e)
    then show ?thesis using p a by auto
  next
    case (Inr u)
    obtain b where "cs_acked (snd (process_batch ms s')) = cs_acked s' @ b" "subseq b (handled_messages ms s')"
      using 2 [OF p [symmetric] Inr] by blast
    then show ?thesis using p a Inr list_emb_append_mono [OF a(2)] by (intro exI [of _ "a @ b"]) fastforce
  qed
qed simp

lemma turn_progress:
  "\<exists>n h a. cl_stream (consume_turn loads turn l) = drop n (cl_stream l) \<and>
    cl_handled (consume_turn loads turn l) = cl_handled l @ h \<and> subseq h (map entry_id (take n (cl_stream l))) \<and>
    cs_acked (cl_state (consume_turn loads turn l)) = cs_acked (cl_state l) @ a \<and> subseq a h"
proof -
  let ?rt = "read_turn.truncate turn"
  let ?n = "delivered_count ?rt"
  obtain r c where read: "read_worker_results loads (xreadgroup ?rt (cl_stream l)) (ct_group turn) (cl_cache l) = (r, c)" by fastforce
  show ?thesis
  proof (cases r)
    case (Inl e)
    then show ?thesis using read
      by (intro exI [of _ ?n] exI [of _ "[]"]) (simp add: consume_turn_def undelivered_after_drop)
  next
    case (Inr messages)
    let ?batch = "turn_messages turn messages"
    obtain x s where run: "process_batch ?batch (cl_state l) = (x, s)" by fastforce
    obtain a where a: "cs_acked s = cs_acked (cl_state l) @ a" "subseq a (handled_messages ?batch (cl_state l))"
      using batch_acks [of ?batch "cl_state l"] run by auto
    have "subseq (handled_messages ?batch (cl_state l)) (map entry_id messages)"
      using handled_prefix [of ?batch "cl_state l"] by (simp add: turn_message_ids prefix_imp_subseq)
    also have "subseq (map entry_id messages) (map entry_id (take ?n (cl_stream l)))"
      using read_results_ids read Inr by blast
    finally have h: "subseq (handled_messages ?batch (cl_state l)) (map entry_id (take ?n (cl_stream l)))" .
    show ?thesis using read Inr run a h
      by (intro exI [of _ ?n] exI [of _ "handled_messages ?batch (cl_state l)"] exI [of _ a], cases x)
        (simp_all add: consume_turn_def undelivered_after_drop Let_def)
  qed
qed

lemma turns_progress:
  "\<exists>n h a. cl_stream (consume_turns loads turns l) = drop n (cl_stream l) \<and>
    cl_handled (consume_turns loads turns l) = cl_handled l @ h \<and> subseq h (map entry_id (take n (cl_stream l))) \<and>
    cs_acked (cl_state (consume_turns loads turns l)) = cs_acked (cl_state l) @ a \<and> subseq a h"
proof (induction turns arbitrary: l)
  case Nil
  then show ?case by (intro exI [of _ 0] exI [of _ "[]"]) (simp add: consume_turns_def)
next
  case (Cons turn turns)
  let ?l = "consume_turn loads turn l"
  obtain n h a where one: "cl_stream ?l = drop n (cl_stream l)" "cl_handled ?l = cl_handled l @ h"
    "subseq h (map entry_id (take n (cl_stream l)))" "cs_acked (cl_state ?l) = cs_acked (cl_state l) @ a" "subseq a h"
    using turn_progress [of loads turn l] by blast
  obtain n' h' a' where later: "cl_stream (consume_turns loads turns ?l) = drop n' (cl_stream ?l)"
    "cl_handled (consume_turns loads turns ?l) = cl_handled ?l @ h'"
    "subseq h' (map entry_id (take n' (cl_stream ?l)))"
    "cs_acked (cl_state (consume_turns loads turns ?l)) = cs_acked (cl_state ?l) @ a'" "subseq a' h'"
    using Cons.IH [of ?l] by blast
  have "subseq (h @ h') (map entry_id (take n (cl_stream l)) @ map entry_id (take n' (drop n (cl_stream l))))"
    using list_emb_append_mono [OF one(3)] later(3) one(1) by simp
  then have "subseq (h @ h') (map entry_id (take (n + n') (cl_stream l)))" by (simp add: take_add)
  moreover have "consume_turns loads (turn # turns) l = consume_turns loads turns ?l" by (simp add: consume_turns_def)
  ultimately show ?case
    using one later list_emb_append_mono [OF one(5) later(5)]
    by (intro exI [of _ "n + n'"] exI [of _ "h @ h'"] exI [of _ "a @ a'"]) (simp add: add.commute)
qed

section \<open>Any number of turns\<close>

lemma turns_append: "consume_turns loads (turns @ later) l = consume_turns loads later (consume_turns loads turns l)"
  by (simp add: consume_turns_def)

lemma subseq_set: "subseq xs ys \<Longrightarrow> set xs \<subseteq> set ys"
  by (induction rule: list_emb.induct) auto

lemma subseq_distinct: "subseq xs ys \<Longrightarrow> distinct ys \<Longrightarrow> distinct xs"
  by (induction rule: list_emb.induct) (auto dest: subseq_set)

lemma passed_over:
  assumes "distinct (map entry_id (cl_stream l))" and "e \<in> set (cl_stream l)"
    and "consume_turns loads turns l = l'" and "e \<notin> set (cl_stream l')"
    and "entry_id e \<notin> set (cl_handled l')" and "entry_id e \<notin> set (cs_acked (cl_state l'))"
  shows "entry_id e \<notin> set (cl_handled (consume_turns loads later l')) \<and>
    entry_id e \<notin> set (cs_acked (cl_state (consume_turns loads later l')))"
proof -
  obtain n where n: "cl_stream l' = drop n (cl_stream l)"
    using turns_progress [of loads turns l] assms(3) by blast
  obtain k h a where later: "cl_handled (consume_turns loads later l') = cl_handled l' @ h"
    "subseq h (map entry_id (take k (cl_stream l')))"
    "cs_acked (cl_state (consume_turns loads later l')) = cs_acked (cl_state l') @ a" "subseq a h"
    using turns_progress [of loads later l'] by blast
  have "e' \<notin> set (cl_stream l')" if "entry_id e' = entry_id e" for e'
    using assms(1,2,4) that unfolding n by (auto simp: distinct_map dest: in_set_dropD inj_onD)
  moreover have "entry_id e \<notin> set h \<or> (\<exists>e'\<in>set (cl_stream l'). entry_id e' = entry_id e)"
    using subseq_set [OF later(2)] by (auto dest!: subsetD dest: in_set_takeD)
  ultimately have "entry_id e \<notin> set h" by blast
  moreover have "set a \<subseteq> set h" using later(4) by (rule subseq_set)
  ultimately show ?thesis using later(1,3) assms(5,6) by auto
qed

text \<open>
  C38: the consumer handles a message at most once.  The service only ends when the groups cannot be created; in any
  number of turns, whatever Redis and the database answer, the entries of the streams are passed in order: those handled
  are among those delivered, none twice, and those acknowledged are among those handled.  An entry that was delivered and
  left unhandled, because its read failed or an earlier acknowledgement of its read raised, is neither handled nor
  acknowledged in any continuation: only new entries are ever read.
\<close>

theorem consumer_is_at_most_once:
  assumes "distinct (map entry_id (cl_stream l))" and "cl_handled l = []" and "cs_acked (cl_state l) = []"
    and "run_result_consumer loads xgroup_create turns l = (r, l')"
  shows "(r = Inr () \<longleftrightarrow> fst (ensure_consumer_groups xgroup_create db_manager_streams (cl_cache l)) = Inr ()) \<and>
    suffix (cl_stream l') (cl_stream l) \<and> distinct (cl_handled l') \<and>
    subseq (cs_acked (cl_state l')) (cl_handled l') \<and>
    (\<forall>e\<in>set (cl_stream l). entry_id e \<in> set (cl_handled l') \<longrightarrow> e \<notin> set (cl_stream l')) \<and>
    (\<forall>e\<in>set (cl_stream l). e \<notin> set (cl_stream l') \<longrightarrow> entry_id e \<notin> set (cl_handled l') \<longrightarrow>
       (\<forall>later. entry_id e \<notin> set (cl_handled (consume_turns loads later l')) \<and>
          entry_id e \<notin> set (cs_acked (cl_state (consume_turns loads later l')))))"
proof (cases "ensure_consumer_groups xgroup_create db_manager_streams (cl_cache l)")
  case (Pair g c)
  show ?thesis
  proof (cases g)
    case (Inl e)
    then have "r = Inl e" "l' = l\<lparr>cl_cache := c\<rparr>" using assms(4) Pair by (simp_all add: run_result_consumer_def)
    then show ?thesis using Pair Inl assms(2,3) by simp
  next
    case (Inr u)
    let ?l = "l\<lparr>cl_cache := c\<rparr>"
    have l': "consume_turns loads turns ?l = l'" "r = Inr ()"
      using assms(4) Pair Inr by (simp_all add: run_result_consumer_def)
    obtain n h a where progress: "cl_stream l' = drop n (cl_stream l)" "cl_handled l' = h"
      "subseq h (map entry_id (take n (cl_stream l)))" "cs_acked (cl_state l') = a" "subseq a h"
      using turns_progress [of loads turns ?l] assms(2,3) unfolding l'(1) by auto
    have parts: "distinct (map entry_id (take n (cl_stream l)) @ map entry_id (drop n (cl_stream l)))"
      using assms(1) by (metis append_take_drop_id map_append)
    then have "distinct h" using progress(3) by (auto intro: subseq_distinct)
    moreover have "e \<notin> set (drop n (cl_stream l))" if "entry_id e \<in> set h" for e
      using subseq_set [OF progress(3)] parts that by auto
    moreover have "entry_id e \<notin> set (cl_handled (consume_turns loads later l')) \<and>
        entry_id e \<notin> set (cs_acked (cl_state (consume_turns loads later l')))"
      if "e \<in> set (cl_stream l)" "e \<notin> set (cl_stream l')" "entry_id e \<notin> set (cl_handled l')" for e later
      using passed_over [of ?l e loads turns l' later] that assms(1) l'(1) progress(2,4,5) subseq_set by auto
    ultimately show ?thesis using Pair Inr l'(2) progress by (simp add: suffix_drop)
  qed
qed

definition two_entries :: "stream_entry list" where
  "two_entries = [(''rss_check_results'', ''1'', [''payload'' \<mapsto> ''?'']), (''rss_check_results'', ''2'', [''payload'' \<mapsto> ''?''])]"

text \<open>A turn that reads both entries and fails to acknowledge the first.\<close>

definition failing_turn :: consumer_turn where
  "failing_turn = \<lparr>rt_deliver = \<lambda>_. 2, rt_reply = \<lambda>_. Replied (), ct_group = \<lambda>_ _ _. Replied (),
     ct_message = \<lambda>_. \<lparr>me_now = 5, me_commit = CommitOk, me_xack = \<lambda>_ _. ResponseError ''READONLY'', me_cache = empty_cache\<rparr>\<rparr>"

definition loop_example :: consumer_loop where
  "loop_example = \<lparr>cl_stream = two_entries, cl_cache = empty_cache, cl_state = \<lparr>cs_db = sample_db, cs_acked = []\<rparr>,
     cl_handled = [], cl_pauses = 0\<rparr>"

lemma loop_example_run:
  "\<exists>c. run_result_consumer (\<lambda>_. Inr None) (\<lambda>_ _ _. Replied ()) [failing_turn] loop_example =
    (Inr (), loop_example\<lparr>cl_stream := [], cl_cache := c, cl_handled := [(''rss_check_results'', ''1'')], cl_pauses := 1\<rparr>)"
  by (intro exI [of _ "\<lparr>cached_client = Some 0, next_client = 1, closed_clients = []\<rparr>"])
    (simp add: run_result_consumer_def db_manager_streams_def create_group_def run_redis_command_def redis_command_loop.simps
      get_redis_client_def empty_cache_def loop_example_def consume_turns_def consume_turn_def read_worker_results_def
      two_entries_def failing_turn_def read_turn.truncate_def xreadgroup_def undelivered_before_def stream_records_of_def
      turn_messages_def process_result_message_def validate_result_def
      acknowledge_def ack_worker_result_def ack_message_def executions_def undelivered_after_def delivered_at_def
      second_attempt_def Let_def payload_field_def split: unit.splits)

theorem consumer_is_at_most_once_witness:
  "\<exists>l'. snd (run_result_consumer (\<lambda>_. Inr None) (\<lambda>_ _ _. Replied ()) [failing_turn] loop_example) = l' \<and>
    (\<forall>later. (''rss_check_results'', ''2'') \<notin> set (cl_handled (consume_turns (\<lambda>_. Inr None) later l')))"
proof -
  obtain c where run: "run_result_consumer (\<lambda>_. Inr None) (\<lambda>_ _ _. Replied ()) [failing_turn] loop_example =
    (Inr (), loop_example\<lparr>cl_stream := [], cl_cache := c, cl_handled := [(''rss_check_results'', ''1'')], cl_pauses := 1\<rparr>)"
    using loop_example_run by blast
  have lost: "(''rss_check_results'', ''2'', [''payload'' \<mapsto> ''?'']) \<in> set (cl_stream loop_example)"
    by (simp add: loop_example_def two_entries_def)
  show ?thesis
    using consumer_is_at_most_once [OF _ _ _ run] lost run
    by (force simp: loop_example_def two_entries_def entry_id_def)
qed

section \<open>The worker\<close>

lemma start_messages_steps: "(worker_step n)\<^sup>*\<^sup>* s (start_messages n acks jobs s)"
proof -
  have "(worker_step n)\<^sup>*\<^sup>* s
      (fold (\<lambda>(k, message_id, payload). receive_message n message_id payload (acks k)) (enumerate i jobs) s)" for i
  proof (induction jobs arbitrary: s i)
    case (Cons job jobs)
    then show ?case by (cases job) (auto intro: converse_rtranclp_into_rtranclp worker_step.receive)
  qed simp
  then show ?thesis by (simp add: start_messages_def)
qed

text \<open>An iteration of the worker is a sequence of steps of the relation the worker's properties are about.\<close>

theorem worker_iteration_steps: "(worker_step n)\<^sup>*\<^sup>* (wl_state l) (wl_state (worker_iteration lib env loads n turn l))"
  by (auto simp: worker_iteration_def start_messages_steps split: prod.splits sum.splits)

lemma worker_run_reachable:
  assumes "scrape_worker_run lib env loads n start l" and "worker_reach n (wl_state start)"
  shows "worker_reach n (wl_state l)"
  using assms
  by (induction rule: scrape_worker_run.induct) (auto intro: worker_reach.step worker_reach_steps [OF worker_iteration_steps])

text \<open>
  Whatever the worker does from its start on is a run of that relation with a positive rate: what is shown of the
  reachable states holds at every moment of the service.
\<close>

theorem started_worker_reachable:
  assumes "start_scrape_worker max_rps_setting xgroup_create = Inr (n, start)" and "scrape_worker_run lib env loads n start l"
  shows "0 < n \<and> worker_reach n (wl_state l)"
proof -
  have "wl_state start = worker_init" "n = nat (resolve_company_max_requests_per_second max_rps_setting)"
    using assms(1) by (auto simp: start_scrape_worker_def split: prod.splits sum.splits)
  then show ?thesis
    using worker_run_reachable [OF assms(2)] worker_reach.init [of n] by (simp add: settings_positive)
qed

text \<open>Without its credentials, or without the queue, the worker takes no message and pauses.\<close>

theorem failed_iteration_takes_nothing:
  "wl_pauses (worker_iteration lib env loads n turn l) \<noteq> wl_pauses l \<Longrightarrow>
    wl_state (worker_iteration lib env loads n turn l) = wl_state l"
  by (auto simp: worker_iteration_def split: prod.splits sum.splits)

end
