(* ===== verification/Api_Edge.thy ===== *)
theory Api_Edge
  imports Feed_Admin Source_Partitions
begin

text \<open>
  The edge of the backend: the origins \<^verbatim>\<open>main.py\<close> allows, the routes that enqueue a job, read one and repartition the
  articles (\<^verbatim>\<open>routers/sources_router.py\<close>, \<^verbatim>\<open>routers/rss_router.py\<close>, \<^verbatim>\<open>routers/jobs_router.py\<close>), the health service
  and \<^verbatim>\<open>domain/rss/rss_feed_validation.py\<close>.  The XML library is a parameter.
\<close>

section \<open>Origins\<close>

definition default_origins :: "string list" where
  "default_origins = [''http://localhost:3000'', ''http://localhost:3001'']"

text \<open>\<open>setting\<close> is the environment variable \<^verbatim>\<open>CORS_ORIGINS\<close>; the result is the origins and whether credentials are allowed.\<close>

definition parse_cors_origins :: "string option \<Rightarrow> string list \<times> bool" where
  "parse_cors_origins setting =
     (let raw_origins = (case setting of None \<Rightarrow> [] | Some raw \<Rightarrow> raw) in
      if py_strip raw_origins = ''*'' then ([''*''], False)
      else let origins = filter (\<lambda>origin. origin \<noteq> []) (map py_strip (split_on CHR '','' raw_origins)) in
           if origins \<noteq> [] then (origins, True) else (default_origins, True))"

section \<open>Validation of a payload\<close>

text \<open>What the validation reads of the root element: its tag and whether it has a child \<^verbatim>\<open>channel\<close>.\<close>

record xml_root =
  root_tag :: string
  has_channel :: bool

definition atom_namespace :: string where
  "atom_namespace = ''{http://www.w3.org/2005/Atom}''"

definition looks_like_xml :: "string \<Rightarrow> string \<Rightarrow> bool" where
  "looks_like_xml content content_type =
     (let content_type_lower = py_lower content_type; content_stripped = py_strip content in
      str_contains ''xml'' content_type_lower \<or> str_contains ''rss'' content_type_lower \<or>
      str_contains ''atom'' content_type_lower \<or> starts_with ''<?xml'' content_stripped \<or>
      starts_with ''<rss'' content_stripped \<or> starts_with ''<feed'' content_stripped)"

definition validate_rss_feed_payload ::
  "(string \<Rightarrow> string + xml_root) \<Rightarrow> string \<Rightarrow> string \<Rightarrow> string \<times> string option" where
  "validate_rss_feed_payload fromstring content content_type =
     (if \<not> looks_like_xml content content_type then (''invalid'', Some ''Not an XML/RSS feed'')
      else case fromstring content of
        Inl m \<Rightarrow> (''invalid'', Some (''Invalid XML: '' @ m))
      | Inr element \<Rightarrow>
          (let tag_lower = py_lower (root_tag element);
               is_rss = (str_contains ''rss'' tag_lower \<or> has_channel element);
               is_atom = (str_contains ''feed'' tag_lower \<or> str_contains atom_namespace (root_tag element))
           in if \<not> is_rss \<and> \<not> is_atom then (''invalid'', Some ''XML but not RSS/Atom format'') else (''valid'', None)))"

section \<open>Health\<close>

text \<open>\<open>answers\<close>: the statement \<^verbatim>\<open>SELECT 1\<close> did not raise.\<close>

definition check_db_connection :: "py_exn + unit \<Rightarrow> bool" where
  "check_db_connection answers = (case answers of Inl _ \<Rightarrow> False | Inr _ \<Rightarrow> True)"

definition get_health_status :: "py_exn + unit \<Rightarrow> string \<times> string" where
  "get_health_status answers =
     (if \<not> check_db_connection answers then (''degraded'', ''unavailable'') else (''ok'', ''ok''))"

section \<open>Jobs\<close>

text \<open>\<^verbatim>\<open>Path(min_length=1)\<close> refuses an empty identifier.\<close>

definition get_rss_scrape_job_status :: "string \<Rightarrow> database \<Rightarrow> api_error + job_status_read" where
  "get_rss_scrape_job_status job_id db =
     (case get_rss_scrape_job_status_read job_id db of
        None \<Rightarrow> Inl (HttpError 404 (''RSS scrape job '' @ job_id @ '' not found''))
      | Some status_payload \<Rightarrow> Inr status_payload)"

definition read_job_status :: "string \<Rightarrow> database \<Rightarrow> api_error + job_status_read" where
  "read_job_status job_id db =
     (if job_id = [] then Inl (HttpError 422 ''job_id'') else get_rss_scrape_job_status job_id db)"

definition read_job_feeds :: "string \<Rightarrow> database \<Rightarrow> api_error + job_feed_read list" where
  "read_job_feeds job_id db =
     (if job_id = [] then Inl (HttpError 422 ''job_id'')
      else case list_rss_scrape_job_feeds job_id db of
        None \<Rightarrow> Inl (HttpError 404 (''RSS scrape job '' @ job_id @ '' not found''))
      | Some feeds \<Rightarrow> Inr feeds)"

text \<open>The services' exceptions at a route: only the publication error has a handler.\<close>

definition enqueue_answer :: "py_exn + 'a \<Rightarrow> api_error + 'a" where
  "enqueue_answer r = (case r of
     Inl e \<Rightarrow> Inl (if e = OtherException ''RssJobQueuePublishError''
                   then Rss (RssJobQueuePublishError ''Unable to publish RSS scrape job'') else Unhandled e)
   | Inr x \<Rightarrow> Inr x)"

text \<open>An empty list of identifiers is refused by the route of the articles only.\<close>

definition ingest_sources ::
  "(string \<Rightarrow> bool) \<Rightarrow> enqueue_env \<Rightarrow> int list option \<Rightarrow> (backend_state, string \<times> string) service" where
  "ingest_sources netloc_ok env feed_ids s =
     (if feed_ids = Some [] then (Inl (HttpError 422 ''feed_ids''), s)
      else case enqueue_rss_sources_ingest_job netloc_ok env feed_ids s of (r, s') \<Rightarrow> (enqueue_answer r, s'))"

definition check_rss_feed_urls ::
  "(string \<Rightarrow> bool) \<Rightarrow> enqueue_env \<Rightarrow> int list option \<Rightarrow> (backend_state, string \<times> string) service" where
  "check_rss_feed_urls netloc_ok env feed_ids s =
     (case enqueue_rss_feed_check_job netloc_ok env feed_ids s of (r, s') \<Rightarrow> (enqueue_answer r, s'))"

section \<open>Maintenance\<close>

definition repartition_sources_default_partition ::
  "bool \<Rightarrow> commit_outcome \<Rightarrow> (source_store, maintenance_result) service" where
  "repartition_sources_default_partition free commit =
     with_job_lock free ''Sources partition repartition already running''
       (\<lambda>s. case repartition_rss_source_partitions commit s of
          (Inl e, s') \<Rightarrow> (Inl (Unhandled e), s') | (Inr r, s') \<Rightarrow> (Inr r, s'))"

section \<open>What the edge guarantees\<close>

lemma py_strip_empty [simp]: "py_strip [] = []"
  by (simp add: py_strip_def py_lstrip_def py_rstrip_def)

lemma split_on_join:
  assumes "\<forall>p\<in>set ps. sep \<notin> set p" and "ps \<noteq> []"
  shows "split_on sep (py_join [sep] ps) = ps"
  using assms
proof (induction ps rule: induct_list012)
  case (2 w)
  then have "sep \<notin> set w" by simp
  then show ?case by (induction w) (auto split: list.splits)
next
  case (3 w v ws)
  have "split_on sep (w @ sep # t) = w # split_on sep t" if "sep \<notin> set w" for w t
    using that by (induction w) auto
  then show ?case using 3 by simp
qed simp

lemma strip_keeps: "c \<in> set s \<Longrightarrow> \<not> py_isspace c \<Longrightarrow> c \<in> set (py_strip s)"
proof -
  have "c \<in> set (dropWhile py_isspace t)" if "c \<in> set t" "\<not> py_isspace c" for t
    using that by (induction t) auto
  then show "c \<in> set s \<Longrightarrow> \<not> py_isspace c \<Longrightarrow> c \<in> set (py_strip s)"
    by (simp add: py_strip_def py_lstrip_def py_rstrip_def)
qed

lemma comma_solid: "\<not> py_isspace CHR '',''"
  by code_simp

lemma default_origins_stripped: "origin \<in> set default_origins \<Longrightarrow> origin \<noteq> [] \<and> stripped origin"
  by (auto simp: default_origins_def stripped_def py_isspace_def code_point_def)

text \<open>
  The origins are never empty, each is a stripped part of the setting or a default; a list of origins, written with
  commas, is read back; credentials are refused for the setting \<^verbatim>\<open>*\<close> alone: a wildcard beside anything else, even a
  lone comma, comes with credentials.
\<close>

theorem origins_read_back:
  assumes "\<forall>origin\<in>set origins. origin \<noteq> [] \<and> stripped origin \<and> CHR '','' \<notin> set origin" and "origins \<noteq> []"
  shows "parse_cors_origins (Some (py_join '','' origins)) = (origins, origins \<noteq> [''*''])"
proof -
  let ?raw = "py_join '','' origins"
  have split: "split_on CHR '','' ?raw = origins"
    using assms by (intro split_on_join) auto
  have same: "map py_strip origins = origins"
    using assms(1) by (intro map_idI) (auto simp: stripped_strip_id)
  have keep: "filter (\<lambda>origin. origin \<noteq> []) origins = origins"
    using assms(1) by (simp add: filter_id_conv)
  have "py_strip ?raw = ''*'' \<longleftrightarrow> origins = [''*'']"
  proof (cases "\<exists>w. origins = [w]")
    case False
    then obtain w v ws where list: "origins = w # v # ws" using assms(2) by (metis list.exhaust)
    then have "CHR '','' \<in> set ?raw" by simp
    then have "CHR '','' \<in> set (py_strip ?raw)" by (rule strip_keeps) (rule comma_solid)
    then have "py_strip ?raw \<noteq> ''*''" by auto
    then show ?thesis using list by simp
  qed (use assms in \<open>auto simp: stripped_strip_id\<close>)
  then show ?thesis using assms(2) by (auto simp: parse_cors_origins_def split same keep)
qed


theorem wildcard_with_credentials:
  "fst (parse_cors_origins setting) \<noteq> [] \<and>
   (\<forall>origin\<in>set (fst (parse_cors_origins setting)). origin \<noteq> [] \<and> stripped origin) \<and>
   (snd (parse_cors_origins setting) \<longleftrightarrow> (\<forall>raw. setting = Some raw \<longrightarrow> py_strip raw \<noteq> ''*'')) \<and>
   (snd (parse_cors_origins setting) \<and> ''*'' \<in> set (fst (parse_cors_origins setting)) \<longleftrightarrow>
      (\<exists>raw. setting = Some raw \<and> py_strip raw \<noteq> ''*'' \<and> ''*'' \<in> py_strip ` set (split_on CHR '','' raw)))"
proof (cases setting)
  case None
  then show ?thesis
    using default_origins_stripped by (auto simp: parse_cors_origins_def default_origins_def)
next
  case (Some raw)
  let ?origins = "filter (\<lambda>origin. origin \<noteq> []) (map py_strip (split_on CHR '','' raw))"
  have "''*'' \<in> set ?origins \<longleftrightarrow> ''*'' \<in> py_strip ` set (split_on CHR '','' raw)" by auto
  moreover have "''*'' \<notin> set default_origins" by (simp add: default_origins_def)
  moreover have "?origins = [] \<Longrightarrow> ''*'' \<notin> py_strip ` set (split_on CHR '','' raw)" by (auto simp: filter_empty_conv)
  moreover have "default_origins \<noteq> []" by (simp add: default_origins_def)
  moreover have "stripped ''*''" by (simp add: stripped_def py_isspace_def code_point_def)
  ultimately show ?thesis
    using Some default_origins_stripped by (auto simp: parse_cors_origins_def Let_def)
qed


theorem wildcard_with_credentials_example: "parse_cors_origins (Some ''*,'') = ([''*''], True)"
  by code_simp

text \<open>A payload is valid exactly when it looks like XML, can be read, and its root is that of a feed.\<close>

theorem valid_payloads:
  "validate_rss_feed_payload fromstring content content_type = (''valid'', None) \<longleftrightarrow>
     looks_like_xml content content_type \<and>
     (\<exists>element. fromstring content = Inr element \<and>
        (has_channel element \<or> str_contains ''rss'' (py_lower (root_tag element)) \<or>
         str_contains ''feed'' (py_lower (root_tag element)) \<or> str_contains atom_namespace (root_tag element)))"
  by (auto simp: validate_rss_feed_payload_def Let_def split: sum.splits)

theorem payload_verdicts:
  "(fst (validate_rss_feed_payload fromstring content content_type) = ''valid'' \<longleftrightarrow>
      snd (validate_rss_feed_payload fromstring content content_type) = None) \<and>
   fst (validate_rss_feed_payload fromstring content content_type) \<in> {''valid'', ''invalid''}"
  by (auto simp: validate_rss_feed_payload_def Let_def split: sum.splits)

text \<open>The two reads of a job agree on whether it exists.\<close>

theorem job_reads_agree: "api_status (read_job_feeds job_id db) = api_status (read_job_status job_id db)"
  by (simp add: read_job_feeds_def read_job_status_def get_rss_scrape_job_status_def list_rss_scrape_job_feeds_def
      split: option.splits)

text \<open>A refused maintenance leaves the articles alone, and so does a refused ingestion the jobs.\<close>

theorem refused_routes_change_nothing:
  "repartition_sources_default_partition False commit store =
     (Inl (Rss (RssJobAlreadyRunningError ''Sources partition repartition already running'')), store) \<and>
   snd (ingest_sources netloc_ok env (Some []) backend) = backend"
  by (simp add: repartition_sources_default_partition_def with_job_lock_def ingest_sources_def)

end
