(* ===== verification/Image_Tags.thy ===== *)
theory Image_Tags
  imports Feed_Parse
begin

text \<open>
  The round trip of the image extraction: HTML that is written out from image tags with known
  attributes, and what \<^verbatim>\<open>_append_html_image_candidates\<close> of \<^verbatim>\<open>rss_parse_domain.py\<close> reads back.
  An attribute has white space before it, a name, white space around \<^verbatim>\<open>=\<close>, and a value in double
  quotes, in single quotes or bare; a tag has its opening in any case, its attributes, and white space
  or a slash before the closing bracket; texts, with other tags, stand between the image tags.
\<close>

section \<open>Rendered image tags\<close>

datatype quoting = Quoted char | Bare

record image_attribute =
  at_gap :: string
  at_name :: string
  at_before_eq :: string
  at_after_eq :: string
  at_quoting :: quoting
  at_value :: string

record image_markup =
  tag_opening :: string
  tag_attributes :: "image_attribute list"
  tag_closing :: string

definition lead_text :: "image_attribute \<Rightarrow> string" where
  "lead_text a = at_name a @ at_before_eq a @ ''=''"

fun quoted_text :: "quoting \<Rightarrow> string \<Rightarrow> string" where
  "quoted_text (Quoted q) v = [q] @ v @ [q]"
| "quoted_text Bare v = v"

definition attribute_text :: "image_attribute \<Rightarrow> string" where
  "attribute_text a = at_gap a @ lead_text a @ at_after_eq a @ quoted_text (at_quoting a) (at_value a)"

definition tag_body :: "image_markup \<Rightarrow> string" where
  "tag_body g = concat (map attribute_text (tag_attributes g)) @ tag_closing g"

definition tag_text :: "image_markup \<Rightarrow> string" where
  "tag_text g = tag_opening g @ tag_body g @ ''>''"

definition html_text :: "(string \<times> image_markup) list \<Rightarrow> string \<Rightarrow> string" where
  "html_text items last_text = concat (map (\<lambda>(t, g). t @ tag_text g) items) @ last_text"

text \<open>The value of the first attribute with a name, whatever its case.\<close>

definition attribute_of :: "image_markup \<Rightarrow> string \<Rightarrow> string option" where
  "attribute_of g name =
     map_option at_value (find (\<lambda>a. py_lower (at_name a) = name) (tag_attributes g))"

section \<open>Where the extraction reads what is written\<close>

text \<open>
  A text names an attribute where the name stands at the beginning of a word and is followed by
  \<^verbatim>\<open>=\<close>, with white space in between or not.
\<close>

definition heads_attribute :: "string \<Rightarrow> string \<Rightarrow> bool" where
  "heads_attribute name s \<longleftrightarrow> py_lower (take (length name) s) = name \<and>
     (case py_lstrip (drop (length name) s) of [] \<Rightarrow> False | c # _ \<Rightarrow> c = CHR ''='')"

fun names_attribute :: "string \<Rightarrow> bool \<Rightarrow> string \<Rightarrow> bool" where
  "names_attribute name after_word [] = False"
| "names_attribute name after_word (c # cs) =
     (\<not> after_word \<and> heads_attribute name (c # cs) \<or> names_attribute name (py_isword c) cs)"

definition html_space :: "string \<Rightarrow> bool" where
  "html_space s \<longleftrightarrow> list_all py_isspace s"

fun quoting_ok :: "quoting \<Rightarrow> string \<Rightarrow> bool" where
  "quoting_ok (Quoted q) v = (q \<in> {CHR 0x22, CHR 0x27} \<and> q \<notin> set v)"
| "quoting_ok Bare v = (v \<noteq> [] \<and> hd v \<notin> {CHR 0x22, CHR 0x27, CHR ''=''} \<and> \<not> list_ex py_isspace v)"

definition attribute_ok :: "image_attribute \<Rightarrow> bool" where
  "attribute_ok a \<longleftrightarrow> at_gap a \<noteq> [] \<and> html_space (at_gap a) \<and>
     at_name a \<noteq> [] \<and> \<not> list_ex (\<lambda>c. py_isspace c \<or> c = CHR ''='' \<or> c = CHR ''>'') (at_name a) \<and>
     html_space (at_before_eq a) \<and> html_space (at_after_eq a) \<and>
     quoting_ok (at_quoting a) (at_value a) \<and> CHR ''>'' \<notin> set (at_value a)"

text \<open>An attribute that a search for another name passes over.\<close>

definition passed_over :: "string \<Rightarrow> image_attribute \<Rightarrow> bool" where
  "passed_over name a \<longleftrightarrow>
     \<not> names_attribute name False (lead_text a) \<and> \<not> names_attribute name False (at_value a)"

definition IMAGE_ATTRIBUTES :: "string list" where
  "IMAGE_ATTRIBUTES = [''src'', ''width'', ''height'', ''srcset'']"

definition unambiguous :: "image_attribute list \<Rightarrow> string \<Rightarrow> bool" where
  "unambiguous attrs name \<longleftrightarrow>
     list_all (passed_over name) (takeWhile (\<lambda>a. py_lower (at_name a) \<noteq> name) attrs)"

definition closing_ok :: "image_attribute list \<Rightarrow> string \<Rightarrow> bool" where
  "closing_ok attrs e \<longleftrightarrow> list_all (\<lambda>c. py_isspace c \<or> c = CHR ''/'') e \<and>
     (attrs \<noteq> [] \<and> at_quoting (last attrs) = Bare \<and> e \<noteq> [] \<longrightarrow> py_isspace (hd e))"

definition markup_ok :: "image_markup \<Rightarrow> bool" where
  "markup_ok g \<longleftrightarrow> py_lower (tag_opening g) = ''<img'' \<and> list_all attribute_ok (tag_attributes g) \<and>
     closing_ok (tag_attributes g) (tag_closing g) \<and>
     list_all (unambiguous (tag_attributes g)) IMAGE_ATTRIBUTES"

fun image_free :: "string \<Rightarrow> bool" where
  "image_free [] = True"
| "image_free (c # cs) = (py_lower (take 4 (c # cs)) \<noteq> ''<img'' \<and> image_free cs)"

section \<open>The search skips what does not name the attribute\<close>

definition after_char :: "bool \<Rightarrow> string \<Rightarrow> bool" where
  "after_char w p = (if p = [] then w else py_isword (last p))"

lemma match_attribute_heads: "py_lower name = name \<Longrightarrow> match_attribute name s = Some v \<Longrightarrow> heads_attribute name s"
  by (auto simp: match_attribute_def heads_attribute_def split: if_splits list.splits)

text \<open>A name as it is looked up: lower-case, not empty, of word characters.\<close>

definition looked_up :: "string \<Rightarrow> bool" where
  "looked_up name \<longleftrightarrow> name \<noteq> [] \<and> py_lower name = name \<and> list_all py_isword name"

lemma isword_lower_char: "py_isword (py_lower_char c) \<longleftrightarrow> py_isword c"
  by (auto simp: py_isword_def py_lower_char_def Let_def)

lemma IMAGE_ATTRIBUTES_looked_up: "name \<in> set IMAGE_ATTRIBUTES \<Longrightarrow> looked_up name"
  by (auto simp: IMAGE_ATTRIBUTES_def looked_up_def py_lower_def py_lower_char_def py_isword_def code_point_def)

lemma heads_attribute_hd:
  assumes "looked_up name" and "heads_attribute name s"
  shows "s \<noteq> [] \<and> py_lower_char (hd s) = hd name"
proof -
  have "name = py_lower (take (length name) s)" "name \<noteq> []"
    using assms by (auto simp: heads_attribute_def looked_up_def)
  then show ?thesis by (cases s; cases name) (auto simp: py_lower_def)
qed

lemma search_skips_chars:
  assumes "looked_up name" and "\<forall>c\<in>set p. py_lower_char c \<noteq> hd name"
  shows "search_attribute name w (p @ t) = search_attribute name (after_char w p) t"
  using assms(2)
proof (induction p arbitrary: w)
  case Nil
  then show ?case by (simp add: after_char_def)
next
  case (Cons c p)
  have "match_attribute name (c # p @ t) = None"
    using Cons.prems heads_attribute_hd [OF assms(1), of "c # p @ t"] match_attribute_heads [of name "c # p @ t"]
      assms(1) by (cases "match_attribute name (c # p @ t)") (auto simp: looked_up_def)
  then show ?case using Cons.IH [of "py_isword c"] Cons.prems by (auto simp: after_char_def)
qed

definition calm :: "string \<Rightarrow> bool" where
  "calm t \<longleftrightarrow> (case py_lstrip t of [] \<Rightarrow> True | c # _ \<Rightarrow> c \<noteq> CHR ''='')"

lemma py_lstrip_append:
  "py_lstrip (s @ t) = (if list_all py_isspace s then py_lstrip t else py_lstrip s @ t)"
  by (induction s) (auto simp: py_lstrip_def)

lemma py_lstrip_space: "list_all py_isspace s \<Longrightarrow> py_lstrip s = []"
  by (induction s) (auto simp: py_lstrip_def)

lemma heads_attribute_append:
  assumes name: "looked_up name" and s: "s \<noteq> []" and heads: "heads_attribute name (s @ t)"
    and border: "py_isword (last s) \<Longrightarrow> t = [] \<or> \<not> py_isword (hd t)" and calm: "calm t"
  shows "heads_attribute name s"
proof (cases "length name \<le> length s")
  case True
  then have "py_lower (take (length name) s) = name"
    and rest: "case py_lstrip (drop (length name) s @ t) of [] \<Rightarrow> False | c # _ \<Rightarrow> c = CHR ''=''"
    using heads by (auto simp: heads_attribute_def)
  moreover from rest calm have "case py_lstrip (drop (length name) s) of [] \<Rightarrow> False | c # _ \<Rightarrow> c = CHR ''=''"
    by (cases "list_all py_isspace (drop (length name) s)";
        cases "py_lstrip (drop (length name) s)")
      (auto simp: py_lstrip_append calm_def py_lstrip_def dropWhile_eq_Nil_conv list_all_iff split: list.splits)
  ultimately show ?thesis by (simp add: heads_attribute_def)
next
  case False
  then have lt: "length s < length name" by simp
  have eq: "py_lower (take (length name) (s @ t)) = name" using heads by (simp add: heads_attribute_def)
  have words: "py_isword c" if "c \<in> set (take (length name) (s @ t))" for c
  proof -
    have "py_lower_char c \<in> set name" using that eq by (metis image_eqI list.set_map py_lower_def)
    then show ?thesis using name isword_lower_char by (auto simp: looked_up_def list_all_iff)
  qed
  have "length (take (length name) (s @ t)) = length name" using eq by (metis length_py_lower)
  then obtain c t' where t: "t = c # t'" using lt by (cases t) auto
  obtain k where "length name - length s = Suc k" using lt by (metis Suc_diff_Suc)
  then have "hd t \<in> set (take (length name) (s @ t))" using t by simp
  moreover have "t \<noteq> []" using t by simp
  moreover have "last s \<in> set (take (length name) (s @ t))" using s lt by simp
  ultimately show ?thesis using words border by blast
qed

lemma search_skips_text:
  assumes name: "looked_up name" and "\<not> names_attribute name w p"
    and "p \<noteq> [] \<Longrightarrow> py_isword (last p) \<Longrightarrow> t = [] \<or> \<not> py_isword (hd t)" and "calm t"
  shows "search_attribute name w (p @ t) = search_attribute name (after_char w p) t"
  using assms(2,3)
proof (induction p arbitrary: w)
  case Nil
  then show ?case by (simp add: after_char_def)
next
  case (Cons c p)
  have "match_attribute name (c # p @ t) = None" if "\<not> w"
  proof (rule ccontr)
    assume "match_attribute name (c # p @ t) \<noteq> None"
    then have "heads_attribute name ((c # p) @ t)"
      using match_attribute_heads name by (auto simp: looked_up_def)
    then have "heads_attribute name (c # p)"
      using heads_attribute_append [OF name _ _ _ assms(4), of "c # p"] Cons.prems(2) by blast
    then show False using Cons.prems(1) that by simp
  qed
  moreover have "search_attribute name (py_isword c) (p @ t) = search_attribute name (after_char (py_isword c) p) t"
    using Cons.prems by (intro Cons.IH) auto
  ultimately show ?case by (auto simp: after_char_def)
qed

section \<open>Reading one tag\<close>

lemma attribute_value_quoted:
  assumes "quoting_ok q v"
    and "q = Bare \<Longrightarrow> CHR ''>'' \<notin> set v \<and> (\<exists>c t'. t = c # t' \<and> (py_isspace c \<or> c = CHR ''>''))"
  shows "attribute_value (quoted_text q v @ t) = Some v"
proof (cases q)
  case (Quoted d)
  then have "takeWhile (\<lambda>c. c \<noteq> d) (v @ d # t) = v" using assms(1) by (induction v) auto
  then show ?thesis using Quoted assms(1) by (auto simp: attribute_value_def before_first_def)
next
  case Bare
  then obtain c t' where t: "t = c # t'" "py_isspace c \<or> c = CHR ''>''" using assms(2) by auto
  have "takeWhile (\<lambda>c. \<not> py_isspace c \<and> c \<noteq> CHR ''>'') (v @ t) = v"
    using assms Bare t by (auto simp: takeWhile_append list_ex_iff)
  moreover obtain e v' where "v = e # v'" using assms(1) Bare by (cases v) auto
  ultimately show ?thesis using Bare assms(1) by (auto simp: attribute_value_def bare_value_def Let_def)
qed

lemma quoted_text_head:
  assumes "quoting_ok q v"
  shows "\<exists>c t. quoted_text q v = c # t \<and> \<not> py_isspace c \<and> c \<noteq> CHR ''=''"
proof (cases q)
  case (Quoted d)
  then show ?thesis using assms by (auto simp: py_isspace_def code_point_def)
next
  case Bare
  then show ?thesis using assms by (cases v) auto
qed

lemma not_space_equals: "\<not> py_isspace CHR ''=''"
  by (simp add: py_isspace_def code_point_def)

lemma match_attribute_rendered:
  assumes name: "looked_up name" and a: "attribute_ok a" "py_lower (at_name a) = name"
    and t: "at_quoting a = Bare \<Longrightarrow> \<exists>c t'. t = c # t' \<and> (py_isspace c \<or> c = CHR ''>'')"
  shows "match_attribute name (lead_text a @ at_after_eq a @ quoted_text (at_quoting a) (at_value a) @ t) =
    Some (at_value a)"
proof -
  let ?q = "quoted_text (at_quoting a) (at_value a)"
  have len: "length name = length (at_name a)" using a(2) by (metis length_py_lower)
  obtain c u where u: "?q = c # u" "\<not> py_isspace c"
    using quoted_text_head a(1) by (metis attribute_ok_def)
  have "py_lstrip (at_after_eq a @ ?q @ t) = ?q @ t"
    using a(1) u by (simp add: py_lstrip_append attribute_ok_def html_space_def) (simp add: py_lstrip_def)
  moreover have "py_lstrip (at_before_eq a @ CHR ''='' # r) = CHR ''='' # r" for r
    using a(1) by (simp add: py_lstrip_append attribute_ok_def html_space_def) (simp add: py_lstrip_def not_space_equals)
  moreover have "attribute_value (?q @ t) = Some (at_value a)"
    using a(1) t by (intro attribute_value_quoted) (auto simp: attribute_ok_def)
  ultimately show ?thesis
    using a(2) name len by (simp add: match_attribute_def lead_text_def looked_up_def)
qed

lemma looked_up_hd: "looked_up name \<Longrightarrow> py_isword (hd name)"
  by (cases name) (auto simp: looked_up_def)

lemma not_word_skipped:
  assumes "looked_up name" and "\<not> py_isword c"
  shows "py_lower_char c \<noteq> hd name"
  using looked_up_hd [OF assms(1)] assms(2) isword_lower_char by metis

lemma isspace_not_word: "py_isspace c \<Longrightarrow> \<not> py_isword c"
  by (auto simp: py_isspace_def py_isword_def Let_def)

lemma space_skipped: "looked_up name \<Longrightarrow> html_space p \<Longrightarrow> \<forall>c\<in>set p. py_lower_char c \<noteq> hd name"
  using not_word_skipped isspace_not_word unfolding html_space_def list_all_iff by blast

lemma after_char_space: "html_space p \<Longrightarrow> p \<noteq> [] \<Longrightarrow> \<not> after_char w p"
  by (auto simp: after_char_def html_space_def list_all_iff dest: isspace_not_word)

text \<open>What may follow an attribute: white space, a slash, or the closing bracket.\<close>

definition closes_attribute :: "string \<Rightarrow> bool" where
  "closes_attribute t \<longleftrightarrow> t \<noteq> [] \<and> \<not> py_isword (hd t) \<and> calm t"

lemma quote_not_word: "q \<in> {CHR 0x22, CHR 0x27} \<Longrightarrow> \<not> py_isword q \<and> \<not> py_isspace q"
  by (auto simp: py_isword_def py_isspace_def code_point_def)

lemma calm_append: "html_space s \<Longrightarrow> calm (s @ t) = calm t"
  by (simp add: calm_def py_lstrip_append html_space_def)

lemma calm_Cons: "\<not> py_isspace c \<Longrightarrow> calm (c # t) \<longleftrightarrow> c \<noteq> CHR ''=''"
  by (simp add: calm_def py_lstrip_def)

lemma search_skips_value:
  assumes name: "looked_up name" and q: "quoting_ok q v" and "\<not> names_attribute name False v"
    and t: "closes_attribute t" and w: "\<not> w"
  shows "\<exists>w'. search_attribute name w (quoted_text q v @ t) = search_attribute name w' t"
proof -
  have border: "t = [] \<or> \<not> py_isword (hd t)" and calm: "calm t"
    using t by (auto simp: closes_attribute_def)
  show ?thesis
  proof (cases q)
    case (Quoted d)
    then have d: "\<not> py_isword d" "\<not> py_isspace d" "d \<noteq> CHR ''=''" using q quote_not_word by auto
    have skip: "search_attribute name w ([d] @ s) = search_attribute name False s" for w s
      using search_skips_chars [OF name, of "[d]" w s] not_word_skipped [OF name d(1)] d(1)
      by (simp add: after_char_def)
    have "search_attribute name False (v @ [d] @ t) = search_attribute name (after_char False v) ([d] @ t)"
      using d assms(3) by (intro search_skips_text [OF name]) (auto simp: calm_Cons)
    then show ?thesis using Quoted skip by (metis append.assoc quoted_text.simps(1))
  next
    case Bare
    then show ?thesis
      using search_skips_text [OF name, of False v t] assms(3) border calm w by auto
  qed
qed

lemma slash_not_word: "c \<in> {CHR ''/'', CHR ''>''} \<Longrightarrow> \<not> py_isword c \<and> \<not> py_isspace c"
  by (auto simp: py_isword_def py_isspace_def code_point_def)

text \<open>The rest of a tag, after an attribute or the opening.\<close>

definition rest_text :: "image_attribute list \<Rightarrow> string \<Rightarrow> string" where
  "rest_text attrs e = concat (map attribute_text attrs) @ e @ ''>''"

definition plain_closing :: "string \<Rightarrow> bool" where
  "plain_closing e \<longleftrightarrow> list_all (\<lambda>c. py_isspace c \<or> c = CHR ''/'') e"

lemma plain_closing_closes:
  assumes "plain_closing e"
  shows "closes_attribute (e @ ''>'')"
  using assms
proof (induction e)
  case Nil
  then show ?case using slash_not_word [of "CHR ''>''"] by (simp add: closes_attribute_def calm_Cons)
next
  case (Cons c e)
  then have "calm (c # e @ ''>'')"
    using calm_append [of "[c]" "e @ ''>''"] slash_not_word [of c]
    by (cases "py_isspace c") (auto simp: plain_closing_def closes_attribute_def html_space_def calm_Cons)
  then show ?case
    using Cons.prems slash_not_word [of c] isspace_not_word [of c]
    by (auto simp: closes_attribute_def plain_closing_def)
qed

lemma rest_text_closes:
  assumes "list_all attribute_ok attrs" and "plain_closing e"
  shows "closes_attribute (rest_text attrs e)"
proof (cases attrs)
  case Nil
  then show ?thesis using plain_closing_closes [OF assms(2)] by (simp add: rest_text_def)
next
  case (Cons a as)
  then have a: "attribute_ok a" using assms(1) by simp
  then obtain c n where n: "at_name a = c # n" "\<not> py_isspace c" "c \<noteq> CHR ''=''"
    by (cases "at_name a") (auto simp: attribute_ok_def)
  obtain d g where g: "at_gap a = d # g" "py_isspace d"
    using a by (cases "at_gap a") (auto simp: attribute_ok_def html_space_def)
  have gap: "html_space (at_gap a)" using a by (simp add: attribute_ok_def)
  obtain u where rest: "rest_text attrs e = at_gap a @ c # u"
    using Cons n by (auto simp: rest_text_def attribute_text_def lead_text_def)
  then have "calm (rest_text attrs e)" using gap n by (simp add: calm_append calm_Cons)
  then show ?thesis using g isspace_not_word [OF g(2)] by (simp add: rest closes_attribute_def)
qed

lemma search_skips_lead:
  assumes name: "looked_up name" and a: "attribute_ok a" and "passed_over name a"
    and t: "closes_attribute t"
  shows "\<exists>w. search_attribute name False
      (lead_text a @ at_after_eq a @ quoted_text (at_quoting a) (at_value a) @ t) = search_attribute name w t"
proof -
  let ?q = "quoted_text (at_quoting a) (at_value a)"
  obtain c u where u: "?q = c # u" "\<not> py_isspace c" "c \<noteq> CHR ''=''"
    using quoted_text_head a by (metis attribute_ok_def)
  have gap: "html_space (at_after_eq a)" using a by (simp add: attribute_ok_def)
  have "calm (at_after_eq a @ ?q @ t)" using gap u by (simp add: calm_append calm_Cons)
  moreover have eq: "\<not> py_isword CHR ''=''" by (simp add: py_isword_def code_point_def)
  ultimately have "search_attribute name False (lead_text a @ at_after_eq a @ ?q @ t) =
    search_attribute name False (at_after_eq a @ ?q @ t)"
    using search_skips_text [OF name, of False "lead_text a" "at_after_eq a @ ?q @ t"] assms(3)
    by (simp add: passed_over_def lead_text_def after_char_def)
  also have "\<dots> = search_attribute name (after_char False (at_after_eq a)) (?q @ t)"
    by (rule search_skips_chars [OF name space_skipped [OF name gap]])
  finally show ?thesis
    using search_skips_value [OF name, of "at_quoting a" "at_value a" t "after_char False (at_after_eq a)"]
      a assms(3) t after_char_space [OF gap, of False] gap
    by (cases "at_after_eq a = []") (auto simp: attribute_ok_def passed_over_def after_char_def)
qed

lemma search_closing: "looked_up name \<Longrightarrow> plain_closing e \<Longrightarrow> search_attribute name w (e @ ''>'') = None"
proof -
  assume name: "looked_up name" and e: "plain_closing e"
  have "py_lower_char c \<noteq> hd name" if "c \<in> set (e @ ''>'')" for c
  proof -
    have "py_isspace c \<or> c \<in> {CHR ''/'', CHR ''>''}"
      using that e by (auto simp: plain_closing_def list_all_iff)
    then show ?thesis using not_word_skipped [OF name] slash_not_word isspace_not_word by blast
  qed
  then show ?thesis using search_skips_chars [OF name, of "e @ ''>''" w "[]"] by simp
qed

lemma search_rest:
  assumes name: "looked_up name"
  shows "list_all attribute_ok attrs \<Longrightarrow> closing_ok attrs e \<Longrightarrow> unambiguous attrs name \<Longrightarrow>
    search_attribute name w (rest_text attrs e) =
      map_option at_value (find (\<lambda>a. py_lower (at_name a) = name) attrs)"
proof (induction attrs arbitrary: w)
  case Nil
  then show ?case using search_closing [OF name, of e w]
    by (simp add: rest_text_def closing_ok_def plain_closing_def)
next
  case (Cons a as)
  let ?r = "rest_text as e"
  let ?t = "lead_text a @ at_after_eq a @ quoted_text (at_quoting a) (at_value a) @ ?r"
  have a: "attribute_ok a" and as: "list_all attribute_ok as" using Cons.prems(1) by simp_all
  have e: "closing_ok as e" "plain_closing e"
    using Cons.prems(2) by (auto simp: closing_ok_def plain_closing_def)
  have gap: "html_space (at_gap a)" "at_gap a \<noteq> []" using a by (auto simp: attribute_ok_def)
  have "search_attribute name w (rest_text (a # as) e) = search_attribute name w (at_gap a @ ?t)"
    by (simp add: rest_text_def attribute_text_def)
  also have "\<dots> = search_attribute name False ?t"
    using search_skips_chars [OF name space_skipped [OF name gap(1)], of w ?t] after_char_space [OF gap, of w] by simp
  finally have start: "search_attribute name w (rest_text (a # as) e) = search_attribute name False ?t" .
  show ?case
  proof (cases "py_lower (at_name a) = name")
    case True
    have "\<exists>c t'. ?r = c # t' \<and> (py_isspace c \<or> c = CHR ''>'')" if "at_quoting a = Bare"
      using that Cons.prems(2) as
      by (cases as; cases e) (auto simp: rest_text_def closing_ok_def attribute_text_def attribute_ok_def
          html_space_def neq_Nil_conv)
    then have "match_attribute name ?t = Some (at_value a)"
      by (intro match_attribute_rendered [OF name a True])
    moreover obtain c t where "?t = c # t" using a by (cases ?t) (auto simp: lead_text_def)
    ultimately show ?thesis using start True by simp
  next
    case False
    then have over: "passed_over name a" and rest: "unambiguous as name"
      using Cons.prems(3) by (auto simp: unambiguous_def)
    obtain w' where "search_attribute name False ?t = search_attribute name w' ?r"
      using search_skips_lead [OF name a over rest_text_closes [OF as e(2)]] by blast
    then show ?thesis using start Cons.IH [OF as e(1) rest] False by simp
  qed
qed

lemma extract_rendered_attribute:
  assumes "markup_ok g" and "name \<in> set IMAGE_ATTRIBUTES"
  shows "extract_html_attribute lib (tag_text g) name =
    (case attribute_of g name of
       None \<Rightarrow> Inr None
     | Some v \<Rightarrow> and_then (html_unescape lib v) (\<lambda>t. Inr (clean_text (Some t))))"
proof -
  have name: "looked_up name" by (rule IMAGE_ATTRIBUTES_looked_up [OF assms(2)])
  have g: "py_lower (tag_opening g) = ''<img''" "list_all attribute_ok (tag_attributes g)"
    "closing_ok (tag_attributes g) (tag_closing g)" "unambiguous (tag_attributes g) name"
    using assms by (auto simp: markup_ok_def list_all_iff)
  have "\<forall>c\<in>set (tag_opening g). py_lower_char c \<noteq> hd name"
  proof
    fix c assume "c \<in> set (tag_opening g)"
    then have "py_lower_char c \<in> set ''<img''" using g(1) by (metis image_eqI list.set_map py_lower_def)
    then show "py_lower_char c \<noteq> hd name" using assms(2) by (auto simp: IMAGE_ATTRIBUTES_def)
  qed
  then have "search_attribute name False (tag_text g) =
      search_attribute name (after_char False (tag_opening g)) (rest_text (tag_attributes g) (tag_closing g))"
    by (simp add: tag_text_def tag_body_def rest_text_def search_skips_chars [OF name])
  also have "\<dots> = attribute_of g name"
    unfolding attribute_of_def by (rule search_rest [OF name g(2-4)])
  finally show ?thesis by (simp add: extract_html_attribute_def)
qed

section \<open>Finding the tags\<close>

lemma no_image_match: "py_lower (take 4 s) \<noteq> ''<img'' \<Longrightarrow> match_image_tag s = None"
  by (simp add: match_image_tag_def Let_def)

lemma lower_bracket: "py_lower_char c = CHR ''<'' \<Longrightarrow> c = CHR ''<''"
  by (erule lower_char_eq) code_simp

lemma find_image_tags_skips:
  assumes "image_free p" and "t = [] \<or> hd t = CHR ''<''"
  shows "find_image_tags (p @ t) = find_image_tags t"
  using assms(1)
proof (induction p)
  case Nil
  then show ?case by simp
next
  case (Cons c p)
  have "match_image_tag (c # p @ t) = None"
  proof (cases "length (c # p) \<ge> 4 \<or> t = []")
    case True
    then have "take 4 (c # p @ t) = take 4 (c # p)" by auto
    moreover have "py_lower (take 4 (c # p)) \<noteq> ''<img''" using Cons.prems by (simp del: take_Suc_Cons)
    ultimately show ?thesis by (intro no_image_match) metis
  next
    case False
    then have n: "length p < 3" and t: "t \<noteq> []" "hd t = CHR ''<''" using assms(2) by auto
    have "py_lower (take 4 (c # p @ t)) ! Suc (length p) = CHR ''<''" if "py_lower (take 4 (c # p @ t)) = ''<img''"
    proof -
      have "take 4 (c # p @ t) ! Suc (length p) = hd t" using n t by (simp add: nth_append hd_conv_nth)
      then show ?thesis using n t
        by (simp add: py_lower_def nth_append hd_conv_nth py_lower_char_def code_point_def)
    qed
    moreover have "''<img'' ! Suc (length p) \<noteq> CHR ''<''"
      using n by (auto simp: nth_Cons' less_Suc_eq numeral_3_eq_3)
    ultimately have "py_lower (take 4 (c # p @ t)) \<noteq> ''<img''" by metis
    then show ?thesis by (rule no_image_match)
  qed
  then show ?case using Cons by simp
qed

lemma space_no_bracket: "html_space s \<Longrightarrow> CHR ''>'' \<notin> set s"
  using slash_not_word [of "CHR ''>''"] by (auto simp: html_space_def list_all_iff)

lemma attribute_text_no_bracket:
  assumes "attribute_ok a"
  shows "CHR ''>'' \<notin> set (attribute_text a)"
proof -
  have v: "quoting_ok (at_quoting a) (at_value a)" "CHR ''>'' \<notin> set (at_value a)"
    using assms by (simp_all add: attribute_ok_def)
  have "CHR ''>'' \<notin> set (quoted_text (at_quoting a) (at_value a))"
    using v by (cases "at_quoting a") auto
  moreover have "CHR ''>'' \<notin> set (at_gap a)" "CHR ''>'' \<notin> set (at_before_eq a)"
    "CHR ''>'' \<notin> set (at_after_eq a)" "CHR ''>'' \<notin> set (at_name a)"
    using assms by (simp_all add: attribute_ok_def space_no_bracket list_ex_iff) blast
  ultimately show ?thesis by (simp add: attribute_text_def lead_text_def)
qed

lemma tag_body_no_bracket:
  assumes "markup_ok g"
  shows "CHR ''>'' \<notin> set (tag_body g)"
proof -
  have "\<forall>c\<in>set (tag_closing g). py_isspace c \<or> c = CHR ''/''"
    using assms by (simp add: markup_ok_def closing_ok_def list_all_iff)
  then have "CHR ''>'' \<notin> set (tag_closing g)" using slash_not_word [of "CHR ''>''"] by fastforce
  then show ?thesis
    using assms attribute_text_no_bracket by (simp add: markup_ok_def tag_body_def list_all_iff)
qed

lemma match_rendered_tag:
  assumes "markup_ok g"
  shows "match_image_tag (tag_text g @ rest) = Some (tag_text g, rest)"
proof -
  have g: "py_lower (tag_opening g) = ''<img''" "list_all attribute_ok (tag_attributes g)"
    "plain_closing (tag_closing g)"
    using assms by (auto simp: markup_ok_def closing_ok_def plain_closing_def)
  have "length (tag_opening g) = 4" using arg_cong [OF g(1), of length] by simp
  moreover have "\<not> py_isword (hd (tag_body g @ ''>''))"
    using rest_text_closes [OF g(2,3)] by (simp add: closes_attribute_def rest_text_def tag_body_def)
  moreover have "hd (tag_body g @ CHR ''>'' # rest) = hd (tag_body g @ ''>'')" by (cases "tag_body g") auto
  moreover have "before_first CHR ''>'' (tag_body g @ CHR ''>'' # rest) = tag_body g"
    "after_first CHR ''>'' (tag_body g @ CHR ''>'' # rest) = rest"
    using before_after_first [OF tag_body_no_bracket [OF assms]] by simp_all
  ultimately show ?thesis using g(1) by (simp add: match_image_tag_def tag_text_def Let_def)
qed

lemma markup_opens: "markup_ok g \<Longrightarrow> \<exists>t. tag_text g = CHR ''<'' # t"
proof -
  assume "markup_ok g"
  then have low: "map py_lower_char (tag_opening g) = ''<img''" by (simp add: markup_ok_def py_lower_def)
  then obtain c t where c: "tag_opening g = c # t" "py_lower_char c = CHR ''<''" by auto
  then show ?thesis using lower_bracket by (simp add: tag_text_def)
qed

lemma find_rendered_tags:
  assumes "list_all (\<lambda>(t, g). image_free t \<and> markup_ok g) items" and "image_free last_text"
  shows "find_image_tags (html_text items last_text) = map (tag_text \<circ> snd) items"
  using assms(1)
proof (induction items)
  case Nil
  then show ?case using find_image_tags_skips [OF assms(2), of "[]"] by (simp add: html_text_def)
next
  case (Cons i items)
  obtain t g where i: "i = (t, g)" by (cases i)
  then have t: "image_free t" and g: "markup_ok g" using Cons.prems by auto
  let ?r = "html_text items last_text"
  have "find_image_tags (html_text (i # items) last_text) = find_image_tags (t @ tag_text g @ ?r)"
    by (simp add: html_text_def i)
  also have "\<dots> = find_image_tags (tag_text g @ ?r)"
    using markup_opens [OF g] by (intro find_image_tags_skips [OF t]) auto
  also have "\<dots> = tag_text g # find_image_tags ?r"
    using markup_opens [OF g] match_rendered_tag [OF g, of ?r] by (metis append_Cons find_image_tags.simps(2) option.case(2) prod.case)
  finally show ?case using Cons i by simp
qed

section \<open>The round trip\<close>

text \<open>The candidates of one image tag, from its attributes as they were written.\<close>

definition append_written_image :: "py_stdlib \<Rightarrow> image_markup \<Rightarrow> image_state \<Rightarrow> py_exn + image_state" where
  "append_written_image lib g st =
     (let read = (\<lambda>name. case attribute_of g name of
          None \<Rightarrow> Inr None
        | Some v \<Rightarrow> and_then (html_unescape lib v) (\<lambda>t. Inr (clean_text (Some t)))) in
      and_then (read ''src'') (\<lambda>src. and_then (read ''width'') (\<lambda>width.
      and_then (read ''height'') (\<lambda>height. and_then (read ''srcset'') (\<lambda>srcset.
        append_image_candidate lib src width height srcset st)))))"

lemma append_rendered_tag:
  "markup_ok g \<Longrightarrow> append_image_tag lib (tag_text g) st = append_written_image lib g st"
  by (simp add: append_image_tag_def append_written_image_def extract_rendered_attribute IMAGE_ATTRIBUTES_def)

text \<open>
  C5: round trip of the images in HTML.  Let the field's text, stripped, be written from image tags and
  the texts around them: \<^verbatim>\<open><img\<close> in any case, each attribute after white space, with white space around
  \<^verbatim>\<open>=\<close> or not, its value in either quotes or bare and without \<^verbatim>\<open>>\<close>, and texts without \<^verbatim>\<open><img\<close>
  that may hold other tags.  Then the candidates the extraction appends are those of the tags in order, with the value of
  the first \<^verbatim>\<open>src\<close>, \<^verbatim>\<open>width\<close>, \<^verbatim>\<open>height\<close> and \<^verbatim>\<open>srcset\<close> of each, unescaped and cleaned, and
  nothing for an attribute the tag does not have.  The extraction is a search in the tag's text, so this needs
  \<open>unambiguous\<close>: no attribute written before the one looked up, and none at all when the tag has it not,
  has a name that ends in the looked-up name after a character that is not a word's (as \<^verbatim>\<open>data-src\<close>),
  or a value in which the name, as a word, is followed by \<^verbatim>\<open>=\<close> (as in \<^verbatim>\<open>a.jpg?width=9\<close>).
\<close>

theorem written_images_are_read_back:
  assumes "clean_text value = Some (html_text items last_text)"
    and "list_all (\<lambda>(t, g). image_free t \<and> markup_ok g) items" and "image_free last_text"
  shows "append_html_image_candidates lib value st = fold_ok (append_written_image lib) (map snd items) st"
proof -
  have "append_html_image_candidates lib value st =
      fold_ok (append_image_tag lib) (map (tag_text \<circ> snd) items) st"
    using assms(1) find_rendered_tags [OF assms(2,3)] by (simp add: append_html_image_candidates_def)
  also have "\<dots> = fold_ok (append_written_image lib \<circ> snd) items st"
    unfolding fold_ok_map using assms(2) by (intro fold_ok_cong) (auto simp: list_all_iff append_rendered_tag)
  finally show ?thesis by (simp add: fold_ok_map)
qed

definition sample_image :: image_markup where
  "sample_image =
     \<lparr>tag_opening = ''<Img'',
      tag_attributes =
        [\<lparr>at_gap = '' '', at_name = ''xsrc'', at_before_eq = [], at_after_eq = [],
          at_quoting = Quoted CHR 0x22, at_value = ''b.jpg''\<rparr>,
         \<lparr>at_gap = '' '', at_name = ''alt'', at_before_eq = [], at_after_eq = [],
          at_quoting = Quoted CHR 0x22, at_value = ''its source is a url''\<rparr>,
         \<lparr>at_gap = ''  '', at_name = ''SRC'', at_before_eq = '' '', at_after_eq = '' '',
          at_quoting = Quoted CHR 0x27, at_value = ''a.jpg''\<rparr>,
         \<lparr>at_gap = '' '', at_name = ''width'', at_before_eq = [], at_after_eq = [],
          at_quoting = Bare, at_value = ''600''\<rparr>],
      tag_closing = '' /''\<rparr>"

definition sample_html :: string where
  "sample_html = ''<p>A </p>'' @
     ''<Img xsrc='' @ [CHR 0x22] @ ''b.jpg'' @ [CHR 0x22] @ '' alt='' @ [CHR 0x22] @ ''its source is a url'' @ [CHR 0x22] @
     ''  SRC = '' @ [CHR 0x27] @ ''a.jpg'' @ [CHR 0x27] @ '' width=600 />'' @ ''<b> B</b>''"

theorem written_images_are_read_back_witness:
  "append_html_image_candidates sample_stdlib (Some ('' '' @ sample_html)) no_images =
     fold_ok (append_written_image sample_stdlib) [sample_image] no_images \<and>
   attribute_of sample_image ''src'' = Some ''a.jpg'' \<and> attribute_of sample_image ''width'' = Some ''600'' \<and>
   attribute_of sample_image ''srcset'' = None"
proof -
  have "clean_text (Some ('' '' @ sample_html)) =
      Some (html_text [(''<p>A </p>'', sample_image)] ''<b> B</b>'')" by code_simp
  moreover have "list_all (\<lambda>(t, g). image_free t \<and> markup_ok g) [(''<p>A </p>'', sample_image)]" by code_simp
  moreover have "image_free ''<b> B</b>''" by code_simp
  ultimately have "append_html_image_candidates sample_stdlib (Some ('' '' @ sample_html)) no_images =
      fold_ok (append_written_image sample_stdlib) (map snd [(''<p>A </p>'', sample_image)]) no_images"
    by (rule written_images_are_read_back)
  moreover have "attribute_of sample_image ''src'' = Some ''a.jpg''" "attribute_of sample_image ''width'' = Some ''600''"
    "attribute_of sample_image ''srcset'' = None" by code_simp+
  ultimately show ?thesis by simp
qed

text \<open>
  Why the condition is needed: the name of another attribute, or the query of an address, is read in the place of the
  attribute: \<^verbatim>\<open><img data-src="x" src="y">\<close> gives x, \<^verbatim>\<open><img src="a?width=9&b" width="5">\<close> gives 9&b".
\<close>

lemma attribute_search_is_textual:
  "search_attribute ''src'' False (''<img data-src='' @ [CHR 0x22] @ ''x'' @ [CHR 0x22] @ '' src='' @ [CHR 0x22] @ ''y'' @ [CHR 0x22] @ ''>'') =
    Some ''x''"
  "search_attribute ''width'' False (''<img src='' @ [CHR 0x22] @ ''a?width=9&b'' @ [CHR 0x22] @ '' width='' @ [CHR 0x22] @ ''5'' @ [CHR 0x22] @ ''>'') =
    Some (''9&b'' @ [CHR 0x22])"
  by code_simp+

end
