(* ===== verification/Schema.thy ===== *)
theory Schema
  imports Prelude
begin

text \<open>
  The schema of the database as a value, and the statements with which the migrations change it
  (\<^verbatim>\<open>db-manager/alembic/versions\<close>).  A statement that the server refuses yields None.  The rows are in \<^verbatim>\<open>Migrations\<close>.
\<close>

section \<open>Tables\<close>

datatype column_type = T_Integer | T_SmallInteger | T_Float | T_Boolean | T_String nat | T_CHAR nat | T_Text | T_Timestamptz

text \<open>
  An expression is its text without quotes.  \<open>Serial\<close> is the sequence that comes with an integer column that is the whole primary key and no reference.
\<close>

datatype server_default = NoDefault | Serial | NextVal string | Expr string

record column_def =
  cd_type :: column_type
  cd_nullable :: bool
  cd_default :: server_default

definition required :: "column_type \<Rightarrow> column_def" where
  "required ty = \<lparr>cd_type = ty, cd_nullable = False, cd_default = NoDefault\<rparr>"

definition optional :: "column_type \<Rightarrow> column_def" where
  "optional ty = \<lparr>cd_type = ty, cd_nullable = True, cd_default = NoDefault\<rparr>"

definition with_default :: "column_type \<Rightarrow> server_default \<Rightarrow> column_def" where
  "with_default ty d = \<lparr>cd_type = ty, cd_nullable = False, cd_default = d\<rparr>"

datatype referential_action = NoAction | Cascade | SetNull

datatype check_condition = Between int int | AtLeast int | OneOf "string list"

text \<open>A foreign key: its columns, the table and columns it refers to, and what a deletion and an update there do.\<close>

datatype table_constraint =
    PrimaryKey "string list"
  | Unique "string list"
  | Check string check_condition
  | ForeignKey "string list" string "string list" referential_action referential_action

text \<open>A constraint without a name gets one from the server, which no statement refers to.\<close>

record table_def =
  td_columns :: "(string \<times> column_def) list"
  td_constraints :: "(string option \<times> table_constraint) list"
  td_partition_by :: "string option"
  td_partitions :: "string list"

text \<open>An index has its table, its columns and the column of its condition; a sequence has the table that owns it.\<close>

record schema =
  ss_tables :: "(string \<times> table_def) list"
  ss_indexes :: "(string \<times> string \<times> string list \<times> string option) list"
  ss_sequences :: "(string \<times> string option) list"

definition empty_schema :: schema where
  "empty_schema = \<lparr>ss_tables = [], ss_indexes = [], ss_sequences = []\<rparr>"

section \<open>What a statement checks\<close>

definition column_names :: "table_def \<Rightarrow> string list" where
  "column_names d = map fst (td_columns d)"

fun constraint_columns :: "table_constraint \<Rightarrow> string list" where
  "constraint_columns (PrimaryKey cs) = cs"
| "constraint_columns (Unique cs) = cs"
| "constraint_columns (Check c _) = [c]"
| "constraint_columns (ForeignKey cs _ _ _ _) = cs"

fun refers_to :: "string \<Rightarrow> table_constraint \<Rightarrow> bool" where
  "refers_to t (ForeignKey _ r _ _ _) = (r = t)"
| "refers_to t _ = False"

text \<open>The names of the indexes behind keys; they share the names of tables, indexes and sequences.\<close>

fun key_name :: "string option \<times> table_constraint \<Rightarrow> string list" where
  "key_name (Some n, PrimaryKey _) = [n]"
| "key_name (Some n, Unique _) = [n]"
| "key_name _ = []"

definition relation_names :: "schema \<Rightarrow> string list" where
  "relation_names s =
     concat (map (\<lambda>(n, d). n # td_partitions d @ concat (map key_name (td_constraints d))) (ss_tables s)) @
     map fst (ss_indexes s) @ map fst (ss_sequences s)"

text \<open>A referenced list of columns is a key of the referenced table.\<close>

fun reference_ok :: "schema \<Rightarrow> table_constraint \<Rightarrow> bool" where
  "reference_ok s (ForeignKey cs r rcs _ _) =
     (length cs = length rcs \<and>
      (case map_of (ss_tables s) r of
         None \<Rightarrow> False
       | Some d \<Rightarrow> list_ex (\<lambda>(_, k). k = PrimaryKey rcs \<or> k = Unique rcs) (td_constraints d)))"
| "reference_ok s _ = True"

text \<open>A key of a partitioned table contains the column by which it is partitioned.\<close>

fun partition_ok :: "string option \<Rightarrow> table_constraint \<Rightarrow> bool" where
  "partition_ok (Some c) (PrimaryKey cs) = (c \<in> set cs)"
| "partition_ok (Some c) (Unique cs) = (c \<in> set cs)"
| "partition_ok _ _ = True"

fun default_ok :: "schema \<Rightarrow> server_default \<Rightarrow> bool" where
  "default_ok s (NextVal n) = (n \<in> set (map fst (ss_sequences s)))"
| "default_ok s _ = True"

definition table_ok :: "schema \<Rightarrow> table_def \<Rightarrow> bool" where
  "table_ok s d \<longleftrightarrow> distinct (column_names d) \<and>
     list_all (\<lambda>(_, c). default_ok s (cd_default c)) (td_columns d) \<and>
     list_all (\<lambda>(_, k). set (constraint_columns k) \<subseteq> set (column_names d) \<and> reference_ok s k \<and>
       partition_ok (td_partition_by d) k) (td_constraints d)"

definition uses_sequence :: "string list \<Rightarrow> table_def \<Rightarrow> bool" where
  "uses_sequence seqs d = list_ex (\<lambda>(_, c). case cd_default c of NextVal n \<Rightarrow> n \<in> set seqs | _ \<Rightarrow> False) (td_columns d)"

section \<open>Statements\<close>

datatype ddl =
    CreateTable string table_def
  | DropTable string
  | DropTableCascade string
  | RenameTable string string
  | AddColumn string string column_def
  | DropColumn string string
  | AddConstraint string string table_constraint
  | DropConstraint string string
  | RenameConstraint string string string
  | CreateIndex string string "string list" "string option"
  | DropIndex string
  | RenameIndex string string
  | CreatePartition string string
  | DropPartition string
  | CreateSequence string
  | OwnSequence string "string option"
  | DropSequence string
  | UseColumns "(string \<times> string list) list"

text \<open>\<open>UseColumns\<close> is a statement on rows: it only asks for its tables and columns.\<close>

definition provided :: "bool \<Rightarrow> 'a \<Rightarrow> 'a option" where
  "provided b x = (if b then Some x else None)"

definition update_table :: "string \<Rightarrow> (table_def \<Rightarrow> table_def) \<Rightarrow> schema \<Rightarrow> schema" where
  "update_table t f s = s\<lparr>ss_tables := map (\<lambda>(n, d). (n, if n = t then f d else d)) (ss_tables s)\<rparr>"

definition owned_by :: "string \<Rightarrow> schema \<Rightarrow> string list" where
  "owned_by t s = map fst (filter (\<lambda>(_, owner). owner = Some t) (ss_sequences s))"

definition remove_table :: "string \<Rightarrow> schema \<Rightarrow> schema" where
  "remove_table t s =
     \<lparr>ss_tables = filter (\<lambda>(n, _). n \<noteq> t) (ss_tables s), ss_indexes = filter (\<lambda>(_, n, _). n \<noteq> t) (ss_indexes s),
      ss_sequences = filter (\<lambda>(_, owner). owner \<noteq> Some t) (ss_sequences s)\<rparr>"

definition forget_table :: "string \<Rightarrow> string list \<Rightarrow> table_def \<Rightarrow> table_def" where
  "forget_table t seqs d =
     d\<lparr>td_constraints := filter (\<lambda>(_, k). \<not> refers_to t k) (td_constraints d),
       td_columns := map (\<lambda>(n, c). (n, case cd_default c of
          NextVal q \<Rightarrow> if q \<in> set seqs then c\<lparr>cd_default := NoDefault\<rparr> else c | _ \<Rightarrow> c)) (td_columns d)\<rparr>"

fun renamed_reference :: "string \<Rightarrow> string \<Rightarrow> table_constraint \<Rightarrow> table_constraint" where
  "renamed_reference a b (ForeignKey cs r rcs del upd) = ForeignKey cs (if r = a then b else r) rcs del upd"
| "renamed_reference a b k = k"

definition rename_in :: "string \<Rightarrow> string \<Rightarrow> schema \<Rightarrow> schema" where
  "rename_in a b s =
     (let new = (\<lambda>n. if n = a then b else n) in
      \<lparr>ss_tables = map (\<lambda>(n, d). (new n, d\<lparr>td_constraints := map (\<lambda>(m, k). (m, renamed_reference a b k)) (td_constraints d),
           td_partitions := map new (td_partitions d)\<rparr>)) (ss_tables s),
       ss_indexes = map (\<lambda>(i, n, x). (i, new n, x)) (ss_indexes s),
       ss_sequences = map (\<lambda>(q, owner). (q, map_option new owner)) (ss_sequences s)\<rparr>)"

definition has_table :: "schema \<Rightarrow> string \<Rightarrow> bool" where
  "has_table s t = (t \<in> set (map fst (ss_tables s)))"

definition has_columns :: "schema \<Rightarrow> string \<Rightarrow> string list \<Rightarrow> bool" where
  "has_columns s t cs = (case map_of (ss_tables s) t of None \<Rightarrow> False | Some d \<Rightarrow> set cs \<subseteq> set (column_names d))"

definition has_constraint :: "schema \<Rightarrow> string \<Rightarrow> string \<Rightarrow> bool" where
  "has_constraint s t n =
     (case map_of (ss_tables s) t of None \<Rightarrow> False | Some d \<Rightarrow> Some n \<in> set (map fst (td_constraints d)))"

definition referenced_elsewhere :: "schema \<Rightarrow> string \<Rightarrow> bool" where
  "referenced_elsewhere s t =
     list_ex (\<lambda>(n, d). n \<noteq> t \<and> (list_ex (\<lambda>(_, k). refers_to t k) (td_constraints d) \<or> uses_sequence (owned_by t s) d))
       (ss_tables s)"

fun exec :: "ddl \<Rightarrow> schema \<Rightarrow> schema option" where
  "exec (CreateTable t d) s =
     provided (t \<notin> set (relation_names s) \<and> table_ok s d \<and> set (concat (map key_name (td_constraints d))) \<inter> set (relation_names s) = {})
       (s\<lparr>ss_tables := ss_tables s @ [(t, d)]\<rparr>)"
| "exec (DropTable t) s = provided (has_table s t \<and> \<not> referenced_elsewhere s t) (remove_table t s)"
| "exec (DropTableCascade t) s =
     Some (if has_table s t
           then let s' = remove_table t s in
                s'\<lparr>ss_tables := map (\<lambda>(n, d). (n, forget_table t (owned_by t s) d)) (ss_tables s')\<rparr>
           else s)"
| "exec (RenameTable a b) s =
     provided ((has_table s a \<or> list_ex (\<lambda>(_, d). a \<in> set (td_partitions d)) (ss_tables s)) \<and> b \<notin> set (relation_names s))
       (rename_in a b s)"
| "exec (AddColumn t c d) s =
     provided (has_table s t \<and> \<not> has_columns s t [c] \<and> default_ok s (cd_default d))
       (update_table t (\<lambda>x. x\<lparr>td_columns := td_columns x @ [(c, d)]\<rparr>) s)"
| "exec (DropColumn t c) s =
     provided (has_columns s t [c] \<and>
         \<not> list_ex (\<lambda>(n, d). list_ex (\<lambda>(_, k). case k of ForeignKey _ r rcs _ _ \<Rightarrow> r = t \<and> c \<in> set rcs | _ \<Rightarrow> False)
             (td_constraints d)) (ss_tables s))
       ((update_table t (\<lambda>x. x\<lparr>td_columns := filter (\<lambda>(n, _). n \<noteq> c) (td_columns x),
            td_constraints := filter (\<lambda>(_, k). c \<notin> set (constraint_columns k)) (td_constraints x)\<rparr>) s)
          \<lparr>ss_indexes := filter (\<lambda>(_, n, cs, w). n = t \<longrightarrow> c \<notin> set cs \<and> w \<noteq> Some c) (ss_indexes s)\<rparr>)"
| "exec (AddConstraint t n k) s =
     provided (has_columns s t (constraint_columns k) \<and> \<not> has_constraint s t n \<and> reference_ok s k)
       (update_table t (\<lambda>x. x\<lparr>td_constraints := td_constraints x @ [(Some n, k)]\<rparr>) s)"
| "exec (DropConstraint t n) s =
     provided (has_constraint s t n)
       (update_table t (\<lambda>x. x\<lparr>td_constraints := filter (\<lambda>(m, _). m \<noteq> Some n) (td_constraints x)\<rparr>) s)"
| "exec (RenameConstraint t a b) s =
     provided (has_constraint s t a \<and> \<not> has_constraint s t b \<and> b \<notin> set (relation_names s))
       (update_table t (\<lambda>x. x\<lparr>td_constraints := map (\<lambda>(m, k). (if m = Some a then Some b else m, k)) (td_constraints x)\<rparr>) s)"
| "exec (CreateIndex i t cs w) s =
     provided (i \<notin> set (relation_names s) \<and> has_columns s t (cs @ (case w of None \<Rightarrow> [] | Some c \<Rightarrow> [c])))
       (s\<lparr>ss_indexes := ss_indexes s @ [(i, t, cs, w)]\<rparr>)"
| "exec (DropIndex i) s =
     provided (i \<in> set (map fst (ss_indexes s))) (s\<lparr>ss_indexes := filter (\<lambda>(n, _). n \<noteq> i) (ss_indexes s)\<rparr>)"
| "exec (RenameIndex a b) s =
     provided (a \<in> set (map fst (ss_indexes s)) \<and> b \<notin> set (relation_names s))
       (s\<lparr>ss_indexes := map (\<lambda>(n, x). (if n = a then b else n, x)) (ss_indexes s)\<rparr>)"
| "exec (CreatePartition n t) s =
     (if n \<in> set (relation_names s) then Some s
      else provided (case map_of (ss_tables s) t of None \<Rightarrow> False | Some d \<Rightarrow> td_partition_by d \<noteq> None)
        (update_table t (\<lambda>x. x\<lparr>td_partitions := td_partitions x @ [n]\<rparr>) s))"
| "exec (DropPartition n) s =
     Some (s\<lparr>ss_tables := map (\<lambda>(t, d). (t, d\<lparr>td_partitions := filter (\<lambda>m. m \<noteq> n) (td_partitions d)\<rparr>)) (ss_tables s)\<rparr>)"
| "exec (CreateSequence q) s =
     Some (if q \<in> set (relation_names s) then s else s\<lparr>ss_sequences := ss_sequences s @ [(q, None)]\<rparr>)"
| "exec (OwnSequence q owner) s =
     provided (q \<in> set (map fst (ss_sequences s)) \<and> (case owner of None \<Rightarrow> True | Some t \<Rightarrow> has_table s t))
       (s\<lparr>ss_sequences := map (\<lambda>(n, x). (n, if n = q then owner else x)) (ss_sequences s)\<rparr>)"
| "exec (DropSequence q) s =
     provided (\<not> list_ex (\<lambda>(_, d). uses_sequence [q] d) (ss_tables s))
       (s\<lparr>ss_sequences := filter (\<lambda>(n, _). n \<noteq> q) (ss_sequences s)\<rparr>)"
| "exec (UseColumns uses) s = provided (list_all (\<lambda>(t, cs). has_columns s t cs) uses) s"

fun run_script :: "ddl list \<Rightarrow> schema \<Rightarrow> schema option" where
  "run_script [] s = Some s"
| "run_script (c # cs) s = (case exec c s of None \<Rightarrow> None | Some s' \<Rightarrow> run_script cs s')"

lemma run_script_append: "run_script (xs @ ys) s = (case run_script xs s of None \<Rightarrow> None | Some t \<Rightarrow> run_script ys t)"
  by (induction xs arbitrary: s) (auto split: option.splits)

section \<open>Comparing\<close>

definition same_table :: "table_def \<Rightarrow> table_def \<Rightarrow> bool" where
  "same_table d e \<longleftrightarrow> set (td_columns d) = set (td_columns e) \<and> set (td_constraints d) = set (td_constraints e) \<and>
     td_partition_by d = td_partition_by e \<and> set (td_partitions d) = set (td_partitions e)"

text \<open>The same schema up to the order in which its parts were made.\<close>

definition same_schema :: "schema \<Rightarrow> schema \<Rightarrow> bool" where
  "same_schema s t \<longleftrightarrow> set (map fst (ss_tables s)) = set (map fst (ss_tables t)) \<and>
     list_all (\<lambda>(n, d). case map_of (ss_tables t) n of None \<Rightarrow> False | Some e \<Rightarrow> same_table d e) (ss_tables s) \<and>
     set (ss_indexes s) = set (ss_indexes t) \<and> set (ss_sequences s) = set (ss_sequences t)"

end
