(* ===== verification/Schema_Migrations.thy ===== *)
theory Schema_Migrations
  imports Schema
begin

text \<open>
  The statements of the six revisions in \<^verbatim>\<open>db-manager/alembic/versions\<close>, in their order, and the tables that
  \<^verbatim>\<open>backend/app/models\<close> declares.
\<close>

section \<open>Revisions\<close>

record revision =
  rv_revision :: string
  rv_down_revision :: "string option"
  rv_upgrade :: "ddl list"
  rv_downgrade :: "ddl list"

section \<open>0001\<close>

definition protection_check :: "int \<Rightarrow> table_constraint" where
  "protection_check n = Check ''fetchprotection'' (Between 0 n)"

definition company_table :: table_def where
  "company_table =
     \<lparr>td_columns = [(''id'', with_default T_Integer Serial), (''name'', required (T_String 50)),
        (''host'', optional (T_String 255)), (''icon_url'', optional (T_String 500)), (''country'', optional (T_CHAR 2)),
        (''language'', optional (T_CHAR 2)), (''fetchprotection'', with_default T_SmallInteger (Expr ''1'')),
        (''enabled'', with_default T_Boolean (Expr ''true''))],
      td_constraints = [(Some ''ck_rss_company_fetchprotection'', protection_check 3), (None, PrimaryKey [''id'']),
        (Some ''uq_rss_company_name'', Unique [''name''])],
      td_partition_by = None, td_partitions = []\<rparr>"

definition feed_table :: table_def where
  "feed_table =
     \<lparr>td_columns = [(''id'', with_default T_Integer Serial), (''url'', required (T_String 500)),
        (''section'', optional (T_String 50)), (''enabled'', with_default T_Boolean (Expr ''true'')),
        (''trust_score'', with_default T_Float (Expr ''0.5'')), (''fetchprotection'', with_default T_SmallInteger (Expr ''1'')),
        (''last_update'', optional T_Timestamptz), (''company_id'', optional T_Integer)],
      td_constraints = [(Some ''ck_rss_feeds_fetchprotection'', protection_check 3),
        (Some ''ck_rss_feeds_trust_score'', Check ''trust_score'' (Between 0 1)),
        (None, ForeignKey [''company_id''] ''rss_company'' [''id''] SetNull NoAction), (None, PrimaryKey [''id'']),
        (Some ''uq_rss_feeds_url'', Unique [''url''])],
      td_partition_by = None, td_partitions = []\<rparr>"

definition tag_table :: table_def where
  "tag_table =
     \<lparr>td_columns = [(''id'', with_default T_Integer Serial), (''name'', required (T_String 50))],
      td_constraints = [(None, PrimaryKey [''id'']), (Some ''uq_rss_tags_name'', Unique [''name''])],
      td_partition_by = None, td_partitions = []\<rparr>"

definition feed_tag_table :: table_def where
  "feed_tag_table =
     \<lparr>td_columns = [(''feed_id'', required T_Integer), (''tag_id'', required T_Integer)],
      td_constraints = [(None, ForeignKey [''feed_id''] ''rss_feeds'' [''id''] Cascade NoAction),
        (None, ForeignKey [''tag_id''] ''rss_tags'' [''id''] Cascade NoAction), (None, PrimaryKey [''feed_id'', ''tag_id''])],
      td_partition_by = None, td_partitions = []\<rparr>"

text \<open>
  The partitioned tables of the articles, which three revisions create with other names and defaults: \<open>v\<close> is what
  their names contain (\<^verbatim>\<open>_v1\<close>, \<^verbatim>\<open>_v3\<close> or nothing).
\<close>

definition dated_source_table :: "string \<Rightarrow> server_default \<Rightarrow> table_def" where
  "dated_source_table v published =
     \<lparr>td_columns = [(''id'', with_default T_Integer (NextVal ''rss_sources_id_seq'')), (''title'', required (T_String 500)),
        (''summary'', optional T_Text), (''author'', optional (T_String 255)), (''url'', required (T_String 1000)),
        (''published_at'', with_default T_Timestamptz published), (''image_url'', optional (T_String 1000))],
      td_constraints = [(Some (''rss_sources'' @ v @ ''_pkey''), PrimaryKey [''id'', ''published_at'']),
        (Some (''uq_rss_sources'' @ v @ ''_url_published_at''), Unique [''url'', ''published_at''])],
      td_partition_by = Some ''published_at'', td_partitions = []\<rparr>"

definition dated_link_table :: "string \<Rightarrow> server_default \<Rightarrow> table_def" where
  "dated_link_table v published =
     \<lparr>td_columns = [(''source_id'', required T_Integer), (''feed_id'', required T_Integer),
        (''published_at'', with_default T_Timestamptz published)],
      td_constraints = [(Some (''rss_source_feeds'' @ v @ ''_pkey''), PrimaryKey [''source_id'', ''feed_id'', ''published_at'']),
        (Some (''fk_rss_source_feeds'' @ v @ ''_source''),
         ForeignKey [''source_id'', ''published_at''] (''rss_sources'' @ v) [''id'', ''published_at''] Cascade Cascade),
        (Some (''fk_rss_source_feeds'' @ v @ ''_feed''), ForeignKey [''feed_id''] ''rss_feeds'' [''id''] Cascade NoAction)],
      td_partition_by = Some ''published_at'', td_partitions = []\<rparr>"

definition create_source_index :: "string \<Rightarrow> ddl" where
  "create_source_index v =
     CreateIndex (''idx_rss_sources'' @ v @ ''_published_at'') (''rss_sources'' @ v) [''published_at''] None"

definition create_dated_links :: "string \<Rightarrow> server_default \<Rightarrow> ddl list" where
  "create_dated_links v published =
     [CreateTable (''rss_source_feeds'' @ v) (dated_link_table v published),
      CreateIndex (''idx_rss_source_feeds'' @ v @ ''_source_id_published_at'') (''rss_source_feeds'' @ v)
        [''source_id'', ''published_at''] None,
      CreateIndex (''idx_rss_source_feeds'' @ v @ ''_feed_id'') (''rss_source_feeds'' @ v) [''feed_id''] None,
      CreateIndex (''idx_rss_source_feeds'' @ v @ ''_published_at'') (''rss_source_feeds'' @ v) [''published_at''] None]"

definition create_default_partitions :: "string \<Rightarrow> ddl list" where
  "create_default_partitions v =
     [CreatePartition (''rss_sources'' @ v @ ''_default'') (''rss_sources'' @ v),
      CreatePartition (''rss_source_feeds'' @ v @ ''_default'') (''rss_source_feeds'' @ v)]"

definition upgrade_script_0001 :: "ddl list" where
  "upgrade_script_0001 =
     [CreateTable ''rss_company'' company_table,
      CreateIndex ''idx_rss_company_country'' ''rss_company'' [''country''] None,
      CreateIndex ''idx_rss_company_language'' ''rss_company'' [''language''] None,
      CreateTable ''rss_feeds'' feed_table,
      CreateIndex ''idx_rss_feeds_enabled'' ''rss_feeds'' [''enabled''] (Some ''enabled''),
      CreateIndex ''idx_rss_feeds_fetchprotection'' ''rss_feeds'' [''fetchprotection''] None,
      CreateIndex ''idx_rss_feeds_company_id'' ''rss_feeds'' [''company_id''] None,
      CreateTable ''rss_tags'' tag_table,
      CreateTable ''rss_feed_tags'' feed_tag_table,
      CreateIndex ''idx_rss_feed_tags_tag_id'' ''rss_feed_tags'' [''tag_id''] None,
      CreateSequence ''rss_sources_id_seq''] @
     [CreateTable ''rss_sources'' (dated_source_table [] (Expr ''now()'')),
      OwnSequence ''rss_sources_id_seq'' (Some ''rss_sources''), create_source_index []] @ create_dated_links [] NoDefault @ create_default_partitions []"

definition downgrade_script_0001 :: "ddl list" where
  "downgrade_script_0001 =
     [DropPartition ''rss_source_feeds_default'',
      DropIndex ''idx_rss_source_feeds_published_at'', DropIndex ''idx_rss_source_feeds_feed_id'',
      DropIndex ''idx_rss_source_feeds_source_id_published_at'', DropTable ''rss_source_feeds'',
      DropPartition ''rss_sources_default'',
      DropIndex ''idx_rss_sources_published_at'', DropTable ''rss_sources'', DropSequence ''rss_sources_id_seq'',
      DropIndex ''idx_rss_feed_tags_tag_id'', DropTable ''rss_feed_tags'', DropTable ''rss_tags'',
      DropIndex ''idx_rss_feeds_company_id'', DropIndex ''idx_rss_feeds_fetchprotection'',
      DropIndex ''idx_rss_feeds_enabled'', DropTable ''rss_feeds'',
      DropIndex ''idx_rss_company_language'', DropIndex ''idx_rss_company_country'', DropTable ''rss_company'']"

section \<open>0002 and 0003\<close>

definition upgrade_script_0002 :: "ddl list" where
  "upgrade_script_0002 = [AddColumn ''rss_feeds'' ''etag'' (optional (T_String 255))]"

definition downgrade_script_0002 :: "ddl list" where
  "downgrade_script_0002 = [DropColumn ''rss_feeds'' ''etag'']"

definition scraping_table :: table_def where
  "scraping_table =
     \<lparr>td_columns = [(''feed_id'', required T_Integer), (''fetchprotection'', with_default T_SmallInteger (Expr ''1'')),
        (''last_update'', optional T_Timestamptz), (''etag'', optional (T_String 255)),
        (''error_nbr'', with_default T_Integer (Expr ''0'')), (''error_msg'', optional T_Text)],
      td_constraints = [(Some ''ck_feeds_scraping_fetchprotection'', protection_check 3),
        (Some ''ck_feeds_scraping_error_nbr'', Check ''error_nbr'' (AtLeast 0)),
        (None, ForeignKey [''feed_id''] ''rss_feeds'' [''id''] Cascade NoAction), (None, PrimaryKey [''feed_id''])],
      td_partition_by = None, td_partitions = []\<rparr>"

definition moved_columns :: "string list" where
  "moved_columns = [''fetchprotection'', ''last_update'', ''etag'']"

definition upgrade_script_0003 :: "ddl list" where
  "upgrade_script_0003 =
     [CreateTable ''feeds_scraping'' scraping_table,
      CreateIndex ''idx_feeds_scraping_fetchprotection'' ''feeds_scraping'' [''fetchprotection''] None,
      UseColumns [(''feeds_scraping'', [''feed_id'', ''error_nbr'', ''error_msg''] @ moved_columns),
        (''rss_feeds'', ''id'' # moved_columns)],
      DropIndex ''idx_rss_feeds_fetchprotection'', DropConstraint ''rss_feeds'' ''ck_rss_feeds_fetchprotection'',
      DropColumn ''rss_feeds'' ''last_update'', DropColumn ''rss_feeds'' ''etag'', DropColumn ''rss_feeds'' ''fetchprotection'']"

definition downgrade_script_0003 :: "ddl list" where
  "downgrade_script_0003 =
     [AddColumn ''rss_feeds'' ''fetchprotection'' (with_default T_SmallInteger (Expr ''1'')),
      AddColumn ''rss_feeds'' ''etag'' (optional (T_String 255)),
      AddColumn ''rss_feeds'' ''last_update'' (optional T_Timestamptz),
      UseColumns [(''rss_feeds'', ''id'' # moved_columns), (''feeds_scraping'', ''feed_id'' # moved_columns)],
      AddConstraint ''rss_feeds'' ''ck_rss_feeds_fetchprotection'' (protection_check 3),
      CreateIndex ''idx_rss_feeds_fetchprotection'' ''rss_feeds'' [''fetchprotection''] None,
      DropIndex ''idx_feeds_scraping_fetchprotection'', DropTable ''feeds_scraping'']"

section \<open>0004 and 0005\<close>

definition flat_source_table :: table_def where
  "flat_source_table =
     \<lparr>td_columns = [(''id'', with_default T_Integer (NextVal ''rss_sources_id_seq'')), (''title'', required (T_String 500)),
        (''summary'', optional T_Text), (''author'', optional (T_String 255)), (''url'', required (T_String 1000)),
        (''published_at'', optional T_Timestamptz), (''image_url'', optional (T_String 1000))],
      td_constraints = [(Some ''rss_sources_v2_pkey'', PrimaryKey [''id'']),
        (Some ''uq_rss_sources_v2_url_published_at'', Unique [''url'', ''published_at''])],
      td_partition_by = None, td_partitions = []\<rparr>"

definition flat_link_table :: table_def where
  "flat_link_table =
     \<lparr>td_columns = [(''source_id'', required T_Integer), (''feed_id'', required T_Integer)],
      td_constraints = [(Some ''fk_rss_source_feeds_v2_source'',
          ForeignKey [''source_id''] ''rss_sources_v2'' [''id''] Cascade Cascade),
        (Some ''fk_rss_source_feeds_v2_feed'', ForeignKey [''feed_id''] ''rss_feeds'' [''id''] Cascade NoAction),
        (Some ''rss_source_feeds_v2_pkey'', PrimaryKey [''source_id'', ''feed_id''])],
      td_partition_by = None, td_partitions = []\<rparr>"

definition source_columns :: "string list" where
  "source_columns = [''id'', ''title'', ''summary'', ''author'', ''url'', ''published_at'', ''image_url'']"

definition dated_link_columns :: "string list" where
  "dated_link_columns = [''source_id'', ''feed_id'', ''published_at'']"

definition create_flat_tables :: "ddl list" where
  "create_flat_tables =
     [CreateTable ''rss_sources_v2'' flat_source_table,
      CreateIndex ''idx_rss_sources_v2_published_at'' ''rss_sources_v2'' [''published_at''] None,
      CreateTable ''rss_source_feeds_v2'' flat_link_table,
      CreateIndex ''idx_rss_source_feeds_v2_feed_id'' ''rss_source_feeds_v2'' [''feed_id''] None,
      UseColumns [(''rss_sources_v2'', source_columns), (''rss_sources'', source_columns)],
      UseColumns [(''rss_source_feeds_v2'', [''source_id'', ''feed_id'']), (''rss_source_feeds'', [''source_id'', ''feed_id''])]]"

definition rename_flat_tables :: "ddl list" where
  "rename_flat_tables =
     [RenameTable ''rss_sources_v2'' ''rss_sources'', RenameTable ''rss_source_feeds_v2'' ''rss_source_feeds'',
      RenameConstraint ''rss_sources'' ''rss_sources_v2_pkey'' ''rss_sources_pkey'',
      RenameConstraint ''rss_sources'' ''uq_rss_sources_v2_url_published_at'' ''uq_rss_sources_url_published_at'',
      RenameIndex ''idx_rss_sources_v2_published_at'' ''idx_rss_sources_published_at'',
      RenameConstraint ''rss_source_feeds'' ''rss_source_feeds_v2_pkey'' ''rss_source_feeds_pkey'',
      RenameConstraint ''rss_source_feeds'' ''fk_rss_source_feeds_v2_source'' ''fk_rss_source_feeds_source'',
      RenameConstraint ''rss_source_feeds'' ''fk_rss_source_feeds_v2_feed'' ''fk_rss_source_feeds_feed'',
      RenameIndex ''idx_rss_source_feeds_v2_feed_id'' ''idx_rss_source_feeds_feed_id'']"

definition rename_dated_tables :: "string \<Rightarrow> ddl list" where
  "rename_dated_tables v =
     [RenameTable (''rss_sources'' @ v) ''rss_sources'', RenameTable (''rss_source_feeds'' @ v) ''rss_source_feeds'',
      RenameTable (''rss_sources'' @ v @ ''_default'') ''rss_sources_default'',
      RenameTable (''rss_source_feeds'' @ v @ ''_default'') ''rss_source_feeds_default'',
      RenameConstraint ''rss_sources'' (''rss_sources'' @ v @ ''_pkey'') ''rss_sources_pkey'',
      RenameConstraint ''rss_sources'' (''uq_rss_sources'' @ v @ ''_url_published_at'') ''uq_rss_sources_url_published_at'',
      RenameIndex (''idx_rss_sources'' @ v @ ''_published_at'') ''idx_rss_sources_published_at'',
      RenameConstraint ''rss_source_feeds'' (''rss_source_feeds'' @ v @ ''_pkey'') ''rss_source_feeds_pkey'',
      RenameConstraint ''rss_source_feeds'' (''fk_rss_source_feeds'' @ v @ ''_source'') ''fk_rss_source_feeds_source'',
      RenameConstraint ''rss_source_feeds'' (''fk_rss_source_feeds'' @ v @ ''_feed'') ''fk_rss_source_feeds_feed'',
      RenameIndex (''idx_rss_source_feeds'' @ v @ ''_source_id_published_at'') ''idx_rss_source_feeds_source_id_published_at'',
      RenameIndex (''idx_rss_source_feeds'' @ v @ ''_feed_id'') ''idx_rss_source_feeds_feed_id'',
      RenameIndex (''idx_rss_source_feeds'' @ v @ ''_published_at'') ''idx_rss_source_feeds_published_at'']"

text \<open>The statement with \<^verbatim>\<open>setval\<close> reads the identifiers.\<close>

definition own_and_set_sequence :: "ddl list" where
  "own_and_set_sequence =
     [OwnSequence ''rss_sources_id_seq'' (Some ''rss_sources''), UseColumns [(''rss_sources'', [''id''])]]"

definition replace_with_flat :: "ddl list" where
  "replace_with_flat =
     [DropTableCascade ''rss_source_feeds'', DropTableCascade ''rss_sources''] @ rename_flat_tables @ own_and_set_sequence"

definition upgrade_script_0004 :: "ddl list" where
  "upgrade_script_0004 = create_flat_tables @ [OwnSequence ''rss_sources_id_seq'' None] @ replace_with_flat"

definition create_dated_tables :: "string \<Rightarrow> server_default \<Rightarrow> server_default \<Rightarrow> ddl list" where
  "create_dated_tables v published link_published =
     [CreateTable (''rss_sources'' @ v) (dated_source_table v published), create_source_index v] @
     create_dated_links v link_published @ create_default_partitions v"

definition downgrade_script_0004 :: "ddl list" where
  "downgrade_script_0004 =
     [OwnSequence ''rss_sources_id_seq'' None] @ create_dated_tables ''_v1'' (Expr ''now()'') NoDefault @
     [UseColumns [(''rss_sources_v1'', source_columns), (''rss_sources'', source_columns)],
      UseColumns [(''rss_source_feeds_v1'', dated_link_columns), (''rss_source_feeds'', [''source_id'', ''feed_id'']),
        (''rss_sources_v1'', [''id'', ''published_at''])],
      DropIndex ''idx_rss_source_feeds_feed_id'', DropTable ''rss_source_feeds'',
      DropIndex ''idx_rss_sources_published_at'', DropTable ''rss_sources''] @
     rename_dated_tables ''_v1'' @ own_and_set_sequence"

definition epoch_default :: server_default where
  "epoch_default = Expr ''TIMESTAMPTZ 1970-01-01 00:00:00+00''"

definition upgrade_script_0005 :: "ddl list" where
  "upgrade_script_0005 =
     [OwnSequence ''rss_sources_id_seq'' None] @ create_dated_tables ''_v3'' epoch_default epoch_default @
     [UseColumns [(''rss_sources_v3'', source_columns), (''rss_sources'', source_columns)],
      UseColumns [(''rss_source_feeds_v3'', dated_link_columns), (''rss_source_feeds'', [''source_id'', ''feed_id'']),
        (''rss_sources'', [''id'', ''published_at''])],
      DropTableCascade ''rss_source_feeds'', DropTableCascade ''rss_sources''] @
     rename_dated_tables ''_v3'' @ own_and_set_sequence"

definition downgrade_script_0005 :: "ddl list" where
  "downgrade_script_0005 = [OwnSequence ''rss_sources_id_seq'' None] @ create_flat_tables @ replace_with_flat"

section \<open>0006\<close>

definition check_protection :: "int \<Rightarrow> string \<Rightarrow> string \<Rightarrow> ddl list" where
  "check_protection n t name = [DropConstraint t name, AddConstraint t name (protection_check n)]"

definition job_table :: table_def where
  "job_table =
     \<lparr>td_columns = [(''job_id'', required (T_String 36)), (''ingest'', required T_Boolean),
        (''requested_by'', required (T_String 100)), (''requested_at'', required T_Timestamptz),
        (''feed_count'', required T_Integer), (''status'', with_default (T_String 40) (Expr ''queued'')),
        (''updated_at'', with_default T_Timestamptz (Expr ''now()''))],
      td_constraints = [(Some ''ck_rss_scrape_jobs_feed_count'', Check ''feed_count'' (AtLeast 0)),
        (Some ''ck_rss_scrape_jobs_status'',
         Check ''status'' (OneOf [''queued'', ''processing'', ''completed'', ''completed_with_errors'', ''failed''])),
        (None, PrimaryKey [''job_id''])],
      td_partition_by = None, td_partitions = []\<rparr>"

definition job_feed_table :: table_def where
  "job_feed_table =
     \<lparr>td_columns = [(''job_id'', required (T_String 36)), (''feed_id'', required T_Integer),
        (''feed_url'', required (T_String 500)), (''last_db_article_published_at'', optional T_Timestamptz)],
      td_constraints = [(None, ForeignKey [''feed_id''] ''rss_feeds'' [''id''] Cascade NoAction),
        (None, ForeignKey [''job_id''] ''rss_scrape_jobs'' [''job_id''] Cascade NoAction),
        (None, PrimaryKey [''job_id'', ''feed_id''])],
      td_partition_by = None, td_partitions = []\<rparr>"

definition job_result_table :: table_def where
  "job_result_table =
     \<lparr>td_columns = [(''job_id'', required (T_String 36)), (''feed_id'', required T_Integer),
        (''status'', required (T_String 32)), (''queue_kind'', required (T_String 32)), (''error_message'', optional T_Text),
        (''fetchprotection'', optional T_SmallInteger), (''new_etag'', optional (T_String 255)),
        (''new_last_update'', optional T_Timestamptz), (''processed_at'', with_default T_Timestamptz (Expr ''now()''))],
      td_constraints = [(Some ''ck_rss_scrape_job_results_status'', Check ''status'' (OneOf [''success'', ''not_modified'', ''error''])),
        (Some ''ck_rss_scrape_job_results_queue_kind'', Check ''queue_kind'' (OneOf [''check'', ''ingest'', ''error''])),
        (None, ForeignKey [''feed_id''] ''rss_feeds'' [''id''] Cascade NoAction),
        (None, ForeignKey [''job_id''] ''rss_scrape_jobs'' [''job_id''] Cascade NoAction),
        (None, PrimaryKey [''job_id'', ''feed_id''])],
      td_partition_by = None, td_partitions = []\<rparr>"

definition upgrade_script_0006 :: "ddl list" where
  "upgrade_script_0006 =
     [UseColumns [(''rss_company'', [''fetchprotection''])], UseColumns [(''feeds_scraping'', [''fetchprotection''])]] @
     check_protection 2 ''rss_company'' ''ck_rss_company_fetchprotection'' @
     check_protection 2 ''feeds_scraping'' ''ck_feeds_scraping_fetchprotection'' @
     [CreateTable ''rss_scrape_jobs'' job_table,
      CreateIndex ''idx_rss_scrape_jobs_requested_at'' ''rss_scrape_jobs'' [''requested_at''] None,
      CreateTable ''rss_scrape_job_feeds'' job_feed_table,
      CreateIndex ''idx_rss_scrape_job_feeds_feed_id'' ''rss_scrape_job_feeds'' [''feed_id''] None,
      CreateTable ''rss_scrape_job_results'' job_result_table]"

definition downgrade_script_0006 :: "ddl list" where
  "downgrade_script_0006 =
     [DropTable ''rss_scrape_job_results'', DropIndex ''idx_rss_scrape_job_feeds_feed_id'', DropTable ''rss_scrape_job_feeds'',
      DropIndex ''idx_rss_scrape_jobs_requested_at'', DropTable ''rss_scrape_jobs''] @
     check_protection 3 ''feeds_scraping'' ''ck_feeds_scraping_fetchprotection'' @
     check_protection 3 ''rss_company'' ''ck_rss_company_fetchprotection''"

section \<open>The chain of revisions\<close>

definition revisions :: "revision list" where
  "revisions =
     [\<lparr>rv_revision = ''0001_initial_schema'', rv_down_revision = None,
        rv_upgrade = upgrade_script_0001, rv_downgrade = downgrade_script_0001\<rparr>,
      \<lparr>rv_revision = ''0002_add_rss_feed_etag'', rv_down_revision = Some ''0001_initial_schema'',
        rv_upgrade = upgrade_script_0002, rv_downgrade = downgrade_script_0002\<rparr>,
      \<lparr>rv_revision = ''0003_create_feeds_scraping_table'', rv_down_revision = Some ''0002_add_rss_feed_etag'',
        rv_upgrade = upgrade_script_0003, rv_downgrade = downgrade_script_0003\<rparr>,
      \<lparr>rv_revision = ''0004_sources_nullable_pub_at'', rv_down_revision = Some ''0003_create_feeds_scraping_table'',
        rv_upgrade = upgrade_script_0004, rv_downgrade = downgrade_script_0004\<rparr>,
      \<lparr>rv_revision = ''0005_restore_partitioning'', rv_down_revision = Some ''0004_sources_nullable_pub_at'',
        rv_upgrade = upgrade_script_0005, rv_downgrade = downgrade_script_0005\<rparr>,
      \<lparr>rv_revision = ''0006_scrape_jobs_v2'', rv_down_revision = Some ''0005_restore_partitioning'',
        rv_upgrade = upgrade_script_0006, rv_downgrade = downgrade_script_0006\<rparr>]"

definition upgrade_schema :: "nat \<Rightarrow> schema option" where
  "upgrade_schema n = run_script (concat (map rv_upgrade (take n revisions))) empty_schema"

section \<open>The declared tables\<close>

text \<open>
  A class of \<^verbatim>\<open>backend/app/models\<close>: its table and indexes.  A primary key is that of its columns, a reference of a column is
  a foreign key, and the integer that is the whole primary key is serial.
\<close>

type_synonym declared_table = "string \<times> table_def \<times> (string \<times> string list \<times> string option) list"

definition RssCompany :: declared_table where
  "RssCompany = (''rss_company'',
     \<lparr>td_columns = [(''id'', with_default T_Integer Serial), (''name'', required (T_String 50)),
        (''host'', optional (T_String 255)), (''icon_url'', optional (T_String 500)), (''country'', optional (T_CHAR 2)),
        (''language'', optional (T_CHAR 2)), (''fetchprotection'', with_default T_SmallInteger (Expr ''1'')),
        (''enabled'', with_default T_Boolean (Expr ''true''))],
      td_constraints = [(Some ''uq_rss_company_name'', Unique [''name'']),
        (Some ''ck_rss_company_fetchprotection'', Check ''fetchprotection'' (Between 0 2)), (None, PrimaryKey [''id''])],
      td_partition_by = None, td_partitions = []\<rparr>,
     [(''idx_rss_company_country'', [''country''], None), (''idx_rss_company_language'', [''language''], None)])"

definition RssFeed :: declared_table where
  "RssFeed = (''rss_feeds'',
     \<lparr>td_columns = [(''id'', with_default T_Integer Serial), (''url'', required (T_String 500)),
        (''section'', optional (T_String 50)), (''enabled'', with_default T_Boolean (Expr ''true'')),
        (''trust_score'', with_default T_Float (Expr ''0.5'')), (''company_id'', optional T_Integer)],
      td_constraints = [(Some ''uq_rss_feeds_url'', Unique [''url'']),
        (Some ''ck_rss_feeds_trust_score'', Check ''trust_score'' (Between 0 1)), (None, PrimaryKey [''id'']),
        (None, ForeignKey [''company_id''] ''rss_company'' [''id''] SetNull NoAction)],
      td_partition_by = None, td_partitions = []\<rparr>,
     [(''idx_rss_feeds_enabled'', [''enabled''], Some ''enabled''), (''idx_rss_feeds_company_id'', [''company_id''], None)])"

definition RssFeedScraping :: declared_table where
  "RssFeedScraping = (''feeds_scraping'',
     \<lparr>td_columns = [(''feed_id'', required T_Integer), (''fetchprotection'', with_default T_SmallInteger (Expr ''1'')),
        (''last_update'', optional T_Timestamptz), (''etag'', optional (T_String 255)),
        (''error_nbr'', with_default T_Integer (Expr ''0'')), (''error_msg'', optional T_Text)],
      td_constraints = [(Some ''ck_feeds_scraping_fetchprotection'', Check ''fetchprotection'' (Between 0 2)),
        (Some ''ck_feeds_scraping_error_nbr'', Check ''error_nbr'' (AtLeast 0)), (None, PrimaryKey [''feed_id'']),
        (None, ForeignKey [''feed_id''] ''rss_feeds'' [''id''] Cascade NoAction)],
      td_partition_by = None, td_partitions = []\<rparr>,
     [(''idx_feeds_scraping_fetchprotection'', [''fetchprotection''], None)])"

definition RssTag :: declared_table where
  "RssTag = (''rss_tags'',
     \<lparr>td_columns = [(''id'', with_default T_Integer Serial), (''name'', required (T_String 50))],
      td_constraints = [(Some ''uq_rss_tags_name'', Unique [''name'']), (None, PrimaryKey [''id''])],
      td_partition_by = None, td_partitions = []\<rparr>, [])"

definition RssFeedTag :: declared_table where
  "RssFeedTag = (''rss_feed_tags'',
     \<lparr>td_columns = [(''feed_id'', required T_Integer), (''tag_id'', required T_Integer)],
      td_constraints = [(None, PrimaryKey [''feed_id'', ''tag_id'']),
        (None, ForeignKey [''feed_id''] ''rss_feeds'' [''id''] Cascade NoAction),
        (None, ForeignKey [''tag_id''] ''rss_tags'' [''id''] Cascade NoAction)],
      td_partition_by = None, td_partitions = []\<rparr>,
     [(''idx_rss_feed_tags_tag_id'', [''tag_id''], None)])"

definition RssSource :: declared_table where
  "RssSource = (''rss_sources'',
     \<lparr>td_columns = [(''id'', with_default T_Integer (NextVal ''rss_sources_id_seq'')), (''title'', required (T_String 500)),
        (''summary'', optional T_Text), (''author'', optional (T_String 255)), (''url'', required (T_String 1000)),
        (''published_at'', with_default T_Timestamptz (Expr ''TIMESTAMPTZ 1970-01-01 00:00:00+00'')),
        (''image_url'', optional (T_String 1000))],
      td_constraints = [(Some ''uq_rss_sources_url_published_at'', Unique [''url'', ''published_at'']),
        (None, PrimaryKey [''id'', ''published_at''])],
      td_partition_by = Some ''published_at'', td_partitions = []\<rparr>,
     [(''idx_rss_sources_published_at'', [''published_at''], None)])"

definition RssSourceFeed :: declared_table where
  "RssSourceFeed = (''rss_source_feeds'',
     \<lparr>td_columns = [(''source_id'', required T_Integer), (''feed_id'', required T_Integer),
        (''published_at'', with_default T_Timestamptz (Expr ''TIMESTAMPTZ 1970-01-01 00:00:00+00''))],
      td_constraints = [(None, ForeignKey [''source_id'', ''published_at''] ''rss_sources'' [''id'', ''published_at''] Cascade Cascade),
        (None, ForeignKey [''feed_id''] ''rss_feeds'' [''id''] Cascade NoAction),
        (None, PrimaryKey [''source_id'', ''feed_id'', ''published_at''])],
      td_partition_by = Some ''published_at'', td_partitions = []\<rparr>,
     [(''idx_rss_source_feeds_source_id_published_at'', [''source_id'', ''published_at''], None),
      (''idx_rss_source_feeds_feed_id'', [''feed_id''], None), (''idx_rss_source_feeds_published_at'', [''published_at''], None)])"

definition RssScrapeJob :: declared_table where
  "RssScrapeJob = (''rss_scrape_jobs'',
     \<lparr>td_columns = [(''job_id'', required (T_String 36)), (''ingest'', required T_Boolean),
        (''requested_by'', required (T_String 100)), (''requested_at'', required T_Timestamptz),
        (''feed_count'', required T_Integer), (''status'', with_default (T_String 40) (Expr ''queued'')),
        (''updated_at'', with_default T_Timestamptz (Expr ''now()''))],
      td_constraints = [(Some ''ck_rss_scrape_jobs_feed_count'', Check ''feed_count'' (AtLeast 0)),
        (Some ''ck_rss_scrape_jobs_status'',
         Check ''status'' (OneOf [''queued'', ''processing'', ''completed'', ''completed_with_errors'', ''failed''])),
        (None, PrimaryKey [''job_id''])],
      td_partition_by = None, td_partitions = []\<rparr>,
     [(''idx_rss_scrape_jobs_requested_at'', [''requested_at''], None)])"

definition RssScrapeJobFeed :: declared_table where
  "RssScrapeJobFeed = (''rss_scrape_job_feeds'',
     \<lparr>td_columns = [(''job_id'', required (T_String 36)), (''feed_id'', required T_Integer),
        (''feed_url'', required (T_String 500)), (''last_db_article_published_at'', optional T_Timestamptz)],
      td_constraints = [(None, ForeignKey [''job_id''] ''rss_scrape_jobs'' [''job_id''] Cascade NoAction),
        (None, ForeignKey [''feed_id''] ''rss_feeds'' [''id''] Cascade NoAction), (None, PrimaryKey [''job_id'', ''feed_id''])],
      td_partition_by = None, td_partitions = []\<rparr>,
     [(''idx_rss_scrape_job_feeds_feed_id'', [''feed_id''], None)])"

definition RssScrapeJobResult :: declared_table where
  "RssScrapeJobResult = (''rss_scrape_job_results'',
     \<lparr>td_columns = [(''job_id'', required (T_String 36)), (''feed_id'', required T_Integer),
        (''status'', required (T_String 32)), (''queue_kind'', required (T_String 32)), (''error_message'', optional T_Text),
        (''fetchprotection'', optional T_SmallInteger), (''new_etag'', optional (T_String 255)),
        (''new_last_update'', optional T_Timestamptz), (''processed_at'', with_default T_Timestamptz (Expr ''now()''))],
      td_constraints = [(None, ForeignKey [''job_id''] ''rss_scrape_jobs'' [''job_id''] Cascade NoAction),
        (None, ForeignKey [''feed_id''] ''rss_feeds'' [''id''] Cascade NoAction),
        (Some ''ck_rss_scrape_job_results_status'', Check ''status'' (OneOf [''success'', ''not_modified'', ''error''])),
        (Some ''ck_rss_scrape_job_results_queue_kind'', Check ''queue_kind'' (OneOf [''check'', ''ingest'', ''error''])),
        (None, PrimaryKey [''job_id'', ''feed_id''])],
      td_partition_by = None, td_partitions = []\<rparr>, [])"

definition declared_tables :: "declared_table list" where
  "declared_tables = [RssCompany, RssFeed, RssFeedScraping, RssTag, RssFeedTag, RssSource, RssSourceFeed, RssScrapeJob,
     RssScrapeJobFeed, RssScrapeJobResult]"

text \<open>A table is as declared: a constraint the declaration leaves unnamed may have any name, and partitions are not declared.\<close>

definition constraint_matches :: "string option \<times> table_constraint \<Rightarrow> string option \<times> table_constraint \<Rightarrow> bool" where
  "constraint_matches actual declared \<longleftrightarrow> snd actual = snd declared \<and> (fst declared = None \<or> fst actual = fst declared)"

definition table_as_declared :: "table_def \<Rightarrow> table_def \<Rightarrow> bool" where
  "table_as_declared d e \<longleftrightarrow> set (td_columns d) = set (td_columns e) \<and>
     list_all (\<lambda>k. list_ex (constraint_matches k) (td_constraints e)) (td_constraints d) \<and>
     list_all (\<lambda>k. list_ex (\<lambda>a. constraint_matches a k) (td_constraints d)) (td_constraints e) \<and>
     td_partition_by d = td_partition_by e"

definition schema_as_declared :: "schema \<Rightarrow> declared_table list \<Rightarrow> bool" where
  "schema_as_declared s ts \<longleftrightarrow> set (map fst (ss_tables s)) = set (map fst ts) \<and>
     list_all (\<lambda>(n, e, _). case map_of (ss_tables s) n of None \<Rightarrow> False | Some d \<Rightarrow> table_as_declared d e) ts \<and>
     set (ss_indexes s) = set (concat (map (\<lambda>(n, _, is). map (\<lambda>(i, cs, w). (i, n, cs, w)) is) ts))"

end
