(* ===== verification/Schema_Partitions.thy ===== *)
theory Schema_Partitions
  imports Schema
begin

text \<open>
  A script that makes and drops no partition runs alike whatever partitions there are: it only needs that their names are
  not among those it gives.
\<close>

section \<open>Hiding the partitions\<close>

definition hide_partitions :: "schema \<Rightarrow> schema" where
  "hide_partitions s = s\<lparr>ss_tables := map (\<lambda>x. (fst x, (snd x)\<lparr>td_partitions := []\<rparr>)) (ss_tables s)\<rparr>"

definition partition_names :: "schema \<Rightarrow> string list" where
  "partition_names s = concat (map (\<lambda>(_, d). td_partitions d) (ss_tables s))"

fun names_in :: "ddl \<Rightarrow> string list" where
  "names_in (CreateTable t d) = t # concat (map key_name (td_constraints d))"
| "names_in (RenameTable a b) = [a, b]"
| "names_in (RenameConstraint t a b) = [b]"
| "names_in (CreateIndex i t cs w) = [i]"
| "names_in (RenameIndex a b) = [b]"
| "names_in (CreateSequence q) = [q]"
| "names_in _ = []"

fun spares_partitions :: "ddl \<Rightarrow> bool" where
  "spares_partitions (CreatePartition n t) = False"
| "spares_partitions (DropPartition n) = False"
| "spares_partitions (CreateTable t d) = (td_partitions d = [])"
| "spares_partitions _ = True"

lemma hide_fields [simp]:
  "ss_indexes (hide_partitions s) = ss_indexes s" "ss_sequences (hide_partitions s) = ss_sequences s"
  "map fst (ss_tables (hide_partitions s)) = map fst (ss_tables s)"
  by (simp_all add: hide_partitions_def)

lemma map_of_hide [simp]:
  "map_of (ss_tables (hide_partitions s)) t = map_option (\<lambda>d. d\<lparr>td_partitions := []\<rparr>) (map_of (ss_tables s) t)"
proof -
  have "map_of (map (\<lambda>x. (fst x, (snd x)\<lparr>td_partitions := []\<rparr>)) ts) t = map_option (\<lambda>d. d\<lparr>td_partitions := []\<rparr>) (map_of ts t)" for ts
    by (induction ts) auto
  then show ?thesis by (simp add: hide_partitions_def)
qed

lemma list_ex_hide:
  "(\<And>n d. P n (d\<lparr>td_partitions := []\<rparr>) = P n d) \<Longrightarrow>
    list_ex (\<lambda>(n, d). P n d) (ss_tables (hide_partitions s)) = list_ex (\<lambda>(n, d). P n d) (ss_tables s)"
  by (simp add: hide_partitions_def list_ex_iff case_prod_beta)

lemma relation_names_hide:
  "n \<in> set (relation_names s) \<longleftrightarrow> n \<in> set (relation_names (hide_partitions s)) \<or> n \<in> set (partition_names s)"
  unfolding relation_names_def partition_names_def hide_partitions_def case_prod_unfold
  by (simp add: image_iff) blast

lemma checks_hide [simp]:
  "has_table (hide_partitions s) t = has_table s t" "has_columns (hide_partitions s) t cs = has_columns s t cs"
  "has_constraint (hide_partitions s) t m = has_constraint s t m" "owned_by t (hide_partitions s) = owned_by t s"
  by (simp_all add: has_table_def has_columns_def has_constraint_def column_names_def owned_by_def split: option.splits)

lemma default_hide [simp]: "default_ok (hide_partitions s) x = default_ok s x"
  by (cases x) simp_all

lemma reference_hide [simp]: "reference_ok (hide_partitions s) k = reference_ok s k"
  by (cases k) (simp_all split: option.splits)

lemma table_ok_hide [simp]: "table_ok (hide_partitions s) d = table_ok s d"
  by (simp add: table_ok_def)

lemma uses_hide [simp]: "uses_sequence q (d\<lparr>td_partitions := p\<rparr>) = uses_sequence q d"
  by (simp add: uses_sequence_def)

lemma elsewhere_hide [simp]: "referenced_elsewhere (hide_partitions s) t = referenced_elsewhere s t"
  unfolding referenced_elsewhere_def checks_hide by (rule list_ex_hide) simp

lemma provided_hide: "b = b' \<Longrightarrow> (b' \<Longrightarrow> x = f y) \<Longrightarrow> provided b x = map_option f (provided b' y)"
  by (simp add: provided_def)

lemma update_hide:
  "(\<And>d. f (d\<lparr>td_partitions := []\<rparr>) = (f d)\<lparr>td_partitions := []\<rparr>) \<Longrightarrow>
    update_table t f (hide_partitions s) = hide_partitions (update_table t f s)"
  by (simp add: update_table_def hide_partitions_def case_prod_beta)

lemma hide_updates:
  "(hide_partitions s)\<lparr>ss_indexes := x\<rparr> = hide_partitions (s\<lparr>ss_indexes := x\<rparr>)"
  "(hide_partitions s)\<lparr>ss_sequences := y\<rparr> = hide_partitions (s\<lparr>ss_sequences := y\<rparr>)"
  by (simp_all add: hide_partitions_def)

lemma remove_hide: "remove_table t (hide_partitions s) = hide_partitions (remove_table t s)"
  by (simp add: remove_table_def hide_partitions_def filter_map o_def case_prod_unfold)

lemma forget_hide:
  "(hide_partitions s)\<lparr>ss_tables := map (\<lambda>(n, d). (n, forget_table t q d)) (ss_tables (hide_partitions s))\<rparr> =
    hide_partitions (s\<lparr>ss_tables := map (\<lambda>(n, d). (n, forget_table t q d)) (ss_tables s)\<rparr>)"
  by (simp add: hide_partitions_def case_prod_beta forget_table_def)

lemma rename_hide: "rename_in a b (hide_partitions s) = hide_partitions (rename_in a b s)"
  by (simp add: rename_in_def hide_partitions_def Let_def case_prod_beta)

lemma exec_hide:
  assumes "spares_partitions c" and "set (names_in c) \<inter> set (partition_names s) = {}"
  shows "exec c (hide_partitions s) = map_option hide_partitions (exec c s)"
proof (cases c)
  case (CreateTable t d)
  have "(hide_partitions s)\<lparr>ss_tables := ss_tables (hide_partitions s) @ [(t, d)]\<rparr> =
      hide_partitions (s\<lparr>ss_tables := ss_tables s @ [(t, d)]\<rparr>)"
    using assms(1) CreateTable by (simp add: hide_partitions_def)
  moreover have "set (relation_names s) = set (relation_names (hide_partitions s)) \<union> set (partition_names s)"
    using relation_names_hide [of _ s] by blast
  then have "t \<notin> set (relation_names s) \<longleftrightarrow> t \<notin> set (relation_names (hide_partitions s))"
    and "set (concat (map key_name (td_constraints d))) \<inter> set (relation_names s) = {} \<longleftrightarrow>
      set (concat (map key_name (td_constraints d))) \<inter> set (relation_names (hide_partitions s)) = {}"
    using assms(2) CreateTable by auto
  ultimately show ?thesis using CreateTable by (simp add: provided_def)
next
  case (DropTable t)
  then show ?thesis by (auto intro!: provided_hide simp: remove_hide)
next
  case (DropTableCascade t)
  then show ?thesis by (simp add: Let_def remove_hide forget_hide)
next
  case (RenameTable a b)
  then have names: "a \<notin> set (partition_names s)" "b \<notin> set (partition_names s)" using assms by auto
  then have "\<not> list_ex (\<lambda>(_, d). a \<in> set (td_partitions d)) (ss_tables s)"
    by (auto simp: partition_names_def list_ex_iff)
  moreover have "\<not> list_ex (\<lambda>(_, d). a \<in> set (td_partitions d)) (ss_tables (hide_partitions s))"
    by (simp add: hide_partitions_def list_ex_iff)
  ultimately show ?thesis using RenameTable names
    by (auto intro!: provided_hide simp: relation_names_hide [of _ s] rename_hide)
next
  case (DropColumn t c')
  let ?refers = "\<lambda>d. list_ex (\<lambda>(_, k). case k of ForeignKey _ r rcs _ _ \<Rightarrow> r = t \<and> c' \<in> set rcs | _ \<Rightarrow> False) (td_constraints d)"
  have "list_ex (\<lambda>(n, d). ?refers d) (ss_tables (hide_partitions s)) = list_ex (\<lambda>(n, d). ?refers d) (ss_tables s)"
    by (rule list_ex_hide) simp
  then show ?thesis using DropColumn by (auto intro!: provided_hide simp: update_hide hide_updates)
next
  case (DropSequence q)
  have "list_ex (\<lambda>(_, d). uses_sequence [q] d) (ss_tables (hide_partitions s)) =
      list_ex (\<lambda>(_, d). uses_sequence [q] d) (ss_tables s)"
    by (rule list_ex_hide) simp
  then show ?thesis using DropSequence by (auto intro!: provided_hide simp: hide_updates)
next
  case (UseColumns uses)
  moreover have "has_columns (hide_partitions s) = has_columns s" by (simp add: fun_eq_iff)
  ultimately show ?thesis by (simp add: provided_def)
qed (use assms in \<open>auto intro!: provided_hide simp: update_hide hide_updates relation_names_hide [of _ s] split: option.splits\<close>)

lemma partitions_of_updates [simp]:
  "partition_names (s\<lparr>ss_indexes := x\<rparr>) = partition_names s" "partition_names (s\<lparr>ss_sequences := y\<rparr>) = partition_names s"
  "(\<And>d. td_partitions (f d) = td_partitions d) \<Longrightarrow> partition_names (update_table t f s) = partition_names s"
  by (simp_all add: partition_names_def update_table_def o_def case_prod_unfold if_distrib cong: if_cong)

lemma partitions_of_removal: "set (partition_names (remove_table t s)) \<subseteq> set (partition_names s)"
  by (auto simp: partition_names_def remove_table_def)

lemma partitions_of_rename:
  assumes "a \<notin> set (partition_names s)"
  shows "partition_names (rename_in a b s) = partition_names s"
proof -
  have "map (\<lambda>n. if n = a then b else n) (td_partitions d) = td_partitions d" if "(n, d) \<in> set (ss_tables s)" for n d
    using assms that by (intro map_idI) (auto simp: partition_names_def)
  then show ?thesis
    by (auto simp: partition_names_def rename_in_def Let_def intro!: arg_cong [of _ _ concat])
qed

lemma partitions_of_forgetting:
  "partition_names (s\<lparr>ss_tables := map (\<lambda>(n, d). (n, forget_table t q d)) ts\<rparr>) = partition_names (s\<lparr>ss_tables := ts\<rparr>)"
  by (simp add: partition_names_def forget_table_def o_def case_prod_unfold)

lemma provided_Some: "provided b x = Some y \<longleftrightarrow> b \<and> x = y"
  by (simp add: provided_def)

lemma exec_partitions:
  assumes "exec c s = Some s'" and "spares_partitions c" and "set (names_in c) \<inter> set (partition_names s) = {}"
  shows "set (partition_names s') \<subseteq> set (partition_names s)"
proof (cases c)
  case (CreateTable t d)
  then have "partition_names (s\<lparr>ss_tables := ss_tables s @ [(t, d)]\<rparr>) = partition_names s"
    using assms(2) by (simp add: partition_names_def)
  then show ?thesis using assms(1) CreateTable by (auto simp: provided_Some)
next
  case (DropTable t)
  then show ?thesis using assms(1) partitions_of_removal by (auto simp: provided_Some)
next
  case (DropTableCascade t)
  then show ?thesis using assms(1) partitions_of_removal [of t s]
    by (auto simp: Let_def partitions_of_forgetting split: if_splits)
next
  case (RenameTable a b)
  then show ?thesis using assms(1,3) by (auto simp: provided_Some partitions_of_rename)
next
  case (CreateSequence q)
  then show ?thesis using assms(1) by (auto split: if_splits)
qed (use assms(1,2) in \<open>auto simp: provided_Some\<close>)

lemma script_hide:
  assumes "list_all spares_partitions cs" and "set (concat (map names_in cs)) \<inter> set (partition_names s) = {}"
  shows "run_script cs (hide_partitions s) = map_option hide_partitions (run_script cs s)"
  using assms
proof (induction cs arbitrary: s)
  case (Cons c cs)
  have hide: "exec c (hide_partitions s) = map_option hide_partitions (exec c s)"
    using exec_hide Cons.prems by auto
  show ?case
  proof (cases "exec c s")
    case (Some s')
    have "set (partition_names s') \<subseteq> set (partition_names s)"
      using exec_partitions [OF Some] Cons.prems by auto
    then have "set (concat (map names_in cs)) \<inter> set (partition_names s') = {}" using Cons.prems(2) by auto
    then show ?thesis using hide Some Cons.IH [of s'] Cons.prems(1) by simp
  qed (use hide in simp)
qed simp


text \<open>What a script leads to does not depend on partitions whose names it does not use, when it leaves no partitioned table.\<close>

definition partitioned_only :: "schema \<Rightarrow> bool" where
  "partitioned_only s \<longleftrightarrow> (\<forall>x\<in>set (ss_tables s). td_partition_by (snd x) = None \<longrightarrow> td_partitions (snd x) = [])"

lemma partitioned_only_updates [simp]:
  "partitioned_only (s\<lparr>ss_indexes := x\<rparr>) = partitioned_only s" "partitioned_only (s\<lparr>ss_sequences := y\<rparr>) = partitioned_only s"
  by (simp_all add: partitioned_only_def)

lemma partitioned_only_update_table:
  assumes "\<And>d. td_partition_by (f d) = td_partition_by d" and "\<And>d. td_partitions (f d) = td_partitions d" and "partitioned_only s"
  shows "partitioned_only (update_table t f s)"
  using assms by (force simp: partitioned_only_def update_table_def)

lemma partitioned_only_remove: "partitioned_only s \<Longrightarrow> partitioned_only (remove_table t s)"
  by (auto simp: partitioned_only_def remove_table_def)

lemma exec_partitioned_only:
  assumes "exec c s = Some s'" and "spares_partitions c" and "partitioned_only s"
  shows "partitioned_only s'"
proof (cases c)
  case (CreateTable t d)
  then show ?thesis using assms by (force simp: provided_Some partitioned_only_def)
next
  case (DropTableCascade t)
  then show ?thesis using assms(1,3)
    by (force simp: Let_def partitioned_only_def remove_table_def forget_table_def split: if_splits)
next
  case (RenameTable a b)
  then show ?thesis using assms(1,3)
    by (force simp: provided_Some partitioned_only_def rename_in_def Let_def)
next
  case (DropColumn t c')
  have "partitioned_only (update_table t (\<lambda>x. x\<lparr>td_columns := filter (\<lambda>(n, _). n \<noteq> c') (td_columns x),
      td_constraints := filter (\<lambda>(_, k). c' \<notin> set (constraint_columns k)) (td_constraints x)\<rparr>) s)"
    by (rule partitioned_only_update_table) (simp_all add: assms(3))
  then show ?thesis using assms(1) DropColumn by (auto simp: provided_Some)
next
  case (CreateSequence q)
  then show ?thesis using assms(1,3) by (auto split: if_splits)
qed (use assms in \<open>auto simp: provided_Some intro: partitioned_only_update_table partitioned_only_remove\<close>)

lemma script_partitioned_only:
  "run_script cs s = Some s' \<Longrightarrow> list_all spares_partitions cs \<Longrightarrow> partitioned_only s \<Longrightarrow> partitioned_only s'"
  by (induction cs arbitrary: s) (auto split: option.splits dest: exec_partitioned_only)

lemma hide_unpartitioned:
  assumes "partitioned_only s" and "\<forall>x\<in>set (ss_tables s). td_partition_by (snd x) = None"
  shows "hide_partitions s = s"
proof -
  have "map (\<lambda>x. (fst x, (snd x)\<lparr>td_partitions := []\<rparr>)) (ss_tables s) = ss_tables s"
  proof (rule map_idI)
    fix x assume "x \<in> set (ss_tables s)"
    then have "td_partitions (snd x) = []" using assms by (auto simp: partitioned_only_def list_all_iff)
    then have "(snd x)\<lparr>td_partitions := []\<rparr> = snd x" by (cases "snd x") simp
    then show "(fst x, (snd x)\<lparr>td_partitions := []\<rparr>) = x" by simp
  qed
  then show ?thesis by (simp add: hide_partitions_def)
qed

lemma hide_keeps_layout:
  "map (\<lambda>x. td_partition_by (snd x)) (ss_tables (hide_partitions s)) = map (\<lambda>x. td_partition_by (snd x)) (ss_tables s)"
  by (simp add: hide_partitions_def)

lemma unpartitioned_alike:
  assumes "hide_partitions s = hide_partitions t" and "\<forall>x\<in>set (ss_tables t). td_partition_by (snd x) = None"
    and "partitioned_only s" and "partitioned_only t"
  shows "s = t"
proof -
  have "map (\<lambda>x. td_partition_by (snd x)) (ss_tables s) = map (\<lambda>x. td_partition_by (snd x)) (ss_tables t)"
    using hide_keeps_layout [of s] hide_keeps_layout [of t] assms(1) by simp
  moreover have "set (map (\<lambda>x. td_partition_by (snd x)) (ss_tables t)) \<subseteq> {None}" using assms(2) by auto
  ultimately have "set (map (\<lambda>x. td_partition_by (snd x)) (ss_tables s)) \<subseteq> {None}" by (simp only:)
  then have "\<forall>x\<in>set (ss_tables s). td_partition_by (snd x) = None" by auto
  then show ?thesis using hide_unpartitioned assms by metis
qed

lemma same_schema_unpartitioned:
  assumes "same_schema s t" and "list_all (\<lambda>x. td_partition_by (snd x) = None) (ss_tables t)"
  shows "\<forall>x\<in>set (ss_tables s). td_partition_by (snd x) = None"
proof
  fix x assume "x \<in> set (ss_tables s)"
  then have "case map_of (ss_tables t) (fst x) of None \<Rightarrow> False | Some e \<Rightarrow> same_table (snd x) e"
    using assms(1) unfolding same_schema_def list_all_iff by (metis (no_types, lifting) case_prod_beta)
  then obtain e where "map_of (ss_tables t) (fst x) = Some e" "same_table (snd x) e" by (auto split: option.splits)
  then show "td_partition_by (snd x) = None"
    using assms(2) by (force simp: list_all_iff same_table_def dest: map_of_SomeD)
qed

end
