(* ===== verification/Schema_Properties.thy ===== *)
theory Schema_Properties
  imports Schema_Migrations Schema_Partitions Source_Partitions
begin

text \<open>
  The schema after each revision, computed by running its statements; that the last one is what the classes of the
  backend declare; and that every downgrade undoes its upgrade, also after the maintenance has made weekly partitions.
\<close>

section \<open>Evaluation\<close>

text \<open>Lists are compared up to the first difference, which matters for the long names.\<close>

lemma equal_list_if [code]:
  "HOL.equal [] ([] :: 'a :: equal list) \<longleftrightarrow> True"
  "HOL.equal [] (y # ys) \<longleftrightarrow> False"
  "HOL.equal (x # xs) [] \<longleftrightarrow> False"
  "HOL.equal (x # xs) (y # ys) = (if x = y then HOL.equal xs ys else False)"
  by (simp_all add: equal)

section \<open>The schemas\<close>

definition initial_indexes :: "(string \<times> string \<times> string list \<times> string option) list" where
  "initial_indexes =
     [(''idx_rss_company_country'', ''rss_company'', [''country''], None),
      (''idx_rss_company_language'', ''rss_company'', [''language''], None),
      (''idx_rss_feeds_enabled'', ''rss_feeds'', [''enabled''], Some ''enabled'')]"

definition link_tables_indexes :: "(string \<times> string \<times> string list \<times> string option) list" where
  "link_tables_indexes =
     [(''idx_rss_feeds_company_id'', ''rss_feeds'', [''company_id''], None),
      (''idx_rss_feed_tags_tag_id'', ''rss_feed_tags'', [''tag_id''], None)]"

definition dated_indexes :: "(string \<times> string \<times> string list \<times> string option) list" where
  "dated_indexes =
     [(''idx_rss_sources_published_at'', ''rss_sources'', [''published_at''], None),
      (''idx_rss_source_feeds_source_id_published_at'', ''rss_source_feeds'', [''source_id'', ''published_at''], None),
      (''idx_rss_source_feeds_feed_id'', ''rss_source_feeds'', [''feed_id''], None),
      (''idx_rss_source_feeds_published_at'', ''rss_source_feeds'', [''published_at''], None)]"

definition dated_tables_with :: "server_default \<Rightarrow> server_default \<Rightarrow> (string \<times> table_def) list" where
  "dated_tables_with published link_published =
     [(''rss_sources'', (dated_source_table [] published)\<lparr>td_partitions := [''rss_sources_default'']\<rparr>),
      (''rss_source_feeds'', (dated_link_table [] link_published)\<lparr>td_partitions := [''rss_source_feeds_default'']\<rparr>)]"

definition scraping_indexes :: "(string \<times> string \<times> string list \<times> string option) list" where
  "scraping_indexes = [(''idx_feeds_scraping_fetchprotection'', ''feeds_scraping'', [''fetchprotection''], None)]"

definition feed_table_3 :: table_def where
  "feed_table_3 = feed_table
     \<lparr>td_columns := filter (\<lambda>(n, _). n \<noteq> ''fetchprotection'' \<and> n \<noteq> ''last_update'') (td_columns feed_table),
      td_constraints := tl (td_constraints feed_table)\<rparr>"

definition flat_tables_4 :: "(string \<times> table_def) list" where
  "flat_tables_4 =
     [(''rss_sources'', flat_source_table\<lparr>td_constraints :=
         [(Some ''rss_sources_pkey'', PrimaryKey [''id'']),
          (Some ''uq_rss_sources_url_published_at'', Unique [''url'', ''published_at''])]\<rparr>),
      (''rss_source_feeds'', flat_link_table\<lparr>td_constraints :=
         [(Some ''fk_rss_source_feeds_source'', ForeignKey [''source_id''] ''rss_sources'' [''id''] Cascade Cascade),
          (Some ''fk_rss_source_feeds_feed'', ForeignKey [''feed_id''] ''rss_feeds'' [''id''] Cascade NoAction),
          (Some ''rss_source_feeds_pkey'', PrimaryKey [''source_id'', ''feed_id''])]\<rparr>)]"

definition recheck :: "string \<Rightarrow> table_def \<Rightarrow> table_def" where
  "recheck name d = d\<lparr>td_constraints := filter (\<lambda>(m, _). m \<noteq> Some name) (td_constraints d) @ [(Some name, protection_check 2)]\<rparr>"

definition owned_sequence :: "(string \<times> string option) list" where
  "owned_sequence = [(''rss_sources_id_seq'', Some ''rss_sources'')]"

definition schema_1 :: schema where
  "schema_1 =
     \<lparr>ss_tables = [(''rss_company'', company_table), (''rss_feeds'', feed_table), (''rss_tags'', tag_table),
        (''rss_feed_tags'', feed_tag_table)] @ dated_tables_with (Expr ''now()'') NoDefault,
      ss_indexes = initial_indexes @ [(''idx_rss_feeds_fetchprotection'', ''rss_feeds'', [''fetchprotection''], None)] @
        link_tables_indexes @ dated_indexes,
      ss_sequences = owned_sequence\<rparr>"

definition schema_2 :: schema where
  "schema_2 = schema_1\<lparr>ss_tables := [(''rss_company'', company_table),
     (''rss_feeds'', feed_table\<lparr>td_columns := td_columns feed_table @ [(''etag'', optional (T_String 255))]\<rparr>),
     (''rss_tags'', tag_table), (''rss_feed_tags'', feed_tag_table)] @ dated_tables_with (Expr ''now()'') NoDefault\<rparr>"

definition schema_3 :: schema where
  "schema_3 =
     \<lparr>ss_tables = [(''rss_company'', company_table), (''rss_feeds'', feed_table_3), (''rss_tags'', tag_table),
        (''rss_feed_tags'', feed_tag_table)] @ dated_tables_with (Expr ''now()'') NoDefault @ [(''feeds_scraping'', scraping_table)],
      ss_indexes = initial_indexes @ link_tables_indexes @ dated_indexes @ scraping_indexes,
      ss_sequences = owned_sequence\<rparr>"

definition schema_4 :: schema where
  "schema_4 =
     \<lparr>ss_tables = [(''rss_company'', company_table), (''rss_feeds'', feed_table_3), (''rss_tags'', tag_table),
        (''rss_feed_tags'', feed_tag_table), (''feeds_scraping'', scraping_table)] @ flat_tables_4,
      ss_indexes = initial_indexes @ link_tables_indexes @ scraping_indexes @
        [(''idx_rss_sources_published_at'', ''rss_sources'', [''published_at''], None),
         (''idx_rss_source_feeds_feed_id'', ''rss_source_feeds'', [''feed_id''], None)],
      ss_sequences = owned_sequence\<rparr>"

definition schema_5 :: schema where
  "schema_5 =
     \<lparr>ss_tables = [(''rss_company'', company_table), (''rss_feeds'', feed_table_3), (''rss_tags'', tag_table),
        (''rss_feed_tags'', feed_tag_table), (''feeds_scraping'', scraping_table)] @ dated_tables_with epoch_default epoch_default,
      ss_indexes = initial_indexes @ link_tables_indexes @ scraping_indexes @ dated_indexes,
      ss_sequences = owned_sequence\<rparr>"

definition schema_6 :: schema where
  "schema_6 =
     \<lparr>ss_tables = [(''rss_company'', recheck ''ck_rss_company_fetchprotection'' company_table), (''rss_feeds'', feed_table_3),
        (''rss_tags'', tag_table), (''rss_feed_tags'', feed_tag_table),
        (''feeds_scraping'', recheck ''ck_feeds_scraping_fetchprotection'' scraping_table)] @
        dated_tables_with epoch_default epoch_default @
        [(''rss_scrape_jobs'', job_table), (''rss_scrape_job_feeds'', job_feed_table), (''rss_scrape_job_results'', job_result_table)],
      ss_indexes = initial_indexes @ link_tables_indexes @ scraping_indexes @ dated_indexes @
        [(''idx_rss_scrape_jobs_requested_at'', ''rss_scrape_jobs'', [''requested_at''], None),
         (''idx_rss_scrape_job_feeds_feed_id'', ''rss_scrape_job_feeds'', [''feed_id''], None)],
      ss_sequences = owned_sequence\<rparr>"

lemma upgrade_1: "run_script upgrade_script_0001 empty_schema = Some schema_1" by code_simp
lemma upgrade_2: "run_script upgrade_script_0002 schema_1 = Some schema_2" by code_simp
lemma upgrade_3: "run_script upgrade_script_0003 schema_2 = Some schema_3" by code_simp
lemma upgrade_4: "run_script upgrade_script_0004 schema_3 = Some schema_4" by code_simp
lemma upgrade_5: "run_script upgrade_script_0005 schema_4 = Some schema_5" by code_simp
lemma upgrade_6: "run_script upgrade_script_0006 schema_5 = Some schema_6" by code_simp

text \<open>A script that leads from one schema to another, up to the order in which its parts were made.\<close>

definition leads_to :: "ddl list \<Rightarrow> schema \<Rightarrow> schema \<Rightarrow> bool" where
  "leads_to script s t = (case run_script script s of None \<Rightarrow> False | Some u \<Rightarrow> same_schema u t)"

lemma downgrade_1: "leads_to downgrade_script_0001 schema_1 empty_schema" by code_simp
lemma downgrade_2: "leads_to downgrade_script_0002 schema_2 schema_1" by code_simp
lemma downgrade_3: "leads_to downgrade_script_0003 schema_3 schema_2" by code_simp
lemma downgrade_4: "leads_to downgrade_script_0004 schema_4 schema_3" by code_simp
lemma downgrade_5: "leads_to downgrade_script_0005 schema_5 schema_4" by code_simp
lemma downgrade_6: "leads_to downgrade_script_0006 schema_6 schema_5" by code_simp

lemma schema_6_declared: "schema_as_declared schema_6 declared_tables" by code_simp

lemma downgrades_6_and_5: "leads_to (downgrade_script_0006 @ downgrade_script_0005) schema_6 schema_4" by code_simp

section \<open>The properties\<close>

lemmas scripts_in_order = upgrade_1 upgrade_2 upgrade_3 upgrade_4 upgrade_5 upgrade_6

lemma upgraded:
  "upgrade_schema 0 = Some empty_schema" "upgrade_schema 1 = Some schema_1" "upgrade_schema 2 = Some schema_2"
  "upgrade_schema 3 = Some schema_3" "upgrade_schema 4 = Some schema_4" "upgrade_schema 5 = Some schema_5"
  "upgrade_schema 6 = Some schema_6"
  by (simp_all add: upgrade_schema_def revisions_def run_script_append scripts_in_order take_Cons')

text \<open>Upgrading by one revision and downgrading again is possible and leads back.\<close>

definition reverts :: "nat \<Rightarrow> bool" where
  "reverts k = (case (upgrade_schema k, upgrade_schema (k + 1)) of
     (Some s, Some t) \<Rightarrow> leads_to (rv_downgrade (revisions ! k)) t s | _ \<Rightarrow> False)"

lemma every_revision_reverts: "list_all reverts [0, 1, 2, 3, 4, 5]"
  by (simp add: reverts_def upgraded [simplified] revisions_def numeral_2_eq_2 [symmetric]
      downgrade_1 downgrade_2 downgrade_3 downgrade_4 downgrade_5 downgrade_6)

text \<open>
  C39: the migrations and the models agree.  On an empty database the six revisions run without an error, and the tables,
  columns, types, defaults, keys, references, checks, partition keys and indexes they leave are exactly those the classes
  of the backend declare; beside them there are the sequence of the articles and the two default partitions.
\<close>

theorem migrated_schema_is_declared:
  "\<exists>s. upgrade_schema (length revisions) = Some s \<and> schema_as_declared s declared_tables \<and>
     ss_sequences s = [(''rss_sources_id_seq'', Some ''rss_sources'')] \<and>
     partition_names s = [''rss_sources_default'', ''rss_source_feeds_default'']"
proof -
  have "length revisions = 6" by (simp add: revisions_def)
  moreover have "partition_names schema_6 = [''rss_sources_default'', ''rss_source_feeds_default'']" by code_simp
  moreover have "ss_sequences schema_6 = [(''rss_sources_id_seq'', Some ''rss_sources'')]"
    by (simp add: schema_6_def owned_sequence_def)
  ultimately show ?thesis using upgraded schema_6_declared by simp
qed

text \<open>The names of the weekly partitions of the maintenance, and of the default ones.\<close>

definition maintenance_name :: "string \<Rightarrow> bool" where
  "maintenance_name n \<longleftrightarrow> starts_with ''rss_sources_w_'' n \<or> starts_with ''rss_source_feeds_w_'' n \<or>
     n = ''rss_sources_default'' \<or> n = ''rss_source_feeds_default''"

lemma weekly_names: "maintenance_name (source_partition_name w)" "maintenance_name (link_partition_name w)"
  by (simp_all add: maintenance_name_def source_partition_name_def link_partition_name_def starts_with_def)

definition last_downgrades :: "ddl list" where
  "last_downgrades = rv_downgrade (revisions ! 5) @ rv_downgrade (revisions ! 4)"

lemma last_downgrades: "leads_to last_downgrades schema_6 schema_4"
  using downgrades_6_and_5 by (simp add: last_downgrades_def revisions_def)

lemma last_downgrades_spare:
  "list_all spares_partitions last_downgrades \<and> list_all (\<lambda>n. \<not> maintenance_name n) (concat (map names_in last_downgrades))"
  by code_simp

text \<open>
  C40: every downgrade undoes its upgrade, up to the order in which parts were made, and what the maintenance does between
  them does not stand in the way: from the last schema with any weekly partitions, the two last downgrades run without
  an error and lead to the schema without partitions that the fourth revision has made.
\<close>

theorem downgrades_undo_upgrades:
  assumes "hide_partitions s = hide_partitions schema_6" and "partitioned_only s"
    and "\<forall>n\<in>set (partition_names s). maintenance_name n"
  shows "list_all reverts [0, 1, 2, 3, 4, 5] \<and>
    (\<exists>t fourth. run_script last_downgrades s = Some t \<and> upgrade_schema 4 = Some fourth \<and> same_schema t fourth)"
proof -
  have avoid: "set (concat (map names_in last_downgrades)) \<inter> set (partition_names u) = {}"
    if "\<forall>n\<in>set (partition_names u). maintenance_name n" for u
    using last_downgrades_spare that unfolding list_all_iff by blast
  have "partition_names schema_6 = [''rss_sources_default'', ''rss_source_feeds_default'']" by code_simp
  then have defaults: "\<forall>n\<in>set (partition_names schema_6). maintenance_name n" by (simp add: maintenance_name_def)
  obtain u where u: "run_script last_downgrades schema_6 = Some u" "same_schema u schema_4"
    using last_downgrades by (auto simp: leads_to_def split: option.splits)
  have "map_option hide_partitions (run_script last_downgrades s) = Some (hide_partitions u)"
    using script_hide [OF _ avoid [OF assms(3)]] script_hide [OF _ avoid [OF defaults]] last_downgrades_spare u(1) assms(1)
    by simp
  then obtain t where t: "run_script last_downgrades s = Some t" "hide_partitions t = hide_partitions u" by auto
  have flat: "\<forall>x\<in>set (ss_tables u). td_partition_by (snd x) = None"
    by (rule same_schema_unpartitioned [OF u(2)]) code_simp
  have "partitioned_only schema_6" by code_simp
  then have "partitioned_only t" "partitioned_only u"
    using script_partitioned_only [OF t(1)] script_partitioned_only [OF u(1)] last_downgrades_spare assms(2) by simp_all
  then have "t = u" using unpartitioned_alike [OF t(2) flat] by simp
  then show ?thesis using t(1) u(2) upgraded every_revision_reverts by simp
qed

text \<open>A database in which the maintenance has made two weekly partitions.\<close>

definition maintained_schema :: schema where
  "maintained_schema =
     update_table ''rss_sources'' (\<lambda>d. d\<lparr>td_partitions := td_partitions d @ [''rss_sources_w_20260105'']\<rparr>)
       (update_table ''rss_source_feeds'' (\<lambda>d. d\<lparr>td_partitions := td_partitions d @ [''rss_source_feeds_w_20260105'']\<rparr>) schema_6)"

theorem downgrades_undo_upgrades_witness:
  "\<exists>t. run_script last_downgrades maintained_schema = Some t \<and> same_schema t schema_4"
proof -
  have "hide_partitions maintained_schema = hide_partitions schema_6" by code_simp
  moreover have "partitioned_only maintained_schema" by code_simp
  moreover have "list_all maintenance_name (partition_names maintained_schema)" by code_simp
  ultimately show ?thesis
    using downgrades_undo_upgrades [of maintained_schema] upgraded by (simp add: list_all_iff)
qed

end
