(* ===== verification/Spec2Isabelle.thy ===== *)
theory Spec2Isabelle
  imports Table_Types Job_Properties Worker_Auth Job_Lock Git_Properties Partition_Properties Admin_Properties
    Source_Read_Properties Migration_Properties Service_Properties Api_Edge Image_Tags
    Schema_Properties
begin

text \<open>
  Manifeed collects news articles from RSS feeds.  This development models its three Python services and proves what
  makes them correct, each by itself and together.

  The program.  The backend (\<^verbatim>\<open>src/backend\<close>) is an HTTP API over a PostgreSQL database: it synchronises the feeds
  with a git repository of catalog files, creates scrape jobs and puts their feeds, in batches, on a Redis stream, and
  serves feeds, articles and jobs.  The worker (\<^verbatim>\<open>src/worker-rss-scrapper\<close>) reads the requests, fetches the feeds under
  a rate limit for each company, parses and cleans their entries, publishes one result for a feed on one of three
  streams, and acknowledges a request when all of its feeds are published.  The db-manager (\<^verbatim>\<open>src/db-manager\<close>) migrates
  the database, reads the results, stores each in a transaction and acknowledges it after the commit.  The services
  share the database and the streams and nothing else.  The theorem below follows a job through all three.

  How the model is made.  Each function of the code is a definition with its name; data are records and datatypes; an
  exception is the left value of a sum; a statement of SQL maps the database to a result and a database; asynchronous
  code is a step relation whose steps are the parts between two suspensions.  What the program does not decide is a
  parameter: the server's replies, the outcome of a commit, the clock, git and the file system, and the libraries for
  HTTP, XML, JWT and JSON.  Every property holds for all their values.

  Shared theories.
    \<^item> \<open>Prelude\<close>: exceptions as values, sequencing, list facts.
    \<^item> \<open>Contracts\<close>: locales for the loops that recur, each interpreted on the code's loops: keeping the first of
      every key (\<open>seen_set_loop\<close>, \<open>pure_seen_set_loop\<close>: articles, tags, lists of names), a bounded number of attempts
      (\<open>bounded_retry\<close>: HTTP, Redis, migrations), grouping by key (\<open>key_grouping\<close>: companies), and a ledger whose first
      entry stays (\<open>first_write_ledger\<close>: results).
    \<^item> \<open>Py_Text\<close>, \<open>Py_Datetime\<close>, \<open>Py_Calendar\<close>: Python's strings, dates and calendar as far as the code uses them; the
      locale \<open>utc_normalizer\<close> is the contract of the modules' copies of the UTC normalisation.
    \<^item> \<open>Messages\<close>: the pydantic schemas of all services (\<^verbatim>\<open>schemas\<close>).
    \<^item> \<open>Database\<close>: the tables of \<^verbatim>\<open>backend/app/models\<close>, their keys, references and checks, statements and transactions;
      \<open>Table_Types\<close>: their column types, and that the services write only rows of these types.

  The worker.
    \<^item> \<open>Feed_Parse\<close>: \<^verbatim>\<open>domain/rss_parse_domain.py\<close>.  Entries are clean, the image is the largest candidate.
      \<open>Image_Tags\<close>: HTML written from image tags and texts, and that the images read from it are those written.
    \<^item> \<open>Feed_Normalize\<close>: \<^verbatim>\<open>domain/rss_normalize_domain.py\<close>.  What is kept is valid, without repetition, from 2026 on.
    \<^item> \<open>Feed_Fetch\<close>: \<^verbatim>\<open>clients/networking/rss_fetch_networking_client.py\<close>.  At most three attempts with growing pauses, every
      response classified, and the one way to raise.
    \<^item> \<open>Rate_Limiter\<close>: \<^verbatim>\<open>CompanyRateLimiter\<close> over asyncio's semaphore.  The rate, fairness and progress.
    \<^item> \<open>Company_Grouping\<close>, \<open>Scrape_Worker\<close>: the rest of \<^verbatim>\<open>services/scrape_job_service.py\<close> as a state machine.  An
      acknowledged request is fully published, and every request can be completed unless a task raises.
    \<^item> \<open>Worker_Auth\<close>: \<^verbatim>\<open>services/worker_auth_service.py\<close> and \<^verbatim>\<open>clients/api\<close>, with the issuer
      \<^verbatim>\<open>backend/app/services/internal/worker_auth_service.py\<close>.  The life of a token.
    \<^item> \<open>Redis_Client\<close>: the \<^verbatim>\<open>redis_queue_client.py\<close> of all services.  Two attempts, reconnection, decoding.

  The db-manager.
    \<^item> \<open>Result_Store\<close>, \<open>Result_Facts\<close>: \<^verbatim>\<open>clients/database\<close>, \<^verbatim>\<open>domain\<close> and \<^verbatim>\<open>services/result_persistence_service.py\<close>,
      statement by statement, and what the statements keep.
    \<^item> \<open>Result_Consumer\<close>: \<^verbatim>\<open>services/result_consumer_service.py\<close> for one message and one batch.  The constraints are
      kept, the first result wins, redelivery is harmless, status and error counters follow the results, and an
      acknowledgement follows its commit.
    \<^item> \<open>Migrations\<close>, \<open>Migration_Properties\<close>: the revisions of \<^verbatim>\<open>alembic/versions\<close> on the rows, and
      \<^verbatim>\<open>services/migration_service.py\<close>.  Round trips, and the data that block an upgrade.
    \<^item> \<open>Schema\<close>, \<open>Schema_Migrations\<close>: the schema as a value, the statements of the revisions on it, and the tables that the
      classes of \<^verbatim>\<open>backend/app/models\<close> declare; \<open>Schema_Partitions\<close>: scripts run alike with any weekly partitions.
      \<open>Schema_Properties\<close>: the migrated schema is the declared one, and each downgrade undoes its upgrade.

  The backend.
    \<^item> \<open>Job_Enqueue\<close>, \<open>Feed_Batches\<close>, \<open>Job_Properties\<close>: \<^verbatim>\<open>services/rss/rss_scrape_job_service.py\<close> and
      \<^verbatim>\<open>rss_scrape_job_database_client.py\<close>.  The feeds of a job, their fair order, their batches, what a failed
      publication leaves, and what the readers report.
    \<^item> \<open>Catalog_Normalize\<close>, \<open>Catalog_Session\<close>, \<open>Catalog_Sync\<close>: \<^verbatim>\<open>services/rss/rss_sync_service.py\<close> over the SQLAlchemy
      session with its delayed writes.  \<open>Catalog_Facts\<close>, \<open>Catalog_View\<close>, \<open>Catalog_Steps\<close>, \<open>Catalog_Inserts\<close> and
      \<open>Catalog_Correct\<close> relate each operation to the abstract catalog (\<open>catalog_view\<close>), with the locale \<open>db_table\<close> for
      the tables; \<open>Catalog_Properties\<close> has the refinement for one file and what the order of files can lose.
    \<^item> \<open>Catalog_Git\<close>, \<open>Git_Properties\<close>: \<^verbatim>\<open>utils/git_repository_utils.py\<close> and the whole synchronisation with its route.
    \<^item> \<open>Job_Lock\<close>: \<^verbatim>\<open>utils/job_lock.py\<close> as a step relation of several processes, whose connections may fail at any call.  Mutual
      exclusion, who holds the local lock, and where the lock has gaps.
    \<^item> \<open>Source_Partitions\<close>: the weekly partitions of the articles and \<^verbatim>\<open>manage_source_partitions_db_cli.py\<close>;
      \<open>Partition_Facts\<close> (locale \<open>weekly_table\<close>, for both tables), \<open>Partition_Steps\<close> and \<open>Partition_Properties\<close> show that
      the maintenance refines the identity on the stored rows.
    \<^item> \<open>Feed_Admin\<close>, \<open>Admin_Properties\<close>: reads and toggles, icons, the errors and their answers.
    \<^item> \<open>Source_Reads\<close>, \<open>Source_Read_Properties\<close>: the listings of articles, equal to the pages of a reference listing.
    \<^item> \<open>Api_Edge\<close>: allowed origins, the remaining routes, health, \<^verbatim>\<open>domain/rss/rss_feed_validation.py\<close>.

  Together.  \<open>Pipeline\<close> and this theory: a job from its request to its completion.  \<open>Service_Loops\<close> and
  \<open>Service_Properties\<close>: the endless loops of the db-manager and the worker over any number of turns.

  Bounds.  No definition has fuel: every loop is structural or has its termination proof, its measure being the
  attempts left (\<open>REDIS_COMMAND_MAX_ATTEMPTS\<close> is 2, \<open>DEFAULT_MIGRATION_MAX_ATTEMPTS\<close> is 5, those of a fetch are
  \<open>DEFAULT_MAX_ATTEMPTS\<close>, 3) or the input left.  The endless loops are taken over lists of turns of any length, and as the
  reachable states of a relation; what is proved of them holds for every length.

  Assumptions.  Strings have code points below 256, where Python's character classes are those written out.  The
  session's time zone is UTC.  A transaction runs alone; only the lock and the rate limiter interleave within a service.
  The path of the catalog repository is absolute.  A timestamp of a token is exact.  The hypotheses of a property are in
  its statement, and its witness meets them.

  Not modelled.  Alembic with its \<^verbatim>\<open>env.py\<close>, which only passes the address of the database on, and the names the
  server chooses for unnamed constraints.  Logging, engines, session factories, the FastAPI application with its middleware and routers, and the re-exports
  of \<^verbatim>\<open>__init__.py\<close>: they have no logic of their own.  The db-manager's and the backend's copies of the Redis client's
  connection handling are those of the worker and share its definitions.  Isolation of concurrent transactions.  The
  administration frontend, which is not Python.
\<close>

section \<open>From the request of a job to its completion\<close>

text \<open>
  C1: the pipeline of a scrape job.  A job is enqueued on a sound database, any number of workers run, together, all
  the requests it published (each is acknowledged), and of everything they put into the result streams for this job,
  some delivery is committed by the db-manager, in whatever order, however often, and with whatever other deliveries
  between them.  Then whatever a worker published passes the validation of the db-manager; every selected feed has
  exactly one entry in the ledger of the job, that of a delivery made; and the job is \<^verbatim>\<open>completed\<close>, or
  \<^verbatim>\<open>completed_with_errors\<close> exactly when an entry of the job is an error.
\<close>

theorem scrape_job_runs_to_completion:
  assumes enqueued: "enqueue_rss_scrape_job netloc_ok env ingest requested_by feed_ids enabled_only backend = (Inr answer, backend')"
      "db_ok (bs_db backend)" "length (ee_job_id env) = 36"
    and feeds: "list_rss_feed_scrape_payloads netloc_ok feed_ids enabled_only (bs_db backend) = Inr feeds" "feeds \<noteq> []"
    and workers: "\<forall>s\<in>set workers. worker_reach n s"
    and acknowledged: "\<forall>request\<in>set (drop (length (bs_requests backend)) (bs_requests backend')).
      \<exists>s\<in>set workers. \<exists>run\<in>set (ws_runs s). run_request run = request \<and> run_closed run"
    and committed: "\<forall>s\<in>set workers. \<forall>(_, stream, r)\<in>set (ws_log s).
      res_job_id r = ee_job_id env \<longrightarrow> committed_once (bs_db backend') ps stream r"
  shows "(\<forall>s\<in>set workers. \<forall>(_, _, r)\<in>set (ws_log s). validate_result (Some r) = Inr r) \<and>
    (\<forall>f\<in>set feeds. \<exists>row. ledger (deliver_all ps (bs_db backend')) (ee_job_id env, jf_feed_id f) = Some row \<and>
       filter (\<lambda>r. result_key r = (ee_job_id env, jf_feed_id f)) (db_results (deliver_all ps (bs_db backend'))) = [row] \<and>
       (\<exists>p\<in>set ps. delivery_key p = (ee_job_id env, jf_feed_id f) \<and> delivery_entry p = Some row)) \<and>
    (\<exists>job. row_with jb_job_id (ee_job_id env) (db_jobs (deliver_all ps (bs_db backend'))) = Some job \<and>
       jb_status job = (if \<exists>r\<in>set (db_results (deliver_all ps (bs_db backend'))). rr_job_id r = ee_job_id env \<and> rr_status r = ''error''
         then ''completed_with_errors'' else ''completed''))"
proof -
  let ?j = "ee_job_id env" and ?db = "deliver_all ps (bs_db backend')"
  have created: "job_created ?j ''queued'' feeds (bs_db backend) (bs_db backend')"
    and requests: "drop (length (bs_requests backend)) (bs_requests backend') = job_requests env ingest requested_by feeds"
    using queued_job_facts [OF enqueued(1) feeds] enqueued(3) by simp_all
  have fits: "length ?j \<le> 36" using enqueued(3) by simp
  note facts = created_job_facts [OF created enqueued(2) fits]
  have job: "?j \<in> keys_of jb_job_id (db_jobs (bs_db backend'))"
    using facts(4) by (force simp: job_counts_def keys_of_def)
  have published: "\<exists>s\<in>set workers. \<exists>t stream r. (t, stream, r) \<in> set (ws_log s) \<and> res_job_id r = ?j \<and> res_feed_id r = jf_feed_id f"
    if "f \<in> set feeds" for f
    using requested_feed_published [OF _ _ that] workers acknowledged unfolding requests by blast
  have recorded: "\<exists>row. ledger ?db (?j, jf_feed_id f) = Some row" if "f \<in> set feeds" for f
  proof -
    note f = that
    obtain s t stream r where r: "s \<in> set workers" "(t, stream, r) \<in> set (ws_log s)" "res_job_id r = ?j" "res_feed_id r = jf_feed_id f"
      using published [OF f] by blast
    then have "committed_once (bs_db backend') ps stream r" using committed by fastforce
    then show ?thesis
      using recorded_after_delivery [OF facts(1,2)] job r(3,4) unfolding committed_once_def by (metis order_refl)
  qed
  have "distinct (map jf_feed_id feeds)" using payloads_distinct [OF feeds(1) enqueued(2)] .
  then have status: "\<exists>job. row_with jb_job_id ?j (db_jobs ?db) = Some job \<and>
      jb_status job = (if 0 < error_count ?j ?db then ''completed_with_errors'' else ''completed'')"
    using pipeline_completes [OF created enqueued(2) fits feeds(2) _ recorded] by simp
  have valid: "\<forall>s\<in>set workers. \<forall>(_, _, r)\<in>set (ws_log s). validate_result (Some r) = Inr r"
    using workers logged_results_valid by fast
  have one: "\<exists>row. ledger ?db (?j, jf_feed_id f) = Some row \<and>
      filter (\<lambda>r. result_key r = (?j, jf_feed_id f)) (db_results ?db) = [row] \<and>
      (\<exists>p\<in>set ps. delivery_key p = (?j, jf_feed_id f) \<and> delivery_entry p = Some row)" if "f \<in> set feeds" for f
    using new_entry_unique [OF facts(1-3)] recorded [OF that] by blast
  show ?thesis using valid one status error_count_positive [of ?j ?db] by simp
qed

theorem scrape_job_runs_to_completion_witness:
  "\<exists>job. row_with jb_job_id (replicate 36 CHR ''a'') (db_jobs (deliver_all [(5, traced_result, ''error'')] traced_enqueued)) = Some job \<and>
    jb_status job \<in> {''completed'', ''completed_with_errors''}"
proof -
  have requests: "drop (length (bs_requests traced_backend)) (bs_requests \<lparr>bs_db = traced_enqueued, bs_requests = [traced_request]\<rparr>) =
      [traced_request]"
    by (simp add: traced_backend_def)
  have runs: "\<exists>run\<in>set (ws_runs traced_worker). run_request run = traced_request \<and> run_closed run"
    by (simp add: traced_worker_eq(2) traced_runs_def)
  have kind: "stream_kind ''error_feeds_parsing'' = ''error''" by (simp add: stream_kind_def resolve_queue_kind_def)
  have "committed_once traced_enqueued [(5, traced_result, ''error'')] ''error_feeds_parsing'' traced_result"
    unfolding committed_once_def kind
    by (rule exI [of _ "[]"], rule exI [of _ 5], rule exI [of _ "[]"], rule exI [of _ True])
      (simp add: deliver_all_def traced_commit)
  then show ?thesis
    using scrape_job_runs_to_completion [OF traced_enqueue, of "[traced_feed]" "[traced_worker]" 1 "[(5, traced_result, ''error'')]"]
      traced_payloads traced_db_ok traced_worker_reach runs
    unfolding requests
    by (auto simp: traced_worker_eq(1) traced_backend_def traced_env_def split: if_splits)
qed

end
